(* ===== verification/Prelude.thy ===== *)
theory Prelude
  imports Main "HOL-Library.Word" "HOL-Library.Monad_Syntax"
begin

text \<open>
  Shared vocabulary of the development: names for the C integer types, byte strings and
  NUL-terminated buffers, and the list lemmas (search, removal, updates at one place) that
  the components use.

  A C \<open>long\<close> (the ASN.1 runtime's native integer) is an \<open>int\<close>; storing it into a
  \<open>uint16_t\<close> is \<open>word_of_int\<close>, which keeps the low 16 bits as the C conversion does.
  A handler that can abort the process (\<open>OSMO_ASSERT\<close>, a NULL dereference, \<open>exit\<close>)
  returns an option, and \<open>None\<close> is the abort.
\<close>

unbundle bit_operations_syntax

type_synonym u8 = "8 word"
type_synonym u16 = "16 word"
type_synonym u32 = "32 word"
type_synonym bytes = "u8 list"

named_theorems remsim_wf "introduction rules and simplifications for well-formedness invariants"
named_theorems remsim_step "unfolding rules for the transition functions"

section \<open>NUL-terminated buffers\<close>

text \<open>\<open>strlen\<close>-prefix of a character array: the bytes before the first NUL.\<close>

definition cstr :: "bytes \<Rightarrow> bytes" where
  "cstr b = takeWhile (\<lambda>c. c \<noteq> 0) b"

definition nul_terminated :: "bytes \<Rightarrow> bool" where
  "nul_terminated b \<longleftrightarrow> 0 \<in> set b"

lemma cstr_append_nul [simp]: "cstr (xs @ 0 # ys) = cstr xs"
  by (induction xs) (auto simp: cstr_def)

lemma cstr_Nil [simp]: "cstr [] = []"
  by (simp add: cstr_def)

lemma cstr_idem [simp]: "cstr (cstr b) = cstr b"
  by (simp add: cstr_def)

lemma cstr_no_nul [simp]: "0 \<notin> set (cstr b)"
  using set_takeWhileD unfolding cstr_def by fastforce

lemma cstr_id: "0 \<notin> set b \<Longrightarrow> cstr b = b"
  unfolding cstr_def by (rule takeWhile_eq_all_conv [THEN iffD2]) auto

lemma length_cstr_le: "length (cstr b) \<le> length b"
  unfolding cstr_def by (rule length_takeWhile_le)

lemma length_cstr_less: "nul_terminated b \<Longrightarrow> length (cstr b) < length b"
proof (induction b)
  case Nil
  then show ?case by (simp add: nul_terminated_def)
next
  case (Cons c b)
  then show ?case by (auto simp: nul_terminated_def cstr_def)
qed

section \<open>Lists addressed by a key\<close>

lemma find_Some_iff_distinct:
  assumes "\<And>y. y \<in> set xs \<Longrightarrow> P y \<Longrightarrow> y = x"
  shows "List.find P xs = Some x \<longleftrightarrow> x \<in> set xs \<and> P x"
  using assms by (induction xs) (auto split: if_splits)

lemma find_None_iff' [simp]: "List.find P xs = None \<longleftrightarrow> (\<forall>x \<in> set xs. \<not> P x)"
  by (auto simp: find_None_iff)

lemma find_SomeD: "List.find P xs = Some x \<Longrightarrow> x \<in> set xs \<and> P x"
  by (auto simp: find_Some_iff)

lemma find_append:
  "List.find P (xs @ ys) = (case List.find P xs of None \<Rightarrow> List.find P ys | Some x \<Rightarrow> Some x)"
  by (induction xs) auto

lemma find_removeAll_other:
  "\<not> P y \<Longrightarrow> List.find P (removeAll y xs) = List.find P xs"
  by (induction xs) auto

lemma find_cong_set:
  "(\<And>x. x \<in> set xs \<Longrightarrow> P x = Q x) \<Longrightarrow> List.find P xs = List.find Q xs"
  by (induction xs) auto

lemma removeAll_id' [simp]: "x \<notin> set xs \<Longrightarrow> removeAll x xs = xs"
  by (rule removeAll_id)

lemma hd_in_set': "xs = y # ys \<Longrightarrow> y \<in> set xs"
  by simp

section \<open>Words\<close>

lemma word16_bound: "uint (w :: u16) < 65536"
  using uint_bounded [of w] by simp

lemma word16_nonneg: "0 \<le> uint (w :: u16)"
  by simp

lemma word16_of_int_eq: "0 \<le> i \<Longrightarrow> i < 65536 \<Longrightarrow> uint (word_of_int i :: u16) = i"
  by (simp add: uint_word_of_int)

lemma word16_of_int_uint [simp]: "word_of_int (uint (w :: u16)) = w"
  by simp

section \<open>State tables and error numbers\<close>

text \<open>The macro \<open>S(x)\<close> of the state tables.\<close>

definition S :: "nat \<Rightarrow> u32" where
  "S x = push_bit x 1"

lemma bit_S [simp]: "bit (S x) n \<longleftrightarrow> n = x \<and> x < 32"
  by (auto simp: S_def bit_simps)

text \<open>The permission checks of libosmocore's state machines, as its \<open>struct osmo_fsm_state\<close>
  documents them: an event (or a next state) is permitted when its bit is set in the mask.\<close>

definition fsm_documented :: "(u32 \<Rightarrow> nat \<Rightarrow> bool) \<Rightarrow> (u32 \<Rightarrow> nat \<Rightarrow> bool) \<Rightarrow> bool" where
  "fsm_documented evok stok \<longleftrightarrow> (\<forall>m n. evok m n = bit m n) \<and> (\<forall>m n. stok m n = bit m n)"

definition EPERM :: int where "EPERM = 1"
definition EIO :: int where "EIO = 5"
definition EBADF :: int where "EBADF = 9"
definition EINVAL :: int where "EINVAL = 22"

end
