(* ===== verification/Rspro_Types.thy ===== *)
theory Rspro_Types
  imports Prelude
begin

text \<open>
  The RSPRO protocol data units, as the C structures of \<^verbatim>\<open>include/osmocom/rspro\<close>: one
  record per SEQUENCE and one datatype constructor per alternative of the CHOICE
  \<open>RsproPDUchoice\<close>. A pointer to an OPTIONAL component is an \<open>option\<close>, an
  OCTET STRING its bytes, a native INTEGER or ENUMERATED a C \<open>long\<close>, i.e. an \<open>int\<close>.
  The application-side structures of \<^verbatim>\<open>src/rspro_util.h\<close> and \<^verbatim>\<open>src/slotmap.h\<close> that the
  conversions of Rspro_Util read and write are here too.
\<close>

section \<open>Enumerations\<close>

abbreviation (input) ResultCode_ok :: int where "ResultCode_ok \<equiv> 0"
abbreviation (input) ResultCode_illegalClientId :: int where "ResultCode_illegalClientId \<equiv> 1"
abbreviation (input) ResultCode_illegalBankId :: int where "ResultCode_illegalBankId \<equiv> 2"
abbreviation (input) ResultCode_illegalSlotId :: int where "ResultCode_illegalSlotId \<equiv> 3"
abbreviation (input) ResultCode_unknownSlotmap :: int where "ResultCode_unknownSlotmap \<equiv> 5"
abbreviation (input) ResultCode_identityInUse :: int where "ResultCode_identityInUse \<equiv> 6"
abbreviation (input) ResultCode_cardNotPresent :: int where "ResultCode_cardNotPresent \<equiv> 100"

abbreviation (input) ComponentType_remsimClient :: int where "ComponentType_remsimClient \<equiv> 0"
abbreviation (input) ComponentType_remsimServer :: int where "ComponentType_remsimServer \<equiv> 1"
abbreviation (input) ComponentType_remsimBankd :: int where "ComponentType_remsimBankd \<equiv> 2"

section \<open>Structures\<close>

record ComponentIdentity_t =
  ci_type :: int
  ci_name :: bytes
  ci_software :: bytes
  ci_swVersion :: bytes
  ci_hwManufacturer :: "bytes option"
  ci_hwModel :: "bytes option"
  ci_hwSerialNr :: "bytes option"
  ci_hwVersion :: "bytes option"
  ci_fwVersion :: "bytes option"

record BankSlot_t =
  bs_bankId :: int
  bs_slotNr :: int

record ClientSlot_t =
  cs_clientId :: int
  cs_slotNr :: int

record SlotPhysStatus_t =
  sps_resetActive :: int
  sps_vccPresent :: "int option"
  sps_clkActive :: "int option"
  sps_cardPresent :: "int option"

record TpduFlags_t =
  tf_tpduHeaderPresent :: int
  tf_finalPart :: int
  tf_procByteContinueTx :: int
  tf_procByteContinueRx :: int

datatype IpAddress_t = IpAddress_PR_NOTHING | ipv4 bytes | ipv6 bytes

record IpPort_t =
  ipp_ip :: IpAddress_t
  ipp_port :: int

datatype RsproPDUchoice_t =
    PR_NOTHING
  | connectBankReq ComponentIdentity_t int int
  | connectBankRes ComponentIdentity_t int
  | connectClientReq ComponentIdentity_t "ClientSlot_t option"
  | connectClientRes ComponentIdentity_t int
  | createMappingReq ClientSlot_t BankSlot_t
  | createMappingRes int
  | removeMappingReq ClientSlot_t BankSlot_t
  | removeMappingRes int
  | configClientIdReq ClientSlot_t
  | configClientIdRes int
  | configClientBankReq BankSlot_t IpPort_t
  | configClientBankRes int
  | errorInd int int int "BankSlot_t option" "ClientSlot_t option" "bytes option"
  | resetStateReq
  | resetStateRes int
  | setAtrReq ClientSlot_t bytes
  | setAtrRes int
  | tpduModemToCard ClientSlot_t BankSlot_t TpduFlags_t bytes
  | tpduCardToModem BankSlot_t ClientSlot_t TpduFlags_t bytes
  | clientSlotStatusInd ClientSlot_t BankSlot_t SlotPhysStatus_t
  | bankSlotStatusInd BankSlot_t ClientSlot_t SlotPhysStatus_t

record RsproPDU_t =
  pdu_version :: int
  pdu_tag :: int
  pdu_msg :: RsproPDUchoice_t

section \<open>Application-side structures\<close>

record bank_slot =
  bank_id :: u16
  slot_nr :: u16

record client_slot =
  client_id :: u16
  cslot_nr :: u16

definition MAX_NAME_LEN :: nat where
  "MAX_NAME_LEN = 32"

record app_comp_id =
  ac_type :: int
  ac_name :: bytes
  ac_software :: bytes
  ac_sw_version :: bytes
  ac_hw_manufacturer :: bytes
  ac_hw_model :: bytes
  ac_hw_serial_nr :: bytes
  ac_hw_version :: bytes
  ac_fw_version :: bytes

end
