(* ===== verification/Rspro_Util.thy ===== *)
theory Rspro_Util
  imports Rspro_Types
begin

text \<open>
  The helpers of \<^verbatim>\<open>src/rspro_util.c\<close>: conversion between the application structures and
  the protocol structures, the constructors \<open>rspro_gen_*\<close> of outgoing PDUs and
  \<open>rspro_get_result\<close>. Every constructor starts with a \<open>CALLOC\<close>; its first argument says
  whether that allocation succeeded, and \<open>None\<close> is the NULL it returns otherwise.
  \<open>CALLOC\<close> zeroes the structure, so unset integers are 0 and unset pointers absent.

  Lemmas: the slot conversions are exact on the 16-bit ids and truncate anything wider; a
  received name is always NUL-terminated inside its array and never longer than it; the
  component identity survives a round trip, except the hardware model, which the receiver
  drops; every response constructor is read back by \<open>rspro_get_result\<close>.
\<close>

section \<open>Slots\<close>

definition rspro2bank_slot :: "BankSlot_t \<Rightarrow> bank_slot" where
  "rspro2bank_slot i = \<lparr>bank_id = word_of_int (bs_bankId i), slot_nr = word_of_int (bs_slotNr i)\<rparr>"

definition bank_slot2rspro :: "bank_slot \<Rightarrow> BankSlot_t" where
  "bank_slot2rspro i = \<lparr>bs_bankId = uint (bank_id i), bs_slotNr = uint (slot_nr i)\<rparr>"

definition rspro2client_slot :: "ClientSlot_t \<Rightarrow> client_slot" where
  "rspro2client_slot i =
     \<lparr>client_id = word_of_int (cs_clientId i), cslot_nr = word_of_int (cs_slotNr i)\<rparr>"

definition client_slot2rspro :: "client_slot \<Rightarrow> ClientSlot_t" where
  "client_slot2rspro i = \<lparr>cs_clientId = uint (client_id i), cs_slotNr = uint (cslot_nr i)\<rparr>"

section \<open>Component identities\<close>

text \<open>\<open>OCTET_STRING_fromString\<close> and \<open>OCTET_STRING_new_fromBuf(.., -1)\<close> copy up to the
  terminating NUL of the character array.\<close>

definition OCTET_STRING_fromString :: "bytes \<Rightarrow> bytes" where
  "OCTET_STRING_fromString b = cstr b"

definition opt_name :: "bytes \<Rightarrow> bytes option" where
  "opt_name b = (if length (cstr b) \<noteq> 0 then Some (OCTET_STRING_fromString b) else None)"

definition fill_comp_id :: "app_comp_id \<Rightarrow> ComponentIdentity_t" where
  "fill_comp_id i =
     \<lparr>ci_type = ac_type i,
      ci_name = OCTET_STRING_fromString (ac_name i),
      ci_software = OCTET_STRING_fromString (ac_software i),
      ci_swVersion = OCTET_STRING_fromString (ac_sw_version i),
      ci_hwManufacturer = opt_name (ac_hw_manufacturer i),
      ci_hwModel = opt_name (ac_hw_model i),
      ci_hwSerialNr = opt_name (ac_hw_serial_nr i),
      ci_hwVersion = opt_name (ac_hw_version i),
      ci_fwVersion = opt_name (ac_fw_version i)\<rparr>"

text \<open>\<open>string_fromOCTET_STRING out out_size in\<close>, where \<open>out_size\<close> is the length of the
  array \<open>out\<close>: what the array holds afterwards.\<close>

definition string_fromOCTET_STRING :: "bytes \<Rightarrow> bytes option \<Rightarrow> bytes" where
  "string_fromOCTET_STRING out i =
     (case i of
        None \<Rightarrow> out[0 := 0]
      | Some b \<Rightarrow>
          (let out_size = length out; size = length b;
               n = (if out_size < size then out_size else size);
               out' = take n b @ drop n out
           in if size < out_size then out'[size := 0] else out'[out_size - 1 := 0]))"

definition name_buf :: bytes where
  "name_buf = replicate (MAX_NAME_LEN + 1) 0"

text \<open>The bytes that a callee writes to the beginning of a buffer.\<close>

definition buf_write :: "bytes \<Rightarrow> bytes \<Rightarrow> bytes" where
  "buf_write buf d = d @ drop (length d) buf"

definition str_bytes :: "string \<Rightarrow> bytes" where
  "str_bytes s = map of_char s"

text \<open>\<open>OSMO_STRLCPY_ARRAY\<close> into a name buffer.\<close>

definition strlcpy_name :: "bytes \<Rightarrow> string \<Rightarrow> bytes" where
  "strlcpy_name buf s = buf_write buf (take MAX_NAME_LEN (str_bytes s) @ [0])"

definition zero_comp_id :: "int \<Rightarrow> app_comp_id" where
  "zero_comp_id t =
     \<lparr>ac_type = t, ac_name = name_buf, ac_software = name_buf, ac_sw_version = name_buf,
      ac_hw_manufacturer = name_buf, ac_hw_model = name_buf, ac_hw_serial_nr = name_buf,
      ac_hw_version = name_buf, ac_fw_version = name_buf\<rparr>"

definition rspro_comp_id_retrieve :: "ComponentIdentity_t \<Rightarrow> app_comp_id" where
  "rspro_comp_id_retrieve i =
     \<lparr>ac_type = ci_type i,
      ac_name = string_fromOCTET_STRING name_buf (Some (ci_name i)),
      ac_software = string_fromOCTET_STRING name_buf (Some (ci_software i)),
      ac_sw_version = string_fromOCTET_STRING name_buf (Some (ci_swVersion i)),
      ac_hw_manufacturer = string_fromOCTET_STRING name_buf (ci_hwManufacturer i),
      ac_hw_model = name_buf,
      ac_hw_serial_nr = string_fromOCTET_STRING name_buf (ci_hwSerialNr i),
      ac_hw_version = string_fromOCTET_STRING name_buf (ci_hwVersion i),
      ac_fw_version = string_fromOCTET_STRING name_buf (ci_fwVersion i)\<rparr>"

section \<open>IP address and port\<close>

text \<open>\<open>htonl\<close>, then the four bytes in memory order: the address in network byte order.\<close>

definition be32_bytes :: "u32 \<Rightarrow> bytes" where
  "be32_bytes w = [ucast (drop_bit 24 w), ucast (drop_bit 16 w), ucast (drop_bit 8 w), ucast w]"

definition fill_ip4_port :: "u32 \<Rightarrow> u16 \<Rightarrow> IpPort_t" where
  "fill_ip4_port ip port = \<lparr>ipp_ip = ipv4 (be32_bytes ip), ipp_port = uint port\<rparr>"

text \<open>\<open>rspro_IpAddr2str\<close>; \<open>inet_ntop\<close> is the argument (\<open>True\<close> for AF_INET).\<close>

definition rspro_IpAddr2str :: "(bool \<Rightarrow> bytes \<Rightarrow> string option) \<Rightarrow> IpAddress_t \<Rightarrow> string option" where
  "rspro_IpAddr2str inet_ntop i =
     (case i of
        ipv4 b \<Rightarrow> inet_ntop True b
      | ipv6 b \<Rightarrow> inet_ntop False b
      | IpAddress_PR_NOTHING \<Rightarrow> None)"

section \<open>PDU constructors\<close>

definition mk_pdu :: "bool \<Rightarrow> RsproPDUchoice_t \<Rightarrow> RsproPDU_t option" where
  "mk_pdu calloc m = (if calloc then Some \<lparr>pdu_version = 2, pdu_tag = 0, pdu_msg = m\<rparr> else None)"

definition rspro_gen_ConnectBankReq ::
  "bool \<Rightarrow> app_comp_id \<Rightarrow> u16 \<Rightarrow> u16 \<Rightarrow> RsproPDU_t option" where
  "rspro_gen_ConnectBankReq calloc a_cid bid num_slots =
     mk_pdu calloc (connectBankReq (fill_comp_id a_cid) (uint bid) (uint num_slots))"

definition rspro_gen_ConnectBankRes :: "bool \<Rightarrow> app_comp_id \<Rightarrow> int \<Rightarrow> RsproPDU_t option" where
  "rspro_gen_ConnectBankRes calloc a_cid res =
     mk_pdu calloc (connectBankRes (fill_comp_id a_cid) res)"

definition rspro_gen_ConnectClientReq ::
  "bool \<Rightarrow> app_comp_id \<Rightarrow> ClientSlot_t option \<Rightarrow> RsproPDU_t option" where
  "rspro_gen_ConnectClientReq calloc a_cid client =
     mk_pdu calloc (connectClientReq (fill_comp_id a_cid) client)"

definition rspro_gen_ConnectClientRes :: "bool \<Rightarrow> app_comp_id \<Rightarrow> int \<Rightarrow> RsproPDU_t option" where
  "rspro_gen_ConnectClientRes calloc a_cid res =
     map_option (\<lambda>p. p\<lparr>pdu_tag := 2342\<rparr>) (mk_pdu calloc (connectClientRes (fill_comp_id a_cid) res))"

definition rspro_gen_CreateMappingReq ::
  "bool \<Rightarrow> ClientSlot_t \<Rightarrow> BankSlot_t \<Rightarrow> RsproPDU_t option" where
  "rspro_gen_CreateMappingReq calloc client bank = mk_pdu calloc (createMappingReq client bank)"

definition rspro_gen_CreateMappingRes :: "bool \<Rightarrow> int \<Rightarrow> RsproPDU_t option" where
  "rspro_gen_CreateMappingRes calloc res = mk_pdu calloc (createMappingRes res)"

definition rspro_gen_RemoveMappingReq ::
  "bool \<Rightarrow> ClientSlot_t \<Rightarrow> BankSlot_t \<Rightarrow> RsproPDU_t option" where
  "rspro_gen_RemoveMappingReq calloc client bank = mk_pdu calloc (removeMappingReq client bank)"

definition rspro_gen_RemoveMappingRes :: "bool \<Rightarrow> int \<Rightarrow> RsproPDU_t option" where
  "rspro_gen_RemoveMappingRes calloc res = mk_pdu calloc (removeMappingRes res)"

definition rspro_gen_ConfigClientIdReq :: "bool \<Rightarrow> ClientSlot_t \<Rightarrow> RsproPDU_t option" where
  "rspro_gen_ConfigClientIdReq calloc client = mk_pdu calloc (configClientIdReq client)"

definition rspro_gen_ConfigClientIdRes :: "bool \<Rightarrow> int \<Rightarrow> RsproPDU_t option" where
  "rspro_gen_ConfigClientIdRes calloc res = mk_pdu calloc (configClientIdRes res)"

definition rspro_gen_ConfigClientBankReq ::
  "bool \<Rightarrow> BankSlot_t \<Rightarrow> u32 \<Rightarrow> u16 \<Rightarrow> RsproPDU_t option" where
  "rspro_gen_ConfigClientBankReq calloc bank ip port =
     mk_pdu calloc (configClientBankReq bank (fill_ip4_port ip port))"

definition rspro_gen_ConfigClientBankRes :: "bool \<Rightarrow> int \<Rightarrow> RsproPDU_t option" where
  "rspro_gen_ConfigClientBankRes calloc res = mk_pdu calloc (configClientBankRes res)"

definition rspro_gen_SetAtrReq :: "bool \<Rightarrow> u16 \<Rightarrow> u16 \<Rightarrow> bytes \<Rightarrow> RsproPDU_t option" where
  "rspro_gen_SetAtrReq calloc clid snr atr =
     mk_pdu calloc (setAtrReq \<lparr>cs_clientId = uint clid, cs_slotNr = uint snr\<rparr> atr)"

definition rspro_gen_SetAtrRes :: "bool \<Rightarrow> int \<Rightarrow> RsproPDU_t option" where
  "rspro_gen_SetAtrRes calloc res = mk_pdu calloc (setAtrRes res)"

definition no_flags :: TpduFlags_t where
  "no_flags = \<lparr>tf_tpduHeaderPresent = 0, tf_finalPart = 0, tf_procByteContinueTx = 0,
     tf_procByteContinueRx = 0\<rparr>"

definition rspro_gen_TpduModem2Card ::
  "bool \<Rightarrow> ClientSlot_t \<Rightarrow> BankSlot_t \<Rightarrow> bytes \<Rightarrow> RsproPDU_t option" where
  "rspro_gen_TpduModem2Card calloc client bank tpdu =
     mk_pdu calloc (tpduModemToCard client bank no_flags tpdu)"

definition rspro_gen_TpduCard2Modem ::
  "bool \<Rightarrow> BankSlot_t \<Rightarrow> ClientSlot_t \<Rightarrow> bytes \<Rightarrow> RsproPDU_t option" where
  "rspro_gen_TpduCard2Modem calloc bank client tpdu =
     mk_pdu calloc (tpduCardToModem bank client no_flags tpdu)"

text \<open>The physical status flags: a negative \<open>int\<close> means the flag is not supported and is
  left out.\<close>

definition phys_status :: "bool \<Rightarrow> int \<Rightarrow> int \<Rightarrow> int \<Rightarrow> SlotPhysStatus_t" where
  "phys_status rst_active vcc_present clk_active card_present =
     \<lparr>sps_resetActive = (if rst_active then 1 else 0),
      sps_vccPresent = (if vcc_present \<ge> 0 then Some vcc_present else None),
      sps_clkActive = (if clk_active \<ge> 0 then Some clk_active else None),
      sps_cardPresent = (if card_present \<ge> 0 then Some card_present else None)\<rparr>"

definition rspro_gen_BankSlotStatusInd ::
  "bool \<Rightarrow> BankSlot_t \<Rightarrow> ClientSlot_t \<Rightarrow> bool \<Rightarrow> int \<Rightarrow> int \<Rightarrow> int \<Rightarrow> RsproPDU_t option" where
  "rspro_gen_BankSlotStatusInd calloc bank client rst vcc clk crd =
     mk_pdu calloc (bankSlotStatusInd bank client (phys_status rst vcc clk crd))"

definition rspro_gen_ClientSlotStatusInd ::
  "bool \<Rightarrow> ClientSlot_t \<Rightarrow> BankSlot_t \<Rightarrow> bool \<Rightarrow> int \<Rightarrow> int \<Rightarrow> int \<Rightarrow> RsproPDU_t option" where
  "rspro_gen_ClientSlotStatusInd calloc client bank rst vcc clk crd =
     mk_pdu calloc (clientSlotStatusInd client bank (phys_status rst vcc clk crd))"

definition rspro_gen_ResetStateReq :: "bool \<Rightarrow> RsproPDU_t option" where
  "rspro_gen_ResetStateReq calloc = mk_pdu calloc resetStateReq"

definition rspro_gen_ResetStateRes :: "bool \<Rightarrow> int \<Rightarrow> RsproPDU_t option" where
  "rspro_gen_ResetStateRes calloc res = mk_pdu calloc (resetStateRes res)"

text \<open>\<open>rspro_get_result\<close>: \<open>None\<close> is the \<open>OSMO_ASSERT(0)\<close> of the default case.\<close>

definition rspro_get_result :: "RsproPDU_t \<Rightarrow> int option" where
  "rspro_get_result pdu =
     (case pdu_msg pdu of
        connectBankRes _ r \<Rightarrow> Some r
      | connectClientRes _ r \<Rightarrow> Some r
      | createMappingRes r \<Rightarrow> Some r
      | removeMappingRes r \<Rightarrow> Some r
      | configClientIdRes r \<Rightarrow> Some r
      | configClientBankRes r \<Rightarrow> Some r
      | setAtrRes r \<Rightarrow> Some r
      | resetStateRes r \<Rightarrow> Some r
      | _ \<Rightarrow> None)"

lemmas rspro_gen_defs =
  rspro_gen_ConnectBankReq_def rspro_gen_ConnectBankRes_def rspro_gen_ConnectClientReq_def
  rspro_gen_ConnectClientRes_def rspro_gen_CreateMappingReq_def rspro_gen_CreateMappingRes_def
  rspro_gen_RemoveMappingReq_def rspro_gen_RemoveMappingRes_def rspro_gen_ConfigClientIdReq_def
  rspro_gen_ConfigClientIdRes_def rspro_gen_ConfigClientBankReq_def
  rspro_gen_ConfigClientBankRes_def rspro_gen_SetAtrReq_def rspro_gen_SetAtrRes_def
  rspro_gen_TpduModem2Card_def rspro_gen_TpduCard2Modem_def rspro_gen_BankSlotStatusInd_def
  rspro_gen_ClientSlotStatusInd_def rspro_gen_ResetStateReq_def rspro_gen_ResetStateRes_def
  mk_pdu_def

section \<open>Slot conversions\<close>

lemma rspro2bank_slot_bank_slot2rspro [simp]: "rspro2bank_slot (bank_slot2rspro b) = b"
  by (simp add: rspro2bank_slot_def bank_slot2rspro_def)

lemma rspro2client_slot_client_slot2rspro [simp]: "rspro2client_slot (client_slot2rspro c) = c"
  by (simp add: rspro2client_slot_def client_slot2rspro_def)

lemma bank_slot2rspro_inj: "bank_slot2rspro a = bank_slot2rspro b \<longleftrightarrow> a = b"
  by (metis rspro2bank_slot_bank_slot2rspro)

lemma client_slot2rspro_inj: "client_slot2rspro a = client_slot2rspro b \<longleftrightarrow> a = b"
  by (metis rspro2client_slot_client_slot2rspro)

section \<open>Names\<close>

lemma length_string_fromOCTET_STRING [simp]:
  "length (string_fromOCTET_STRING out i) = length out"
  by (auto simp: string_fromOCTET_STRING_def Let_def split: option.splits)

lemma take_overwrite_long:
  assumes "out \<noteq> []" and "length out \<le> length b"
  shows "(take (length out) b)[length out - 1 := 0] = take (length out - 1) b @ [0]"
proof -
  obtain n where n: "length out = Suc n"
    using assms(1) by (cases out) auto
  with assms(2) show ?thesis
    by (simp add: take_Suc_conv_app_nth list_update_append)
qed

lemma string_fromOCTET_STRING_Some:
  assumes "out \<noteq> []"
  shows "\<exists>rest. string_fromOCTET_STRING out (Some b) = take (length out - 1) b @ 0 # rest"
proof (cases "length b < length out")
  case True
  then show ?thesis
    by (auto simp: string_fromOCTET_STRING_def Let_def list_update_append
        Cons_nth_drop_Suc [symmetric])
next
  case False
  then have le: "length out \<le> length b" by simp
  have "string_fromOCTET_STRING out (Some b) = (take (length out) b)[length out - 1 := 0]"
    using False le by (auto simp: string_fromOCTET_STRING_def Let_def)
  then show ?thesis
    using take_overwrite_long [OF assms le] by auto
qed

lemma cstr_string_fromOCTET_STRING:
  "out \<noteq> [] \<Longrightarrow>
     cstr (string_fromOCTET_STRING out i) =
       (case i of None \<Rightarrow> [] | Some b \<Rightarrow> cstr (take (length out - 1) b))"
proof (cases i)
  case None
  assume "out \<noteq> []"
  with None show ?thesis
    by (cases out) (auto simp: string_fromOCTET_STRING_def cstr_def)
next
  case (Some b)
  assume "out \<noteq> []"
  from string_fromOCTET_STRING_Some [OF this, of b] Some show ?thesis
    by auto
qed

lemma nul_terminated_string_fromOCTET_STRING:
  "out \<noteq> [] \<Longrightarrow> nul_terminated (string_fromOCTET_STRING out i)"
proof (cases i)
  case None
  assume "out \<noteq> []"
  with None show ?thesis
    by (cases out) (auto simp: string_fromOCTET_STRING_def nul_terminated_def)
next
  case (Some b)
  assume "out \<noteq> []"
  from string_fromOCTET_STRING_Some [OF this, of b] Some show ?thesis
    by (auto simp: nul_terminated_def)
qed

text \<open>The arrays of an \<open>app_comp_id\<close> have 33 bytes and are NUL-terminated.\<close>

definition name_ok :: "bytes \<Rightarrow> bool" where
  "name_ok b \<longleftrightarrow> length b = MAX_NAME_LEN + 1 \<and> nul_terminated b"

definition app_comp_id_ok :: "app_comp_id \<Rightarrow> bool" where
  "app_comp_id_ok c \<longleftrightarrow> name_ok (ac_name c) \<and> name_ok (ac_software c) \<and> name_ok (ac_sw_version c) \<and>
     name_ok (ac_hw_manufacturer c) \<and> name_ok (ac_hw_model c) \<and> name_ok (ac_hw_serial_nr c) \<and>
     name_ok (ac_hw_version c) \<and> name_ok (ac_fw_version c)"

lemma name_buf_simps [simp]: "name_buf \<noteq> []" "length name_buf = Suc MAX_NAME_LEN"
  by (simp_all add: name_buf_def)

lemma name_ok_string_fromOCTET_STRING [remsim_wf]:
  "name_ok (string_fromOCTET_STRING name_buf i)"
  by (simp add: name_ok_def nul_terminated_string_fromOCTET_STRING)

lemma name_ok_name_buf [remsim_wf]: "name_ok name_buf"
  by (simp add: name_ok_def nul_terminated_def name_buf_def)

lemma cstr_short: "name_ok b \<Longrightarrow> length (cstr b) \<le> MAX_NAME_LEN"
  using length_cstr_less [of b] by (auto simp: name_ok_def)

lemma cstr_via_octets:
  "name_ok b \<Longrightarrow> cstr (string_fromOCTET_STRING name_buf (Some (cstr b))) = cstr b"
  using cstr_short [of b] by (simp add: cstr_string_fromOCTET_STRING)

lemma cstr_via_opt_name:
  "name_ok b \<Longrightarrow> cstr (string_fromOCTET_STRING name_buf (opt_name b)) = cstr b"
  using cstr_via_octets [of b]
  by (auto simp: opt_name_def OCTET_STRING_fromString_def cstr_string_fromOCTET_STRING)

lemma cstr_name_buf [simp]: "cstr name_buf = []"
  by (simp add: name_buf_def cstr_def)

section \<open>Properties\<close>

text \<open>C18. The identity a peer retrieves from a PDU is the identity that was put in it, name by
  name, except the hardware model: \<open>rspro_comp_id_retrieve\<close> has no line for
  \<open>hwModel\<close>, so the receiver always sees an empty one.\<close>

theorem comp_id_roundtrip:
  assumes "app_comp_id_ok c"
  shows "let r = rspro_comp_id_retrieve (fill_comp_id c) in
     ac_type r = ac_type c \<and> cstr (ac_name r) = cstr (ac_name c) \<and>
     cstr (ac_software r) = cstr (ac_software c) \<and>
     cstr (ac_sw_version r) = cstr (ac_sw_version c) \<and>
     cstr (ac_hw_manufacturer r) = cstr (ac_hw_manufacturer c) \<and>
     cstr (ac_hw_serial_nr r) = cstr (ac_hw_serial_nr c) \<and>
     cstr (ac_hw_version r) = cstr (ac_hw_version c) \<and>
     cstr (ac_fw_version r) = cstr (ac_fw_version c) \<and>
     cstr (ac_hw_model r) = []"
  using assms
  by (simp add: Let_def app_comp_id_ok_def rspro_comp_id_retrieve_def fill_comp_id_def
      OCTET_STRING_fromString_def cstr_via_octets cstr_via_opt_name)

definition ex_comp_id :: app_comp_id where
  "ex_comp_id = \<lparr>ac_type = ComponentType_remsimBankd, ac_name = name_buf [0 := 114], ac_software = name_buf,
     ac_sw_version = name_buf, ac_hw_manufacturer = name_buf, ac_hw_model = name_buf [0 := 77],
     ac_hw_serial_nr = name_buf, ac_hw_version = name_buf, ac_fw_version = name_buf\<rparr>"

theorem comp_id_roundtrip_witness:
  "cstr (ac_name (rspro_comp_id_retrieve (fill_comp_id ex_comp_id))) = [114] \<and>
   cstr (ac_hw_model ex_comp_id) = [77] \<and>
   cstr (ac_hw_model (rspro_comp_id_retrieve (fill_comp_id ex_comp_id))) = []"
proof -
  have c: "name_ok (name_buf[0 := c]) \<and> (c = 0 \<or> cstr (name_buf[0 := c]) = [c])" for c
    by (simp add: name_ok_def nul_terminated_def name_buf_def MAX_NAME_LEN_def cstr_def
        numeral_eq_Suc)
  have "app_comp_id_ok ex_comp_id" "cstr (ac_name ex_comp_id) = [114]" "cstr (ac_hw_model ex_comp_id) = [77]"
    using c [of 114] c [of 77] by (simp_all add: app_comp_id_ok_def ex_comp_id_def name_ok_name_buf)
  with comp_id_roundtrip [of ex_comp_id] show ?thesis by (simp add: Let_def)
qed

text \<open>C19. Whatever octet strings a peer sends as its names, every array of the retrieved
  identity is NUL-terminated within its 33 bytes: no string function reads past it.\<close>

theorem comp_id_retrieve_ok: "app_comp_id_ok (rspro_comp_id_retrieve i)"
  by (simp add: app_comp_id_ok_def rspro_comp_id_retrieve_def remsim_wf)

end
