(* ===== verification/Slotmap.thy ===== *)
theory Slotmap
  imports Rspro_Types
begin

text \<open>
  The collection of slot mappings of \<^verbatim>\<open>src/slotmap.c\<close> and \<^verbatim>\<open>src/slotmap.h\<close>, used by
  remsim-server and by remsim-bankd. A mapping object lives at a pointer (a \<open>mapref\<close>) and is
  linked, by two intrusive list nodes, into the global list \<open>mappings\<close> and into at most one
  bank list; the collection is therefore a store of objects and lists of pointers. \<open>'l\<close> names
  the heads of the bank lists (none are used in bankd). \<open>llist_del\<close> of a node that
  \<open>INIT_LLIST_HEAD\<close> made self-linked leaves every list as it is, which is what
  \<open>removeAll\<close> does. The result of \<open>talloc_zero\<close> is an argument (\<open>None\<close> for NULL).
  An operation runs under the collection's rwlock, so it is one step; the comment of
  \<open>slotmap_add\<close> on its two unprotected lookups is examined in the last section.

  The interface \<open>slot_directory\<close> says what the collection promises: it is a partial
  injection from bank slots to client slots, readable in both directions. The model is
  interpreted in it at the end.
\<close>

type_synonym mapref = nat

datatype slot_mapping_state =
  SLMAP_S_NEW | SLMAP_S_UNACKNOWLEDGED | SLMAP_S_ACTIVE | SLMAP_S_DELETE_REQ | SLMAP_S_DELETING

record slot_mapping =
  sm_bank :: bank_slot
  sm_client :: client_slot
  sm_state :: slot_mapping_state

record 'l slotmaps =
  mappings :: "mapref list"
  sm_heap :: "mapref \<Rightarrow> slot_mapping option"
  bank_lists :: "'l \<Rightarrow> mapref list"

definition bank_slot_equals :: "bank_slot \<Rightarrow> bank_slot \<Rightarrow> bool" where
  "bank_slot_equals a b = (if bank_id a = bank_id b \<and> slot_nr a = slot_nr b then True else False)"

definition client_slot_equals :: "client_slot \<Rightarrow> client_slot \<Rightarrow> bool" where
  "client_slot_equals a b =
     (if client_id a = client_id b \<and> cslot_nr a = cslot_nr b then True else False)"

text \<open>The names of \<open>slot_map_state_name\<close>.\<close>

fun slotmap_state_name :: "slot_mapping_state \<Rightarrow> string" where
  "slotmap_state_name SLMAP_S_NEW = ''NEW''"
| "slotmap_state_name SLMAP_S_UNACKNOWLEDGED = ''UNACKNOWLEDGED''"
| "slotmap_state_name SLMAP_S_ACTIVE = ''ACTIVE''"
| "slotmap_state_name SLMAP_S_DELETE_REQ = ''DELETE_REQ''"
| "slotmap_state_name SLMAP_S_DELETING = ''DELETING''"

definition slotmap_get_id :: "slot_mapping \<Rightarrow> u32" where
  "slotmap_get_id m = push_bit 16 (ucast (bank_id (sm_bank m))) OR ucast (slot_nr (sm_bank m))"

section \<open>Operations\<close>

definition slotmap_init :: "'l slotmaps" where
  "slotmap_init = \<lparr>mappings = [], sm_heap = (\<lambda>_. None), bank_lists = (\<lambda>_. [])\<rparr>"

definition slotmap_by_client :: "'l slotmaps \<Rightarrow> client_slot \<Rightarrow> mapref option" where
  "slotmap_by_client maps c =
     List.find (\<lambda>p. case sm_heap maps p of
                      Some m \<Rightarrow> client_slot_equals (sm_client m) c
                    | None \<Rightarrow> False) (mappings maps)"

definition slotmap_by_bank :: "'l slotmaps \<Rightarrow> bank_slot \<Rightarrow> mapref option" where
  "slotmap_by_bank maps b =
     List.find (\<lambda>p. case sm_heap maps p of
                      Some m \<Rightarrow> bank_slot_equals (sm_bank m) b
                    | None \<Rightarrow> False) (mappings maps)"

text \<open>The part of \<open>slotmap_add\<close> under the write lock, after the lookups and the allocation.\<close>

definition slotmap_insert :: "mapref \<Rightarrow> 'l slotmaps \<Rightarrow> bank_slot \<Rightarrow> client_slot \<Rightarrow> 'l slotmaps" where
  "slotmap_insert r maps b c =
     maps\<lparr>sm_heap := (sm_heap maps)(r \<mapsto> \<lparr>sm_bank = b, sm_client = c, sm_state = SLMAP_S_NEW\<rparr>),
          mappings := mappings maps @ [r]\<rparr>"

definition slotmap_add ::
  "mapref option \<Rightarrow> 'l slotmaps \<Rightarrow> bank_slot \<Rightarrow> client_slot \<Rightarrow> mapref option \<times> 'l slotmaps" where
  "slotmap_add alloc maps b c =
     (if slotmap_by_bank maps b \<noteq> None then (None, maps)
      else if slotmap_by_client maps c \<noteq> None then (None, maps)
      else case alloc of
             None \<Rightarrow> (None, maps)
           | Some r \<Rightarrow> (Some r, slotmap_insert r maps b c))"

text \<open>\<open>_slotmap_del\<close> (and \<open>slotmap_del\<close>, the same under the write lock).\<close>

definition slotmap_del :: "'l slotmaps \<Rightarrow> mapref \<Rightarrow> 'l slotmaps" where
  "slotmap_del maps p =
     maps\<lparr>mappings := removeAll p (mappings maps),
          bank_lists := (\<lambda>l. removeAll p (bank_lists maps l)),
          sm_heap := (sm_heap maps)(p := None)\<rparr>"

text \<open>\<open>slotmap_del_all\<close>: the safe iteration fetches the next entry before it deletes one.\<close>

definition slotmap_del_all :: "'l slotmaps \<Rightarrow> 'l slotmaps" where
  "slotmap_del_all maps = foldl slotmap_del maps (mappings maps)"

text \<open>\<open>_Slotmap_state_change\<close> (and \<open>Slotmap_state_change\<close>, the same under the write lock):
  \<open>None\<close> for the NULL \<open>new_bank_list\<close>.\<close>

definition Slotmap_state_change ::
  "'l slotmaps \<Rightarrow> mapref \<Rightarrow> slot_mapping_state \<Rightarrow> 'l option \<Rightarrow> 'l slotmaps" where
  "Slotmap_state_change maps p new_state new_bank_list =
     (let maps1 = maps\<lparr>sm_heap := (sm_heap maps)(p := map_option (sm_state_update (\<lambda>_. new_state)) (sm_heap maps p))\<rparr>;
          unlinked = (\<lambda>l. removeAll p (bank_lists maps l))
      in case new_bank_list of
           None \<Rightarrow> maps1\<lparr>bank_lists := unlinked\<rparr>
         | Some l \<Rightarrow> maps1\<lparr>bank_lists := unlinked(l := unlinked l @ [p])\<rparr>)"

section \<open>Well-formedness\<close>

text \<open>The abstract content of the collection: which client slot a bank slot is mapped to.\<close>

definition slot_assoc :: "'l slotmaps \<Rightarrow> bank_slot \<rightharpoonup> client_slot" where
  "slot_assoc maps b =
     (case slotmap_by_bank maps b of None \<Rightarrow> None | Some p \<Rightarrow> map_option sm_client (sm_heap maps p))"

definition bank_lists_wf :: "'l slotmaps \<Rightarrow> bool" where
  "bank_lists_wf maps \<longleftrightarrow>
     (\<forall>l. distinct (bank_lists maps l) \<and> set (bank_lists maps l) \<subseteq> dom (sm_heap maps)) \<and>
     (\<forall>l l' p. p \<in> set (bank_lists maps l) \<longrightarrow> p \<in> set (bank_lists maps l') \<longrightarrow> l = l')"

text \<open>No two listed mappings share their bank slot or their client slot.\<close>

definition slots_unique :: "'l slotmaps \<Rightarrow> bool" where
  "slots_unique maps \<longleftrightarrow>
     (\<forall>p \<in> set (mappings maps). \<forall>q \<in> set (mappings maps). \<forall>m n.
        sm_heap maps p = Some m \<longrightarrow> sm_heap maps q = Some n \<longrightarrow>
        sm_bank m = sm_bank n \<or> sm_client m = sm_client n \<longrightarrow> p = q)"

definition slotmaps_wf :: "'l slotmaps \<Rightarrow> bool" where
  "slotmaps_wf maps \<longleftrightarrow>
     distinct (mappings maps) \<and> set (mappings maps) \<subseteq> dom (sm_heap maps) \<and>
     slots_unique maps \<and> bank_lists_wf maps"

lemma bank_slot_equals_iff [simp]: "bank_slot_equals a b \<longleftrightarrow> a = b"
  by (cases a; cases b) (auto simp: bank_slot_equals_def)

lemma client_slot_equals_iff [simp]: "client_slot_equals a b \<longleftrightarrow> a = b"
  by (cases a; cases b) (auto simp: client_slot_equals_def)

lemma slotmap_by_bank_alt:
  "slotmap_by_bank maps b = List.find (\<lambda>p. \<exists>m. sm_heap maps p = Some m \<and> sm_bank m = b) (mappings maps)"
  unfolding slotmap_by_bank_def by (rule find_cong_set) (auto split: option.split)

lemma slotmap_by_client_alt:
  "slotmap_by_client maps c =
     List.find (\<lambda>p. \<exists>m. sm_heap maps p = Some m \<and> sm_client m = c) (mappings maps)"
  unfolding slotmap_by_client_def by (rule find_cong_set) (auto split: option.split)

lemma slotmap_by_bank_SomeD:
  "slotmap_by_bank maps b = Some p \<Longrightarrow>
     p \<in> set (mappings maps) \<and> (\<exists>m. sm_heap maps p = Some m \<and> sm_bank m = b)"
  unfolding slotmap_by_bank_alt by (rule find_SomeD)

lemma slotmap_by_client_SomeD:
  "slotmap_by_client maps c = Some p \<Longrightarrow>
     p \<in> set (mappings maps) \<and> (\<exists>m. sm_heap maps p = Some m \<and> sm_client m = c)"
  unfolding slotmap_by_client_alt by (rule find_SomeD)

lemma slotmap_by_bank_None:
  "slotmap_by_bank maps b = None \<longleftrightarrow>
     (\<forall>p \<in> set (mappings maps). \<forall>m. sm_heap maps p = Some m \<longrightarrow> sm_bank m \<noteq> b)"
  by (auto simp: slotmap_by_bank_alt)

lemma slotmap_by_client_None:
  "slotmap_by_client maps c = None \<longleftrightarrow>
     (\<forall>p \<in> set (mappings maps). \<forall>m. sm_heap maps p = Some m \<longrightarrow> sm_client m \<noteq> c)"
  by (auto simp: slotmap_by_client_alt)

lemma wf_bank_unique:
  "slotmaps_wf maps \<Longrightarrow> p \<in> set (mappings maps) \<Longrightarrow> q \<in> set (mappings maps) \<Longrightarrow>
     sm_heap maps p = Some m \<Longrightarrow> sm_heap maps q = Some n \<Longrightarrow> sm_bank m = sm_bank n \<Longrightarrow> p = q"
  unfolding slotmaps_wf_def slots_unique_def by blast

lemma wf_client_unique:
  "slotmaps_wf maps \<Longrightarrow> p \<in> set (mappings maps) \<Longrightarrow> q \<in> set (mappings maps) \<Longrightarrow>
     sm_heap maps p = Some m \<Longrightarrow> sm_heap maps q = Some n \<Longrightarrow> sm_client m = sm_client n \<Longrightarrow> p = q"
  unfolding slotmaps_wf_def slots_unique_def by blast

lemma slotmap_by_bank_eq_Some:
  assumes "slotmaps_wf maps"
  shows "slotmap_by_bank maps b = Some p \<longleftrightarrow>
     p \<in> set (mappings maps) \<and> (\<exists>m. sm_heap maps p = Some m \<and> sm_bank m = b)"
    (is "?l \<longleftrightarrow> ?r")
proof
  show "?l \<Longrightarrow> ?r" by (rule slotmap_by_bank_SomeD)
next
  assume r: ?r
  then obtain q where q: "slotmap_by_bank maps b = Some q"
    by (cases "slotmap_by_bank maps b") (auto simp: slotmap_by_bank_None)
  from slotmap_by_bank_SomeD [OF q] r have "q = p"
    by (metis wf_bank_unique [OF assms])
  with q show ?l by simp
qed

lemma slotmap_by_client_eq_Some:
  assumes "slotmaps_wf maps"
  shows "slotmap_by_client maps c = Some p \<longleftrightarrow>
     p \<in> set (mappings maps) \<and> (\<exists>m. sm_heap maps p = Some m \<and> sm_client m = c)"
    (is "?l \<longleftrightarrow> ?r")
proof
  show "?l \<Longrightarrow> ?r" by (rule slotmap_by_client_SomeD)
next
  assume r: ?r
  then obtain q where q: "slotmap_by_client maps c = Some q"
    by (cases "slotmap_by_client maps c") (auto simp: slotmap_by_client_None)
  from slotmap_by_client_SomeD [OF q] r have "q = p"
    by (metis wf_client_unique [OF assms])
  with q show ?l by simp
qed

lemma slot_assoc_eq_Some:
  assumes "slotmaps_wf maps"
  shows "slot_assoc maps b = Some c \<longleftrightarrow>
     (\<exists>p m. p \<in> set (mappings maps) \<and> sm_heap maps p = Some m \<and> sm_bank m = b \<and> sm_client m = c)"
    (is "?l \<longleftrightarrow> ?r")
proof
  assume ?l
  then obtain p where p: "slotmap_by_bank maps b = Some p" "map_option sm_client (sm_heap maps p) = Some c"
    by (auto simp: slot_assoc_def split: option.splits)
  with slotmap_by_bank_SomeD [OF p(1)] show ?r by auto
next
  assume ?r
  then obtain p m where p: "p \<in> set (mappings maps)" "sm_heap maps p = Some m" "sm_bank m = b" "sm_client m = c"
    by blast
  then have "slotmap_by_bank maps b = Some p"
    using slotmap_by_bank_eq_Some [OF assms] by blast
  with p show ?l by (simp add: slot_assoc_def)
qed

lemma slot_assoc_None: "slotmaps_wf maps \<Longrightarrow> slot_assoc maps b = None \<longleftrightarrow> slotmap_by_bank maps b = None"
  by (auto simp: slot_assoc_def split: option.splits dest: slotmap_by_bank_SomeD)

lemma slotmap_by_client_None_ran:
  "slotmaps_wf maps \<Longrightarrow> slotmap_by_client maps c = None \<longleftrightarrow> c \<notin> ran (slot_assoc maps)"
  by (auto simp: ran_def slot_assoc_eq_Some slotmap_by_client_None)

lemma slotmaps_wfD:
  assumes "slotmaps_wf maps"
  shows "distinct (mappings maps)" "set (mappings maps) \<subseteq> dom (sm_heap maps)" "bank_lists_wf maps"
  using assms by (auto simp: slotmaps_wf_def)

text \<open>A pointer \<open>talloc\<close> may return: not that of a live object, and in no list.\<close>

definition fresh_ref :: "'l slotmaps \<Rightarrow> mapref \<Rightarrow> bool" where
  "fresh_ref maps r \<longleftrightarrow> sm_heap maps r = None"

lemma fresh_ref_unlinked:
  "slotmaps_wf maps \<Longrightarrow> fresh_ref maps r \<Longrightarrow> r \<notin> set (mappings maps) \<and> (\<forall>l. r \<notin> set (bank_lists maps l))"
  unfolding slotmaps_wf_def bank_lists_wf_def fresh_ref_def by blast

section \<open>Every operation keeps the collection well-formed\<close>

lemma slotmaps_wf_init [remsim_wf]: "slotmaps_wf slotmap_init"
  by (simp add: slotmaps_wf_def slots_unique_def slotmap_init_def bank_lists_wf_def)

lemma slotmaps_wf_insert:
  assumes wf: "slotmaps_wf maps" and fr: "fresh_ref maps r"
    and b: "slotmap_by_bank maps b = None" and c: "slotmap_by_client maps c = None"
  shows "slotmaps_wf (slotmap_insert r maps b c)"
proof -
  have r: "r \<notin> set (mappings maps)" "\<And>l. r \<notin> set (bank_lists maps l)"
    using fresh_ref_unlinked [OF wf fr] by auto
  have bl: "bank_lists_wf (slotmap_insert r maps b c)"
    using slotmaps_wfD(3) [OF wf] unfolding bank_lists_wf_def slotmap_insert_def by auto
  have "slots_unique (slotmap_insert r maps b c)"
    using wf r(1) b c unfolding slotmaps_wf_def slots_unique_def slotmap_by_bank_None slotmap_by_client_None
    by (auto simp: slotmap_insert_def)
  with slotmaps_wfD [OF wf] r(1) bl show ?thesis
    unfolding slotmaps_wf_def by (auto simp: slotmap_insert_def)
qed

lemma slotmaps_wf_add [remsim_wf]:
  assumes "slotmaps_wf maps" and "\<And>r. alloc = Some r \<Longrightarrow> fresh_ref maps r"
  shows "slotmaps_wf (snd (slotmap_add alloc maps b c))"
  using assms by (auto simp: slotmap_add_def slotmaps_wf_insert simp del: not_None_eq split: option.split)

lemma bank_lists_wf_del: "bank_lists_wf maps \<Longrightarrow> bank_lists_wf (slotmap_del maps p)"
  unfolding bank_lists_wf_def slotmap_del_def
  by (force simp: distinct_removeAll)

lemma slotmaps_wf_del [remsim_wf]: "slotmaps_wf maps \<Longrightarrow> slotmaps_wf (slotmap_del maps p)"
  using bank_lists_wf_del [of maps p]
  unfolding slotmaps_wf_def slots_unique_def by (auto simp: slotmap_del_def distinct_removeAll)

lemma slotmaps_wf_foldl_del: "slotmaps_wf maps \<Longrightarrow> slotmaps_wf (foldl slotmap_del maps ps)"
  by (induction ps arbitrary: maps) (auto simp: remsim_wf)

lemma slotmaps_wf_del_all [remsim_wf]: "slotmaps_wf maps \<Longrightarrow> slotmaps_wf (slotmap_del_all maps)"
  unfolding slotmap_del_all_def by (rule slotmaps_wf_foldl_del)

lemma Slotmap_state_change_fields [simp]:
  "mappings (Slotmap_state_change maps p st nl) = mappings maps"
  "sm_heap (Slotmap_state_change maps p st nl) =
     (sm_heap maps)(p := map_option (sm_state_update (\<lambda>_. st)) (sm_heap maps p))"
  "bank_lists (Slotmap_state_change maps p st nl) l =
     removeAll p (bank_lists maps l) @ (if nl = Some l then [p] else [])"
  by (auto simp: Slotmap_state_change_def Let_def split: option.split)

lemma bank_lists_wf_state_change:
  assumes "bank_lists_wf maps" and "p \<in> dom (sm_heap maps)"
  shows "bank_lists_wf (Slotmap_state_change maps p st nl)"
proof -
  have "distinct (bank_lists (Slotmap_state_change maps p st nl) l)" for l
    using assms(1) by (auto simp: bank_lists_wf_def distinct_removeAll)
  moreover have "set (bank_lists (Slotmap_state_change maps p st nl) l)
      \<subseteq> dom (sm_heap (Slotmap_state_change maps p st nl))" for l
    using assms by (auto simp: bank_lists_wf_def)
  moreover have "l = l'" if "q \<in> set (bank_lists (Slotmap_state_change maps p st nl) l)"
      "q \<in> set (bank_lists (Slotmap_state_change maps p st nl) l')" for q l l'
    using that assms(1) unfolding bank_lists_wf_def by (cases "q = p") (auto split: if_splits)
  ultimately show ?thesis
    unfolding bank_lists_wf_def by blast
qed

lemma slotmaps_wf_state_change [remsim_wf]:
  assumes "slotmaps_wf maps" and "p \<in> dom (sm_heap maps)"
  shows "slotmaps_wf (Slotmap_state_change maps p st nl)"
proof -
  have heap: "\<exists>m'. sm_heap maps q = Some m' \<and> sm_bank m' = sm_bank m \<and> sm_client m' = sm_client m"
    if "sm_heap (Slotmap_state_change maps p st nl) q = Some m" for q m
    using that by (auto split: if_splits)
  have "slots_unique (Slotmap_state_change maps p st nl)"
    unfolding slots_unique_def
  proof (intro ballI allI impI)
    fix a b m n
    assume ab: "a \<in> set (mappings (Slotmap_state_change maps p st nl))"
      "b \<in> set (mappings (Slotmap_state_change maps p st nl))"
      and m: "sm_heap (Slotmap_state_change maps p st nl) a = Some m"
      and n: "sm_heap (Slotmap_state_change maps p st nl) b = Some n"
      and eq: "sm_bank m = sm_bank n \<or> sm_client m = sm_client n"
    from heap [OF m] heap [OF n] ab eq assms(1) show "a = b"
      unfolding slotmaps_wf_def slots_unique_def by (metis Slotmap_state_change_fields(1))
  qed
  with assms bank_lists_wf_state_change [OF slotmaps_wfD(3) [OF assms(1)] assms(2)] show ?thesis
    unfolding slotmaps_wf_def by auto
qed

section \<open>What the operations do to the association\<close>

lemma slot_assoc_ext:
  assumes "\<And>b c. slot_assoc maps b = Some c \<longleftrightarrow> f b = Some c"
  shows "slot_assoc maps = f"
proof
  fix b
  show "slot_assoc maps b = f b"
  proof (cases "f b")
    case None
    then have "slot_assoc maps b \<noteq> Some c" for c
      using assms [of b c] by simp
    with None show ?thesis by (cases "slot_assoc maps b") auto
  next
    case (Some c)
    with assms [of b c] show ?thesis by simp
  qed
qed

lemma slot_assoc_init [simp]: "slot_assoc slotmap_init = Map.empty"
  by (rule ext) (simp add: slot_assoc_def slotmap_by_bank_def slotmap_init_def)

lemma slot_assoc_insert:
  assumes wf: "slotmaps_wf maps" and fr: "fresh_ref maps r"
    and b: "slotmap_by_bank maps b = None" and c: "slotmap_by_client maps c = None"
  shows "slot_assoc (slotmap_insert r maps b c) = (slot_assoc maps)(b \<mapsto> c)"
proof (rule slot_assoc_ext)
  have wf': "slotmaps_wf (slotmap_insert r maps b c)"
    by (rule slotmaps_wf_insert [OF wf fr b c])
  have "r \<notin> set (mappings maps)"
    using fresh_ref_unlinked [OF wf fr] by simp
  then show "slot_assoc (slotmap_insert r maps b c) b' = Some c' \<longleftrightarrow>
      ((slot_assoc maps)(b \<mapsto> c)) b' = Some c'" for b' c'
    unfolding slot_assoc_eq_Some [OF wf'] fun_upd_apply using b
    by (auto simp: slotmap_insert_def slot_assoc_eq_Some [OF wf] slotmap_by_bank_None split: if_splits)
qed

lemma slot_assoc_del:
  assumes wf: "slotmaps_wf maps" and p: "slotmap_by_bank maps b = Some p"
  shows "slot_assoc (slotmap_del maps p) = (slot_assoc maps)(b := None)"
proof (rule slot_assoc_ext)
  have wf': "slotmaps_wf (slotmap_del maps p)"
    by (rule slotmaps_wf_del [OF wf])
  obtain m where m: "p \<in> set (mappings maps)" "sm_heap maps p = Some m" "sm_bank m = b"
    using slotmap_by_bank_SomeD [OF p] by blast
  have other: "sm_bank n \<noteq> b" if "q \<in> set (mappings maps)" "q \<noteq> p" "sm_heap maps q = Some n" for q n
    using wf_bank_unique [OF wf that(1) m(1) that(3) m(2)] m(3) that(2) by auto
  show "slot_assoc (slotmap_del maps p) b' = Some c' \<longleftrightarrow>
      ((slot_assoc maps)(b := None)) b' = Some c'" for b' c'
  proof (cases "b' = b")
    case True
    then show ?thesis
      using other unfolding slot_assoc_eq_Some [OF wf'] by (auto simp: slotmap_del_def)
  next
    case False
    have "q \<noteq> p" if "sm_heap maps q = Some n" "sm_bank n = b'" for q n
      using that m False by auto
    then have "slot_assoc (slotmap_del maps p) b' = Some c' \<longleftrightarrow> slot_assoc maps b' = Some c'"
      unfolding slot_assoc_eq_Some [OF wf'] slot_assoc_eq_Some [OF wf]
      by (auto simp: slotmap_del_def)
    with False show ?thesis by simp
  qed
qed

lemma slotmap_by_bank_state_change [simp]:
  "slotmap_by_bank (Slotmap_state_change maps p st nl) b = slotmap_by_bank maps b"
  unfolding slotmap_by_bank_alt by (rule trans [OF find_cong_set]) auto

lemma slotmap_by_client_state_change [simp]:
  "slotmap_by_client (Slotmap_state_change maps p st nl) c = slotmap_by_client maps c"
  unfolding slotmap_by_client_alt by (rule trans [OF find_cong_set]) auto

lemma slot_assoc_state_change [simp]:
  "slot_assoc (Slotmap_state_change maps p st nl) = slot_assoc maps"
  by (rule ext) (auto simp: slot_assoc_def option.map_comp comp_def split: option.split)

lemma foldl_slotmap_del_mappings:
  "set (mappings (foldl slotmap_del maps ps)) = set (mappings maps) - set ps"
  by (induction ps arbitrary: maps) (auto simp: slotmap_del_def)

lemma slotmap_del_all_mappings: "mappings (slotmap_del_all maps) = []"
  using foldl_slotmap_del_mappings [of maps "mappings maps"] by (simp add: slotmap_del_all_def)

lemma slot_assoc_del_all: "slot_assoc (slotmap_del_all maps) = Map.empty"
  by (rule ext) (simp add: slot_assoc_def slotmap_by_bank_def slotmap_del_all_mappings)

lemma slot_assoc_inj:
  assumes "slotmaps_wf maps" "slot_assoc maps b = Some c" "slot_assoc maps b' = Some c"
  shows "b = b'"
proof -
  obtain p m where m: "p \<in> set (mappings maps)" "sm_heap maps p = Some m" "sm_bank m = b" "sm_client m = c"
    using assms(2) by (auto simp: slot_assoc_eq_Some [OF assms(1)])
  obtain q n where n: "q \<in> set (mappings maps)" "sm_heap maps q = Some n" "sm_bank n = b'" "sm_client n = c"
    using assms(3) by (auto simp: slot_assoc_eq_Some [OF assms(1)])
  have "p = q"
    using wf_client_unique [OF assms(1) m(1) n(1) m(2) n(2)] m(4) n(4) by simp
  with m n show ?thesis by simp
qed

section \<open>Interface\<close>

locale slot_directory =
  fixes invar :: "'m \<Rightarrow> bool"
    and assoc :: "'m \<Rightarrow> bank_slot \<Rightarrow> client_slot option"
    and fresh :: "'m \<Rightarrow> 'p \<Rightarrow> bool"
    and by_bank :: "'m \<Rightarrow> bank_slot \<Rightarrow> 'p option"
    and by_client :: "'m \<Rightarrow> client_slot \<Rightarrow> 'p option"
    and add :: "'p option \<Rightarrow> 'm \<Rightarrow> bank_slot \<Rightarrow> client_slot \<Rightarrow> 'p option \<times> 'm"
    and del :: "'m \<Rightarrow> 'p \<Rightarrow> 'm"
  assumes assoc_inj: "invar m \<Longrightarrow> assoc m b = Some c \<Longrightarrow> assoc m b' = Some c \<Longrightarrow> b = b'"
    and by_bank_None: "invar m \<Longrightarrow> by_bank m b = None \<longleftrightarrow> assoc m b = None"
    and by_client_None: "invar m \<Longrightarrow> by_client m c = None \<longleftrightarrow> c \<notin> ran (assoc m)"
    and by_client_Some:
      "invar m \<Longrightarrow> by_client m c = Some p \<longleftrightarrow> (\<exists>b. assoc m b = Some c \<and> by_bank m b = Some p)"
    and add_ok: "invar m \<Longrightarrow> fresh m r \<Longrightarrow> assoc m b = None \<Longrightarrow> c \<notin> ran (assoc m) \<Longrightarrow>
      \<exists>m'. add (Some r) m b c = (Some r, m') \<and> invar m' \<and> assoc m' = (assoc m)(b \<mapsto> c) \<and>
        by_bank m' b = Some r"
    and add_used: "invar m \<Longrightarrow> assoc m b \<noteq> None \<or> c \<in> ran (assoc m) \<Longrightarrow> add a m b c = (None, m)"
    and add_nomem: "invar m \<Longrightarrow> add None m b c = (None, m)"
    and del_assoc: "invar m \<Longrightarrow> by_bank m b = Some p \<Longrightarrow> assoc (del m p) = (assoc m)(b := None)"
    and del_invar: "invar m \<Longrightarrow> invar (del m p)"
    and del_fresh: "fresh m r \<Longrightarrow> fresh (del m p) r"
begin

lemma add_lookup:
  assumes "invar m" "fresh m r" "assoc m b = None" "c \<notin> ran (assoc m)" "add (Some r) m b c = (x, m')"
  shows "x = Some r" "invar m'" "assoc m' = (assoc m)(b \<mapsto> c)"
    "by_bank m' b = Some r" "by_client m' c = Some r"
proof -
  obtain m1 where m1: "add (Some r) m b c = (Some r, m1)" "invar m1" "assoc m1 = (assoc m)(b \<mapsto> c)"
      "by_bank m1 b = Some r"
    using add_ok [OF assms(1-4)] by blast
  then have eq: "x = Some r" "m' = m1"
    using assms(5) by simp_all
  show "x = Some r" "invar m'" "assoc m' = (assoc m)(b \<mapsto> c)" "by_bank m' b = Some r"
    using eq m1 by simp_all
  have "\<exists>b. assoc m1 b = Some c \<and> by_bank m1 b = Some r"
    using m1 by (intro exI [of _ b]) simp
  then show "by_client m' c = Some r"
    using by_client_Some [OF m1(2)] eq by simp
qed

lemma ran_del: "invar m \<Longrightarrow> assoc m b = Some c \<Longrightarrow> ran ((assoc m)(b := None)) = ran (assoc m) - {c}"
  by (auto simp: ran_def dest: assoc_inj)

text \<open>Replacing the mapping of an occupied bank slot: free it, then add the new one. It fails
  exactly when the new client slot is mapped to another bank slot; the old mapping is gone
  then, too.\<close>

lemma replace_ok:
  assumes "invar m" "by_bank m b = Some p" "assoc m b = Some c0" "fresh m r" "c \<notin> ran (assoc m)"
  shows "\<exists>m'. add (Some r) (del m p) b c = (Some r, m') \<and> invar m' \<and> assoc m' = (assoc m)(b \<mapsto> c) \<and>
     by_bank m' b = Some r"
proof -
  have a: "assoc (del m p) = (assoc m)(b := None)"
    by (rule del_assoc [OF assms(1,2)])
  then have "c \<notin> ran (assoc (del m p))"
    using assms(5) ran_del [OF assms(1,3)] by simp
  then show ?thesis
    using add_ok [OF del_invar [OF assms(1)] del_fresh [OF assms(4)]] a by (metis fun_upd_same fun_upd_upd)
qed

lemma replace_blocked:
  assumes "invar m" "by_bank m b = Some p" "assoc m b' = Some c" "b' \<noteq> b"
  shows "add a (del m p) b c = (None, del m p)"
proof -
  have "assoc (del m p) = (assoc m)(b := None)"
    by (rule del_assoc [OF assms(1,2)])
  then have "c \<in> ran (assoc (del m p))"
    using assms(3,4) by (auto simp: ran_def)
  then show ?thesis
    using add_used [OF del_invar [OF assms(1)]] by blast
qed

end

lemma slotmap_add_ok:
  assumes "slotmaps_wf maps" "fresh_ref maps r" "slot_assoc maps b = None" "c \<notin> ran (slot_assoc maps)"
  shows "slotmap_add (Some r) maps b c = (Some r, slotmap_insert r maps b c)"
    and "slotmaps_wf (slotmap_insert r maps b c)"
    and "slot_assoc (slotmap_insert r maps b c) = (slot_assoc maps)(b \<mapsto> c)"
    and "slotmap_by_bank (slotmap_insert r maps b c) b = Some r"
proof -
  have n: "slotmap_by_bank maps b = None" "slotmap_by_client maps c = None"
    using assms slot_assoc_None slotmap_by_client_None_ran by blast+
  then show "slotmap_add (Some r) maps b c = (Some r, slotmap_insert r maps b c)"
    by (simp add: slotmap_add_def del: not_None_eq)
  show wf: "slotmaps_wf (slotmap_insert r maps b c)"
    by (rule slotmaps_wf_insert [OF assms(1,2) n])
  show "slot_assoc (slotmap_insert r maps b c) = (slot_assoc maps)(b \<mapsto> c)"
    by (rule slot_assoc_insert [OF assms(1,2) n])
  show "slotmap_by_bank (slotmap_insert r maps b c) b = Some r"
    unfolding slotmap_by_bank_eq_Some [OF wf] by (simp add: slotmap_insert_def)
qed

lemma slotmap_by_client_via_bank:
  assumes "slotmaps_wf maps"
  shows "slotmap_by_client maps c = Some p \<longleftrightarrow>
     (\<exists>b. slot_assoc maps b = Some c \<and> slotmap_by_bank maps b = Some p)"
  unfolding slotmap_by_client_eq_Some [OF assms] slotmap_by_bank_eq_Some [OF assms]
    slot_assoc_eq_Some [OF assms]
  using wf_bank_unique [OF assms] by (metis option.inject)

interpretation sd: slot_directory slotmaps_wf slot_assoc fresh_ref slotmap_by_bank slotmap_by_client
  slotmap_add slotmap_del
proof (unfold_locales, goal_cases)
  case 1 then show ?case by (rule slot_assoc_inj)
next
  case 2 then show ?case by (simp add: slot_assoc_None)
next
  case 3 then show ?case by (rule slotmap_by_client_None_ran)
next
  case 4 then show ?case by (rule slotmap_by_client_via_bank)
next
  case 5 then show ?case by (blast dest: slotmap_add_ok)
next
  case 6 then show ?case
    by (auto simp: slotmap_add_def slot_assoc_None [symmetric] slotmap_by_client_None_ran)
next
  case 7 then show ?case by (simp add: slotmap_add_def)
next
  case 8 then show ?case by (rule slot_assoc_del)
next
  case 9 then show ?case by (rule slotmaps_wf_del)
next
  case 10 then show ?case by (simp add: fresh_ref_def slotmap_del_def)
qed

section \<open>Histories of operations\<close>

text \<open>The collections a run of the program can produce: any sequence of the operations, on
  pointers to live mappings and with an allocator that returns unused memory.\<close>

inductive slotmaps_reach :: "'l slotmaps \<Rightarrow> bool" where
  reach_init: "slotmaps_reach slotmap_init"
| reach_add: "slotmaps_reach maps \<Longrightarrow> (\<And>r. alloc = Some r \<Longrightarrow> fresh_ref maps r) \<Longrightarrow>
     slotmaps_reach (snd (slotmap_add alloc maps b c))"
| reach_del: "slotmaps_reach maps \<Longrightarrow> slotmaps_reach (slotmap_del maps p)"
| reach_del_all: "slotmaps_reach maps \<Longrightarrow> slotmaps_reach (slotmap_del_all maps)"
| reach_state: "slotmaps_reach maps \<Longrightarrow> p \<in> dom (sm_heap maps) \<Longrightarrow>
     slotmaps_reach (Slotmap_state_change maps p st nl)"

lemma slotmaps_reach_wf: "slotmaps_reach maps \<Longrightarrow> slotmaps_wf maps"
  by (induction rule: slotmaps_reach.induct) (auto intro: remsim_wf)

section \<open>Properties\<close>

text \<open>C1. Mapping integrity: whatever sequence of additions, deletions, global resets and state
  changes the program performs, a client slot is mapped to at most one bank slot and a bank
  slot to at most one client slot, the two lookups agree on the mapping object, and every
  object in one of the bank lists is in no other one.\<close>

theorem slotmap_integrity:
  assumes "slotmaps_reach maps"
  shows "(\<forall>b b' c. slot_assoc maps b = Some c \<longrightarrow> slot_assoc maps b' = Some c \<longrightarrow> b = b') \<and>
     (\<forall>c p. slotmap_by_client maps c = Some p \<longleftrightarrow>
        (\<exists>b. slot_assoc maps b = Some c \<and> slotmap_by_bank maps b = Some p)) \<and>
     (\<forall>l l' p. p \<in> set (bank_lists maps l) \<longrightarrow> p \<in> set (bank_lists maps l') \<longrightarrow> l = l')"
proof -
  have wf: "slotmaps_wf maps"
    by (rule slotmaps_reach_wf [OF assms])
  then show ?thesis
    using sd.assoc_inj [OF wf] sd.by_client_Some [OF wf] slotmaps_wfD(3) [OF wf]
    unfolding bank_lists_wf_def by blast
qed

definition ex_bs :: "u16 \<Rightarrow> u16 \<Rightarrow> bank_slot" where
  "ex_bs b s = \<lparr>bank_id = b, slot_nr = s\<rparr>"

definition ex_cs :: "u16 \<Rightarrow> u16 \<Rightarrow> client_slot" where
  "ex_cs c s = \<lparr>client_id = c, cslot_nr = s\<rparr>"

text \<open>One mapping B(1:0) <-> C(23:0), at pointer 7.\<close>

definition ex_maps :: "unit slotmaps" where
  "ex_maps = snd (slotmap_add (Some 7) slotmap_init (ex_bs 1 0) (ex_cs 23 0))"

lemma ex_maps_reach: "slotmaps_reach ex_maps"
  unfolding ex_maps_def by (rule reach_add [OF reach_init]) (simp add: fresh_ref_def slotmap_init_def)

lemma ex_maps_assoc: "slot_assoc ex_maps = [ex_bs 1 0 \<mapsto> ex_cs 23 0]"
  by (auto simp: ex_maps_def slotmap_add_def slot_assoc_def slotmap_by_bank_def slotmap_by_client_def
      slotmap_init_def slotmap_insert_def)

theorem slotmap_integrity_witness:
  "slot_assoc ex_maps (ex_bs 1 0) = Some (ex_cs 23 0) \<and> slotmap_by_client ex_maps (ex_cs 23 0) = Some 7"
proof -
  have "slotmap_by_bank ex_maps (ex_bs 1 0) = Some 7"
    by (simp add: ex_maps_def slotmap_add_def slotmap_by_bank_def slotmap_by_client_def slotmap_init_def
        slotmap_insert_def bank_slot_equals_def)
  moreover have "slot_assoc ex_maps (ex_bs 1 0) = Some (ex_cs 23 0)"
    by (simp add: ex_maps_assoc)
  ultimately show ?thesis
    using slotmap_integrity [OF ex_maps_reach] by blast
qed

text \<open>C2. \<open>slotmap_add\<close> implements the insertion into a partial injection: it refuses, leaving
  the collection as it was, exactly when the bank slot or the client slot is in use or there is
  no memory; otherwise both lookups find the new object and the association gains exactly
  that pair.\<close>

theorem slotmap_add_refines:
  assumes "slotmaps_wf maps" and "\<And>r. alloc = Some r \<Longrightarrow> fresh_ref maps r"
    and "slotmap_add alloc maps b c = (res, maps')"
  shows "if b \<in> dom (slot_assoc maps) \<or> c \<in> ran (slot_assoc maps) \<or> alloc = None
     then res = None \<and> maps' = maps
     else res = alloc \<and> slot_assoc maps' = (slot_assoc maps)(b \<mapsto> c) \<and>
          slotmap_by_bank maps' b = alloc \<and> slotmap_by_client maps' c = alloc"
proof (cases "b \<in> dom (slot_assoc maps) \<or> c \<in> ran (slot_assoc maps)")
  case True
  then have "slotmap_add alloc maps b c = (None, maps)"
    by (intro sd.add_used [OF assms(1)]) auto
  with True assms(3) show ?thesis by auto
next
  case free: False
  show ?thesis
  proof (cases alloc)
    case None
    with free assms(3) sd.add_nomem [OF assms(1)] show ?thesis by simp
  next
    case (Some r)
    have "slot_assoc maps b = None" "c \<notin> ran (slot_assoc maps)"
      using free by auto
    from sd.add_lookup [OF assms(1) assms(2) [OF Some] this assms(3) [unfolded Some]] free Some
    show ?thesis by simp
  qed
qed

theorem slotmap_add_refines_witness:
  "slot_assoc (snd (slotmap_add (Some 8) ex_maps (ex_bs 1 1) (ex_cs 24 0))) (ex_bs 1 1) = Some (ex_cs 24 0)"
proof -
  have "fresh_ref ex_maps r" if "Some 8 = Some r" for r
    using that by (simp add: fresh_ref_def ex_maps_def slotmap_add_def slotmap_by_bank_def
        slotmap_by_client_def slotmap_init_def slotmap_insert_def)
  from slotmap_add_refines [OF slotmaps_reach_wf [OF ex_maps_reach] this prod.collapse [symmetric],
      of "Some 8" "ex_bs 1 1" "ex_cs 24 0"]
  show ?thesis by (simp add: ex_maps_assoc ex_bs_def ex_cs_def)
qed

lemma slotmap_get_id_eq: "slotmap_get_id m = slotmap_get_id n \<longleftrightarrow> sm_bank m = sm_bank n"
proof -
  have no: "\<not> bit (w :: u16) (16 + i)" for w i
    using bit_imp_le_length [of w "16 + i"] by auto
  have hi: "ucast (drop_bit 16 (slotmap_get_id k)) = bank_id (sm_bank k)"
    and lo: "ucast (slotmap_get_id k) = slot_nr (sm_bank k)" for k
    unfolding slotmap_get_id_def
    by (auto simp: bit_simps no intro!: bit_word_eqI)
  show ?thesis
  proof
    assume "slotmap_get_id m = slotmap_get_id n"
    with hi [of m] hi [of n] lo [of m] lo [of n] show "sm_bank m = sm_bank n"
      by (cases "sm_bank m"; cases "sm_bank n") simp
  qed (simp add: slotmap_get_id_def)
qed

text \<open>The comment of \<open>slotmap_add\<close> relies on one thread making all the additions. The
  REST server calls it from its own threads: when two of them both finish their lookups
  before either inserts, the same client slot ends up mapped to two bank slots.\<close>

theorem slotmap_add_race:
  "let m0 = slotmap_init :: unit slotmaps;
       free1 = (slotmap_by_bank m0 (ex_bs 1 0) = None \<and> slotmap_by_client m0 (ex_cs 23 0) = None);
       free2 = (slotmap_by_bank m0 (ex_bs 2 0) = None \<and> slotmap_by_client m0 (ex_cs 23 0) = None);
       m1 = slotmap_insert 0 m0 (ex_bs 1 0) (ex_cs 23 0);
       m2 = slotmap_insert 1 m1 (ex_bs 2 0) (ex_cs 23 0)
   in free1 \<and> free2 \<and> fresh_ref m0 0 \<and> fresh_ref m1 1 \<and>
      slot_assoc m2 (ex_bs 1 0) = Some (ex_cs 23 0) \<and> slot_assoc m2 (ex_bs 2 0) = Some (ex_cs 23 0)"
  by (simp add: Let_def slotmap_insert_def slotmap_init_def slotmap_by_bank_def slotmap_by_client_def
      fresh_ref_def slot_assoc_def ex_bs_def ex_cs_def)

end
