(* ===== verification/Srvc_Fsm.thy ===== *)
theory Srvc_Fsm
  imports Rspro_Util
begin

text \<open>
  The RSPRO client connection state machine of \<^verbatim>\<open>src/rspro_client_fsm.c\<close>, which remsim-client
  and remsim-bankd use for their connections. The structure \<open>rspro_server_conn\<close> is the record
  of the same name; its finite state machine instance \<open>fi\<close> is the state, the timer number
  \<open>fi->T\<close> and the armed timeout in milliseconds (0 for none). What the code hands to the
  stream library, to the keep-alive machine and to its parent machine is appended to the
  list \<open>srvc_out\<close>, in order.

  libosmocore and libosmo-netif are not part of the sources: the record \<open>srvc_env\<close> holds
  what the code takes from them. \<open>ev_ok mask e\<close> and \<open>st_ok mask s\<close> are the permission checks
  of \<open>osmo_fsm_inst_dispatch\<close> and \<open>osmo_fsm_inst_state_chg\<close> against a bit mask of the state
  table; \<open>fsm_documented\<close> (Prelude) says that a permission is the bit of the mask, as the
  documentation of \<open>struct osmo_fsm_state\<close> does. The other fields are the results of the
  calls made during one step: the clock, whether allocations, encoding and opening succeed,
  and whether \<open>osmo_stream_cli_destroy\<close> calls the disconnect callback before it returns.
  Both occur, and no theorem below depends on which. A state change runs the \<open>onleave\<close>
  function of the old state, switches and arms the timer, and runs the \<open>onenter\<close> function
  of the new one.

  Lemmas: no assertion of the machine can fail and the reconnection index stays inside the
  table of delays (\<open>srvc_inv\<close>); PDUs leave only in state CONNECTED; the delay before a
  reconnection is between 1 ms and 16 s and never shrinks along the table; a lost connection
  is re-established when the timers and the peer do their part.
\<close>

section \<open>States, events and effects\<close>

datatype server_conn_fsm_state =
  SRVC_ST_INIT | SRVC_ST_ESTABLISHED | SRVC_ST_CONNECTED | SRVC_ST_REESTABLISH_DELAY | SRVC_ST_REESTABLISH

datatype server_conn_fsm_event =
  SRVC_E_ESTABLISH | SRVC_E_DISCONNECT | SRVC_E_TCP_UP | SRVC_E_TCP_DOWN | SRVC_E_KA_TIMEOUT
  | SRVC_E_CLIENT_CONN_RES | SRVC_E_RSPRO_TX

fun srvc_st_nr :: "server_conn_fsm_state \<Rightarrow> nat" where
  "srvc_st_nr SRVC_ST_INIT = 0"
| "srvc_st_nr SRVC_ST_ESTABLISHED = 1"
| "srvc_st_nr SRVC_ST_CONNECTED = 2"
| "srvc_st_nr SRVC_ST_REESTABLISH_DELAY = 3"
| "srvc_st_nr SRVC_ST_REESTABLISH = 4"

fun srvc_ev_nr :: "server_conn_fsm_event \<Rightarrow> nat" where
  "srvc_ev_nr SRVC_E_ESTABLISH = 0"
| "srvc_ev_nr SRVC_E_DISCONNECT = 1"
| "srvc_ev_nr SRVC_E_TCP_UP = 2"
| "srvc_ev_nr SRVC_E_TCP_DOWN = 3"
| "srvc_ev_nr SRVC_E_KA_TIMEOUT = 4"
| "srvc_ev_nr SRVC_E_CLIENT_CONN_RES = 5"
| "srvc_ev_nr SRVC_E_RSPRO_TX = 6"

datatype srvc_effect =
    TxRspro RsproPDU_t        \<comment> \<open>PDU encoded, IPA headers prepended, queued on the stream\<close>
  | CliClose                  \<comment> \<open>osmo_stream_cli_close\<close>
  | CliDestroy                \<comment> \<open>osmo_stream_cli_destroy\<close>
  | CliOpen "string option" u16 \<comment> \<open>osmo_stream_cli_open to host and port\<close>
  | KaStart                   \<comment> \<open>osmo_ipa_ka_fsm_start\<close>
  | KaPong                    \<comment> \<open>osmo_ipa_ka_fsm_pong_received\<close>
  | TxIdResp                  \<comment> \<open>answer to an IPA identity request\<close>
  | TxIdAck                   \<comment> \<open>IPA identity acknowledgement\<close>
  | ParentEvent nat           \<comment> \<open>osmo_fsm_inst_dispatch to fi->proc.parent\<close>

record rspro_server_conn =
  srvc_conn :: bool
  srvc_st :: server_conn_fsm_state
  srvc_T :: nat
  srvc_timeout :: int
  srvc_ka :: bool
  reestablish_delay_idx :: nat
  reestablish_last_ms :: int
  own_comp_id :: app_comp_id
  peer_comp_id :: app_comp_id
  srvc_clslot :: "ClientSlot_t option"
  server_host :: "string option"
  server_port :: u16
  srvc_parent :: bool
  parent_conn_evt :: nat
  parent_disc_evt :: nat
  srvc_bank_id :: u16
  srvc_num_slots :: u16
  srvc_out :: "srvc_effect list"

record srvc_env =
  ev_ok :: "u32 \<Rightarrow> nat \<Rightarrow> bool"
  st_ok :: "u32 \<Rightarrow> nat \<Rightarrow> bool"
  now_ms :: int
  calloc_ok :: bool
  enc_ok :: "RsproPDU_t \<Rightarrow> bool"
  cli_create_ok :: bool
  ka_alloc_ok :: bool
  cli_open_ok :: bool
  destroy_cb :: bool

section \<open>Delays\<close>

definition T1_WAIT_CLIENT_CONN_RES :: int where "T1_WAIT_CLIENT_CONN_RES = 10"
definition T2_RECONNECT :: int where "T2_RECONNECT = 10"

definition k_reestablish_delay_s :: "int list" where
  "k_reestablish_delay_s =
     replicate 3 0 @ replicate 30 1 @ replicate 30 2 @ replicate 30 4 @ replicate 30 8 @ [16]"

definition REESTABLISH_DELAY_COUNT :: nat where
  "REESTABLISH_DELAY_COUNT = length k_reestablish_delay_s"

section \<open>Sending\<close>

definition emit :: "srvc_effect \<Rightarrow> rspro_server_conn \<Rightarrow> rspro_server_conn" where
  "emit x s = s\<lparr>srvc_out := srvc_out s @ [x]\<rparr>"

text \<open>\<open>cli_conn_send_rspro\<close>, as \<open>_server_conn_send_rspro\<close> calls it. A NULL PDU makes the
  encoder fail.\<close>

definition cli_conn_send_rspro ::
  "srvc_env \<Rightarrow> RsproPDU_t option \<Rightarrow> rspro_server_conn \<Rightarrow> int \<times> rspro_server_conn" where
  "cli_conn_send_rspro E rspro s =
     (case rspro of
        None \<Rightarrow> (-1, s)
      | Some pdu \<Rightarrow> if \<not> enc_ok E pdu then (-1, s) else (0, emit (TxRspro pdu) s))"

section \<open>State entry and exit\<close>

definition srvc_st_established_onenter :: "srvc_env \<Rightarrow> rspro_server_conn \<Rightarrow> rspro_server_conn" where
  "srvc_st_established_onenter E s =
     (let s1 = emit KaStart s;
          pdu = (if ac_type (own_comp_id s1) = ComponentType_remsimClient
                 then rspro_gen_ConnectClientReq (calloc_ok E) (own_comp_id s1) (srvc_clslot s1)
                 else rspro_gen_ConnectBankReq (calloc_ok E) (own_comp_id s1) (srvc_bank_id s1) (srvc_num_slots s1))
      in snd (cli_conn_send_rspro E pdu s1))"

definition srvc_st_connected_onenter :: "rspro_server_conn \<Rightarrow> rspro_server_conn" where
  "srvc_st_connected_onenter s = (if srvc_parent s then emit (ParentEvent (parent_conn_evt s)) s else s)"

definition srvc_st_connected_onleave :: "rspro_server_conn \<Rightarrow> rspro_server_conn" where
  "srvc_st_connected_onleave s = (if srvc_parent s then emit (ParentEvent (parent_disc_evt s)) s else s)"

text \<open>The masks of \<open>server_conn_fsm_states\<close>.\<close>

fun srvc_in_event_mask :: "server_conn_fsm_state \<Rightarrow> u32" where
  "srvc_in_event_mask SRVC_ST_INIT = 0"
| "srvc_in_event_mask SRVC_ST_ESTABLISHED =
     S (srvc_ev_nr SRVC_E_TCP_DOWN) OR S (srvc_ev_nr SRVC_E_KA_TIMEOUT) OR S (srvc_ev_nr SRVC_E_CLIENT_CONN_RES)"
| "srvc_in_event_mask SRVC_ST_CONNECTED =
     S (srvc_ev_nr SRVC_E_TCP_DOWN) OR S (srvc_ev_nr SRVC_E_KA_TIMEOUT) OR S (srvc_ev_nr SRVC_E_RSPRO_TX)"
| "srvc_in_event_mask SRVC_ST_REESTABLISH_DELAY = 0"
| "srvc_in_event_mask SRVC_ST_REESTABLISH = S (srvc_ev_nr SRVC_E_TCP_UP) OR S (srvc_ev_nr SRVC_E_TCP_DOWN)"

fun srvc_out_state_mask :: "server_conn_fsm_state \<Rightarrow> u32" where
  "srvc_out_state_mask SRVC_ST_INIT = S (srvc_st_nr SRVC_ST_INIT) OR S (srvc_st_nr SRVC_ST_REESTABLISH_DELAY)"
| "srvc_out_state_mask SRVC_ST_ESTABLISHED =
     S (srvc_st_nr SRVC_ST_CONNECTED) OR S (srvc_st_nr SRVC_ST_REESTABLISH_DELAY) OR S (srvc_st_nr SRVC_ST_INIT)"
| "srvc_out_state_mask SRVC_ST_CONNECTED =
     S (srvc_st_nr SRVC_ST_REESTABLISH_DELAY) OR S (srvc_st_nr SRVC_ST_INIT)"
| "srvc_out_state_mask SRVC_ST_REESTABLISH_DELAY =
     S (srvc_st_nr SRVC_ST_REESTABLISH) OR S (srvc_st_nr SRVC_ST_INIT)"
| "srvc_out_state_mask SRVC_ST_REESTABLISH =
     S (srvc_st_nr SRVC_ST_ESTABLISHED) OR S (srvc_st_nr SRVC_ST_REESTABLISH_DELAY) OR S (srvc_st_nr SRVC_ST_INIT)"

definition srvc_allstate_event_mask :: u32 where
  "srvc_allstate_event_mask = S (srvc_ev_nr SRVC_E_ESTABLISH) OR S (srvc_ev_nr SRVC_E_DISCONNECT)"

text \<open>The disconnect callback while the machine is in REESTABLISH_DELAY (called from the
  destruction of the connection there): the keep-alive machine is freed and TCP_DOWN is
  dispatched; the action function of that state asserts.\<close>

definition disconnect_cb_in_delay :: "srvc_env \<Rightarrow> rspro_server_conn \<Rightarrow> rspro_server_conn option" where
  "disconnect_cb_in_delay E s =
     (let s1 = s\<lparr>srvc_ka := False\<rparr>
      in if ev_ok E (srvc_in_event_mask SRVC_ST_REESTABLISH_DELAY) (srvc_ev_nr SRVC_E_TCP_DOWN)
         then None else Some s1)"

definition srvc_st_reestablish_delay_onenter ::
  "srvc_env \<Rightarrow> rspro_server_conn \<Rightarrow> rspro_server_conn option" where
  "srvc_st_reestablish_delay_onenter E s =
     do {
       s1 \<leftarrow> (if srvc_conn s then
                do {
                  s' \<leftarrow> (if destroy_cb E then disconnect_cb_in_delay E (emit CliDestroy s)
                          else Some (emit CliDestroy s));
                  Some (s'\<lparr>srvc_conn := False\<rparr>)
                }
              else Some s);
       Some (if reestablish_delay_idx s1 < REESTABLISH_DELAY_COUNT - 1
             then s1\<lparr>reestablish_delay_idx := reestablish_delay_idx s1 + 1\<rparr> else s1)
     }"

text \<open>\<open>None\<close> is \<open>exit(1)\<close>.\<close>

definition srvc_st_reestablish_onenter ::
  "srvc_env \<Rightarrow> rspro_server_conn \<Rightarrow> rspro_server_conn option" where
  "srvc_st_reestablish_onenter E s =
     (let s1 = s\<lparr>reestablish_last_ms := now_ms E\<rparr>
      in if \<not> cli_create_ok E then None
         else let s2 = s1\<lparr>srvc_conn := True\<rparr>
              in if \<not> ka_alloc_ok E then None
                 else let s3 = s2\<lparr>srvc_ka := True\<rparr>
                      in if \<not> cli_open_ok E then None
                         else Some (emit (CliOpen (server_host s3) (server_port s3)) s3))"

definition srvc_onleave :: "server_conn_fsm_state \<Rightarrow> rspro_server_conn \<Rightarrow> rspro_server_conn" where
  "srvc_onleave st s = (if st = SRVC_ST_CONNECTED then srvc_st_connected_onleave s else s)"

fun srvc_onenter ::
  "srvc_env \<Rightarrow> server_conn_fsm_state \<Rightarrow> rspro_server_conn \<Rightarrow> rspro_server_conn option" where
  "srvc_onenter E SRVC_ST_INIT s = Some s"
| "srvc_onenter E SRVC_ST_ESTABLISHED s = Some (srvc_st_established_onenter E s)"
| "srvc_onenter E SRVC_ST_CONNECTED s = Some (srvc_st_connected_onenter s)"
| "srvc_onenter E SRVC_ST_REESTABLISH_DELAY s = srvc_st_reestablish_delay_onenter E s"
| "srvc_onenter E SRVC_ST_REESTABLISH s = srvc_st_reestablish_onenter E s"

text \<open>A call of \<open>osmo_fsm_inst_state_chg(_ms)\<close>: a change the table does not permit leaves
  the instance as it is.\<close>

definition srvc_state_chg ::
  "srvc_env \<Rightarrow> server_conn_fsm_state \<Rightarrow> int \<Rightarrow> nat \<Rightarrow> rspro_server_conn \<Rightarrow> rspro_server_conn option" where
  "srvc_state_chg E new ms T s =
     (if \<not> st_ok E (srvc_out_state_mask (srvc_st s)) (srvc_st_nr new) then Some s
      else let s1 = srvc_onleave (srvc_st s) s
           in srvc_onenter E new (s1\<lparr>srvc_st := new, srvc_T := T, srvc_timeout := ms\<rparr>))"

section \<open>Actions\<close>

definition reset_ms :: int where
  "reset_ms = 2 * 1000 * max (max T1_WAIT_CLIENT_CONN_RES T2_RECONNECT)
     (k_reestablish_delay_s ! (REESTABLISH_DELAY_COUNT - 1))"

definition reestablish_idx :: "int \<Rightarrow> rspro_server_conn \<Rightarrow> nat" where
  "reestablish_idx since_last_ms s = (if since_last_ms > reset_ms then 0 else reestablish_delay_idx s)"

definition reestablish_delay_ms :: "int \<Rightarrow> nat \<Rightarrow> int" where
  "reestablish_delay_ms since_last_ms idx =
     (let need_ms = k_reestablish_delay_s ! idx * 1000; delay_ms = need_ms - since_last_ms
      in if delay_ms > 0 then delay_ms else 1)"

definition srvc_do_reestablish :: "srvc_env \<Rightarrow> rspro_server_conn \<Rightarrow> rspro_server_conn option" where
  "srvc_do_reestablish E s =
     (let since_last_ms = now_ms E - reestablish_last_ms s;
          s1 = s\<lparr>reestablish_delay_idx := reestablish_idx since_last_ms s\<rparr>
      in srvc_state_chg E SRVC_ST_REESTABLISH_DELAY
           (reestablish_delay_ms since_last_ms (reestablish_delay_idx s1)) 3 s1)"

fun srvc_st_established ::
  "srvc_env \<Rightarrow> server_conn_fsm_event \<Rightarrow> RsproPDU_t option \<Rightarrow> rspro_server_conn \<Rightarrow> rspro_server_conn option" where
  "srvc_st_established E SRVC_E_TCP_DOWN pdu s = srvc_do_reestablish E s"
| "srvc_st_established E SRVC_E_KA_TIMEOUT pdu s = srvc_do_reestablish E s"
| "srvc_st_established E SRVC_E_CLIENT_CONN_RES pdu s =
     do {
       p \<leftarrow> pdu;
       res \<leftarrow> rspro_get_result p;
       if res \<noteq> ResultCode_ok then Some (emit CliClose s)
       else srvc_state_chg E SRVC_ST_CONNECTED 0 0 s
     }"
| "srvc_st_established E _ pdu s = None"

fun srvc_st_connected ::
  "srvc_env \<Rightarrow> server_conn_fsm_event \<Rightarrow> RsproPDU_t option \<Rightarrow> rspro_server_conn \<Rightarrow> rspro_server_conn option" where
  "srvc_st_connected E SRVC_E_TCP_DOWN pdu s = srvc_do_reestablish E s"
| "srvc_st_connected E SRVC_E_KA_TIMEOUT pdu s = srvc_do_reestablish E s"
| "srvc_st_connected E SRVC_E_RSPRO_TX pdu s = Some (snd (cli_conn_send_rspro E pdu s))"
| "srvc_st_connected E _ pdu s = None"

fun srvc_st_reestablish ::
  "srvc_env \<Rightarrow> server_conn_fsm_event \<Rightarrow> rspro_server_conn \<Rightarrow> rspro_server_conn option" where
  "srvc_st_reestablish E SRVC_E_TCP_UP s =
     srvc_state_chg E SRVC_ST_ESTABLISHED (1000 * T1_WAIT_CLIENT_CONN_RES) 1 s"
| "srvc_st_reestablish E SRVC_E_TCP_DOWN s = Some s"
| "srvc_st_reestablish E _ s = None"

text \<open>The action function of a state. INIT and REESTABLISH_DELAY assert on every event.\<close>

fun srvc_action ::
  "srvc_env \<Rightarrow> server_conn_fsm_state \<Rightarrow> server_conn_fsm_event \<Rightarrow> RsproPDU_t option \<Rightarrow>
     rspro_server_conn \<Rightarrow> rspro_server_conn option" where
  "srvc_action E SRVC_ST_INIT ev pdu s = None"
| "srvc_action E SRVC_ST_ESTABLISHED ev pdu s = srvc_st_established E ev pdu s"
| "srvc_action E SRVC_ST_CONNECTED ev pdu s = srvc_st_connected E ev pdu s"
| "srvc_action E SRVC_ST_REESTABLISH_DELAY ev pdu s = None"
| "srvc_action E SRVC_ST_REESTABLISH ev pdu s = srvc_st_reestablish E ev s"

text \<open>The dispatch of an event that is not one of the all-state events.\<close>

definition srvc_dispatch_state ::
  "srvc_env \<Rightarrow> server_conn_fsm_event \<Rightarrow> RsproPDU_t option \<Rightarrow> rspro_server_conn \<Rightarrow>
     (int \<times> rspro_server_conn) option" where
  "srvc_dispatch_state E ev pdu s =
     (if \<not> ev_ok E (srvc_in_event_mask (srvc_st s)) (srvc_ev_nr ev) then Some (-1, s)
      else map_option (Pair 0) (srvc_action E (srvc_st s) ev pdu s))"

definition srvc_disconnect_cb :: "srvc_env \<Rightarrow> rspro_server_conn \<Rightarrow> rspro_server_conn option" where
  "srvc_disconnect_cb E s =
     map_option snd (srvc_dispatch_state E SRVC_E_TCP_DOWN None (s\<lparr>srvc_ka := False\<rparr>))"

definition srvc_connect_cb :: "srvc_env \<Rightarrow> rspro_server_conn \<Rightarrow> rspro_server_conn option" where
  "srvc_connect_cb E s = map_option snd (srvc_dispatch_state E SRVC_E_TCP_UP None s)"

definition ipa_keepalive_timeout_cb :: "srvc_env \<Rightarrow> rspro_server_conn \<Rightarrow> rspro_server_conn option" where
  "ipa_keepalive_timeout_cb E s = map_option snd (srvc_dispatch_state E SRVC_E_KA_TIMEOUT None s)"

fun srvc_allstate_action ::
  "srvc_env \<Rightarrow> server_conn_fsm_event \<Rightarrow> rspro_server_conn \<Rightarrow> rspro_server_conn option" where
  "srvc_allstate_action E SRVC_E_ESTABLISH s =
     srvc_do_reestablish E (s\<lparr>reestablish_delay_idx := 0, reestablish_last_ms := 0\<rparr>)"
| "srvc_allstate_action E SRVC_E_DISCONNECT s =
     do {
       s1 \<leftarrow> (if srvc_conn s then
                let s' = emit CliDestroy (s\<lparr>srvc_conn := False\<rparr>)
                in if destroy_cb E then srvc_disconnect_cb E s' else Some s'
              else Some s);
       srvc_state_chg E SRVC_ST_INIT 0 0 s1
     }"
| "srvc_allstate_action E _ s = None"

text \<open>\<open>osmo_fsm_inst_dispatch(srvc->fi, ev, pdu)\<close>.\<close>

definition srvc_dispatch ::
  "srvc_env \<Rightarrow> server_conn_fsm_event \<Rightarrow> RsproPDU_t option \<Rightarrow> rspro_server_conn \<Rightarrow>
     (int \<times> rspro_server_conn) option" where
  "srvc_dispatch E ev pdu s =
     (if ev_ok E srvc_allstate_event_mask (srvc_ev_nr ev)
      then map_option (Pair 0) (srvc_allstate_action E ev s)
      else srvc_dispatch_state E ev pdu s)"

definition server_conn_send_rspro ::
  "srvc_env \<Rightarrow> RsproPDU_t option \<Rightarrow> rspro_server_conn \<Rightarrow> (int \<times> rspro_server_conn) option" where
  "server_conn_send_rspro E rspro s =
     (case rspro of
        None \<Rightarrow> Some (- EINVAL, s)
      | Some pdu \<Rightarrow>
          map_option (\<lambda>(rc, s'). if rc < 0 then (- EPERM, s') else (0, s'))
            (srvc_dispatch E SRVC_E_RSPRO_TX (Some pdu) s))"

fun server_conn_fsm_timer_cb :: "srvc_env \<Rightarrow> rspro_server_conn \<Rightarrow> rspro_server_conn option" where
  "server_conn_fsm_timer_cb E s =
     (if srvc_T s = 3 then srvc_state_chg E SRVC_ST_REESTABLISH (1000 * T2_RECONNECT) 2 s
      else if srvc_T s = 2 then srvc_do_reestablish E s
      else if srvc_T s = 1 then Some (emit CliClose s)
      else None)"

definition server_conn_fsm_alloc :: "rspro_server_conn \<Rightarrow> rspro_server_conn" where
  "server_conn_fsm_alloc s =
     s\<lparr>srvc_st := SRVC_ST_INIT, srvc_T := 0, srvc_timeout := 0,
       reestablish_delay_idx := 0, reestablish_last_ms := 0\<rparr>"

section \<open>Reading from the connection\<close>

text \<open>A received message as the IPA header classifies it: a connection control message with its
  first byte (\<open>None\<close> for an empty one), an RSPRO message with the result of
  \<open>rspro_dec_msg\<close>, or one of another protocol or extension.\<close>

datatype ccm_type = IPAC_MSGT_PING | IPAC_MSGT_PONG | IPAC_MSGT_ID_GET | IPAC_MSGT_OTHER

datatype ipa_msg = IpaCcm "ccm_type option" | IpaRspro "RsproPDU_t option" | IpaOtherExt | IpaOtherProto

text \<open>The results of libosmocore's IPA functions during one call.\<close>

record ccm_env =
  ccm_rcvmsg_rc :: int
  id_resp_ok :: bool
  id_ack_ok :: bool

definition ipaccess_bts_handle_ccm ::
  "ccm_env \<Rightarrow> ccm_type option \<Rightarrow> rspro_server_conn \<Rightarrow> (int \<times> rspro_server_conn) option" where
  "ipaccess_bts_handle_ccm C msg s =
     (case msg of
        None \<Rightarrow> None
      | Some msg_type \<Rightarrow>
          if ccm_rcvmsg_rc C < 0 then Some (-1, s)
          else if msg_type = IPAC_MSGT_ID_GET then
            if \<not> id_resp_ok C then Some (-1, s)
            else if \<not> id_ack_ok C then Some (-1, emit TxIdResp s)
            else Some (1, emit TxIdAck (emit TxIdResp s))
          else Some (1, s))"

text \<open>\<open>srvc_read_cb\<close>: its return code, how often it frees the message, and the connection
  afterwards. \<open>handle_rx\<close> is the callback of the connection's owner.\<close>

definition srvc_read_cb ::
  "ccm_env \<Rightarrow> (RsproPDU_t \<Rightarrow> rspro_server_conn \<Rightarrow> (int \<times> rspro_server_conn) option) \<Rightarrow>
     int \<Rightarrow> ipa_msg \<Rightarrow> rspro_server_conn \<Rightarrow> (int \<times> nat \<times> rspro_server_conn) option" where
  "srvc_read_cb C handle_rx res msg s =
     (let err = Some (- EBADF, 1, emit CliClose s)
      in if res \<le> 0 then err
         else case msg of
           IpaCcm m \<Rightarrow>
             do {
               (rc, s1) \<leftarrow> ipaccess_bts_handle_ccm C m s;
               if rc < 0 then Some (rc, 2, s1)
               else if m = Some IPAC_MSGT_PONG then Some (0, 1, emit KaPong s1)
               else Some (rc, 1, s1)
             }
         | IpaRspro None \<Rightarrow> Some (- EIO, 1, s)
         | IpaRspro (Some pdu) \<Rightarrow> map_option (\<lambda>(rc, s1). (rc, 1, s1)) (handle_rx pdu s)
         | IpaOtherExt \<Rightarrow> err
         | IpaOtherProto \<Rightarrow> err)"

section \<open>The delay table\<close>

lemma REESTABLISH_DELAY_COUNT_eq [simp]: "REESTABLISH_DELAY_COUNT = 124"
  by (simp add: REESTABLISH_DELAY_COUNT_def k_reestablish_delay_s_def)

lemma delay_last: "k_reestablish_delay_s ! 123 = 16"
  by (simp add: k_reestablish_delay_s_def nth_append)

lemma reset_ms_eq: "reset_ms = 32000"
  by (simp add: reset_ms_def delay_last T1_WAIT_CLIENT_CONN_RES_def T2_RECONNECT_def)

lemma delay_range: "i < 124 \<Longrightarrow> 0 \<le> k_reestablish_delay_s ! i \<and> k_reestablish_delay_s ! i \<le> 16"
  by (auto simp: k_reestablish_delay_s_def nth_append)

lemma delay_sorted: "sorted k_reestablish_delay_s"
  by (simp add: k_reestablish_delay_s_def sorted_append)

lemma delay_ms_range:
  "i < 124 \<Longrightarrow> 0 \<le> d \<Longrightarrow> 1 \<le> reestablish_delay_ms d i \<and> reestablish_delay_ms d i \<le> 16000"
  using delay_range [of i] by (auto simp: reestablish_delay_ms_def Let_def)

section \<open>Invariant\<close>

text \<open>The timer and the connection that go with each state.\<close>

definition srvc_inv :: "rspro_server_conn \<Rightarrow> bool" where
  "srvc_inv s \<longleftrightarrow>
     reestablish_delay_idx s < REESTABLISH_DELAY_COUNT \<and> 0 \<le> reestablish_last_ms s \<and>
     (case srvc_st s of
        SRVC_ST_INIT \<Rightarrow> srvc_T s = 0 \<and> srvc_timeout s = 0
      | SRVC_ST_ESTABLISHED \<Rightarrow> srvc_conn s \<and> srvc_T s = 1
      | SRVC_ST_CONNECTED \<Rightarrow> srvc_conn s \<and> srvc_T s = 0 \<and> srvc_timeout s = 0
      | SRVC_ST_REESTABLISH_DELAY \<Rightarrow>
          \<not> srvc_conn s \<and> srvc_T s = 3 \<and> 1 \<le> srvc_timeout s \<and> srvc_timeout s \<le> 16000
      | SRVC_ST_REESTABLISH \<Rightarrow> srvc_conn s \<and> srvc_T s = 2 \<and> srvc_timeout s = 10000)"

text \<open>What the steps need from the environment: the documented permissions and a clock that
  does not run backwards.\<close>

definition env_ok :: "srvc_env \<Rightarrow> rspro_server_conn \<Rightarrow> bool" where
  "env_ok E s \<longleftrightarrow> fsm_documented (ev_ok E) (st_ok E) \<and> reestablish_last_ms s \<le> now_ms E \<and> 0 \<le> now_ms E"

lemma env_okD:
  assumes "env_ok E s"
  shows "ev_ok E m n = bit m n" "st_ok E m n = bit m n" "reestablish_last_ms s \<le> now_ms E" "0 \<le> now_ms E"
  using assms by (auto simp: env_ok_def fsm_documented_def)

lemma emit_simps [simp]:
  "srvc_conn (emit x s) = srvc_conn s" "srvc_st (emit x s) = srvc_st s" "srvc_T (emit x s) = srvc_T s"
  "srvc_timeout (emit x s) = srvc_timeout s" "srvc_ka (emit x s) = srvc_ka s"
  "reestablish_delay_idx (emit x s) = reestablish_delay_idx s"
  "reestablish_last_ms (emit x s) = reestablish_last_ms s"
  "srvc_parent (emit x s) = srvc_parent s" "own_comp_id (emit x s) = own_comp_id s"
  "srvc_clslot (emit x s) = srvc_clslot s" "server_host (emit x s) = server_host s"
  "server_port (emit x s) = server_port s" "parent_conn_evt (emit x s) = parent_conn_evt s"
  "parent_disc_evt (emit x s) = parent_disc_evt s" "srvc_bank_id (emit x s) = srvc_bank_id s"
  "srvc_num_slots (emit x s) = srvc_num_slots s"
  "srvc_out (emit x s) = srvc_out s @ [x]"
  by (simp_all add: emit_def)

lemma srvc_inv_emit [simp]: "srvc_inv (emit x s) \<longleftrightarrow> srvc_inv s"
  by (cases "srvc_st s") (simp_all add: srvc_inv_def)

lemma cli_conn_send_rspro_fields [simp]:
  "srvc_st (snd (cli_conn_send_rspro E p s)) = srvc_st s"
  "srvc_inv (snd (cli_conn_send_rspro E p s)) = srvc_inv s"
  by (auto simp: cli_conn_send_rspro_def split: option.split)

lemma established_onenter_inv [simp]:
  "srvc_inv (srvc_st_established_onenter E s) = srvc_inv s"
  "srvc_st (srvc_st_established_onenter E s) = srvc_st s"
  by (simp_all add: srvc_st_established_onenter_def Let_def)

lemma connected_onenter_inv [simp]:
  "srvc_inv (srvc_st_connected_onenter s) = srvc_inv s"
  "srvc_st (srvc_st_connected_onenter s) = srvc_st s"
  by (simp_all add: srvc_st_connected_onenter_def)

lemma srvc_onleave_simps [simp]:
  "srvc_conn (srvc_onleave st s) = srvc_conn s" "srvc_ka (srvc_onleave st s) = srvc_ka s"
  "reestablish_delay_idx (srvc_onleave st s) = reestablish_delay_idx s"
  "reestablish_last_ms (srvc_onleave st s) = reestablish_last_ms s"
  "server_host (srvc_onleave st s) = server_host s" "server_port (srvc_onleave st s) = server_port s"
  by (simp_all add: srvc_onleave_def srvc_st_connected_onleave_def)

text \<open>Every state in which a lost connection can be noticed permits the change to
  REESTABLISH_DELAY; the change stops the connection and arms timer 3.\<close>

lemma do_reestablish_inv:
  assumes E: "env_ok E s" and idx: "reestablish_delay_idx s < REESTABLISH_DELAY_COUNT"
    and lm: "0 \<le> reestablish_last_ms s"
    and st: "srvc_st s \<in> {SRVC_ST_INIT, SRVC_ST_ESTABLISHED, SRVC_ST_CONNECTED, SRVC_ST_REESTABLISH}"
  shows "\<exists>s'. srvc_do_reestablish E s = Some s' \<and> srvc_inv s' \<and> srvc_st s' = SRVC_ST_REESTABLISH_DELAY"
proof -
  let ?d = "now_ms E - reestablish_last_ms s"
  have d: "0 \<le> ?d"
    using env_okD(3) [OF E] by simp
  have i: "reestablish_idx ?d s < 124"
    using idx by (simp add: reestablish_idx_def)
  have st': "st_ok E (srvc_out_state_mask (srvc_st s)) (srvc_st_nr SRVC_ST_REESTABLISH_DELAY)"
    using st by (auto simp: env_okD [OF E] bit_simps)
  have ev: "\<not> ev_ok E (srvc_in_event_mask SRVC_ST_REESTABLISH_DELAY) (srvc_ev_nr SRVC_E_TCP_DOWN)"
    by (simp add: env_okD [OF E])
  show ?thesis
    using st' ev delay_ms_range [OF i d] i lm
    by (auto simp: srvc_do_reestablish_def srvc_state_chg_def Let_def srvc_st_reestablish_delay_onenter_def
        disconnect_cb_in_delay_def srvc_inv_def)
qed

lemma reestablish_in_delay_refused:
  assumes "env_ok E s" and "srvc_st s = SRVC_ST_REESTABLISH_DELAY"
  shows "srvc_do_reestablish E s =
     Some (s\<lparr>reestablish_delay_idx := reestablish_idx (now_ms E - reestablish_last_ms s) s\<rparr>)"
  using assms by (auto simp: srvc_do_reestablish_def srvc_state_chg_def Let_def env_okD [OF assms(1)] bit_simps)

lemma srvc_inv_ka [simp]: "srvc_inv (s\<lparr>srvc_ka := b\<rparr>) \<longleftrightarrow> srvc_inv s"
  by (cases "srvc_st s") (simp_all add: srvc_inv_def)

lemma env_ok_upd [simp]:
  "env_ok E (s\<lparr>srvc_ka := b\<rparr>) = env_ok E s" "env_ok E (s\<lparr>srvc_conn := b\<rparr>) = env_ok E s"
  "env_ok E (emit x s) = env_ok E s" "env_ok E (s\<lparr>reestablish_delay_idx := i\<rparr>) = env_ok E s"
  by (simp_all add: env_ok_def)

text \<open>An event with the data it comes with: a connection response carries a PDU that has a
  result code.\<close>

definition ev_data_ok :: "server_conn_fsm_event \<Rightarrow> RsproPDU_t option \<Rightarrow> bool" where
  "ev_data_ok ev pdu \<longleftrightarrow>
     (ev = SRVC_E_CLIENT_CONN_RES \<longrightarrow> (case pdu of None \<Rightarrow> False | Some p \<Rightarrow> rspro_get_result p \<noteq> None))"

lemma srvc_invD:
  assumes "srvc_inv s"
  shows "reestablish_delay_idx s < REESTABLISH_DELAY_COUNT" "0 \<le> reestablish_last_ms s"
  using assms by (auto simp: srvc_inv_def)

lemma state_chg_connected_inv:
  assumes E: "env_ok E s" and "srvc_inv s" and "srvc_st s = SRVC_ST_ESTABLISHED"
  shows "\<exists>s'. srvc_state_chg E SRVC_ST_CONNECTED 0 0 s = Some s' \<and> srvc_inv s'"
proof -
  have "srvc_inv (s\<lparr>srvc_st := SRVC_ST_CONNECTED, srvc_T := 0, srvc_timeout := 0\<rparr>)"
    using assms by (simp add: srvc_inv_def)
  then show ?thesis
    using assms by (simp add: srvc_state_chg_def env_okD [OF E] bit_simps Let_def srvc_onleave_def)
qed

lemma state_chg_established_inv:
  assumes E: "env_ok E s" and "srvc_inv s" and "srvc_st s = SRVC_ST_REESTABLISH"
  shows "\<exists>s'. srvc_state_chg E SRVC_ST_ESTABLISHED ms 1 s = Some s' \<and> srvc_inv s'"
proof -
  have "srvc_inv (s\<lparr>srvc_st := SRVC_ST_ESTABLISHED, srvc_T := 1, srvc_timeout := ms\<rparr>)"
    using assms by (simp add: srvc_inv_def)
  then show ?thesis
    using assms by (simp add: srvc_state_chg_def env_okD [OF E] bit_simps Let_def srvc_onleave_def)
qed

lemma state_chg_init_inv:
  assumes E: "env_ok E s" and "reestablish_delay_idx s < REESTABLISH_DELAY_COUNT" "0 \<le> reestablish_last_ms s"
  shows "\<exists>s'. srvc_state_chg E SRVC_ST_INIT 0 0 s = Some s' \<and> srvc_inv s' \<and> srvc_st s' = SRVC_ST_INIT"
proof -
  have "st_ok E (srvc_out_state_mask (srvc_st s)) (srvc_st_nr SRVC_ST_INIT)"
    by (cases "srvc_st s") (simp_all add: env_okD [OF E] bit_simps)
  then show ?thesis
    using assms by (simp add: srvc_state_chg_def Let_def srvc_inv_def)
qed

text \<open>Losing the link, also with the connection already taken away as DISCONNECT does.\<close>

lemma dispatch_TCP_DOWN:
  assumes E: "env_ok E s" and idx: "reestablish_delay_idx s < REESTABLISH_DELAY_COUNT" "0 \<le> reestablish_last_ms s"
  shows "\<exists>rc s'. srvc_dispatch_state E SRVC_E_TCP_DOWN pdu s = Some (rc, s') \<and>
     (srvc_inv s' \<or> s' = s) \<and> reestablish_delay_idx s' < REESTABLISH_DELAY_COUNT \<and>
     0 \<le> reestablish_last_ms s' \<and> env_ok E s'"
proof -
  have lm: "env_ok E s'" if "srvc_do_reestablish E s = Some s'" for s'
    using that E
    by (auto simp: srvc_do_reestablish_def srvc_state_chg_def Let_def srvc_st_reestablish_delay_onenter_def
        disconnect_cb_in_delay_def env_ok_def split: if_splits Option.bind_splits)
  show ?thesis
    using do_reestablish_inv [OF E idx] lm srvc_invD E idx
    by (cases "srvc_st s") (fastforce simp: srvc_dispatch_state_def env_okD [OF E] bit_simps)+
qed

lemma dispatch_state_inv:
  assumes E: "env_ok E s" and inv: "srvc_inv s" and d: "ev_data_ok ev pdu"
  shows "\<exists>rc s'. srvc_dispatch_state E ev pdu s = Some (rc, s') \<and> srvc_inv s'"
proof -
  note re = do_reestablish_inv [OF E srvc_invD [OF inv]]
  have con: "\<exists>s'. srvc_st_established E SRVC_E_CLIENT_CONN_RES pdu s = Some s' \<and> srvc_inv s'"
    if "srvc_st s = SRVC_ST_ESTABLISHED" "ev = SRVC_E_CLIENT_CONN_RES"
    using state_chg_connected_inv [OF E inv that(1)] d that(2) inv
    by (auto simp: ev_data_ok_def split: option.splits)
  show ?thesis
    using re con state_chg_established_inv [OF E inv] inv
    by (cases "srvc_st s"; cases ev)
      (fastforce simp: srvc_dispatch_state_def env_okD [OF E] bit_simps)+
qed

lemma allstate_inv:
  assumes E: "env_ok E s" and inv: "srvc_inv s" and ev: "ev = SRVC_E_ESTABLISH \<or> ev = SRVC_E_DISCONNECT"
  shows "\<exists>s'. srvc_allstate_action E ev s = Some s' \<and> srvc_inv s'"
  using ev
proof
  assume ev: "ev = SRVC_E_ESTABLISH"
  let ?s = "s\<lparr>reestablish_delay_idx := 0, reestablish_last_ms := 0\<rparr>"
  have E': "env_ok E ?s"
    using E by (simp add: env_ok_def)
  show ?thesis
  proof (cases "srvc_st s = SRVC_ST_REESTABLISH_DELAY")
    case True
    then show ?thesis
      using reestablish_in_delay_refused [OF E'] inv ev
      by (auto simp: srvc_inv_def reestablish_idx_def)
  next
    case False
    then have "srvc_st ?s \<in> {SRVC_ST_INIT, SRVC_ST_ESTABLISHED, SRVC_ST_CONNECTED, SRVC_ST_REESTABLISH}"
      by (cases "srvc_st s") auto
    with do_reestablish_inv [OF E'] ev show ?thesis by fastforce
  qed
next
  assume ev: "ev = SRVC_E_DISCONNECT"
  let ?s = "emit CliDestroy (s\<lparr>srvc_conn := False\<rparr>)"
  have "\<exists>s1. (if srvc_conn s then if destroy_cb E then srvc_disconnect_cb E ?s else Some ?s else Some s) = Some s1 \<and>
      reestablish_delay_idx s1 < REESTABLISH_DELAY_COUNT \<and> 0 \<le> reestablish_last_ms s1 \<and> env_ok E s1"
    using dispatch_TCP_DOWN [of E "?s\<lparr>srvc_ka := False\<rparr>" None] E srvc_invD [OF inv]
    by (auto simp: srvc_disconnect_cb_def)
  then show ?thesis
    using state_chg_init_inv ev by (fastforce simp: Let_def)
qed

lemma srvc_dispatch_inv:
  assumes E: "env_ok E s" and inv: "srvc_inv s" and d: "ev_data_ok ev pdu"
  shows "\<exists>rc s'. srvc_dispatch E ev pdu s = Some (rc, s') \<and> srvc_inv s'"
proof (cases "ev = SRVC_E_ESTABLISH \<or> ev = SRVC_E_DISCONNECT")
  case True
  then show ?thesis
    using allstate_inv [OF E inv True]
    by (auto simp: srvc_dispatch_def srvc_allstate_event_mask_def env_okD [OF E] bit_simps)
next
  case False
  then have "srvc_dispatch E ev pdu s = srvc_dispatch_state E ev pdu s"
    by (cases ev) (auto simp: srvc_dispatch_def srvc_allstate_event_mask_def env_okD [OF E] bit_simps)
  with dispatch_state_inv [OF E inv d] show ?thesis by simp
qed

lemma timer_inv:
  assumes E: "env_ok E s" and inv: "srvc_inv s" and T: "srvc_T s \<noteq> 0"
    and lib: "cli_create_ok E" "ka_alloc_ok E" "cli_open_ok E"
  shows "\<exists>s'. server_conn_fsm_timer_cb E s = Some s' \<and> srvc_inv s'"
proof (cases "srvc_st s")
  case SRVC_ST_REESTABLISH_DELAY
  then show ?thesis
    using inv lib env_okD(4) [OF E]
    by (simp add: srvc_inv_def srvc_state_chg_def env_okD [OF E] bit_simps Let_def
        srvc_st_reestablish_onenter_def T2_RECONNECT_def)
next
  case SRVC_ST_REESTABLISH
  then show ?thesis
    using do_reestablish_inv [OF E srvc_invD [OF inv]] inv by (auto simp: srvc_inv_def)
qed (use inv T in \<open>auto simp: srvc_inv_def\<close>)

section \<open>Reachable connections\<close>

text \<open>A step is an event from the owner or from the read callback, a callback of the stream or
  keep-alive library, or the expiry of the armed timer.\<close>

inductive srvc_reach :: "rspro_server_conn \<Rightarrow> bool" where
  alloc: "srvc_reach (server_conn_fsm_alloc s)"
| event: "srvc_reach s \<Longrightarrow> env_ok E s \<Longrightarrow> ev_data_ok ev pdu \<Longrightarrow> srvc_dispatch E ev pdu s = Some (rc, s') \<Longrightarrow>
     srvc_reach s'"
| send: "srvc_reach s \<Longrightarrow> env_ok E s \<Longrightarrow> server_conn_send_rspro E rspro s = Some (rc, s') \<Longrightarrow> srvc_reach s'"
| disconnected: "srvc_reach s \<Longrightarrow> env_ok E s \<Longrightarrow> srvc_disconnect_cb E s = Some s' \<Longrightarrow> srvc_reach s'"
| connected: "srvc_reach s \<Longrightarrow> env_ok E s \<Longrightarrow> srvc_connect_cb E s = Some s' \<Longrightarrow> srvc_reach s'"
| ka_timeout: "srvc_reach s \<Longrightarrow> env_ok E s \<Longrightarrow> ipa_keepalive_timeout_cb E s = Some s' \<Longrightarrow> srvc_reach s'"
| timer: "srvc_reach s \<Longrightarrow> env_ok E s \<Longrightarrow> 0 < srvc_timeout s \<Longrightarrow> srvc_T s \<noteq> 0 \<Longrightarrow>
     server_conn_fsm_timer_cb E s = Some s' \<Longrightarrow> srvc_reach s'"

lemma ev_data_ok_other [simp]: "ev \<noteq> SRVC_E_CLIENT_CONN_RES \<Longrightarrow> ev_data_ok ev pdu"
  by (simp add: ev_data_ok_def)

lemma timer_needs_lib:
  assumes E: "env_ok E s" and inv: "srvc_inv s"
    and S: "server_conn_fsm_timer_cb E s = Some s'" and st: "srvc_st s = SRVC_ST_REESTABLISH_DELAY"
  shows "cli_create_ok E \<and> ka_alloc_ok E \<and> cli_open_ok E"
  using S inv st
  by (auto simp: srvc_inv_def srvc_state_chg_def env_okD [OF E] bit_simps Let_def
      srvc_st_reestablish_onenter_def split: if_splits)

lemma timer_cb_inv:
  assumes E: "env_ok E s" and inv: "srvc_inv s" and T: "srvc_T s \<noteq> 0"
    and S: "server_conn_fsm_timer_cb E s = Some s'"
  shows "srvc_inv s'"
proof (cases "srvc_st s = SRVC_ST_REESTABLISH_DELAY")
  case True
  then show ?thesis
    using timer_needs_lib [OF E inv S True] timer_inv [OF E inv T] S by auto
next
  case False
  then have "srvc_T s \<noteq> 3"
    using inv by (auto simp: srvc_inv_def split: server_conn_fsm_state.splits)
  moreover have "srvc_T s = 2 \<Longrightarrow> srvc_st s = SRVC_ST_REESTABLISH"
    using inv by (auto simp: srvc_inv_def split: server_conn_fsm_state.splits)
  ultimately show ?thesis
    using S do_reestablish_inv [OF E srvc_invD [OF inv]] inv by (auto split: if_splits)
qed

lemma send_rspro_inv:
  assumes E: "env_ok E s" and inv: "srvc_inv s"
  shows "\<exists>rc s'. server_conn_send_rspro E rspro s = Some (rc, s') \<and> srvc_inv s'"
proof (cases rspro)
  case (Some p)
  obtain rc s' where "srvc_dispatch E SRVC_E_RSPRO_TX (Some p) s = Some (rc, s')" "srvc_inv s'"
    using srvc_dispatch_inv [OF E inv, of SRVC_E_RSPRO_TX "Some p"] by auto
  with Some show ?thesis by (cases "rc < 0") (simp_all add: server_conn_send_rspro_def)
qed (use inv in \<open>simp add: server_conn_send_rspro_def\<close>)

lemma srvc_reach_inv: "srvc_reach s \<Longrightarrow> srvc_inv s"
proof (induction rule: srvc_reach.induct)
  case (alloc s)
  then show ?case by (simp add: srvc_inv_def server_conn_fsm_alloc_def)
next
  case (event s E ev pdu rc s')
  then show ?case using srvc_dispatch_inv [of E s ev pdu] by auto
next
  case (send s E rspro rc s')
  then show ?case using send_rspro_inv [of E s rspro] by auto
next
  case (disconnected s E s')
  then show ?case
    using dispatch_state_inv [of E "s\<lparr>srvc_ka := False\<rparr>" SRVC_E_TCP_DOWN None]
    by (auto simp: srvc_disconnect_cb_def)
next
  case (connected s E s')
  then show ?case
    using dispatch_state_inv [of E s SRVC_E_TCP_UP None] by (auto simp: srvc_connect_cb_def)
next
  case (ka_timeout s E s')
  then show ?case
    using dispatch_state_inv [of E s SRVC_E_KA_TIMEOUT None] by (auto simp: ipa_keepalive_timeout_cb_def)
next
  case (timer s E s')
  then show ?case using timer_cb_inv by blast
qed

section \<open>Properties\<close>


definition ex_own :: app_comp_id where
  "ex_own = \<lparr>ac_type = ComponentType_remsimClient, ac_name = [0], ac_software = [0], ac_sw_version = [0],
     ac_hw_manufacturer = [0], ac_hw_model = [0], ac_hw_serial_nr = [0], ac_hw_version = [0], ac_fw_version = [0]\<rparr>"

definition ex_srvc :: "server_conn_fsm_state \<Rightarrow> nat \<Rightarrow> rspro_server_conn" where
  "ex_srvc st idx = \<lparr>srvc_conn = True, srvc_st = st, srvc_T = 0, srvc_timeout = 0, srvc_ka = True,
     reestablish_delay_idx = idx, reestablish_last_ms = 5000, own_comp_id = ex_own, peer_comp_id = ex_own,
     srvc_clslot = None, server_host = Some ''10.0.0.1'', server_port = 9998, srvc_parent = True,
     parent_conn_evt = 0, parent_disc_evt = 1, srvc_bank_id = 0, srvc_num_slots = 0, srvc_out = []\<rparr>"

definition ex_env :: "int \<Rightarrow> srvc_env" where
  "ex_env t = \<lparr>ev_ok = bit, st_ok = bit, now_ms = t, calloc_ok = True, enc_ok = (\<lambda>_. True),
     cli_create_ok = True, ka_alloc_ok = True, cli_open_ok = True, destroy_cb = True\<rparr>"

lemma ex_env_ok: "reestablish_last_ms s \<le> t \<Longrightarrow> 0 \<le> t \<Longrightarrow> env_ok (ex_env t) s"
  by (simp add: env_ok_def ex_env_def fsm_documented_def)


text \<open>\<open>server_conn_send_rspro\<close> answers -EINVAL to a NULL PDU and -EPERM in every state but
  CONNECTED, and sends nothing then. In CONNECTED it queues exactly the given PDU and answers 0;
  a PDU the encoder refuses is dropped, and the answer is 0 all the same.\<close>

theorem srvc_send_only_connected:
  assumes doc: "fsm_documented (ev_ok E) (st_ok E)"
  shows "server_conn_send_rspro E rspro s =
    Some (case rspro of None \<Rightarrow> (- EINVAL, s)
      | Some pdu \<Rightarrow>
          if srvc_st s = SRVC_ST_CONNECTED
          then (0, if enc_ok E pdu then s\<lparr>srvc_out := srvc_out s @ [TxRspro pdu]\<rparr> else s)
          else (- EPERM, s))"
proof -
  have ev: "\<And>m n. ev_ok E m n = bit m n"
    using doc by (simp add: fsm_documented_def)
  show ?thesis
    by (cases "srvc_st s")
      (auto simp: server_conn_send_rspro_def srvc_dispatch_def srvc_dispatch_state_def ev bit_simps
        srvc_allstate_event_mask_def cli_conn_send_rspro_def emit_def split: option.splits)
qed

theorem srvc_send_only_connected_witness:
  "server_conn_send_rspro (ex_env 70) (rspro_gen_SetAtrRes True 0) (ex_srvc SRVC_ST_ESTABLISHED 0) =
     Some (- EPERM, ex_srvc SRVC_ST_ESTABLISHED 0)"
  using srvc_send_only_connected [of "ex_env 70" "rspro_gen_SetAtrRes True 0" "ex_srvc SRVC_ST_ESTABLISHED 0"]
  by (simp add: ex_env_def fsm_documented_def ex_srvc_def rspro_gen_SetAtrRes_def mk_pdu_def)

text \<open>Backing off. When a connection in INIT, ESTABLISHED, CONNECTED or REESTABLISH is to be
  re-established, the machine waits in REESTABLISH_DELAY for 1 ms to 16 s, and the next attempt starts no
  sooner than the table's delay after the previous one. The index into the table starts over
  when the previous attempt is more than 32 s old and otherwise advances by one up to the last
  entry, so the delays never shrink while a server keeps failing.\<close>

theorem srvc_backoff:
  assumes E: "env_ok E s" and inv: "srvc_inv s"
    and st: "srvc_st s \<noteq> SRVC_ST_REESTABLISH_DELAY"
  defines "i \<equiv> if now_ms E - reestablish_last_ms s > 32000 then 0 else reestablish_delay_idx s"
  shows "\<exists>s'. srvc_do_reestablish E s = Some s' \<and> srvc_st s' = SRVC_ST_REESTABLISH_DELAY \<and>
    \<not> srvc_conn s' \<and> srvc_T s' = 3 \<and> 1 \<le> srvc_timeout s' \<and> srvc_timeout s' \<le> 16000 \<and>
    reestablish_last_ms s + 1000 * k_reestablish_delay_s ! i \<le> now_ms E + srvc_timeout s' \<and>
    reestablish_delay_idx s' = min (i + 1) (length k_reestablish_delay_s - 1) \<and>
    k_reestablish_delay_s ! i \<le> k_reestablish_delay_s ! reestablish_delay_idx s'"
proof -
  have st': "srvc_st s \<in> {SRVC_ST_INIT, SRVC_ST_ESTABLISHED, SRVC_ST_CONNECTED, SRVC_ST_REESTABLISH}"
    using st by (cases "srvc_st s") auto
  obtain s' where s': "srvc_do_reestablish E s = Some s'" "srvc_inv s'" "srvc_st s' = SRVC_ST_REESTABLISH_DELAY"
    using do_reestablish_inv [OF E srvc_invD [OF inv] st'] by auto
  have i: "i = reestablish_idx (now_ms E - reestablish_last_ms s) s"
    by (simp add: i_def reestablish_idx_def reset_ms_eq)
  have ib: "i < 124"
    using srvc_invD(1) [OF inv] by (simp add: i_def)
  have len: "length k_reestablish_delay_s = 124"
    by (simp add: k_reestablish_delay_s_def)
  have ev: "\<not> ev_ok E (srvc_in_event_mask SRVC_ST_REESTABLISH_DELAY) (srvc_ev_nr SRVC_E_TCP_DOWN)"
    by (simp add: env_okD [OF E])
  have ok: "st_ok E (srvc_out_state_mask (srvc_st s)) (srvc_st_nr SRVC_ST_REESTABLISH_DELAY)"
    using st' by (auto simp: env_okD [OF E] bit_simps)
  have f: "srvc_timeout s' = reestablish_delay_ms (now_ms E - reestablish_last_ms s) i \<and>
      reestablish_delay_idx s' = min (i + 1) 123"
    using s'(1) ok ev ib
    by (auto simp: srvc_do_reestablish_def srvc_state_chg_def Let_def srvc_st_reestablish_delay_onenter_def
        disconnect_cb_in_delay_def i [symmetric] split: if_splits)
  have need: "reestablish_last_ms s + 1000 * k_reestablish_delay_s ! i \<le> now_ms E + srvc_timeout s'"
    using f by (simp add: reestablish_delay_ms_def Let_def split: if_splits)
  have mono: "k_reestablish_delay_s ! i \<le> k_reestablish_delay_s ! min (i + 1) 123"
    using delay_sorted ib len by (intro sorted_nth_mono) auto
  from s' f need mono len show ?thesis by (auto simp: srvc_inv_def)
qed

theorem srvc_backoff_witness:
  "\<exists>s'. srvc_do_reestablish (ex_env 6000) (ex_srvc SRVC_ST_CONNECTED 40) = Some s' \<and>
     srvc_st s' = SRVC_ST_REESTABLISH_DELAY \<and> reestablish_delay_idx s' = 41"
proof -
  have "env_ok (ex_env 6000) (ex_srvc SRVC_ST_CONNECTED 40)"
    by (rule ex_env_ok) (simp_all add: ex_srvc_def)
  moreover have "srvc_inv (ex_srvc SRVC_ST_CONNECTED 40)" "length k_reestablish_delay_s = 124"
    by (simp_all add: srvc_inv_def ex_srvc_def k_reestablish_delay_s_def)
  ultimately show ?thesis
    using srvc_backoff [of "ex_env 6000" "ex_srvc SRVC_ST_CONNECTED 40"] by (auto simp: ex_srvc_def ex_env_def)
qed

declare server_conn_fsm_timer_cb.simps [simp del]

text \<open>The four steps of a reconnection, each with the state it leaves.\<close>

lemma lost_step:
  assumes E: "env_ok E s" and inv: "srvc_inv s" and st: "srvc_st s = SRVC_ST_CONNECTED" and par: "srvc_parent s"
  shows "\<exists>i d. i < REESTABLISH_DELAY_COUNT \<and> 1 \<le> d \<and> srvc_disconnect_cb E s =
    Some (s\<lparr>srvc_conn := False, srvc_st := SRVC_ST_REESTABLISH_DELAY, srvc_T := 3, srvc_timeout := d,
      srvc_ka := False, reestablish_delay_idx := i,
      srvc_out := srvc_out s @ [ParentEvent (parent_disc_evt s), CliDestroy]\<rparr>)"
proof -
  let ?d = "now_ms E - reestablish_last_ms s" and ?i = "reestablish_idx (now_ms E - reestablish_last_ms s) s"
  have i: "?i < 124" and d: "0 \<le> ?d" and c: "srvc_conn s"
    using inv env_okD(3) [OF E] st by (auto simp: srvc_inv_def reestablish_idx_def)
  define j where "j = (if ?i < 123 then ?i + 1 else ?i)"
  have idx: "reestablish_idx ?d (s\<lparr>srvc_ka := False\<rparr>) = ?i"
    by (simp add: reestablish_idx_def)
  have "srvc_disconnect_cb E s =
    Some (s\<lparr>srvc_conn := False, srvc_st := SRVC_ST_REESTABLISH_DELAY, srvc_T := 3,
      srvc_timeout := reestablish_delay_ms ?d ?i, srvc_ka := False, reestablish_delay_idx := j,
      srvc_out := srvc_out s @ [ParentEvent (parent_disc_evt s), CliDestroy]\<rparr>)"
    using st par c
    by (simp add: srvc_disconnect_cb_def srvc_dispatch_state_def env_okD [OF E] bit_simps srvc_do_reestablish_def
        srvc_state_chg_def Let_def srvc_st_reestablish_delay_onenter_def disconnect_cb_in_delay_def idx
        srvc_onleave_def srvc_st_connected_onleave_def emit_def j_def)
  moreover have "j < REESTABLISH_DELAY_COUNT"
    using i by (simp add: j_def)
  ultimately show ?thesis
    using delay_ms_range [OF i d] by blast
qed

lemma reopen_step:
  assumes doc: "fsm_documented (ev_ok E) (st_ok E)" and st: "srvc_st s = SRVC_ST_REESTABLISH_DELAY" "srvc_T s = 3"
    and lib: "cli_create_ok E" "ka_alloc_ok E" "cli_open_ok E"
  shows "server_conn_fsm_timer_cb E s =
    Some (s\<lparr>srvc_conn := True, srvc_st := SRVC_ST_REESTABLISH, srvc_T := 2, srvc_timeout := 10000,
      srvc_ka := True, reestablish_last_ms := now_ms E,
      srvc_out := srvc_out s @ [CliOpen (server_host s) (server_port s)]\<rparr>)"
proof -
  have ok: "\<And>m n. st_ok E m n = bit m n"
    using doc by (simp add: fsm_documented_def)
  show ?thesis
    using st lib
    by (simp add: server_conn_fsm_timer_cb.simps srvc_state_chg_def Let_def srvc_st_reestablish_onenter_def
        T2_RECONNECT_def srvc_onleave_def emit_def ok bit_simps)
qed

lemma connect_step:
  assumes doc: "fsm_documented (ev_ok E) (st_ok E)" and st: "srvc_st s = SRVC_ST_REESTABLISH"
    and lib: "calloc_ok E" "\<forall>p. enc_ok E p"
    and req: "(if ac_type (own_comp_id s) = ComponentType_remsimClient
               then rspro_gen_ConnectClientReq True (own_comp_id s) (srvc_clslot s)
               else rspro_gen_ConnectBankReq True (own_comp_id s) (srvc_bank_id s) (srvc_num_slots s)) = Some req"
  shows "srvc_connect_cb E s =
    Some (s\<lparr>srvc_st := SRVC_ST_ESTABLISHED, srvc_T := 1, srvc_timeout := 10000,
      srvc_out := srvc_out s @ [KaStart, TxRspro req]\<rparr>)"
proof -
  have ok: "\<And>m n. st_ok E m n = bit m n" "\<And>m n. ev_ok E m n = bit m n"
    using doc by (simp_all add: fsm_documented_def)
  show ?thesis
    using st lib req
    by (simp add: srvc_connect_cb_def srvc_dispatch_state_def srvc_state_chg_def Let_def
        srvc_st_established_onenter_def T1_WAIT_CLIENT_CONN_RES_def cli_conn_send_rspro_def
        srvc_onleave_def emit_def ok bit_simps split: if_splits)
qed

lemma accept_step:
  assumes doc: "fsm_documented (ev_ok E) (st_ok E)" and st: "srvc_st s = SRVC_ST_ESTABLISHED" "srvc_parent s"
    and res: "rspro_get_result res = Some ResultCode_ok"
  shows "srvc_dispatch E SRVC_E_CLIENT_CONN_RES (Some res) s =
    Some (0, s\<lparr>srvc_st := SRVC_ST_CONNECTED, srvc_T := 0, srvc_timeout := 0,
      srvc_out := srvc_out s @ [ParentEvent (parent_conn_evt s)]\<rparr>)"
proof -
  have ok: "\<And>m n. st_ok E m n = bit m n" "\<And>m n. ev_ok E m n = bit m n"
    using doc by (simp_all add: fsm_documented_def)
  show ?thesis
    using st res
    by (simp add: srvc_dispatch_def srvc_allstate_event_mask_def srvc_dispatch_state_def srvc_state_chg_def
        Let_def srvc_st_connected_onenter_def srvc_onleave_def emit_def ok bit_simps)
qed

lemma connect_req_Some:
  "\<exists>req. (if c then rspro_gen_ConnectClientReq True a sl else rspro_gen_ConnectBankReq True a b n) = Some req"
  by (simp add: rspro_gen_ConnectClientReq_def rspro_gen_ConnectBankReq_def mk_pdu_def)

text \<open>C17. A lost connection comes back. From CONNECTED, the loss of the link, the expiry of the
  delay timer, the connect callback of the stream and a positive ConnectClientRes lead to CONNECTED again,
  whatever the encoder and the clock do in between. On the way the machine tells its
  parent of the loss, destroys the old stream, opens one to the configured host and port, starts
  the keep-alive machine, identifies itself as the component it is, and tells its parent
  of the new connection: these effects, and no others, in this order.\<close>

theorem srvc_reconnects:
  assumes inv: "srvc_inv s" and st: "srvc_st s = SRVC_ST_CONNECTED" and par: "srvc_parent s"
    and E1: "env_ok E1 s"
    and E2: "fsm_documented (ev_ok E2) (st_ok E2)" "0 \<le> now_ms E2"
    and lib: "cli_create_ok E2" "ka_alloc_ok E2" "cli_open_ok E2"
    and E3: "fsm_documented (ev_ok E3) (st_ok E3)" "calloc_ok E3" "\<forall>p. enc_ok E3 p"
    and E4: "fsm_documented (ev_ok E4) (st_ok E4)"
    and res: "rspro_get_result res = Some ResultCode_ok"
  defines "req \<equiv> if ac_type (own_comp_id s) = ComponentType_remsimClient
                then rspro_gen_ConnectClientReq True (own_comp_id s) (srvc_clslot s)
                else rspro_gen_ConnectBankReq True (own_comp_id s) (srvc_bank_id s) (srvc_num_slots s)"
  shows "\<exists>s1 s2 s3 s4.
    srvc_disconnect_cb E1 s = Some s1 \<and> 0 < srvc_timeout s1 \<and>
    server_conn_fsm_timer_cb E2 s1 = Some s2 \<and>
    srvc_connect_cb E3 s2 = Some s3 \<and>
    srvc_dispatch E4 SRVC_E_CLIENT_CONN_RES (Some res) s3 = Some (0, s4) \<and>
    srvc_st s4 = SRVC_ST_CONNECTED \<and> srvc_inv s4 \<and>
    srvc_out s4 = srvc_out s @
      [ParentEvent (parent_disc_evt s), CliDestroy, CliOpen (server_host s) (server_port s),
       KaStart, TxRspro (the req), ParentEvent (parent_conn_evt s)]"
proof -
  obtain rq where rq: "req = Some rq"
    unfolding req_def using connect_req_Some by blast
  obtain i d where i: "i < REESTABLISH_DELAY_COUNT" "1 \<le> d"
    and s1: "srvc_disconnect_cb E1 s =
      Some (s\<lparr>srvc_conn := False, srvc_st := SRVC_ST_REESTABLISH_DELAY, srvc_T := 3, srvc_timeout := d,
        srvc_ka := False, reestablish_delay_idx := i,
        srvc_out := srvc_out s @ [ParentEvent (parent_disc_evt s), CliDestroy]\<rparr>)" (is "_ = Some ?s1")
    using lost_step [OF E1 inv st par] by blast
  let ?s2 = "?s1\<lparr>srvc_conn := True, srvc_st := SRVC_ST_REESTABLISH, srvc_T := 2, srvc_timeout := 10000,
    srvc_ka := True, reestablish_last_ms := now_ms E2,
    srvc_out := srvc_out ?s1 @ [CliOpen (server_host s) (server_port s)]\<rparr>"
  have s2: "server_conn_fsm_timer_cb E2 ?s1 = Some ?s2"
    using reopen_step [OF E2(1) _ _ lib, of ?s1] by simp
  let ?s3 = "?s2\<lparr>srvc_st := SRVC_ST_ESTABLISHED, srvc_T := 1, srvc_timeout := 10000,
    srvc_out := srvc_out ?s2 @ [KaStart, TxRspro rq]\<rparr>"
  have s3: "srvc_connect_cb E3 ?s2 = Some ?s3"
    using connect_step [OF E3(1) _ E3(2,3), of ?s2 rq] rq by (simp add: req_def split: if_splits)
  let ?s4 = "?s3\<lparr>srvc_st := SRVC_ST_CONNECTED, srvc_T := 0, srvc_timeout := 0,
    srvc_out := srvc_out ?s3 @ [ParentEvent (parent_conn_evt s)]\<rparr>"
  have s4: "srvc_dispatch E4 SRVC_E_CLIENT_CONN_RES (Some res) ?s3 = Some (0, ?s4)"
    using accept_step [OF E4 _ _ res, of ?s3] par by simp
  have "srvc_inv ?s4"
    using i E2(2) by (simp add: srvc_inv_def)
  moreover have "srvc_out ?s4 = srvc_out s @
      [ParentEvent (parent_disc_evt s), CliDestroy, CliOpen (server_host s) (server_port s),
       KaStart, TxRspro (the req), ParentEvent (parent_conn_evt s)]"
    using rq by simp
  moreover have "srvc_st ?s4 = SRVC_ST_CONNECTED" "0 < srvc_timeout ?s1"
    using i by simp_all
  ultimately show ?thesis
    using s1 s2 s3 s4 by blast
qed

theorem srvc_reconnects_witness:
  "\<exists>s1 s2 s3 s4.
    srvc_disconnect_cb (ex_env 6000) (ex_srvc SRVC_ST_CONNECTED 0) = Some s1 \<and>
    server_conn_fsm_timer_cb (ex_env 6001) s1 = Some s2 \<and>
    srvc_connect_cb (ex_env 6002) s2 = Some s3 \<and>
    srvc_dispatch (ex_env 6003) SRVC_E_CLIENT_CONN_RES (rspro_gen_ConnectClientRes True ex_own ResultCode_ok) s3 =
      Some (0, s4) \<and> srvc_st s4 = SRVC_ST_CONNECTED"
proof -
  obtain r where r: "rspro_gen_ConnectClientRes True ex_own ResultCode_ok = Some r"
      "rspro_get_result r = Some ResultCode_ok"
    by (simp add: rspro_gen_ConnectClientRes_def mk_pdu_def rspro_get_result_def)
  have "srvc_inv (ex_srvc SRVC_ST_CONNECTED 0)" "env_ok (ex_env 6000) (ex_srvc SRVC_ST_CONNECTED 0)"
    by (simp_all add: srvc_inv_def ex_srvc_def ex_env_ok)
  then show ?thesis
    using srvc_reconnects [of "ex_srvc SRVC_ST_CONNECTED 0" "ex_env 6000" "ex_env 6001" "ex_env 6002" "ex_env 6003" r] r
    by (fastforce simp: ex_srvc_def ex_env_def fsm_documented_def)
qed

text \<open>The read callback releases every message it is given exactly once, with one
  exception: an IPA connection-management message whose handling fails is released twice.
  A negative result of the stream library, a protocol other than IPA's and an IPA extension other
  than RSPRO close the connection with -EBADF; an undecodable PDU is dropped with -EIO and
  never reaches the owner's handler.\<close>

theorem srvc_read_cb_frees:
  assumes "srvc_read_cb C handle_rx res msg s = Some (rc, frees, s')"
  shows "(frees = 1 \<or> (frees = 2 \<and> 0 < res \<and> (\<exists>m. msg = IpaCcm m) \<and> rc < 0)) \<and>
    (res \<le> 0 \<or> msg = IpaOtherExt \<or> msg = IpaOtherProto \<longrightarrow> rc = - EBADF \<and> s' = emit CliClose s) \<and>
    (0 < res \<and> msg = IpaRspro None \<longrightarrow> rc = - EIO \<and> s' = s) \<and>
    (\<forall>pdu. 0 < res \<and> msg = IpaRspro (Some pdu) \<longrightarrow> handle_rx pdu s = Some (rc, s'))"
  using assms
  by (auto simp: srvc_read_cb_def Let_def EBADF_def EIO_def split: if_splits ipa_msg.splits option.splits
      Option.bind_splits)

theorem srvc_read_cb_frees_witness:
  "srvc_read_cb \<lparr>ccm_rcvmsg_rc = -1, id_resp_ok = True, id_ack_ok = True\<rparr> (\<lambda>_ s. Some (0, s)) 3
     (IpaCcm (Some IPAC_MSGT_OTHER)) (ex_srvc SRVC_ST_CONNECTED 0) = Some (-1, 2, ex_srvc SRVC_ST_CONNECTED 0) \<and>
   (2 = (1 :: nat) \<or> 2 = (2 :: nat))"
proof -
  have "srvc_read_cb \<lparr>ccm_rcvmsg_rc = -1, id_resp_ok = True, id_ack_ok = True\<rparr> (\<lambda>_ s. Some (0, s)) 3
     (IpaCcm (Some IPAC_MSGT_OTHER)) (ex_srvc SRVC_ST_CONNECTED 0) = Some (-1, 2, ex_srvc SRVC_ST_CONNECTED 0)"
    by (simp add: srvc_read_cb_def ipaccess_bts_handle_ccm_def)
  from this srvc_read_cb_frees [OF this] show ?thesis by simp
qed

end
