(* ===== verification/Server.thy ===== *)
theory Server
  imports Rspro_Util Slotmap
begin

text \<open>
  The RSPRO server of \<^verbatim>\<open>src/server/rspro_server.c\<close>: one finite state machine per connection
  of a client or a bankd, the three lists of connections, and the slot mappings with the five
  lists a bankd connection keeps of them. A connection object lives at a pointer (a
  \<open>connref\<close>); \<open>cc_fi\<close> is the state of its machine, \<open>None\<close> for a NULL \<open>fi\<close>, and \<open>cc_peer\<close>
  says whether its stream pointer is set. A PDU handed to a stream is appended to
  \<open>srv_sent\<close> with the connection it goes to. A handler returns \<open>None\<close> where the process
  aborts: a failed \<open>OSMO_ASSERT\<close>, a NULL stream handed to the stream library, or the first entry
  of an empty list (the pointer that \<open>llist_first_entry\<close> computes then is not a mapping).

  \<open>srv_env\<close> holds what libosmocore and the socket library answer during one step; the
  permission checks are those of Srvc_Fsm. Nested dispatches of the machine are calls of the
  definitions below it: a \<open>CL_CFG_BANKD\<close> (\<open>clnt_dispatch_cfg\<close>) is dispatched from the other
  actions, a \<open>PUSH\<close> (\<open>clnt_dispatch_push\<close>) from the acceptance of a bankd.
  A handler runs under the server's locks, so it is one step.
\<close>

section \<open>State\<close>

type_synonym connref = nat

datatype bank_list = maps_new | maps_unack | maps_active | maps_delreq | maps_deleting

datatype remsim_server_client_fsm_state =
  CLNTC_ST_INIT | CLNTC_ST_ESTABLISHED | CLNTC_ST_WAIT_CONF_RES | CLNTC_ST_CONNECTED_BANKD
  | CLNTC_ST_CONNECTED_CLIENT | CLNTC_ST_REJECTED

datatype remsim_server_client_event =
  CLNTC_E_TCP_UP | CLNTC_E_CLIENT_CONN | CLNTC_E_BANK_CONN | CLNTC_E_TCP_DOWN | CLNTC_E_KA_TIMEOUT
  | CLNTC_E_CREATE_MAP_RES | CLNTC_E_REMOVE_MAP_RES | CLNTC_E_CONFIG_CL_RES | CLNTC_E_PUSH
  | CLNTC_E_CL_CFG_BANKD

fun clntc_st_nr :: "remsim_server_client_fsm_state \<Rightarrow> nat" where
  "clntc_st_nr CLNTC_ST_INIT = 0"
| "clntc_st_nr CLNTC_ST_ESTABLISHED = 1"
| "clntc_st_nr CLNTC_ST_WAIT_CONF_RES = 2"
| "clntc_st_nr CLNTC_ST_CONNECTED_BANKD = 3"
| "clntc_st_nr CLNTC_ST_CONNECTED_CLIENT = 4"
| "clntc_st_nr CLNTC_ST_REJECTED = 5"

fun clntc_ev_nr :: "remsim_server_client_event \<Rightarrow> nat" where
  "clntc_ev_nr CLNTC_E_TCP_UP = 0"
| "clntc_ev_nr CLNTC_E_CLIENT_CONN = 1"
| "clntc_ev_nr CLNTC_E_BANK_CONN = 2"
| "clntc_ev_nr CLNTC_E_TCP_DOWN = 3"
| "clntc_ev_nr CLNTC_E_KA_TIMEOUT = 4"
| "clntc_ev_nr CLNTC_E_CREATE_MAP_RES = 5"
| "clntc_ev_nr CLNTC_E_REMOVE_MAP_RES = 6"
| "clntc_ev_nr CLNTC_E_CONFIG_CL_RES = 7"
| "clntc_ev_nr CLNTC_E_PUSH = 8"
| "clntc_ev_nr CLNTC_E_CL_CFG_BANKD = 9"

record rspro_client_conn =
  cc_peer :: bool
  cc_fi :: "remsim_server_client_fsm_state option"
  cc_T :: nat
  cc_ka :: bool
  cc_comp_id :: app_comp_id
  cc_bank_id :: u16
  cc_num_slots :: u16
  cc_slot :: client_slot
  cc_bankd_slot :: bank_slot
  cc_bankd_ip :: u32
  cc_bankd_port :: u16

record rspro_server =
  srv_connections :: "connref list"
  srv_clients :: "connref list"
  srv_banks :: "connref list"
  srv_conns :: "connref \<Rightarrow> rspro_client_conn option"
  srv_slotmaps :: "(connref \<times> bank_list) slotmaps"
  srv_comp_id :: app_comp_id
  srv_sent :: "(connref \<times> RsproPDU_t) list"
  srv_event :: bool

record srv_env =
  se_ev_ok :: "u32 \<Rightarrow> nat \<Rightarrow> bool"
  se_st_ok :: "u32 \<Rightarrow> nat \<Rightarrow> bool"
  se_calloc_ok :: bool
  se_enc_ok :: "RsproPDU_t \<Rightarrow> bool"
  se_peer_ip :: "connref \<Rightarrow> u32 option"

definition upd_conn ::
  "connref \<Rightarrow> (rspro_client_conn \<Rightarrow> rspro_client_conn) \<Rightarrow> rspro_server \<Rightarrow> rspro_server" where
  "upd_conn c f srv = srv\<lparr>srv_conns := (srv_conns srv)(c := map_option f (srv_conns srv c))\<rparr>"

definition upd_maps ::
  "((connref \<times> bank_list) slotmaps \<Rightarrow> (connref \<times> bank_list) slotmaps) \<Rightarrow> rspro_server \<Rightarrow> rspro_server" where
  "upd_maps f srv = srv\<lparr>srv_slotmaps := f (srv_slotmaps srv)\<rparr>"

section \<open>Lookups and sending\<close>

definition slotmap2CreateMappingReq :: "bool \<Rightarrow> slot_mapping \<Rightarrow> RsproPDU_t option" where
  "slotmap2CreateMappingReq calloc m =
     rspro_gen_CreateMappingReq calloc (client_slot2rspro (sm_client m)) (bank_slot2rspro (sm_bank m))"

definition slotmap2RemoveMappingReq :: "bool \<Rightarrow> slot_mapping \<Rightarrow> RsproPDU_t option" where
  "slotmap2RemoveMappingReq calloc m =
     rspro_gen_RemoveMappingReq calloc (client_slot2rspro (sm_client m)) (bank_slot2rspro (sm_bank m))"

definition client_conn_send ::
  "srv_env \<Rightarrow> connref \<Rightarrow> RsproPDU_t option \<Rightarrow> rspro_server \<Rightarrow> rspro_server option" where
  "client_conn_send E c pdu srv =
     (case pdu of
        None \<Rightarrow> Some srv
      | Some p \<Rightarrow>
          if \<not> se_enc_ok E p then Some srv
          else do {
            conn \<leftarrow> srv_conns srv c;
            if cc_peer conn then Some (srv\<lparr>srv_sent := srv_sent srv @ [(c, p)]\<rparr>) else None
          })"

definition client_conn_by_slot :: "rspro_server \<Rightarrow> client_slot \<Rightarrow> connref option" where
  "client_conn_by_slot srv cslot =
     List.find (\<lambda>c. case srv_conns srv c of
                      Some conn \<Rightarrow> client_slot_equals (cc_slot conn) cslot
                    | None \<Rightarrow> False) (srv_clients srv)"

definition bankd_conn_by_id :: "rspro_server \<Rightarrow> u16 \<Rightarrow> connref option" where
  "bankd_conn_by_id srv bid =
     List.find (\<lambda>c. case srv_conns srv c of
                      Some conn \<Rightarrow> cc_bank_id conn = bid
                    | None \<Rightarrow> False) (srv_banks srv)"

section \<open>State table\<close>

fun clnt_in_event_mask :: "remsim_server_client_fsm_state \<Rightarrow> u32" where
  "clnt_in_event_mask CLNTC_ST_INIT = S (clntc_ev_nr CLNTC_E_TCP_UP)"
| "clnt_in_event_mask CLNTC_ST_ESTABLISHED =
     S (clntc_ev_nr CLNTC_E_CLIENT_CONN) OR S (clntc_ev_nr CLNTC_E_BANK_CONN)"
| "clnt_in_event_mask CLNTC_ST_WAIT_CONF_RES = S (clntc_ev_nr CLNTC_E_CONFIG_CL_RES)"
| "clnt_in_event_mask CLNTC_ST_CONNECTED_CLIENT = S (clntc_ev_nr CLNTC_E_CL_CFG_BANKD)"
| "clnt_in_event_mask CLNTC_ST_CONNECTED_BANKD =
     S (clntc_ev_nr CLNTC_E_CREATE_MAP_RES) OR S (clntc_ev_nr CLNTC_E_REMOVE_MAP_RES) OR
     S (clntc_ev_nr CLNTC_E_PUSH)"
| "clnt_in_event_mask CLNTC_ST_REJECTED = 0"

fun clnt_out_state_mask :: "remsim_server_client_fsm_state \<Rightarrow> u32" where
  "clnt_out_state_mask CLNTC_ST_INIT = S (clntc_st_nr CLNTC_ST_ESTABLISHED)"
| "clnt_out_state_mask CLNTC_ST_ESTABLISHED =
     S (clntc_st_nr CLNTC_ST_CONNECTED_CLIENT) OR S (clntc_st_nr CLNTC_ST_WAIT_CONF_RES) OR
     S (clntc_st_nr CLNTC_ST_CONNECTED_BANKD) OR S (clntc_st_nr CLNTC_ST_REJECTED)"
| "clnt_out_state_mask CLNTC_ST_WAIT_CONF_RES = S (clntc_st_nr CLNTC_ST_CONNECTED_CLIENT)"
| "clnt_out_state_mask CLNTC_ST_CONNECTED_CLIENT = 0"
| "clnt_out_state_mask CLNTC_ST_CONNECTED_BANKD = 0"
| "clnt_out_state_mask CLNTC_ST_REJECTED = 0"

definition clnt_allstate_event_mask :: u32 where
  "clnt_allstate_event_mask = S (clntc_ev_nr CLNTC_E_TCP_DOWN) OR S (clntc_ev_nr CLNTC_E_KA_TIMEOUT)"

section \<open>Configuring clients\<close>

definition clnt_st_connected_client ::
  "srv_env \<Rightarrow> connref \<Rightarrow> remsim_server_client_event \<Rightarrow> rspro_server \<Rightarrow> rspro_server option" where
  "clnt_st_connected_client E c ev srv =
     (if ev = CLNTC_E_CL_CFG_BANKD then
        do {
          conn \<leftarrow> srv_conns srv c;
          client_conn_send E c
            (rspro_gen_ConfigClientBankReq (se_calloc_ok E) (bank_slot2rspro (cc_bankd_slot conn))
               (cc_bankd_ip conn) (cc_bankd_port conn)) srv
        }
      else None)"

text \<open>\<open>osmo_fsm_inst_dispatch(conn->fi, CLNTC_E_CL_CFG_BANKD, NULL)\<close>. Only the action of
  CONNECTED_CLIENT handles the event: REJECTED has no action, the others assert. A NULL
  instance is refused by the library.\<close>

definition clnt_dispatch_cfg :: "srv_env \<Rightarrow> connref \<Rightarrow> rspro_server \<Rightarrow> rspro_server option" where
  "clnt_dispatch_cfg E c srv =
     do {
       conn \<leftarrow> srv_conns srv c;
       case cc_fi conn of
         None \<Rightarrow> Some srv
       | Some st \<Rightarrow>
           if \<not> se_ev_ok E (clnt_in_event_mask st) (clntc_ev_nr CLNTC_E_CL_CFG_BANKD) then Some srv
           else if st = CLNTC_ST_CONNECTED_CLIENT then clnt_st_connected_client E c CLNTC_E_CL_CFG_BANKD srv
           else if st = CLNTC_ST_REJECTED then Some srv
           else None
     }"

text \<open>The end of \<open>_update_client_for_slotmap\<close>, once the address of the bankd is known.\<close>

definition set_client_bankd ::
  "srv_env \<Rightarrow> connref \<Rightarrow> bool \<Rightarrow> u32 \<Rightarrow> u16 \<Rightarrow> rspro_server \<Rightarrow> rspro_server option" where
  "set_client_bankd E c changed ip port srv =
     do {
       conn \<leftarrow> srv_conns srv c;
       let addr_changed = (cc_bankd_port conn \<noteq> port \<or> cc_bankd_ip conn \<noteq> ip);
       let srv1 = (if addr_changed
                   then upd_conn c (\<lambda>cn. cn\<lparr>cc_bankd_ip := ip, cc_bankd_port := port\<rparr>) srv else srv);
       if changed \<or> addr_changed then clnt_dispatch_cfg E c srv1 else Some srv1
     }"

definition update_client_for_slotmap ::
  "srv_env \<Rightarrow> slot_mapping \<Rightarrow> connref option \<Rightarrow> rspro_server \<Rightarrow> rspro_server option" where
  "update_client_for_slotmap E smap bankd_conn srv =
     (case client_conn_by_slot srv (sm_client smap) of
        None \<Rightarrow> Some srv
      | Some c \<Rightarrow>
          do {
            conn \<leftarrow> srv_conns srv c;
            let changed = (\<not> bank_slot_equals (cc_bankd_slot conn) (sm_bank smap));
            let srv1 = (if changed then upd_conn c (cc_bankd_slot_update (\<lambda>_. sm_bank smap)) srv else srv);
            let bankd = (case bankd_conn of
                           None \<Rightarrow> bankd_conn_by_id srv1 (bank_id (sm_bank smap)) | Some b \<Rightarrow> Some b);
            case (if sm_state smap = SLMAP_S_DELETING then None else bankd) of
              None \<Rightarrow> set_client_bankd E c changed 0 0 srv1
            | Some b \<Rightarrow>
                do {
                  bconn \<leftarrow> srv_conns srv1 b;
                  if \<not> cc_peer bconn then None
                  else case se_peer_ip E b of
                         None \<Rightarrow> Some srv1
                       | Some ip \<Rightarrow> set_client_bankd E c changed ip 9999 srv1
                }
          })"

definition clnt_st_connected_client_onenter ::
  "srv_env \<Rightarrow> connref \<Rightarrow> rspro_server \<Rightarrow> rspro_server option" where
  "clnt_st_connected_client_onenter E c srv =
     do {
       conn \<leftarrow> srv_conns srv c;
       case slotmap_by_client (srv_slotmaps srv) (cc_slot conn) of
         None \<Rightarrow> Some srv
       | Some p \<Rightarrow> do { m \<leftarrow> sm_heap (srv_slotmaps srv) p; update_client_for_slotmap E m None srv }
     }"

section \<open>Driving a bankd\<close>

text \<open>The loop of \<open>clnt_st_connected_bankd_onenter\<close>.\<close>

fun associate_maps ::
  "connref \<Rightarrow> u16 \<Rightarrow> mapref list \<Rightarrow> (connref \<times> bank_list) slotmaps \<Rightarrow> (connref \<times> bank_list) slotmaps" where
  "associate_maps c bid [] sm = sm"
| "associate_maps c bid (p # ps) sm =
     associate_maps c bid ps
       (case sm_heap sm p of
          Some m \<Rightarrow> if bank_id (sm_bank m) = bid then Slotmap_state_change sm p SLMAP_S_NEW (Some (c, maps_new)) else sm
        | None \<Rightarrow> sm)"

definition clnt_st_connected_bankd_onenter :: "connref \<Rightarrow> rspro_server \<Rightarrow> rspro_server option" where
  "clnt_st_connected_bankd_onenter c srv =
     do {
       conn \<leftarrow> srv_conns srv c;
       Some (upd_maps (associate_maps c (cc_bank_id conn) (mappings (srv_slotmaps srv))) srv)
     }"

text \<open>The two loops of a PUSH differ in the request they send and in the state and list the
  mapping moves to. The safe iteration has fetched the next entry before the current
  one moves to the other list, so it walks over the list as it was.\<close>

fun push_maps ::
  "srv_env \<Rightarrow> connref \<Rightarrow> (bool \<Rightarrow> slot_mapping \<Rightarrow> RsproPDU_t option) \<Rightarrow> slot_mapping_state \<Rightarrow> bank_list \<Rightarrow> mapref list \<Rightarrow>
     rspro_server \<Rightarrow> rspro_server option" where
  "push_maps E c gen st l [] srv = Some srv"
| "push_maps E c gen st l (p # ps) srv =
     do {
       m \<leftarrow> sm_heap (srv_slotmaps srv) p;
       srv1 \<leftarrow> client_conn_send E c (gen (se_calloc_ok E) m) srv;
       push_maps E c gen st l ps (upd_maps (\<lambda>sm. Slotmap_state_change sm p st (Some (c, l))) srv1)
     }"

fun clnt_st_connected_bankd ::
  "srv_env \<Rightarrow> connref \<Rightarrow> remsim_server_client_event \<Rightarrow> rspro_server \<Rightarrow> rspro_server option" where
  "clnt_st_connected_bankd E c CLNTC_E_CREATE_MAP_RES srv =
     (case bank_lists (srv_slotmaps srv) (c, maps_unack) of
        [] \<Rightarrow> None
      | p # _ \<Rightarrow>
          let srv1 = upd_maps (\<lambda>sm. Slotmap_state_change sm p SLMAP_S_ACTIVE (Some (c, maps_active))) srv
          in do { m \<leftarrow> sm_heap (srv_slotmaps srv1) p; update_client_for_slotmap E m (Some c) srv1 })"
| "clnt_st_connected_bankd E c CLNTC_E_REMOVE_MAP_RES srv =
     (case bank_lists (srv_slotmaps srv) (c, maps_deleting) of
        [] \<Rightarrow> None
      | p # _ \<Rightarrow>
          do {
            m \<leftarrow> sm_heap (srv_slotmaps srv) p;
            if sm_state m \<noteq> SLMAP_S_DELETING then None
            else do {
              srv1 \<leftarrow> update_client_for_slotmap E m (Some c) srv;
              Some (upd_maps (\<lambda>sm. slotmap_del sm p) srv1)
            }
          })"
| "clnt_st_connected_bankd E c CLNTC_E_PUSH srv =
     do {
       srv1 \<leftarrow> push_maps E c slotmap2CreateMappingReq SLMAP_S_UNACKNOWLEDGED maps_unack
         (bank_lists (srv_slotmaps srv) (c, maps_new)) srv;
       push_maps E c slotmap2RemoveMappingReq SLMAP_S_DELETING maps_deleting
         (bank_lists (srv_slotmaps srv1) (c, maps_delreq)) srv1
     }"
| "clnt_st_connected_bankd E c _ srv = None"

text \<open>\<open>osmo_fsm_inst_dispatch(conn->fi, CLNTC_E_PUSH, NULL)\<close>.\<close>

definition clnt_dispatch_push :: "srv_env \<Rightarrow> connref \<Rightarrow> rspro_server \<Rightarrow> rspro_server option" where
  "clnt_dispatch_push E c srv =
     do {
       conn \<leftarrow> srv_conns srv c;
       case cc_fi conn of
         None \<Rightarrow> Some srv
       | Some st \<Rightarrow>
           if \<not> se_ev_ok E (clnt_in_event_mask st) (clntc_ev_nr CLNTC_E_PUSH) then Some srv
           else if st = CLNTC_ST_CONNECTED_BANKD then clnt_st_connected_bankd E c CLNTC_E_PUSH srv
           else if st = CLNTC_ST_REJECTED then Some srv
           else None
     }"

section \<open>Termination of a connection\<close>

definition unlink_all_slotmaps ::
  "connref \<Rightarrow> (connref \<times> bank_list) slotmaps \<Rightarrow> (connref \<times> bank_list) slotmaps" where
  "unlink_all_slotmaps c sm =
     (let to_new = (\<lambda>sm p. Slotmap_state_change sm p SLMAP_S_NEW None);
          sm1 = foldl to_new sm (bank_lists sm (c, maps_new));
          sm2 = foldl to_new sm1 (bank_lists sm1 (c, maps_unack));
          sm3 = foldl to_new sm2 (bank_lists sm2 (c, maps_active));
          sm4 = foldl slotmap_del sm3 (bank_lists sm3 (c, maps_delreq))
      in foldl slotmap_del sm4 (bank_lists sm4 (c, maps_deleting)))"

text \<open>\<open>rspro_client_conn_destroy\<close>. With the stream still there it only destroys that; the
  closed callback then frees the keep-alive machine and, \<open>fi\<close> being NULL, does nothing else.\<close>

definition rspro_client_conn_destroy :: "connref \<Rightarrow> rspro_server \<Rightarrow> rspro_server option" where
  "rspro_client_conn_destroy c srv =
     do {
       conn \<leftarrow> srv_conns srv c;
       if cc_peer conn then Some (upd_conn c (\<lambda>cn. cn\<lparr>cc_peer := False, cc_ka := False\<rparr>) srv)
       else let srv1 = upd_maps (unlink_all_slotmaps c) srv
            in Some (srv1\<lparr>srv_connections := removeAll c (srv_connections srv1),
                          srv_clients := removeAll c (srv_clients srv1),
                          srv_banks := removeAll c (srv_banks srv1),
                          srv_conns := (srv_conns srv1)(c := None)\<rparr>)
     }"

text \<open>\<open>osmo_fsm_inst_term(conn->fi, ...)\<close>, which calls \<open>server_client_cleanup\<close>.\<close>

definition server_client_cleanup :: "connref \<Rightarrow> rspro_server \<Rightarrow> rspro_server option" where
  "server_client_cleanup c srv = rspro_client_conn_destroy c (upd_conn c (cc_fi_update (\<lambda>_. None)) srv)"

definition clnt_allstate_action ::
  "connref \<Rightarrow> remsim_server_client_event \<Rightarrow> rspro_server \<Rightarrow> rspro_server option" where
  "clnt_allstate_action c ev srv =
     (if ev = CLNTC_E_TCP_DOWN \<or> ev = CLNTC_E_KA_TIMEOUT then server_client_cleanup c srv else None)"

definition server_client_fsm_timer_cb :: "connref \<Rightarrow> rspro_server \<Rightarrow> rspro_server option" where
  "server_client_fsm_timer_cb c srv =
     do {
       conn \<leftarrow> srv_conns srv c;
       if cc_T conn = 1 \<or> cc_T conn = 2 then server_client_cleanup c srv else None
     }"

section \<open>The state machine of a connection\<close>

fun clnt_onenter ::
  "srv_env \<Rightarrow> connref \<Rightarrow> remsim_server_client_fsm_state \<Rightarrow> rspro_server \<Rightarrow> rspro_server option" where
  "clnt_onenter E c CLNTC_ST_CONNECTED_CLIENT srv = clnt_st_connected_client_onenter E c srv"
| "clnt_onenter E c CLNTC_ST_CONNECTED_BANKD srv = clnt_st_connected_bankd_onenter c srv"
| "clnt_onenter E c _ srv = Some srv"

definition clnt_state_chg ::
  "srv_env \<Rightarrow> connref \<Rightarrow> remsim_server_client_fsm_state \<Rightarrow> nat \<Rightarrow> rspro_server \<Rightarrow> rspro_server option" where
  "clnt_state_chg E c new T srv =
     do {
       conn \<leftarrow> srv_conns srv c;
       st \<leftarrow> cc_fi conn;
       if \<not> se_st_ok E (clnt_out_state_mask st) (clntc_st_nr new) then Some srv
       else clnt_onenter E c new (upd_conn c (\<lambda>cn. cn\<lparr>cc_fi := Some new, cc_T := T\<rparr>) srv)
     }"

definition reject_conn :: "srv_env \<Rightarrow> connref \<Rightarrow> RsproPDU_t option \<Rightarrow> connref \<Rightarrow> rspro_server \<Rightarrow> rspro_server option" where
  "reject_conn E c resp prev srv =
     do {
       pconn \<leftarrow> srv_conns srv prev;
       if \<not> cc_peer pconn then None
       else do {
         srv1 \<leftarrow> client_conn_send E c resp srv;
         clnt_state_chg E c CLNTC_ST_REJECTED 2 srv1
       }
     }"

text \<open>Acceptance: the connection moves to the list of its kind, gets a positive answer and
  enters its final state; a bankd is then sent what is pending for it.\<close>

definition accept_client :: "srv_env \<Rightarrow> connref \<Rightarrow> rspro_server \<Rightarrow> rspro_server option" where
  "accept_client E c srv =
     do {
       let srv1 = srv\<lparr>srv_connections := removeAll c (srv_connections srv),
                      srv_clients := removeAll c (srv_clients srv) @ [c],
                      srv_banks := removeAll c (srv_banks srv)\<rparr>;
       srv2 \<leftarrow> client_conn_send E c
         (rspro_gen_ConnectClientRes (se_calloc_ok E) (srv_comp_id srv1) ResultCode_ok) srv1;
       clnt_state_chg E c CLNTC_ST_CONNECTED_CLIENT 0 srv2
     }"

definition accept_bankd :: "srv_env \<Rightarrow> connref \<Rightarrow> rspro_server \<Rightarrow> rspro_server option" where
  "accept_bankd E c srv =
     do {
       let srv1 = srv\<lparr>srv_connections := removeAll c (srv_connections srv),
                      srv_clients := removeAll c (srv_clients srv),
                      srv_banks := removeAll c (srv_banks srv) @ [c]\<rparr>;
       srv2 \<leftarrow> client_conn_send E c
         (rspro_gen_ConnectBankRes (se_calloc_ok E) (srv_comp_id srv1) ResultCode_ok) srv1;
       srv3 \<leftarrow> clnt_state_chg E c CLNTC_ST_CONNECTED_BANKD 0 srv2;
       clnt_dispatch_push E c srv3
     }"

text \<open>The two cases of \<open>clnt_st_established\<close>. The address of the previous connection, which the
  rejection logs, is asked of its stream.\<close>

definition clnt_established_client_conn ::
  "srv_env \<Rightarrow> connref \<Rightarrow> ComponentIdentity_t \<Rightarrow> ClientSlot_t option \<Rightarrow> rspro_server \<Rightarrow> rspro_server option" where
  "clnt_established_client_conn E c ident clientSlot srv =
     (let cid = rspro_comp_id_retrieve ident;
          srv1 = upd_conn c (cc_comp_id_update (\<lambda>_. cid)) srv
      in if ac_type cid \<noteq> ComponentType_remsimClient then server_client_cleanup c srv1
         else case clientSlot of
           None \<Rightarrow> server_client_cleanup c srv1
         | Some csl \<Rightarrow>
             let slot = rspro2client_slot csl;
                 srv2 = upd_conn c (cc_slot_update (\<lambda>_. slot)) srv1
             in case client_conn_by_slot srv2 slot of
                  Some prev \<Rightarrow>
                    if prev \<noteq> c then
                      reject_conn E c (rspro_gen_ConnectClientRes (se_calloc_ok E) (srv_comp_id srv2) ResultCode_identityInUse)
                        prev srv2
                    else accept_client E c srv2
                | None \<Rightarrow> accept_client E c srv2)"

definition clnt_established_bank_conn ::
  "srv_env \<Rightarrow> connref \<Rightarrow> ComponentIdentity_t \<Rightarrow> int \<Rightarrow> int \<Rightarrow> rspro_server \<Rightarrow> rspro_server option" where
  "clnt_established_bank_conn E c ident bankId numberOfSlots srv =
     (let cid = rspro_comp_id_retrieve ident;
          srv1 = upd_conn c (cc_comp_id_update (\<lambda>_. cid)) srv
      in if ac_type cid \<noteq> ComponentType_remsimBankd then server_client_cleanup c srv1
         else
           let srv2 = upd_conn c (\<lambda>cn. cn\<lparr>cc_bank_id := word_of_int bankId,
                                          cc_num_slots := word_of_int numberOfSlots\<rparr>) srv1
           in case bankd_conn_by_id srv2 (word_of_int bankId) of
                Some prev \<Rightarrow>
                  if prev \<noteq> c then
                    reject_conn E c (rspro_gen_ConnectBankRes (se_calloc_ok E) (srv_comp_id srv2) ResultCode_identityInUse)
                      prev srv2
                  else accept_bankd E c srv2
              | None \<Rightarrow> accept_bankd E c srv2)"

text \<open>\<open>clnt_st_established\<close>: it reads the file descriptor of the stream first.\<close>

definition clnt_st_established ::
  "srv_env \<Rightarrow> connref \<Rightarrow> remsim_server_client_event \<Rightarrow> RsproPDU_t option \<Rightarrow> rspro_server \<Rightarrow> rspro_server option" where
  "clnt_st_established E c ev data srv =
     do {
       conn \<leftarrow> srv_conns srv c;
       if \<not> cc_peer conn then None
       else do {
         pdu \<leftarrow> data;
         case (ev, pdu_msg pdu) of
           (CLNTC_E_CLIENT_CONN, connectClientReq ident csl) \<Rightarrow> clnt_established_client_conn E c ident csl srv
         | (CLNTC_E_BANK_CONN, connectBankReq ident b n) \<Rightarrow> clnt_established_bank_conn E c ident b n srv
         | _ \<Rightarrow> None
       }
     }"

definition clnt_st_init ::
  "srv_env \<Rightarrow> connref \<Rightarrow> remsim_server_client_event \<Rightarrow> rspro_server \<Rightarrow> rspro_server option" where
  "clnt_st_init E c ev srv =
     (if ev = CLNTC_E_TCP_UP then clnt_state_chg E c CLNTC_ST_ESTABLISHED 1 srv else None)"

definition clnt_st_wait_cl_conf_res ::
  "srv_env \<Rightarrow> connref \<Rightarrow> remsim_server_client_event \<Rightarrow> rspro_server \<Rightarrow> rspro_server option" where
  "clnt_st_wait_cl_conf_res E c ev srv =
     (if ev = CLNTC_E_CONFIG_CL_RES then clnt_state_chg E c CLNTC_ST_CONNECTED_CLIENT 0 srv else None)"

fun clnt_action ::
  "srv_env \<Rightarrow> connref \<Rightarrow> remsim_server_client_fsm_state \<Rightarrow> remsim_server_client_event \<Rightarrow> RsproPDU_t option \<Rightarrow>
     rspro_server \<Rightarrow> rspro_server option" where
  "clnt_action E c CLNTC_ST_INIT ev data srv = clnt_st_init E c ev srv"
| "clnt_action E c CLNTC_ST_ESTABLISHED ev data srv = clnt_st_established E c ev data srv"
| "clnt_action E c CLNTC_ST_WAIT_CONF_RES ev data srv = clnt_st_wait_cl_conf_res E c ev srv"
| "clnt_action E c CLNTC_ST_CONNECTED_CLIENT ev data srv = clnt_st_connected_client E c ev srv"
| "clnt_action E c CLNTC_ST_CONNECTED_BANKD ev data srv = clnt_st_connected_bankd E c ev srv"
| "clnt_action E c CLNTC_ST_REJECTED ev data srv = Some srv"

text \<open>\<open>osmo_fsm_inst_dispatch(conn->fi, ev, data)\<close>; every caller ignores its result code.\<close>

definition clnt_dispatch ::
  "srv_env \<Rightarrow> connref \<Rightarrow> remsim_server_client_event \<Rightarrow> RsproPDU_t option \<Rightarrow> rspro_server \<Rightarrow> rspro_server option" where
  "clnt_dispatch E c ev data srv =
     do {
       conn \<leftarrow> srv_conns srv c;
       case cc_fi conn of
         None \<Rightarrow> Some srv
       | Some st \<Rightarrow>
           if se_ev_ok E clnt_allstate_event_mask (clntc_ev_nr ev) then clnt_allstate_action c ev srv
           else if se_ev_ok E (clnt_in_event_mask st) (clntc_ev_nr ev) then clnt_action E c st ev data srv
           else Some srv
     }"

section \<open>Callbacks\<close>

definition handle_rx_rspro ::
  "srv_env \<Rightarrow> connref \<Rightarrow> RsproPDU_t \<Rightarrow> rspro_server \<Rightarrow> (int \<times> rspro_server) option" where
  "handle_rx_rspro E c pdu srv =
     (let disp = (\<lambda>ev. map_option (Pair 0) (clnt_dispatch E c ev (Some pdu) srv))
      in case pdu_msg pdu of
           connectClientReq _ _ \<Rightarrow> disp CLNTC_E_CLIENT_CONN
         | connectBankReq _ _ _ \<Rightarrow> disp CLNTC_E_BANK_CONN
         | createMappingRes _ \<Rightarrow> disp CLNTC_E_CREATE_MAP_RES
         | removeMappingRes _ \<Rightarrow> disp CLNTC_E_REMOVE_MAP_RES
         | configClientIdRes _ \<Rightarrow> disp CLNTC_E_CONFIG_CL_RES
         | configClientBankRes _ \<Rightarrow> Some (0, srv)
         | _ \<Rightarrow> Some (-1, srv))"

definition sock_closed_cb :: "srv_env \<Rightarrow> connref \<Rightarrow> rspro_server \<Rightarrow> rspro_server option" where
  "sock_closed_cb E c srv =
     do {
       conn \<leftarrow> srv_conns srv c;
       let srv1 = upd_conn c (cc_ka_update (\<lambda>_. False)) srv;
       if cc_fi conn \<noteq> None \<and> cc_peer conn
       then clnt_dispatch E c CLNTC_E_TCP_DOWN None (upd_conn c (cc_peer_update (\<lambda>_. False)) srv1)
       else Some srv1
     }"

definition srv_ka_timeout_cb :: "srv_env \<Rightarrow> connref \<Rightarrow> rspro_server \<Rightarrow> rspro_server option" where
  "srv_ka_timeout_cb E c srv = clnt_dispatch E c CLNTC_E_KA_TIMEOUT None srv"

text \<open>A received IPA message, and what libosmocore's IPA functions answer about it.\<close>

datatype srv_ccm = CCM_PING | CCM_PONG | CCM_ID_ACK | CCM_ID_RESP | CCM_OTHER

datatype srv_msg = SrvCcm "srv_ccm option" | SrvRspro "RsproPDU_t option" | SrvOtherExt | SrvOtherProto

record srv_ccm_env =
  send_pong_rc :: int
  send_id_ack_rc :: int
  id_resp_rc :: int
  unit_tag_len :: "nat option"

text \<open>\<open>_ipa_srv_conn_ccm\<close>: \<open>None\<close> for an empty message (asserted against), else its result.\<close>

definition ipa_srv_conn_ccm :: "srv_ccm_env \<Rightarrow> srv_ccm option \<Rightarrow> int option" where
  "ipa_srv_conn_ccm C msg =
     (case msg of
        None \<Rightarrow> None
      | Some CCM_PING \<Rightarrow> Some (if send_pong_rc C < 0 then -1 else 0)
      | Some CCM_PONG \<Rightarrow> Some 0
      | Some CCM_ID_ACK \<Rightarrow> Some (if send_id_ack_rc C < 0 then -1 else 0)
      | Some CCM_ID_RESP \<Rightarrow>
          Some (if id_resp_rc C < 0 then -1
                else case unit_tag_len C of None \<Rightarrow> -1 | Some len \<Rightarrow> if len < 1 then -1 else 0)
      | Some CCM_OTHER \<Rightarrow> Some (-1))"

text \<open>\<open>sock_read_cb\<close>: on an error the stream is destroyed, which calls \<open>sock_closed_cb\<close>.\<close>

definition sock_read_cb ::
  "srv_env \<Rightarrow> srv_ccm_env \<Rightarrow> connref \<Rightarrow> int \<Rightarrow> srv_msg \<Rightarrow> rspro_server \<Rightarrow> (int \<times> rspro_server) option" where
  "sock_read_cb E C c res msg srv =
     (let err = map_option (Pair (- EBADF)) (sock_closed_cb E c srv)
      in if res \<le> 0 then err
         else case msg of
           SrvCcm m \<Rightarrow> do { rc \<leftarrow> ipa_srv_conn_ccm C m; if rc < 0 then err else Some (rc, srv) }
         | SrvRspro None \<Rightarrow> Some (- EIO, srv)
         | SrvRspro (Some pdu) \<Rightarrow> handle_rx_rspro E c pdu srv
         | SrvOtherExt \<Rightarrow> err
         | SrvOtherProto \<Rightarrow> err)"

text \<open>\<open>accept_cb\<close>: \<open>alloc\<close> is the new object, \<open>zeroed\<close> its contents after \<open>talloc_zero\<close>. Without
  a keep-alive machine the code terminates the new machine, which clears \<open>conn->peer\<close>, and then
  hands that NULL stream to \<open>osmo_stream_srv_destroy\<close>.\<close>

definition zeroed_conn :: rspro_client_conn where
  "zeroed_conn = \<lparr>cc_peer = False, cc_fi = None, cc_T = 0, cc_ka = False,
     cc_comp_id = \<lparr>ac_type = 0, ac_name = name_buf, ac_software = name_buf, ac_sw_version = name_buf,
       ac_hw_manufacturer = name_buf, ac_hw_model = name_buf, ac_hw_serial_nr = name_buf,
       ac_hw_version = name_buf, ac_fw_version = name_buf\<rparr>,
     cc_bank_id = 0, cc_num_slots = 0, cc_slot = \<lparr>client_id = 0, cslot_nr = 0\<rparr>,
     cc_bankd_slot = \<lparr>bank_id = 0, slot_nr = 0\<rparr>, cc_bankd_ip = 0, cc_bankd_port = 0\<rparr>"

definition accept_cb ::
  "srv_env \<Rightarrow> connref option \<Rightarrow> bool \<Rightarrow> bool \<Rightarrow> bool \<Rightarrow> rspro_server \<Rightarrow> (int \<times> rspro_server) option" where
  "accept_cb E alloc peer_ok fi_ok ka_ok srv =
     (case alloc of
        None \<Rightarrow> None
      | Some c \<Rightarrow>
          if \<not> peer_ok then Some (-1, srv)
          else if \<not> fi_ok then Some (-1, srv\<lparr>srv_conns := (srv_conns srv)(c \<mapsto> zeroed_conn\<lparr>cc_peer := True\<rparr>)\<rparr>)
          else if \<not> ka_ok then None
          else
            let conn = zeroed_conn\<lparr>cc_peer := True, cc_fi := Some CLNTC_ST_INIT, cc_ka := True\<rparr>;
                srv1 = srv\<lparr>srv_conns := (srv_conns srv)(c \<mapsto> conn), srv_connections := srv_connections srv @ [c]\<rparr>
            in map_option (Pair 0) (clnt_dispatch E c CLNTC_E_TCP_UP None srv1))"

text \<open>\<open>event_fd_cb\<close>, with \<open>rc\<close> the result of reading the eventfd. Both flags are the result of
  \<open>llist_empty\<close>, whatever their names say.\<close>

fun push_banks :: "srv_env \<Rightarrow> connref list \<Rightarrow> rspro_server \<Rightarrow> rspro_server option" where
  "push_banks E [] srv = Some srv"
| "push_banks E (c # cs) srv =
     do {
       let non_empty_new = (bank_lists (srv_slotmaps srv) (c, maps_new) = []);
       let non_empty_del = (bank_lists (srv_slotmaps srv) (c, maps_delreq) = []);
       srv1 \<leftarrow> (if non_empty_new \<or> non_empty_del then clnt_dispatch_push E c srv else Some srv);
       push_banks E cs srv1
     }"

definition event_fd_cb :: "srv_env \<Rightarrow> int \<Rightarrow> rspro_server \<Rightarrow> (int \<times> rspro_server) option" where
  "event_fd_cb E rc srv =
     (if rc < 8 then Some (rc, srv)
      else map_option (Pair 0) (push_banks E (srv_banks srv) (srv\<lparr>srv_event := False\<rparr>)))"

text \<open>\<open>rspro_server_create\<close>, once the listening socket is open, with the collection that
  \<^verbatim>\<open>remsim_server.c\<close> allocates for it.\<close>

definition rspro_server_create :: "app_comp_id \<Rightarrow> rspro_server" where
  "rspro_server_create cid =
     \<lparr>srv_connections = [], srv_clients = [], srv_banks = [], srv_conns = (\<lambda>_. None),
      srv_slotmaps = slotmap_init, srv_comp_id = cid, srv_sent = [], srv_event = False\<rparr>"

end
