(* ===== verification/Server_Maps.thy ===== *)
theory Server_Maps
  imports Server
begin

text \<open>
  The slot mappings as the server keeps them: which list of which bankd connection a mapping is
  on. \<open>maps_inv B\<close> relates the collection to the connected bankds, \<open>B c\<close> being the bank
  identifier of the connection \<open>c\<close> when it is a bankd's. The lemmas say that every operation of
  the server on the collection keeps it: moving a mapping on, associating the known
  mappings with a new bankd, giving up a lost one, adding and deleting.
\<close>

type_synonym server_maps = "(connref \<times> bank_list) slotmaps"

fun list_state :: "bank_list \<Rightarrow> slot_mapping_state" where
  "list_state maps_new = SLMAP_S_NEW"
| "list_state maps_unack = SLMAP_S_UNACKNOWLEDGED"
| "list_state maps_active = SLMAP_S_ACTIVE"
| "list_state maps_delreq = SLMAP_S_DELETE_REQ"
| "list_state maps_deleting = SLMAP_S_DELETING"

lemma list_state_inj [simp]: "list_state k = list_state k' \<longleftrightarrow> k = k'"
  by (cases k; cases k') simp_all

text \<open>A mapping on a list has the state and the bank of the list; one past NEW is on a list;
  a listed mapping of a connected bank is on one of that bank's lists.\<close>

definition lists_ok :: "(connref \<Rightarrow> u16 option) \<Rightarrow> server_maps \<Rightarrow> bool" where
  "lists_ok B sm \<longleftrightarrow> (\<forall>c k p. p \<in> set (bank_lists sm (c, k)) \<longrightarrow>
     (\<exists>m. sm_heap sm p = Some m \<and> sm_state m = list_state k \<and> B c = Some (bank_id (sm_bank m))))"

definition linked_ok :: "server_maps \<Rightarrow> bool" where
  "linked_ok sm \<longleftrightarrow> (\<forall>p m. sm_heap sm p = Some m \<longrightarrow> sm_state m \<noteq> SLMAP_S_NEW \<longrightarrow>
     (\<exists>c k. p \<in> set (bank_lists sm (c, k))))"

definition assigned_ok :: "(connref \<times> mapref) set \<Rightarrow> (connref \<Rightarrow> u16 option) \<Rightarrow> server_maps \<Rightarrow> bool" where
  "assigned_ok X B sm \<longleftrightarrow> (\<forall>p m c. p \<in> set (mappings sm) \<longrightarrow> sm_heap sm p = Some m \<longrightarrow>
     B c = Some (bank_id (sm_bank m)) \<longrightarrow> (c, p) \<notin> X \<longrightarrow> (\<exists>k. p \<in> set (bank_lists sm (c, k))))"

text \<open>While a loop is associating mappings, or giving them up, the pairs in \<open>X\<close> are exempt.\<close>

definition maps_inv_ex :: "(connref \<times> mapref) set \<Rightarrow> (connref \<Rightarrow> u16 option) \<Rightarrow> server_maps \<Rightarrow> bool" where
  "maps_inv_ex X B sm \<longleftrightarrow> slotmaps_wf sm \<and> lists_ok B sm \<and> linked_ok sm \<and> assigned_ok X B sm"

abbreviation maps_inv :: "(connref \<Rightarrow> u16 option) \<Rightarrow> server_maps \<Rightarrow> bool" where
  "maps_inv \<equiv> maps_inv_ex {}"

lemma maps_invD:
  assumes "maps_inv_ex X B sm"
  shows "slotmaps_wf sm" "lists_ok B sm" "linked_ok sm" "assigned_ok X B sm"
  using assms by (simp_all add: maps_inv_ex_def)

lemma maps_inv_ex_mono: "maps_inv_ex X B sm \<Longrightarrow> X \<subseteq> Y \<Longrightarrow> maps_inv_ex Y B sm"
  unfolding maps_inv_ex_def assigned_ok_def by blast

lemma lists_okD:
  "lists_ok B sm \<Longrightarrow> p \<in> set (bank_lists sm (c, k)) \<Longrightarrow>
     \<exists>m. sm_heap sm p = Some m \<and> sm_state m = list_state k \<and> B c = Some (bank_id (sm_bank m))"
  unfolding lists_ok_def by blast

lemma bank_list_unique:
  "slotmaps_wf sm \<Longrightarrow> p \<in> set (bank_lists sm l) \<Longrightarrow> p \<in> set (bank_lists sm l') \<Longrightarrow> l = l'"
  using slotmaps_wfD(3) unfolding bank_lists_wf_def by blast

lemma bank_list_distinct: "slotmaps_wf sm \<Longrightarrow> distinct (bank_lists sm l)"
  using slotmaps_wfD(3) unfolding bank_lists_wf_def by blast

lemma maps_inv_init: "maps_inv (\<lambda>_. None) slotmap_init"
  unfolding maps_inv_ex_def using slotmaps_wf_init
  by (auto simp: lists_ok_def linked_ok_def assigned_ok_def) (simp_all add: slotmap_init_def)

section \<open>Moving a mapping on\<close>

text \<open>Linking a mapping into the list of a bankd that serves its bank. The mapping must not be
  needed on another connection's list.\<close>

lemma maps_inv_link:
  assumes inv: "maps_inv_ex X B sm" and p: "sm_heap sm p = Some m" and b: "B c = Some (bank_id (sm_bank m))"
    and inj: "\<And>c'. B c' = Some (bank_id (sm_bank m)) \<Longrightarrow> c' = c"
  shows "maps_inv_ex (X - {(c, p)}) B (Slotmap_state_change sm p (list_state k) (Some (c, k)))"
proof -
  let ?sm = "Slotmap_state_change sm p (list_state k) (Some (c, k))"
  note I = maps_invD [OF inv]
  have "lists_ok B ?sm"
    unfolding lists_ok_def
  proof (intro allI impI)
    fix c' k' q
    assume q: "q \<in> set (bank_lists ?sm (c', k'))"
    show "\<exists>m. sm_heap ?sm q = Some m \<and> sm_state m = list_state k' \<and> B c' = Some (bank_id (sm_bank m))"
    proof (cases "q = p")
      case True
      with q p b show ?thesis by (auto split: if_splits)
    next
      case False
      with q have "q \<in> set (bank_lists sm (c', k'))"
        by (auto split: if_splits)
      from lists_okD [OF I(2) this] False show ?thesis by auto
    qed
  qed
  moreover have "linked_ok ?sm"
    using I(3) unfolding linked_ok_def by (auto split: if_splits)
  moreover have "assigned_ok (X - {(c, p)}) B ?sm"
    unfolding assigned_ok_def
  proof (intro allI impI)
    fix q n c'
    assume q: "q \<in> set (mappings ?sm)" "sm_heap ?sm q = Some n" "B c' = Some (bank_id (sm_bank n))"
      "(c', q) \<notin> X - {(c, p)}"
    show "\<exists>k'. q \<in> set (bank_lists ?sm (c', k'))"
    proof (cases "q = p")
      case True
      with q p have "c' = c" by (auto intro: inj)
      with True show ?thesis by (intro exI [of _ k]) simp
    next
      case False
      with q have "q \<in> set (mappings sm)" "sm_heap sm q = Some n" by auto
      with I(4) q(3,4) False obtain k' where "q \<in> set (bank_lists sm (c', k'))"
        unfolding assigned_ok_def by blast
      with False show ?thesis by (intro exI [of _ k']) simp
    qed
  qed
  moreover have "slotmaps_wf ?sm"
    using slotmaps_wf_state_change [OF I(1)] p by blast
  ultimately show ?thesis by (simp add: maps_inv_ex_def)
qed

text \<open>Moving several mappings of one bank to one of its lists.\<close>

primrec link_all :: "connref \<Rightarrow> bank_list \<Rightarrow> server_maps \<Rightarrow> mapref list \<Rightarrow> server_maps" where
  "link_all c k sm [] = sm"
| "link_all c k sm (p # ps) = link_all c k (Slotmap_state_change sm p (list_state k) (Some (c, k))) ps"

lemma link_all_lists:
  "distinct ps \<Longrightarrow> bank_lists (link_all c k sm ps) l =
     filter (\<lambda>p. p \<notin> set ps) (bank_lists sm l) @ (if l = (c, k) then ps else [])"
proof (induction ps arbitrary: sm)
  case (Cons p ps)
  then show ?case
    by (auto simp: removeAll_filter_not_eq conj_commute intro: filter_cong)
qed simp

lemma link_all_heap:
  "sm_heap (link_all c k sm ps) p =
     (if p \<in> set ps then map_option (sm_state_update (\<lambda>_. list_state k)) (sm_heap sm p) else sm_heap sm p)"
  "mappings (link_all c k sm ps) = mappings sm"
  by (induction ps arbitrary: sm) (auto simp: option.map_comp comp_def)

lemma maps_inv_link_all:
  assumes "maps_inv B sm" and b: "B c = Some bid" and inj: "\<And>c'. B c' = Some bid \<Longrightarrow> c' = c"
    and "\<And>p. p \<in> set ps \<Longrightarrow> \<exists>m. sm_heap sm p = Some m \<and> bank_id (sm_bank m) = bid"
  shows "maps_inv B (link_all c k sm ps)"
  using assms(1,4)
proof (induction ps arbitrary: sm)
  case (Cons p ps)
  obtain m where m: "sm_heap sm p = Some m" "bank_id (sm_bank m) = bid"
    using Cons.prems(2) [of p] by auto
  have "maps_inv_ex ({} - {(c, p)}) B (Slotmap_state_change sm p (list_state k) (Some (c, k)))"
    by (rule maps_inv_link [OF Cons.prems(1) m(1), unfolded m(2), OF b inj])
  then have inv: "maps_inv B (Slotmap_state_change sm p (list_state k) (Some (c, k)))" by simp
  have "\<exists>m. sm_heap (Slotmap_state_change sm p (list_state k) (Some (c, k))) q = Some m \<and> bank_id (sm_bank m) = bid"
    if "q \<in> set ps" for q
    using Cons.prems(2) [of q] that by auto
  from Cons.IH [OF inv this] show ?case by simp
qed simp

text \<open>Unlinking a mapping of a bank that is being given up.\<close>

lemma lists_ok_unlink:
  assumes "lists_ok B sm" and "slotmaps_wf sm"
  shows "lists_ok B (Slotmap_state_change sm p SLMAP_S_NEW None)"
  unfolding lists_ok_def
proof (intro allI impI)
  fix c k q
  assume "q \<in> set (bank_lists (Slotmap_state_change sm p SLMAP_S_NEW None) (c, k))"
  then have q: "q \<in> set (bank_lists sm (c, k))" "q \<noteq> p" by auto
  from lists_okD [OF assms(1) q(1)] q(2)
  show "\<exists>m. sm_heap (Slotmap_state_change sm p SLMAP_S_NEW None) q = Some m \<and>
      sm_state m = list_state k \<and> B c = Some (bank_id (sm_bank m))" by auto
qed

lemma linked_ok_unlink: "linked_ok sm \<Longrightarrow> linked_ok (Slotmap_state_change sm p SLMAP_S_NEW None)"
  unfolding linked_ok_def by (auto split: if_splits)

lemma slotmap_del_fields [simp]:
  "mappings (slotmap_del sm p) = removeAll p (mappings sm)"
  "bank_lists (slotmap_del sm p) l = removeAll p (bank_lists sm l)"
  "sm_heap (slotmap_del sm p) = (sm_heap sm)(p := None)"
  by (simp_all add: slotmap_del_def)

lemma lists_ok_del: "lists_ok B sm \<Longrightarrow> lists_ok B (slotmap_del sm p)"
  unfolding lists_ok_def by fastforce

lemma linked_ok_del: "linked_ok sm \<Longrightarrow> linked_ok (slotmap_del sm p)"
  unfolding linked_ok_def by (auto split: if_splits)

lemma assigned_ok_del: "assigned_ok X B sm \<Longrightarrow> assigned_ok X B (slotmap_del sm p)"
  unfolding assigned_ok_def by (auto split: if_splits)

lemma maps_inv_del: "maps_inv_ex X B sm \<Longrightarrow> maps_inv_ex X B (slotmap_del sm p)"
  by (simp add: maps_inv_ex_def slotmaps_wf_del lists_ok_del linked_ok_del assigned_ok_del)

section \<open>Associating the mappings of a new bankd\<close>

lemma associate_maps_heap:
  "map_option sm_bank (sm_heap (associate_maps c bid ps sm) p) = map_option sm_bank (sm_heap sm p)"
  "map_option sm_client (sm_heap (associate_maps c bid ps sm) p) = map_option sm_client (sm_heap sm p)"
  "mappings (associate_maps c bid ps sm) = mappings sm"
  by (induction ps arbitrary: sm) (auto simp: option.map_comp comp_def split: option.splits)

lemma maps_inv_associate:
  assumes "maps_inv_ex ({c} \<times> set ps) B sm" and "B c = Some bid" and "\<And>c'. B c' = Some bid \<Longrightarrow> c' = c"
  shows "maps_inv B (associate_maps c bid ps sm)"
  using assms
proof (induction ps arbitrary: sm)
  case Nil
  from Nil.prems(1) show ?case by simp
next
  case (Cons p ps)
  let ?sm = "case sm_heap sm p of
      Some m \<Rightarrow> if bank_id (sm_bank m) = bid then Slotmap_state_change sm p SLMAP_S_NEW (Some (c, maps_new)) else sm
    | None \<Rightarrow> sm"
  have "maps_inv_ex ({c} \<times> set ps) B ?sm"
  proof (cases "\<exists>m. sm_heap sm p = Some m \<and> bank_id (sm_bank m) = bid")
    case True
    then obtain m where m: "sm_heap sm p = Some m" "bank_id (sm_bank m) = bid" by blast
    have "maps_inv_ex ({c} \<times> set (p # ps) - {(c, p)}) B (Slotmap_state_change sm p (list_state maps_new) (Some (c, maps_new)))"
      by (rule maps_inv_link [OF Cons.prems(1) m(1), unfolded m(2), OF Cons.prems(2,3)])
    then have "maps_inv_ex ({c} \<times> set ps) B (Slotmap_state_change sm p SLMAP_S_NEW (Some (c, maps_new)))"
      unfolding list_state.simps by (rule maps_inv_ex_mono) auto
    with m show ?thesis by simp
  next
    case False
    have "assigned_ok ({c} \<times> set ps) B sm"
      unfolding assigned_ok_def
    proof (intro allI impI)
      fix q n c'
      assume q: "q \<in> set (mappings sm)" "sm_heap sm q = Some n" "B c' = Some (bank_id (sm_bank n))"
        "(c', q) \<notin> {c} \<times> set ps"
      have "(c', q) \<notin> {c} \<times> set (p # ps)"
        using False q Cons.prems(2) by auto
      with maps_invD(4) [OF Cons.prems(1)] q(1-3) show "\<exists>k. q \<in> set (bank_lists sm (c', k))"
        unfolding assigned_ok_def by blast
    qed
    with Cons.prems(1) False show ?thesis
      by (auto simp: maps_inv_ex_def split: option.splits)
  qed
  from Cons.IH [OF this Cons.prems(2,3)] show ?case by simp
qed

lemma maps_inv_new_bank:
  assumes inv: "maps_inv B sm" and none: "B c = None" "\<And>c'. B c' \<noteq> Some bid"
  shows "maps_inv (B(c \<mapsto> bid)) (associate_maps c bid (mappings sm) sm)"
proof (rule maps_inv_associate)
  note I = maps_invD [OF inv]
  have "lists_ok (B(c \<mapsto> bid)) sm"
    unfolding lists_ok_def
  proof (intro allI impI)
    fix c' k p
    assume "p \<in> set (bank_lists sm (c', k))"
    from lists_okD [OF I(2) this] none(1)
    show "\<exists>m. sm_heap sm p = Some m \<and> sm_state m = list_state k \<and> (B(c \<mapsto> bid)) c' = Some (bank_id (sm_bank m))"
      by auto
  qed
  moreover have "assigned_ok ({c} \<times> set (mappings sm)) (B(c \<mapsto> bid)) sm"
    using I(4) unfolding assigned_ok_def by (auto split: if_splits)
  ultimately show "maps_inv_ex ({c} \<times> set (mappings sm)) (B(c \<mapsto> bid)) sm"
    using I by (simp add: maps_inv_ex_def)
  show "(B(c \<mapsto> bid)) c = Some bid" by simp
  show "c' = c" if "(B(c \<mapsto> bid)) c' = Some bid" for c'
    using that none(2) [of c'] by (auto split: if_splits)
qed

section \<open>Giving up a bankd\<close>

definition giving_up :: "connref \<Rightarrow> (connref \<Rightarrow> u16 option) \<Rightarrow> server_maps \<Rightarrow> bool" where
  "giving_up c B sm \<longleftrightarrow> maps_inv_ex ({c} \<times> UNIV) B sm \<and>
     (\<forall>c' bid. B c = Some bid \<longrightarrow> B c' = Some bid \<longrightarrow> c' = c)"

lemma giving_up_unlink:
  assumes "giving_up c B sm" and p: "p \<in> set (bank_lists sm (c, k))"
  shows "giving_up c B (Slotmap_state_change sm p SLMAP_S_NEW None)"
proof -
  let ?sm = "Slotmap_state_change sm p SLMAP_S_NEW None"
  have inv: "maps_inv_ex ({c} \<times> UNIV) B sm" and inj: "\<And>c' bid. B c = Some bid \<Longrightarrow> B c' = Some bid \<Longrightarrow> c' = c"
    using assms(1) by (auto simp: giving_up_def)
  note I = maps_invD [OF inv]
  obtain m where m: "sm_heap sm p = Some m" "B c = Some (bank_id (sm_bank m))"
    using lists_okD [OF I(2) p] by blast
  have "assigned_ok ({c} \<times> UNIV) B ?sm"
    unfolding assigned_ok_def
  proof (intro allI impI)
    fix q n c'
    assume q: "q \<in> set (mappings ?sm)" "sm_heap ?sm q = Some n" "B c' = Some (bank_id (sm_bank n))"
      "(c', q) \<notin> {c} \<times> UNIV"
    have "q \<noteq> p"
    proof
      assume "q = p"
      then have "B c' = Some (bank_id (sm_bank m))"
        using q(2,3) m(1) by auto
      with inj [OF m(2)] q(4) show False by auto
    qed
    then have "q \<in> set (mappings sm)" "sm_heap sm q = Some n"
      using q by auto
    with q(3,4) I(4) obtain k' where "q \<in> set (bank_lists sm (c', k'))"
      unfolding assigned_ok_def by blast
    with \<open>q \<noteq> p\<close> show "\<exists>k. q \<in> set (bank_lists ?sm (c', k))"
      by (intro exI [of _ k']) simp
  qed
  moreover have "slotmaps_wf ?sm"
    using m(1) by (intro slotmaps_wf_state_change [OF I(1)]) blast
  ultimately have "maps_inv_ex ({c} \<times> UNIV) B ?sm"
    using lists_ok_unlink [OF I(2,1)] linked_ok_unlink [OF I(3)] by (simp add: maps_inv_ex_def)
  with assms(1) show ?thesis by (simp add: giving_up_def)
qed

lemma giving_up_del: "giving_up c B sm \<Longrightarrow> giving_up c B (slotmap_del sm p)"
  by (auto simp: giving_up_def maps_inv_del)

lemma fold_lists:
  assumes lists: "\<And>sm p l. bank_lists (f sm p) l = removeAll p (bank_lists sm l)"
  shows "bank_lists (foldl f sm ps) l = filter (\<lambda>p. p \<notin> set ps) (bank_lists sm l)"
  by (induction ps arbitrary: sm) (auto simp: lists removeAll_filter_not_eq conj_commute intro: filter_cong)

lemma giving_up_fold:
  assumes "giving_up c B sm" and "set ps \<subseteq> set (bank_lists sm (c, k))" and "distinct ps"
    and step: "\<And>sm p. giving_up c B sm \<Longrightarrow> p \<in> set (bank_lists sm (c, k)) \<Longrightarrow> giving_up c B (f sm p)"
    and lists: "\<And>sm p l. bank_lists (f sm p) l = removeAll p (bank_lists sm l)"
  shows "giving_up c B (foldl f sm ps)"
  using assms(1-3)
proof (induction ps arbitrary: sm)
  case Nil
  then show ?case by simp
next
  case (Cons p ps)
  then have "giving_up c B (f sm p)" by (intro step) auto
  then show ?case
    using Cons.IH [of "f sm p"] Cons.prems by (auto simp: lists)
qed

text \<open>The two kinds of loop of \<open>_unlink_all_slotmaps\<close>.\<close>

abbreviation to_new :: "server_maps \<Rightarrow> mapref list \<Rightarrow> server_maps" where
  "to_new \<equiv> foldl (\<lambda>sm p. Slotmap_state_change sm p SLMAP_S_NEW None)"

lemma to_new_lists: "bank_lists (to_new sm ps) l = filter (\<lambda>p. p \<notin> set ps) (bank_lists sm l)"
  by (rule fold_lists) simp

lemma del_lists: "bank_lists (foldl slotmap_del sm ps) l = filter (\<lambda>p. p \<notin> set ps) (bank_lists sm l)"
  for sm :: server_maps
  by (rule fold_lists) simp

lemma to_new_heap:
  "sm_heap (to_new sm ps) p =
     (if p \<in> set ps then map_option (sm_state_update (\<lambda>_. SLMAP_S_NEW)) (sm_heap sm p) else sm_heap sm p)"
  "mappings (to_new sm ps) = mappings sm"
  by (induction ps arbitrary: sm) (auto simp: option.map_comp comp_def)

lemma del_heap:
  "sm_heap (foldl slotmap_del sm ps) p = (if p \<in> set ps then None else sm_heap sm p)"
  "mappings (foldl slotmap_del sm ps) = filter (\<lambda>p. p \<notin> set ps) (mappings sm)"
  for sm :: server_maps
  by (induction ps arbitrary: sm) (auto simp: removeAll_filter_not_eq conj_commute intro: filter_cong)

lemma filter_other_list:
  assumes "slotmaps_wf sm" and "l \<noteq> l'"
  shows "filter (\<lambda>p. p \<notin> set (bank_lists sm l')) (bank_lists sm l) = bank_lists sm l"
  using bank_list_unique [OF assms(1)] assms(2) by (auto intro!: filter_True)

text \<open>What \<open>_unlink_all_slotmaps\<close> leaves: no mapping on a list of the connection, the other lists
  as they were, the mappings to be deleted gone and the others in state NEW.\<close>

lemma unlink_all_lists:
  assumes wf: "slotmaps_wf sm"
  shows "bank_lists (unlink_all_slotmaps c sm) (c', k) = (if c' = c then [] else bank_lists sm (c', k))"
proof -
  note u = filter_other_list [OF wf]
  have "p \<notin> set (bank_lists sm (c, k'))" if "p \<in> set (bank_lists sm (c', k))" "c' \<noteq> c" for p k'
    using bank_list_unique [OF wf that(1)] that(2) by auto
  then show ?thesis
    unfolding unlink_all_slotmaps_def Let_def
    by (cases k) (auto simp: to_new_lists del_lists u filter_empty_conv filter_id_conv)
qed

lemma unlink_all_heap:
  assumes wf: "slotmaps_wf sm"
  shows "sm_heap (unlink_all_slotmaps c sm) p =
      (if p \<in> set (bank_lists sm (c, maps_delreq)) \<union> set (bank_lists sm (c, maps_deleting)) then None
       else if \<exists>k. p \<in> set (bank_lists sm (c, k))
       then map_option (sm_state_update (\<lambda>_. SLMAP_S_NEW)) (sm_heap sm p) else sm_heap sm p)"
    and "mappings (unlink_all_slotmaps c sm) =
      filter (\<lambda>p. p \<notin> set (bank_lists sm (c, maps_delreq)) \<union> set (bank_lists sm (c, maps_deleting))) (mappings sm)"
proof -
  note u = filter_other_list [OF wf]
  have k: "(\<exists>k. p \<in> set (bank_lists sm (c, k))) \<longleftrightarrow>
      p \<in> set (bank_lists sm (c, maps_new)) \<or> p \<in> set (bank_lists sm (c, maps_unack)) \<or>
      p \<in> set (bank_lists sm (c, maps_active)) \<or> p \<in> set (bank_lists sm (c, maps_delreq)) \<or>
      p \<in> set (bank_lists sm (c, maps_deleting))"
    by (metis bank_list.exhaust)
  show "sm_heap (unlink_all_slotmaps c sm) p =
      (if p \<in> set (bank_lists sm (c, maps_delreq)) \<union> set (bank_lists sm (c, maps_deleting)) then None
       else if \<exists>k. p \<in> set (bank_lists sm (c, k))
       then map_option (sm_state_update (\<lambda>_. SLMAP_S_NEW)) (sm_heap sm p) else sm_heap sm p)"
    unfolding unlink_all_slotmaps_def Let_def k
    by (auto simp: to_new_lists del_lists to_new_heap del_heap u option.map_comp comp_def)
  show "mappings (unlink_all_slotmaps c sm) =
      filter (\<lambda>p. p \<notin> set (bank_lists sm (c, maps_delreq)) \<union> set (bank_lists sm (c, maps_deleting))) (mappings sm)"
    unfolding unlink_all_slotmaps_def Let_def
    by (simp add: to_new_lists del_lists to_new_heap del_heap u)
qed

lemma giving_up_distinct: "giving_up c B sm \<Longrightarrow> distinct (bank_lists sm l)"
  unfolding giving_up_def by (erule conjE) (rule bank_list_distinct [OF maps_invD(1)])

lemma giving_up_to_new: "giving_up c B sm \<Longrightarrow> giving_up c B (to_new sm (bank_lists sm (c, k)))"
  by (rule giving_up_fold [OF _ subset_refl giving_up_distinct]) (auto intro: giving_up_unlink)

lemma giving_up_dels: "giving_up c B sm \<Longrightarrow> giving_up c B (foldl slotmap_del sm (bank_lists sm (c, k)))"
  by (rule giving_up_fold [OF _ subset_refl giving_up_distinct]) (auto intro: giving_up_del)

lemma giving_up_unlink_all: "giving_up c B sm \<Longrightarrow> giving_up c B (unlink_all_slotmaps c sm)"
  unfolding unlink_all_slotmaps_def Let_def by (intro giving_up_dels giving_up_to_new)

lemma maps_inv_unlink_all:
  assumes inv: "maps_inv B sm" and inj: "\<And>c' bid. B c = Some bid \<Longrightarrow> B c' = Some bid \<Longrightarrow> c' = c"
  shows "maps_inv (B(c := None)) (unlink_all_slotmaps c sm)"
proof -
  let ?sm = "unlink_all_slotmaps c sm"
  have "giving_up c B sm"
    using maps_inv_ex_mono [OF inv, of "{c} \<times> UNIV"] inj by (auto simp: giving_up_def)
  then have g: "maps_inv_ex ({c} \<times> UNIV) B ?sm"
    by (rule giving_up_unlink_all [unfolded giving_up_def, THEN conjunct1, folded giving_up_def])
  have "lists_ok (B(c := None)) ?sm"
    unfolding lists_ok_def
  proof (intro allI impI)
    fix c' k p
    assume p: "p \<in> set (bank_lists ?sm (c', k))"
    then have "c' \<noteq> c"
      by (auto simp: unlink_all_lists [OF maps_invD(1) [OF inv]])
    with lists_okD [OF maps_invD(2) [OF g] p]
    show "\<exists>m. sm_heap ?sm p = Some m \<and> sm_state m = list_state k \<and> (B(c := None)) c' = Some (bank_id (sm_bank m))"
      by simp
  qed
  moreover have "assigned_ok {} (B(c := None)) ?sm"
    using maps_invD(4) [OF g] unfolding assigned_ok_def by (auto split: if_splits)
  ultimately show ?thesis
    using g by (simp add: maps_inv_ex_def)
qed

section \<open>Additions and deletions from the REST interface\<close>

lemma maps_inv_insert:
  assumes inv: "maps_inv B sm" and fr: "fresh_ref sm r"
    and free: "slotmap_by_bank sm b = None" "slotmap_by_client sm c = None"
  shows "maps_inv_ex {(c', p). p = r} B (slotmap_insert r sm b c)"
proof -
  note I = maps_invD [OF inv]
  have r: "\<And>l. r \<notin> set (bank_lists sm l)"
    using fresh_ref_unlinked [OF I(1) fr] by blast
  have "lists_ok B (slotmap_insert r sm b c)"
    unfolding lists_ok_def
  proof (intro allI impI)
    fix c' k p
    assume p: "p \<in> set (bank_lists (slotmap_insert r sm b c) (c', k))"
    then have "p \<in> set (bank_lists sm (c', k))" "p \<noteq> r"
      using r by (auto simp: slotmap_insert_def)
    with lists_okD [OF I(2) this(1)] show "\<exists>m. sm_heap (slotmap_insert r sm b c) p = Some m \<and>
        sm_state m = list_state k \<and> B c' = Some (bank_id (sm_bank m))"
      by (auto simp: slotmap_insert_def)
  qed
  moreover have "linked_ok (slotmap_insert r sm b c)"
    using I(3) unfolding linked_ok_def by (auto simp: slotmap_insert_def split: if_splits)
  moreover have "assigned_ok {(c', p). p = r} B (slotmap_insert r sm b c)"
    using I(4) unfolding assigned_ok_def by (auto simp: slotmap_insert_def split: if_splits)
  ultimately show ?thesis
    using slotmaps_wf_insert [OF I(1) fr free] by (simp add: maps_inv_ex_def)
qed

text \<open>Taking a mapping off the global list only.\<close>

definition slotmap_unlink :: "'l slotmaps \<Rightarrow> mapref \<Rightarrow> 'l slotmaps" where
  "slotmap_unlink sm p = sm\<lparr>mappings := removeAll p (mappings sm)\<rparr>"

lemma slotmap_unlink_fields [simp]:
  "mappings (slotmap_unlink sm p) = removeAll p (mappings sm)"
  "bank_lists (slotmap_unlink sm p) = bank_lists sm" "sm_heap (slotmap_unlink sm p) = sm_heap sm"
  by (simp_all add: slotmap_unlink_def)

lemma slotmaps_wf_unlink [remsim_wf]: "slotmaps_wf sm \<Longrightarrow> slotmaps_wf (slotmap_unlink sm p)"
  unfolding slotmaps_wf_def slots_unique_def bank_lists_wf_def by (auto simp: distinct_removeAll)

lemma maps_inv_unlink: "maps_inv B sm \<Longrightarrow> maps_inv B (slotmap_unlink sm p)"
  unfolding maps_inv_ex_def lists_ok_def linked_ok_def assigned_ok_def
  by (simp add: slotmaps_wf_unlink)

end
