(* ===== verification/Server_Inv.thy ===== *)
theory Server_Inv
  imports Server_Maps
begin

text \<open>
  The invariant of the server and the properties of its handlers. \<open>conns_inv\<close>: every connection
  object is on exactly one list, the one its state belongs to, a machine that exists
  has a stream, and no two accepted clients or bankds have the same identity. \<open>server_inv\<close> adds the
  invariant of the mappings (Server_Maps). Every handler keeps it. A handler aborts only
  where it meets a connection whose machine is gone (\<open>no_stale\<close> excludes those) or a mapping
  response that answers no request.
\<close>

section \<open>Invariant\<close>

definition bank_of :: "rspro_server \<Rightarrow> connref \<Rightarrow> u16 option" where
  "bank_of srv c = (if c \<in> set (srv_banks srv) then map_option cc_bank_id (srv_conns srv c) else None)"

text \<open>The list for each state. No machine ever waits for a ConfigClientIdRes.\<close>

fun st_list :: "remsim_server_client_fsm_state \<Rightarrow> rspro_server \<Rightarrow> connref list" where
  "st_list CLNTC_ST_CONNECTED_CLIENT srv = srv_clients srv"
| "st_list CLNTC_ST_CONNECTED_BANKD srv = srv_banks srv"
| "st_list CLNTC_ST_WAIT_CONF_RES srv = []"
| "st_list _ srv = srv_connections srv"

fun st_timer :: "remsim_server_client_fsm_state \<Rightarrow> nat" where
  "st_timer CLNTC_ST_ESTABLISHED = 1"
| "st_timer CLNTC_ST_REJECTED = 2"
| "st_timer _ = 0"

definition conn_ok :: "rspro_server \<Rightarrow> connref \<Rightarrow> rspro_client_conn \<Rightarrow> bool" where
  "conn_ok srv c conn \<longleftrightarrow>
     (case cc_fi conn of None \<Rightarrow> True
      | Some st \<Rightarrow> cc_peer conn \<and> c \<in> set (st_list st srv) \<and> cc_T conn = st_timer st)"

lemma conn_ok_cong: "(\<And>st. st_list st srv' = st_list st srv) \<Longrightarrow> conn_ok srv' c conn = conn_ok srv c conn"
  by (auto simp: conn_ok_def split: option.splits)

definition all_lists :: "rspro_server \<Rightarrow> connref list" where
  "all_lists srv = srv_connections srv @ srv_clients srv @ srv_banks srv"

definition clients_unique :: "rspro_server \<Rightarrow> bool" where
  "clients_unique srv \<longleftrightarrow> (\<forall>c \<in> set (srv_clients srv). \<forall>c' \<in> set (srv_clients srv).
     map_option cc_slot (srv_conns srv c) = map_option cc_slot (srv_conns srv c') \<longrightarrow> c = c')"

definition banks_unique :: "rspro_server \<Rightarrow> bool" where
  "banks_unique srv \<longleftrightarrow> (\<forall>c \<in> set (srv_banks srv). \<forall>c' \<in> set (srv_banks srv).
     map_option cc_bank_id (srv_conns srv c) = map_option cc_bank_id (srv_conns srv c') \<longrightarrow> c = c')"

definition conns_inv :: "rspro_server \<Rightarrow> bool" where
  "conns_inv srv \<longleftrightarrow>
     distinct (all_lists srv) \<and> set (all_lists srv) \<subseteq> dom (srv_conns srv) \<and>
     (\<forall>c conn. srv_conns srv c = Some conn \<longrightarrow> conn_ok srv c conn) \<and>
     clients_unique srv \<and> banks_unique srv"

definition server_inv :: "rspro_server \<Rightarrow> bool" where
  "server_inv srv \<longleftrightarrow> conns_inv srv \<and> maps_inv (bank_of srv) (srv_slotmaps srv)"

definition no_stale :: "rspro_server \<Rightarrow> bool" where
  "no_stale srv \<longleftrightarrow> (\<forall>c \<in> set (srv_clients srv) \<union> set (srv_banks srv).
     \<exists>conn. srv_conns srv c = Some conn \<and> cc_fi conn \<noteq> None)"

lemma server_invD:
  assumes "server_inv srv"
  shows "conns_inv srv" "maps_inv (bank_of srv) (srv_slotmaps srv)" "slotmaps_wf (srv_slotmaps srv)"
    "distinct (all_lists srv)" "set (all_lists srv) \<subseteq> dom (srv_conns srv)"
  using assms by (auto simp: server_inv_def conns_inv_def maps_inv_ex_def)

lemma server_inv_conn:
  assumes "server_inv srv" "srv_conns srv c = Some conn" "cc_fi conn = Some st"
  shows "cc_peer conn" "c \<in> set (st_list st srv)" "cc_T conn = st_timer st"
  using assms by (auto simp: server_inv_def conns_inv_def conn_ok_def split: option.splits)

lemma bank_of_unique:
  assumes "conns_inv srv" "bank_of srv c = Some bid" "bank_of srv c' = Some bid"
  shows "c' = c"
  using assms by (auto simp: conns_inv_def banks_unique_def bank_of_def split: if_splits)

lemma no_stale_peer:
  assumes "server_inv srv" "no_stale srv" "c \<in> set (srv_clients srv) \<union> set (srv_banks srv)"
  shows "\<exists>conn. srv_conns srv c = Some conn \<and> cc_peer conn \<and> cc_fi conn \<noteq> None"
  using assms server_inv_conn(1) [OF assms(1)] unfolding no_stale_def by fastforce

section \<open>Steps that only configure clients\<close>

text \<open>Sending and configuring a client leave everything but the configured bankd as it was.\<close>

definition conn_core :: "rspro_client_conn \<Rightarrow> bool \<times> remsim_server_client_fsm_state option \<times> nat \<times> u16 \<times> client_slot" where
  "conn_core conn = (cc_peer conn, cc_fi conn, cc_T conn, cc_bank_id conn, cc_slot conn)"

definition same_core :: "rspro_server \<Rightarrow> rspro_server \<Rightarrow> bool" where
  "same_core srv srv' \<longleftrightarrow>
     srv_connections srv' = srv_connections srv \<and> srv_clients srv' = srv_clients srv \<and>
     srv_banks srv' = srv_banks srv \<and> srv_slotmaps srv' = srv_slotmaps srv \<and>
     srv_comp_id srv' = srv_comp_id srv \<and>
     (\<forall>c. map_option conn_core (srv_conns srv' c) = map_option conn_core (srv_conns srv c))"

lemma same_core_refl [simp]: "same_core srv srv"
  by (simp add: same_core_def)

lemma same_core_trans: "same_core a b \<Longrightarrow> same_core b c \<Longrightarrow> same_core a c"
  by (simp add: same_core_def)

lemma same_core_map:
  assumes "same_core srv srv'" and "\<And>conn. f conn = g (conn_core conn)"
  shows "map_option f (srv_conns srv' c) = map_option f (srv_conns srv c)"
proof -
  have "f = g \<circ> conn_core"
    using assms(2) by auto
  then have "map_option f x = map_option g (map_option conn_core x)" for x
    by (simp add: option.map_comp)
  with assms(1) show ?thesis
    by (simp add: same_core_def)
qed

lemma same_core_fields:
  assumes "same_core srv srv'"
  shows "map_option cc_bank_id (srv_conns srv' c) = map_option cc_bank_id (srv_conns srv c)"
    "map_option cc_slot (srv_conns srv' c) = map_option cc_slot (srv_conns srv c)"
    "map_option cc_fi (srv_conns srv' c) = map_option cc_fi (srv_conns srv c)"
  using same_core_map [OF assms, of cc_bank_id "\<lambda>(a, b, c, d, e). d"]
    same_core_map [OF assms, of cc_slot "\<lambda>(a, b, c, d, e). e"]
    same_core_map [OF assms, of cc_fi "\<lambda>(a, b, c, d, e). b"]
  by (simp_all add: conn_core_def)

lemma same_core_conn:
  assumes "same_core srv srv'" and "srv_conns srv' c = Some conn'"
  shows "\<exists>conn. srv_conns srv c = Some conn \<and> conn_core conn = conn_core conn'"
  using assms by (metis (no_types, lifting) map_option_eq_Some same_core_def)

lemma same_core_sym: "same_core a b \<Longrightarrow> same_core b a"
  by (simp add: same_core_def)

lemma same_core_bank_of: "same_core srv srv' \<Longrightarrow> bank_of srv' = bank_of srv"
  by (rule ext) (simp add: bank_of_def same_core_fields(1) same_core_def)

lemma st_list_same_core: "same_core srv srv' \<Longrightarrow> st_list st srv' = st_list st srv"
  by (cases st) (auto simp: same_core_def)

lemma same_core_inv:
  assumes c: "same_core srv srv'" and inv: "server_inv srv"
  shows "server_inv srv'"
proof -
  have l: "all_lists srv' = all_lists srv"
    using c by (simp add: same_core_def all_lists_def)
  have "dom (srv_conns srv') = dom (srv_conns srv)"
    using same_core_conn [OF c] same_core_conn [OF same_core_sym [OF c]] by (auto simp: dom_def) blast+
  moreover have "conn_ok srv' x conn'" if x: "srv_conns srv' x = Some conn'" for x conn'
  proof -
    obtain conn where "srv_conns srv x = Some conn" "conn_core conn = conn_core conn'"
      using same_core_conn [OF c x] by blast
    with inv show ?thesis
      by (auto simp: server_inv_def conns_inv_def conn_ok_def conn_core_def st_list_same_core [OF c]
          split: option.splits)
  qed
  moreover have "clients_unique srv' = clients_unique srv" "banks_unique srv' = banks_unique srv"
    using c by (simp_all add: clients_unique_def banks_unique_def same_core_fields [OF c] same_core_def)
  ultimately have "conns_inv srv'"
    using server_invD(1) [OF inv] by (simp add: conns_inv_def l)
  moreover have "srv_slotmaps srv' = srv_slotmaps srv"
    using c by (simp add: same_core_def)
  ultimately show ?thesis
    using inv same_core_bank_of [OF c] by (simp add: server_inv_def)
qed

lemma same_core_no_stale: "same_core srv srv' \<Longrightarrow> no_stale srv \<Longrightarrow> no_stale srv'"
proof -
  assume c: "same_core srv srv'" and n: "no_stale srv"
  have "\<exists>conn'. srv_conns srv' x = Some conn' \<and> cc_fi conn' \<noteq> None"
    if "srv_conns srv x = Some conn" "cc_fi conn \<noteq> None" for x conn
    using same_core_fields(3) [OF c, of x] that by (cases "srv_conns srv' x") auto
  with n c show ?thesis
    unfolding no_stale_def same_core_def by metis
qed

lemma same_core_upd_conn:
  "(\<And>cn. conn_core (f cn) = conn_core cn) \<Longrightarrow> same_core srv (upd_conn c f srv)"
  by (auto simp: same_core_def upd_conn_def option.map_comp comp_def)

lemma same_core_send: "client_conn_send E c pdu srv = Some srv' \<Longrightarrow> same_core srv srv'"
  by (auto simp: client_conn_send_def same_core_def split: option.splits if_splits Option.bind_splits)

lemma same_core_cfg: "clnt_dispatch_cfg E c srv = Some srv' \<Longrightarrow> same_core srv srv'"
  by (auto simp: clnt_dispatch_cfg_def clnt_st_connected_client_def
      split: option.splits if_splits Option.bind_splits dest: same_core_send)

lemma same_core_set_bankd:
  assumes "set_client_bankd E c chg ip port srv = Some srv'"
  shows "same_core srv srv'"
proof -
  have u: "same_core srv (upd_conn c (\<lambda>cn. cn\<lparr>cc_bankd_ip := ip, cc_bankd_port := port\<rparr>) srv)"
    by (rule same_core_upd_conn) (simp add: conn_core_def)
  show ?thesis
    using assms same_core_cfg same_core_trans [OF u]
    by (auto simp: set_client_bankd_def Let_def split: if_splits Option.bind_splits intro: u)
qed

lemma same_core_update_client:
  assumes "update_client_for_slotmap E m b srv = Some srv'"
  shows "same_core srv srv'"
proof -
  have u: "same_core srv (upd_conn c (cc_bankd_slot_update (\<lambda>_. bs)) srv)" for c bs
    by (rule same_core_upd_conn) (simp add: conn_core_def)
  note s = same_core_trans [OF u same_core_set_bankd]
  show ?thesis
    using assms
    by (auto simp: update_client_for_slotmap_def Let_def split: if_splits Option.bind_splits option.splits
        intro: u dest: s same_core_set_bankd)
qed

lemma client_conn_by_slot_SomeD:
  "client_conn_by_slot srv cs = Some c \<Longrightarrow>
     c \<in> set (srv_clients srv) \<and> (\<exists>conn. srv_conns srv c = Some conn \<and> cc_slot conn = cs)"
  unfolding client_conn_by_slot_def by (drule find_SomeD) (auto split: option.splits)

lemma client_conn_by_slot_None:
  "client_conn_by_slot srv cs = None \<longleftrightarrow>
     (\<forall>c \<in> set (srv_clients srv). map_option cc_slot (srv_conns srv c) \<noteq> Some cs)"
  unfolding client_conn_by_slot_def by (auto split: option.splits)

lemma bankd_conn_by_id_SomeD:
  "bankd_conn_by_id srv bid = Some c \<Longrightarrow> bank_of srv c = Some bid"
  unfolding bankd_conn_by_id_def by (drule find_SomeD) (auto simp: bank_of_def split: option.splits)

lemma bankd_conn_by_id_None:
  "bankd_conn_by_id srv bid = None \<longleftrightarrow> (\<forall>c. bank_of srv c \<noteq> Some bid)"
  unfolding bankd_conn_by_id_def by (auto simp: bank_of_def split: option.splits if_splits)

lemma bank_of_mem: "bank_of srv c = Some bid \<Longrightarrow> c \<in> set (srv_banks srv)"
  by (simp add: bank_of_def split: if_splits)

section \<open>Configuring a client does not abort\<close>

definition has_peer :: "rspro_server \<Rightarrow> connref \<Rightarrow> bool" where
  "has_peer srv c \<longleftrightarrow> (\<exists>conn. srv_conns srv c = Some conn \<and> cc_peer conn)"

lemma send_total: "has_peer srv c \<Longrightarrow> client_conn_send E c pdu srv \<noteq> None"
  by (auto simp: client_conn_send_def has_peer_def split: option.splits)

lemma has_peer_same_core: "same_core srv srv' \<Longrightarrow> has_peer srv' c = has_peer srv c"
  using same_core_conn [of srv srv'] same_core_conn [of srv' srv]
  by (auto simp: has_peer_def conn_core_def dest!: same_core_sym [of srv srv']) metis+

definition srv_env_ok :: "srv_env \<Rightarrow> bool" where
  "srv_env_ok E \<longleftrightarrow> fsm_documented (se_ev_ok E) (se_st_ok E)"

lemma srv_env_okD:
  assumes "srv_env_ok E"
  shows "se_ev_ok E m n = bit m n" "se_st_ok E m n = bit m n"
  using assms by (auto simp: srv_env_ok_def fsm_documented_def)

lemma cfg_total:
  assumes E: "srv_env_ok E" and inv: "server_inv srv" and c: "srv_conns srv c \<noteq> None"
  shows "clnt_dispatch_cfg E c srv \<noteq> None"
proof -
  obtain conn where conn: "srv_conns srv c = Some conn"
    using c by blast
  show ?thesis
  proof (cases "cc_fi conn")
    case None
    with conn show ?thesis by (simp add: clnt_dispatch_cfg_def)
  next
    case (Some st)
    have "has_peer srv c"
      using server_inv_conn(1) [OF inv conn Some] conn by (auto simp: has_peer_def)
    from send_total [OF this] conn Some show ?thesis
      by (cases st)
        (auto simp: clnt_dispatch_cfg_def clnt_st_connected_client_def srv_env_okD [OF E] bit_simps)
  qed
qed

lemma set_bankd_total:
  assumes E: "srv_env_ok E" and inv: "server_inv srv" and c: "srv_conns srv c \<noteq> None"
  shows "set_client_bankd E c chg ip port srv \<noteq> None"
proof -
  let ?srv = "upd_conn c (\<lambda>cn. cn\<lparr>cc_bankd_ip := ip, cc_bankd_port := port\<rparr>) srv"
  have u: "same_core srv ?srv"
    by (rule same_core_upd_conn) (simp add: conn_core_def)
  have "srv_conns ?srv c \<noteq> None"
    using c by (auto simp: upd_conn_def)
  from cfg_total [OF E same_core_inv [OF u inv] this] cfg_total [OF E inv c] c
  show ?thesis by (auto simp: set_client_bankd_def Let_def)
qed

lemma update_client_total:
  assumes E: "srv_env_ok E" and inv: "server_inv srv"
    and peer: "\<And>b. b \<in> set (srv_banks srv) \<Longrightarrow> bank_of srv b = Some (bank_id (sm_bank m)) \<Longrightarrow> has_peer srv b"
    and arg: "\<And>b. bankd = Some b \<Longrightarrow> has_peer srv b"
  shows "update_client_for_slotmap E m bankd srv \<noteq> None"
proof (cases "client_conn_by_slot srv (sm_client m)")
  case None
  then show ?thesis by (simp add: update_client_for_slotmap_def)
next
  case (Some c)
  obtain conn where conn: "srv_conns srv c = Some conn"
    using client_conn_by_slot_SomeD [OF Some] by blast
  define srv1 where "srv1 = (if \<not> bank_slot_equals (cc_bankd_slot conn) (sm_bank m)
    then upd_conn c (cc_bankd_slot_update (\<lambda>_. sm_bank m)) srv else srv)"
  have u: "same_core srv srv1"
    unfolding srv1_def by (auto intro: same_core_upd_conn simp: conn_core_def)
  have c1: "srv_conns srv1 c \<noteq> None"
    using conn by (auto simp: srv1_def upd_conn_def)
  note tot = set_bankd_total [OF E same_core_inv [OF u inv] c1]
  define b where "b = (case bankd of None \<Rightarrow> bankd_conn_by_id srv1 (bank_id (sm_bank m)) | Some b \<Rightarrow> Some b)"
  have pb: "has_peer srv1 x" if "b = Some x" for x
  proof (cases bankd)
    case None
    with that have "bank_of srv1 x = Some (bank_id (sm_bank m))"
      by (intro bankd_conn_by_id_SomeD) (simp add: b_def)
    then have "bank_of srv x = Some (bank_id (sm_bank m))"
      by (simp add: same_core_bank_of [OF u])
    from peer [OF bank_of_mem [OF this] this] show ?thesis
      by (simp add: has_peer_same_core [OF u])
  next
    case (Some y)
    with that arg show ?thesis by (simp add: b_def has_peer_same_core [OF u])
  qed
  have "update_client_for_slotmap E m bankd srv =
      (case (if sm_state m = SLMAP_S_DELETING then None else b) of
         None \<Rightarrow> set_client_bankd E c (\<not> bank_slot_equals (cc_bankd_slot conn) (sm_bank m)) 0 0 srv1
       | Some x \<Rightarrow> do { bconn \<leftarrow> srv_conns srv1 x;
           if \<not> cc_peer bconn then None
           else case se_peer_ip E x of None \<Rightarrow> Some srv1
             | Some ip \<Rightarrow> set_client_bankd E c (\<not> bank_slot_equals (cc_bankd_slot conn) (sm_bank m)) ip 9999 srv1 })"
    unfolding update_client_for_slotmap_def Some option.case conn Option.bind.bind_lunit srv1_def b_def Let_def ..
  with tot pb show ?thesis
    by (auto simp: has_peer_def split: option.splits)
qed

section \<open>Pushing to a bankd\<close>

text \<open>What \<open>client_conn_send\<close> adds to the trace.\<close>

definition sends :: "srv_env \<Rightarrow> connref \<Rightarrow> RsproPDU_t option \<Rightarrow> (connref \<times> RsproPDU_t) list" where
  "sends E c pdu = (case pdu of None \<Rightarrow> [] | Some p \<Rightarrow> if se_enc_ok E p then [(c, p)] else [])"

lemma send_eq:
  "has_peer srv c \<Longrightarrow> client_conn_send E c pdu srv = Some (srv\<lparr>srv_sent := srv_sent srv @ sends E c pdu\<rparr>)"
  by (auto simp: client_conn_send_def has_peer_def sends_def split: option.splits)

lemma gen_state_update [simp]:
  "slotmap2CreateMappingReq a (m\<lparr>sm_state := s\<rparr>) = slotmap2CreateMappingReq a m"
  "slotmap2RemoveMappingReq a (m\<lparr>sm_state := s\<rparr>) = slotmap2RemoveMappingReq a m"
  by (simp_all add: slotmap2CreateMappingReq_def slotmap2RemoveMappingReq_def)

lemma push_maps_eq:
  assumes "has_peer srv c" and "set ps \<subseteq> dom (sm_heap (srv_slotmaps srv))"
    and gen: "\<And>a m s. gen a (m\<lparr>sm_state := s\<rparr>) = gen a m"
  shows "push_maps E c gen (list_state k) k ps srv =
    Some (srv\<lparr>srv_slotmaps := link_all c k (srv_slotmaps srv) ps,
      srv_sent := srv_sent srv @
        concat (map (\<lambda>p. sends E c (gen (se_calloc_ok E) (the (sm_heap (srv_slotmaps srv) p)))) ps)\<rparr>)"
  using assms(1,2)
proof (induction ps arbitrary: srv)
  case (Cons p ps)
  let ?srv = "upd_maps (\<lambda>sm. Slotmap_state_change sm p (list_state k) (Some (c, k)))
    (srv\<lparr>srv_sent := srv_sent srv @ sends E c (gen (se_calloc_ok E) (the (sm_heap (srv_slotmaps srv) p)))\<rparr>)"
  have h: "has_peer ?srv c"
    using Cons.prems(1) by (simp add: has_peer_def upd_maps_def)
  have d: "set ps \<subseteq> dom (sm_heap (srv_slotmaps ?srv))"
    using Cons.prems(2) by (auto simp: upd_maps_def)
  have g: "gen a (the (sm_heap (srv_slotmaps ?srv) q)) = gen a (the (sm_heap (srv_slotmaps srv) q))"
    if "q \<in> set ps" for a q
    using Cons.prems(2) that gen by (auto simp: upd_maps_def)
  obtain m where "sm_heap (srv_slotmaps srv) p = Some m"
    using Cons.prems(2) by auto
  then show ?case
    using Cons.IH [OF h d] g by (simp add: send_eq [OF Cons.prems(1)] upd_maps_def cong: map_cong)
qed simp

text \<open>The effect of a PUSH: the requests it sends and the lists it leaves.\<close>

definition push_requests :: "srv_env \<Rightarrow> connref \<Rightarrow> server_maps \<Rightarrow> (connref \<times> RsproPDU_t) list" where
  "push_requests E c sm =
     concat (map (\<lambda>p. sends E c (slotmap2CreateMappingReq (se_calloc_ok E) (the (sm_heap sm p))))
       (bank_lists sm (c, maps_new))) @
     concat (map (\<lambda>p. sends E c (slotmap2RemoveMappingReq (se_calloc_ok E) (the (sm_heap sm p))))
       (bank_lists sm (c, maps_delreq)))"

definition push_result :: "connref \<Rightarrow> server_maps \<Rightarrow> server_maps" where
  "push_result c sm = link_all c maps_deleting (link_all c maps_unack sm (bank_lists sm (c, maps_new)))
     (bank_lists sm (c, maps_delreq))"

lemma bank_list_dom: "slotmaps_wf sm \<Longrightarrow> set (bank_lists sm l) \<subseteq> dom (sm_heap sm)"
  using slotmaps_wfD(3) unfolding bank_lists_wf_def by blast

lemma push_eq:
  assumes h: "has_peer srv c" and wf: "slotmaps_wf (srv_slotmaps srv)"
  shows "clnt_st_connected_bankd E c CLNTC_E_PUSH srv =
    Some (srv\<lparr>srv_slotmaps := push_result c (srv_slotmaps srv),
      srv_sent := srv_sent srv @ push_requests E c (srv_slotmaps srv)\<rparr>)"
proof -
  let ?sm = "srv_slotmaps srv"
  let ?sm1 = "link_all c maps_unack ?sm (bank_lists ?sm (c, maps_new))"
  let ?srv1 = "srv\<lparr>srv_slotmaps := ?sm1,
      srv_sent := srv_sent srv @ concat (map (\<lambda>p. sends E c (slotmap2CreateMappingReq (se_calloc_ok E) (the (sm_heap ?sm p))))
        (bank_lists ?sm (c, maps_new)))\<rparr>"
  note d = bank_list_dom [OF wf] and u = bank_list_unique [OF wf]
  have 1: "push_maps E c slotmap2CreateMappingReq (list_state maps_unack) maps_unack (bank_lists ?sm (c, maps_new)) srv =
      Some ?srv1"
    by (rule push_maps_eq [OF h d]) simp
  have l: "bank_lists ?sm1 (c, maps_delreq) = bank_lists ?sm (c, maps_delreq)"
    by (simp add: link_all_lists bank_list_distinct [OF wf] filter_other_list [OF wf])
  have "has_peer ?srv1 c"
    using h by (simp add: has_peer_def)
  moreover have "set (bank_lists ?sm (c, maps_delreq)) \<subseteq> dom (sm_heap ?sm1)"
    using d by (auto simp: link_all_heap) blast+
  moreover have "the (sm_heap ?sm1 p) = the (sm_heap ?sm p)" if "p \<in> set (bank_lists ?sm (c, maps_delreq))" for p
    using u [OF that] by (auto simp: link_all_heap)
  ultimately have "push_maps E c slotmap2RemoveMappingReq (list_state maps_deleting) maps_deleting
      (bank_lists ?sm (c, maps_delreq)) ?srv1 =
      Some (?srv1\<lparr>srv_slotmaps := push_result c ?sm, srv_sent := srv_sent srv @ push_requests E c ?sm\<rparr>)"
    by (subst push_maps_eq) (auto simp: push_result_def push_requests_def cong: map_cong)
  with 1 l show ?thesis by simp
qed

lemma push_result_lists:
  assumes wf: "slotmaps_wf sm"
  shows "bank_lists (push_result c sm) (c', k) =
    (if c' \<noteq> c then bank_lists sm (c', k)
     else case k of
       maps_new \<Rightarrow> []
     | maps_unack \<Rightarrow> bank_lists sm (c, maps_unack) @ bank_lists sm (c, maps_new)
     | maps_active \<Rightarrow> bank_lists sm (c, maps_active)
     | maps_delreq \<Rightarrow> []
     | maps_deleting \<Rightarrow> bank_lists sm (c, maps_deleting) @ bank_lists sm (c, maps_delreq))"
proof -
  note u = filter_other_list [OF wf] and d = bank_list_distinct [OF wf]
  have "p \<notin> set (bank_lists sm (c, k'))" if "p \<in> set (bank_lists sm (c', k))" "(c', k) \<noteq> (c, k')" for p k'
    using bank_list_unique [OF wf that(1)] that(2) by auto
  then show ?thesis
    unfolding push_result_def
    by (cases k) (auto simp: link_all_lists d u filter_id_conv filter_empty_conv)
qed

lemma maps_inv_push:
  assumes inv: "maps_inv B sm" and b: "B c = Some bid" and inj: "\<And>c'. B c' = Some bid \<Longrightarrow> c' = c"
  shows "maps_inv B (push_result c sm)"
proof -
  have bid: "\<exists>m. sm_heap sm p = Some m \<and> bank_id (sm_bank m) = bid" if "p \<in> set (bank_lists sm (c, k))" for p k
    using lists_okD [OF maps_invD(2) [OF inv] that] b by auto
  have 1: "maps_inv B (link_all c maps_unack sm (bank_lists sm (c, maps_new)))"
    by (rule maps_inv_link_all [OF inv b inj bid])
  have "\<exists>m. sm_heap (link_all c maps_unack sm (bank_lists sm (c, maps_new))) p = Some m \<and> bank_id (sm_bank m) = bid"
    if "p \<in> set (bank_lists sm (c, maps_delreq))" for p
    using bid [OF that] by (auto simp: link_all_heap)
  then show ?thesis
    unfolding push_result_def by (intro maps_inv_link_all [OF 1 b inj])
qed

lemma conns_inv_maps [simp]: "conns_inv (srv\<lparr>srv_slotmaps := sm, srv_sent := snt\<rparr>) = conns_inv srv"
proof -
  let ?srv = "srv\<lparr>srv_slotmaps := sm, srv_sent := snt\<rparr>"
  have "conn_ok ?srv x cn = conn_ok srv x cn" for x cn
    by (rule conn_ok_cong, case_tac st) simp_all
  then show ?thesis
    by (simp add: conns_inv_def all_lists_def clients_unique_def banks_unique_def)
qed

lemma bank_of_maps [simp]: "bank_of (srv\<lparr>srv_slotmaps := sm, srv_sent := snt\<rparr>) = bank_of srv"
  by (rule ext) (simp add: bank_of_def)

lemma upd_maps_eq: "upd_maps f srv = srv\<lparr>srv_slotmaps := f (srv_slotmaps srv), srv_sent := srv_sent srv\<rparr>"
  by (simp add: upd_maps_def)

lemma server_inv_maps:
  assumes "server_inv srv" and "maps_inv (bank_of srv) sm"
  shows "server_inv (srv\<lparr>srv_slotmaps := sm, srv_sent := snt\<rparr>)"
  using assms by (simp add: server_inv_def)

lemma push_inv:
  assumes inv: "server_inv srv" and c: "bank_of srv c = Some bid"
    and h: "clnt_st_connected_bankd E c CLNTC_E_PUSH srv = Some srv'" and peer: "has_peer srv c"
  shows "server_inv srv'"
proof -
  have "maps_inv (bank_of srv) (push_result c (srv_slotmaps srv))"
    by (rule maps_inv_push [OF server_invD(2) [OF inv] c])
      (rule bank_of_unique [OF server_invD(1) [OF inv] c])
  with push_eq [OF peer server_invD(3) [OF inv]] h show ?thesis
    using server_inv_maps [OF inv] by auto
qed

text \<open>A mapping on one of the lists of a bankd, moved to another list of that bankd.\<close>

lemma move_inv:
  assumes inv: "server_inv srv" and p: "p \<in> set (bank_lists (srv_slotmaps srv) (c, k))"
  shows "server_inv (upd_maps (\<lambda>sm. Slotmap_state_change sm p (list_state k') (Some (c, k'))) srv)"
proof -
  obtain m where m: "sm_heap (srv_slotmaps srv) p = Some m" "bank_of srv c = Some (bank_id (sm_bank m))"
    using lists_okD [OF maps_invD(2) [OF server_invD(2) [OF inv]] p] by blast
  have "maps_inv_ex ({} - {(c, p)}) (bank_of srv)
      (Slotmap_state_change (srv_slotmaps srv) p (list_state k') (Some (c, k')))"
    by (rule maps_inv_link [OF server_invD(2) [OF inv] m])
      (rule bank_of_unique [OF server_invD(1) [OF inv] m(2)])
  then show ?thesis
    unfolding upd_maps_eq by (intro server_inv_maps [OF inv]) simp
qed

lemma create_res_inv:
  assumes inv: "server_inv srv" and S: "clnt_st_connected_bankd E c CLNTC_E_CREATE_MAP_RES srv = Some srv'"
  shows "server_inv srv'"
proof -
  obtain p ps where l: "bank_lists (srv_slotmaps srv) (c, maps_unack) = p # ps"
    using S by (auto split: list.splits)
  let ?srv = "upd_maps (\<lambda>sm. Slotmap_state_change sm p SLMAP_S_ACTIVE (Some (c, maps_active))) srv"
  have "server_inv ?srv"
    using move_inv [OF inv, of p c maps_unack maps_active] l by simp
  moreover obtain m where "update_client_for_slotmap E m (Some c) ?srv = Some srv'"
    using S l by (auto simp: Let_def split: Option.bind_splits)
  ultimately show ?thesis
    using same_core_inv same_core_update_client by blast
qed

lemma remove_res_inv:
  assumes inv: "server_inv srv" and S: "clnt_st_connected_bankd E c CLNTC_E_REMOVE_MAP_RES srv = Some srv'"
  shows "server_inv srv'"
proof -
  obtain p m srv1 where u: "update_client_for_slotmap E m (Some c) srv = Some srv1"
    and s: "srv' = upd_maps (\<lambda>sm. slotmap_del sm p) srv1"
    using S by (auto split: list.splits if_splits Option.bind_splits)
  have "server_inv srv1"
    using same_core_inv [OF same_core_update_client [OF u] inv] .
  then show ?thesis
    unfolding s upd_maps_eq by (intro server_inv_maps maps_inv_del server_invD)
qed

section \<open>Losing a connection\<close>

lemma gone_inv:
  assumes inv: "server_inv srv" and f: "\<And>cn. cc_fi (f cn) = None \<and> cc_bank_id (f cn) = cc_bank_id cn \<and> cc_slot (f cn) = cc_slot cn"
  shows "server_inv (upd_conn c f srv)"
proof -
  let ?srv = "upd_conn c f srv"
  have st: "conn_ok ?srv x cn = conn_ok srv x cn" for x cn
    by (rule conn_ok_cong, case_tac st) (simp_all add: upd_conn_def)
  have m: "map_option cc_bank_id (srv_conns ?srv x) = map_option cc_bank_id (srv_conns srv x)"
    "map_option cc_slot (srv_conns ?srv x) = map_option cc_slot (srv_conns srv x)" for x
    using f by (auto simp: upd_conn_def option.map_comp comp_def)
  have l: "all_lists ?srv = all_lists srv" "srv_banks ?srv = srv_banks srv" "srv_clients ?srv = srv_clients srv"
    "srv_slotmaps ?srv = srv_slotmaps srv"
    by (simp_all add: upd_conn_def all_lists_def)
  have "dom (srv_conns ?srv) = dom (srv_conns srv)"
    by (auto simp: upd_conn_def)
  moreover have "conn_ok ?srv x cn" if "srv_conns ?srv x = Some cn" for x cn
    unfolding st using that f server_invD(1) [OF inv]
    by (cases "x = c") (auto simp: upd_conn_def conns_inv_def conn_ok_def)
  ultimately have "conns_inv ?srv"
    using server_invD(1) [OF inv] unfolding conns_inv_def clients_unique_def banks_unique_def m l by simp
  moreover have "bank_of ?srv = bank_of srv"
    by (rule ext) (simp add: bank_of_def m l)
  ultimately show ?thesis
    using server_invD(2) [OF inv] by (simp add: server_inv_def l)
qed

text \<open>The connection object leaves every list and is freed.\<close>

definition remove_conn :: "connref \<Rightarrow> rspro_server \<Rightarrow> rspro_server" where
  "remove_conn c srv = srv\<lparr>srv_slotmaps := unlink_all_slotmaps c (srv_slotmaps srv),
     srv_connections := removeAll c (srv_connections srv), srv_clients := removeAll c (srv_clients srv),
     srv_banks := removeAll c (srv_banks srv), srv_conns := (srv_conns srv)(c := None)\<rparr>"

lemma remove_conn_inv:
  assumes inv: "server_inv srv"
  shows "server_inv (remove_conn c srv)"
proof -
  let ?srv = "remove_conn c srv"
  note I = server_invD(1) [OF inv]
  have l: "all_lists ?srv = removeAll c (all_lists srv)"
    by (simp add: all_lists_def remove_conn_def)
  have st: "st_list st ?srv = removeAll c (st_list st srv)" for st
    by (cases st) (simp_all add: remove_conn_def)
  have conns: "srv_conns ?srv = (srv_conns srv)(c := None)" "srv_clients ?srv = removeAll c (srv_clients srv)"
    "srv_banks ?srv = removeAll c (srv_banks srv)" "srv_slotmaps ?srv = unlink_all_slotmaps c (srv_slotmaps srv)"
    by (simp_all add: remove_conn_def)
  have "conn_ok ?srv x cn" if "srv_conns ?srv x = Some cn" for x cn
    using that I by (auto simp: conns conns_inv_def conn_ok_def st split: option.splits if_splits)
  moreover have "clients_unique ?srv" "banks_unique ?srv"
    using I by (auto simp: conns_inv_def clients_unique_def banks_unique_def conns)
  moreover have "distinct (all_lists ?srv)" "set (all_lists ?srv) \<subseteq> dom (srv_conns ?srv)"
    using server_invD(4,5) [OF inv] by (auto simp: l distinct_removeAll conns)
  ultimately have "conns_inv ?srv"
    by (simp add: conns_inv_def)
  moreover have "bank_of ?srv = (bank_of srv)(c := None)"
    by (rule ext) (simp add: bank_of_def conns)
  moreover have "maps_inv ((bank_of srv)(c := None)) (unlink_all_slotmaps c (srv_slotmaps srv))"
    by (rule maps_inv_unlink_all [OF server_invD(2) [OF inv]]) (rule bank_of_unique [OF I])
  ultimately show ?thesis
    by (simp add: server_inv_def conns)
qed

lemma destroy_eq:
  assumes "srv_conns srv c = Some conn"
  shows "rspro_client_conn_destroy c srv =
    Some (if cc_peer conn then upd_conn c (\<lambda>cn. cn\<lparr>cc_peer := False, cc_ka := False\<rparr>) srv else remove_conn c srv)"
  using assms by (simp add: rspro_client_conn_destroy_def remove_conn_def upd_maps_def Let_def)

lemma upd_conn_upd_conn [simp]: "upd_conn c g (upd_conn c f srv) = upd_conn c (\<lambda>cn. g (f cn)) srv"
  by (auto simp: upd_conn_def option.map_comp comp_def)

lemma upd_conn_self [simp]: "srv_conns (upd_conn c f srv) c = map_option f (srv_conns srv c)"
  by (simp add: upd_conn_def)

text \<open>\<open>osmo_fsm_inst_term\<close>: with a stream, the object stays behind without machine and stream;
  without one, it is removed.\<close>

lemma cleanup_eq:
  assumes "srv_conns srv c = Some conn"
  shows "server_client_cleanup c srv =
    Some (if cc_peer conn
      then upd_conn c (\<lambda>cn. cn\<lparr>cc_fi := None, cc_peer := False, cc_ka := False\<rparr>) srv
      else remove_conn c (upd_conn c (cc_fi_update (\<lambda>_. None)) srv))"
  using assms by (simp add: server_client_cleanup_def destroy_eq)

lemma cleanup_inv:
  assumes inv: "server_inv srv" and "server_client_cleanup c srv = Some srv'"
  shows "server_inv srv'"
proof -
  obtain conn where conn: "srv_conns srv c = Some conn"
    using assms(2) by (auto simp: server_client_cleanup_def rspro_client_conn_destroy_def upd_conn_def split: Option.bind_splits)
  show ?thesis
    using assms(2) unfolding cleanup_eq [OF conn]
    by (auto split: if_splits intro!: gone_inv inv remove_conn_inv)
qed

lemma closed_eq:
  assumes E: "srv_env_ok E" and inv: "server_inv srv" and conn: "srv_conns srv c = Some conn"
  shows "sock_closed_cb E c srv =
    Some (if cc_fi conn = None then upd_conn c (cc_ka_update (\<lambda>_. False)) srv
      else remove_conn c (upd_conn c (\<lambda>cn. cn\<lparr>cc_ka := False, cc_peer := False, cc_fi := None\<rparr>) srv))"
proof (cases "cc_fi conn")
  case None
  with conn show ?thesis by (simp add: sock_closed_cb_def)
next
  case (Some st)
  then have "cc_peer conn"
    using server_inv_conn(1) [OF inv conn] by simp
  with conn Some show ?thesis
    by (simp add: sock_closed_cb_def clnt_dispatch_def srv_env_okD [OF E] clnt_allstate_event_mask_def bit_simps
        clnt_allstate_action_def server_client_cleanup_def destroy_eq)
qed

lemma closed_inv:
  assumes E: "srv_env_ok E" and inv: "server_inv srv" and S: "sock_closed_cb E c srv = Some srv'"
  shows "server_inv srv'"
proof -
  obtain conn where conn: "srv_conns srv c = Some conn"
    using S by (auto simp: sock_closed_cb_def split: Option.bind_splits)
  have "server_inv (upd_conn c (cc_ka_update (\<lambda>_. False)) srv)"
    by (rule same_core_inv [OF same_core_upd_conn inv]) (simp add: conn_core_def)
  then show ?thesis
    using S unfolding closed_eq [OF E inv conn]
    by (auto split: if_splits intro!: gone_inv inv remove_conn_inv)
qed

section \<open>Accepting a connection\<close>

text \<open>Fields of a connection that is neither a client's nor a bankd's yet.\<close>

lemma unlisted_inv:
  assumes inv: "server_inv srv" and c: "c \<notin> set (srv_clients srv) \<union> set (srv_banks srv)"
    and f: "\<And>cn. conn_ok srv c cn \<Longrightarrow> conn_ok srv c (f cn)"
  shows "server_inv (upd_conn c f srv)"
proof -
  let ?srv = "upd_conn c f srv"
  note I = server_invD(1) [OF inv]
  have l: "all_lists ?srv = all_lists srv" "srv_banks ?srv = srv_banks srv" "srv_clients ?srv = srv_clients srv"
    "srv_slotmaps ?srv = srv_slotmaps srv" "dom (srv_conns ?srv) = dom (srv_conns srv)"
    by (auto simp: upd_conn_def all_lists_def)
  have o: "srv_conns ?srv x = srv_conns srv x" if "x \<in> set (srv_clients srv) \<union> set (srv_banks srv)" for x
    using that c by (auto simp: upd_conn_def)
  have st: "conn_ok ?srv x cn = conn_ok srv x cn" for x cn
    by (rule conn_ok_cong, case_tac st) (simp_all add: upd_conn_def)
  have "conn_ok ?srv x cn" if "srv_conns ?srv x = Some cn" for x cn
    unfolding st using that f I by (cases "x = c") (auto simp: upd_conn_def conns_inv_def)
  moreover have "clients_unique ?srv" "banks_unique ?srv"
    using I by (auto simp: conns_inv_def clients_unique_def banks_unique_def l o)
  ultimately have "conns_inv ?srv"
    using I by (simp add: conns_inv_def l)
  moreover have "bank_of ?srv = bank_of srv"
    by (rule ext) (simp add: bank_of_def l o)
  ultimately show ?thesis
    using server_invD(2) [OF inv] by (simp add: server_inv_def l)
qed

lemma in_connections:
  assumes "server_inv srv" and "c \<in> set (srv_connections srv)"
  shows "c \<notin> set (srv_clients srv)" "c \<notin> set (srv_banks srv)"
  using server_invD(4) [OF assms(1)] assms(2) by (auto simp: all_lists_def)

text \<open>The connection moves from the list of unidentified ones to the list of its kind, together
  with its state.\<close>

definition move_conn ::
  "connref \<Rightarrow> remsim_server_client_fsm_state \<Rightarrow> (connref \<times> RsproPDU_t) list \<Rightarrow> rspro_server \<Rightarrow> rspro_server" where
  "move_conn c st snt srv =
     upd_conn c (\<lambda>cn. cn\<lparr>cc_fi := Some st, cc_T := 0\<rparr>)
       (srv\<lparr>srv_connections := removeAll c (srv_connections srv),
            srv_clients := removeAll c (srv_clients srv) @ (if st = CLNTC_ST_CONNECTED_CLIENT then [c] else []),
            srv_banks := removeAll c (srv_banks srv) @ (if st = CLNTC_ST_CONNECTED_BANKD then [c] else []),
            srv_sent := snt\<rparr>)"

lemma move_conn_conns_inv:
  assumes inv: "server_inv srv" and conn: "srv_conns srv c = Some conn" "cc_peer conn" "c \<in> set (srv_connections srv)"
    and st: "st = CLNTC_ST_CONNECTED_CLIENT \<or> st = CLNTC_ST_CONNECTED_BANKD"
    and cl: "st = CLNTC_ST_CONNECTED_CLIENT \<Longrightarrow>
      \<forall>c' \<in> set (srv_clients srv). map_option cc_slot (srv_conns srv c') \<noteq> Some (cc_slot conn)"
    and bk: "st = CLNTC_ST_CONNECTED_BANKD \<Longrightarrow>
      \<forall>c' \<in> set (srv_banks srv). map_option cc_bank_id (srv_conns srv c') \<noteq> Some (cc_bank_id conn)"
  shows "conns_inv (move_conn c st snt srv)"
proof -
  let ?srv = "move_conn c st snt srv"
  note I = server_invD(1) [OF inv]
  note out = in_connections [OF inv conn(3)]
  have l: "srv_connections ?srv = removeAll c (srv_connections srv)"
    "srv_clients ?srv = srv_clients srv @ (if st = CLNTC_ST_CONNECTED_CLIENT then [c] else [])"
    "srv_banks ?srv = srv_banks srv @ (if st = CLNTC_ST_CONNECTED_BANKD then [c] else [])"
    using out by (simp_all add: move_conn_def upd_conn_def)
  have cs: "srv_conns ?srv = (srv_conns srv)(c \<mapsto> conn\<lparr>cc_fi := Some st, cc_T := 0\<rparr>)"
    using conn(1) by (simp add: move_conn_def upd_conn_def)
  have "conn_ok ?srv x cn" if x: "srv_conns ?srv x = Some cn" for x cn
  proof (cases "x = c")
    case True
    then have cn: "cn = conn\<lparr>cc_fi := Some st, cc_T := 0\<rparr>"
      using x unfolding cs by simp
    have "st = CLNTC_ST_CONNECTED_CLIENT \<Longrightarrow> c \<in> set (srv_clients ?srv)"
      "st = CLNTC_ST_CONNECTED_BANKD \<Longrightarrow> c \<in> set (srv_banks ?srv)"
      unfolding l by simp_all
    with st conn(2) True show ?thesis unfolding cn conn_ok_def by auto
  next
    case False
    with x have "conn_ok srv x cn"
      using I by (auto simp: cs conns_inv_def)
    moreover have "x \<in> set (st_list s ?srv)" if "x \<in> set (st_list s srv)" for s
      using that False by (cases s) (auto simp: l)
    ultimately show ?thesis
      by (auto simp: conn_ok_def split: option.splits)
  qed
  moreover have "distinct (all_lists ?srv)" "set (all_lists ?srv) \<subseteq> dom (srv_conns ?srv)"
    using server_invD(4,5) [OF inv] out st by (auto simp: all_lists_def l cs distinct_removeAll)
  moreover have "clients_unique ?srv"
    using I out cl unfolding conns_inv_def clients_unique_def by (auto simp: l cs dest: sym [of "Some x" for x])
  moreover have "banks_unique ?srv"
    using I out bk unfolding conns_inv_def banks_unique_def by (auto simp: l cs dest: sym [of "Some x" for x])
  ultimately show ?thesis
    by (simp add: conns_inv_def)
qed

lemma move_conn_bank_of:
  assumes inv: "server_inv srv" and conn: "srv_conns srv c = Some conn" "c \<in> set (srv_connections srv)"
  shows "bank_of (move_conn c st snt srv) =
    (if st = CLNTC_ST_CONNECTED_BANKD then (bank_of srv)(c \<mapsto> cc_bank_id conn) else bank_of srv)"
  using in_connections [OF inv conn(2)] conn(1)
  by (auto simp: bank_of_def move_conn_def upd_conn_def fun_eq_iff)

lemma move_conn_simps [simp]:
  "srv_slotmaps (move_conn c st snt srv) = srv_slotmaps srv"
  "srv_sent (move_conn c st snt srv) = snt"
  "srv_comp_id (move_conn c st snt srv) = srv_comp_id srv"
  "srv_conns (move_conn c st snt srv) c = map_option (\<lambda>cn. cn\<lparr>cc_fi := Some st, cc_T := 0\<rparr>) (srv_conns srv c)"
  by (simp_all add: move_conn_def upd_conn_def)

text \<open>An accepted client: it is answered, moved, and told about its bankd.\<close>

lemma accept_client_eq:
  assumes E: "srv_env_ok E" and inv: "server_inv srv" and conn: "srv_conns srv c = Some conn"
    and st: "cc_fi conn = Some CLNTC_ST_ESTABLISHED"
  shows "accept_client E c srv =
    clnt_st_connected_client_onenter E c (move_conn c CLNTC_ST_CONNECTED_CLIENT
      (srv_sent srv @ sends E c (rspro_gen_ConnectClientRes (se_calloc_ok E) (srv_comp_id srv) ResultCode_ok)) srv)"
proof -
  let ?srv = "srv\<lparr>srv_connections := removeAll c (srv_connections srv),
      srv_clients := removeAll c (srv_clients srv) @ [c], srv_banks := removeAll c (srv_banks srv)\<rparr>"
  have "has_peer ?srv c"
    using conn server_inv_conn(1) [OF inv conn st] by (simp add: has_peer_def)
  from send_eq [OF this] show ?thesis
    by (simp add: accept_client_def clnt_state_chg_def conn st srv_env_okD [OF E] bit_simps move_conn_def)
qed

lemma accept_bankd_eq:
  assumes E: "srv_env_ok E" and inv: "server_inv srv" and conn: "srv_conns srv c = Some conn"
    and st: "cc_fi conn = Some CLNTC_ST_ESTABLISHED"
  defines "srv' \<equiv> move_conn c CLNTC_ST_CONNECTED_BANKD
      (srv_sent srv @ sends E c (rspro_gen_ConnectBankRes (se_calloc_ok E) (srv_comp_id srv) ResultCode_ok)) srv"
  shows "accept_bankd E c srv = clnt_st_connected_bankd E c CLNTC_E_PUSH
    (upd_maps (associate_maps c (cc_bank_id conn) (mappings (srv_slotmaps srv))) srv')"
proof -
  let ?srv = "srv\<lparr>srv_connections := removeAll c (srv_connections srv),
      srv_clients := removeAll c (srv_clients srv), srv_banks := removeAll c (srv_banks srv) @ [c]\<rparr>"
  have "has_peer ?srv c"
    using conn server_inv_conn(1) [OF inv conn st] by (simp add: has_peer_def)
  from send_eq [OF this] show ?thesis
    unfolding srv'_def
    by (simp add: accept_bankd_def clnt_state_chg_def conn st srv_env_okD [OF E] bit_simps move_conn_def
        clnt_st_connected_bankd_onenter_def clnt_dispatch_push_def upd_maps_def upd_conn_def)
qed

lemma client_onenter_same_core:
  "clnt_st_connected_client_onenter E c srv = Some srv' \<Longrightarrow> same_core srv srv'"
  by (auto simp: clnt_st_connected_client_onenter_def split: option.splits Option.bind_splits
      dest: same_core_update_client)

text \<open>The situation in which \<open>clnt_st_established\<close> runs: its connection has been identified and
  no other accepted connection has that identity.\<close>

lemma accept_client_inv:
  assumes E: "srv_env_ok E" and inv: "server_inv srv" and conn: "srv_conns srv c = Some conn"
    and st: "cc_fi conn = Some CLNTC_ST_ESTABLISHED"
    and uniq: "client_conn_by_slot srv (cc_slot conn) = None"
  shows "server_inv (move_conn c CLNTC_ST_CONNECTED_CLIENT snt srv)"
    and "accept_client E c srv = Some srv' \<Longrightarrow> server_inv srv'"
proof -
  have c: "c \<in> set (srv_connections srv)" "cc_peer conn"
    using server_inv_conn [OF inv conn st] by simp_all
  show m: "server_inv (move_conn c CLNTC_ST_CONNECTED_CLIENT snt srv)" for snt
    using move_conn_conns_inv [OF inv conn c(2,1), of CLNTC_ST_CONNECTED_CLIENT snt]
      move_conn_bank_of [OF inv conn c(1)] uniq server_invD(2) [OF inv]
    by (simp add: server_inv_def client_conn_by_slot_None)
  show "server_inv srv'" if "accept_client E c srv = Some srv'"
    using that same_core_inv [OF client_onenter_same_core m] by (simp add: accept_client_eq [OF E inv conn st])
qed

lemma bank_associated_inv:
  assumes inv: "server_inv srv" and conn: "srv_conns srv c = Some conn"
    and st: "cc_fi conn = Some CLNTC_ST_ESTABLISHED"
    and uniq: "bankd_conn_by_id srv (cc_bank_id conn) = None"
  shows "server_inv (upd_maps (associate_maps c (cc_bank_id conn) (mappings (srv_slotmaps srv)))
    (move_conn c CLNTC_ST_CONNECTED_BANKD snt srv))" (is "server_inv ?srv")
proof -
  let ?m = "move_conn c CLNTC_ST_CONNECTED_BANKD snt srv"
  have c: "c \<in> set (srv_connections srv)" "cc_peer conn"
    using server_inv_conn [OF inv conn st] by simp_all
  have none: "\<And>x. bank_of srv x \<noteq> Some (cc_bank_id conn)"
    using uniq by (simp add: bankd_conn_by_id_None)
  then have u: "\<forall>c' \<in> set (srv_banks srv). map_option cc_bank_id (srv_conns srv c') \<noteq> Some (cc_bank_id conn)"
    unfolding bank_of_def by metis
  have "conns_inv ?m"
    by (rule move_conn_conns_inv [OF inv conn c(2,1)]) (simp, simp, rule u)
  then have "conns_inv ?srv"
    unfolding upd_maps_eq conns_inv_maps .
  moreover have b: "bank_of ?srv = (bank_of srv)(c \<mapsto> cc_bank_id conn)"
    unfolding upd_maps_eq bank_of_maps move_conn_bank_of [OF inv conn c(1)] by simp
  moreover have "bank_of srv c = None"
    using in_connections [OF inv c(1)] by (simp add: bank_of_def)
  then have "maps_inv ((bank_of srv)(c \<mapsto> cc_bank_id conn))
      (associate_maps c (cc_bank_id conn) (mappings (srv_slotmaps srv)) (srv_slotmaps srv))"
    by (rule maps_inv_new_bank [OF server_invD(2) [OF inv] _ none])
  ultimately show ?thesis
    by (simp add: server_inv_def upd_maps_def)
qed

lemma accept_bankd_total:
  assumes E: "srv_env_ok E" and inv: "server_inv srv" and conn: "srv_conns srv c = Some conn"
    and st: "cc_fi conn = Some CLNTC_ST_ESTABLISHED"
    and uniq: "bankd_conn_by_id srv (cc_bank_id conn) = None"
  shows "\<exists>srv'. accept_bankd E c srv = Some srv' \<and> server_inv srv' \<and> (no_stale srv \<longrightarrow> no_stale srv')"
proof -
  let ?snt = "srv_sent srv @ sends E c (rspro_gen_ConnectBankRes (se_calloc_ok E) (srv_comp_id srv) ResultCode_ok)"
  let ?srv = "upd_maps (associate_maps c (cc_bank_id conn) (mappings (srv_slotmaps srv)))
    (move_conn c CLNTC_ST_CONNECTED_BANKD ?snt srv)"
  have i: "server_inv ?srv"
    by (rule bank_associated_inv [OF inv conn st uniq])
  have c: "c \<in> set (srv_connections srv)" "cc_peer conn"
    using server_inv_conn [OF inv conn st] by simp_all
  have p: "has_peer ?srv c"
    using conn c by (simp add: has_peer_def upd_maps_def)
  have b: "bank_of ?srv c = Some (cc_bank_id conn)"
    using conn by (simp add: bank_of_def upd_maps_def move_conn_def upd_conn_def)
  have "no_stale ?srv" if "no_stale srv"
    using that in_connections [OF inv c(1)] conn
    by (auto simp: no_stale_def upd_maps_def move_conn_def upd_conn_def)
  then show ?thesis
    using push_eq [OF p server_invD(3) [OF i], of E] push_inv [OF i b _ p, of E]
    by (auto simp: accept_bankd_eq [OF E inv conn st] no_stale_def)
qed

lemma accept_client_total:
  assumes E: "srv_env_ok E" and inv: "server_inv srv" and conn: "srv_conns srv c = Some conn"
    and st: "cc_fi conn = Some CLNTC_ST_ESTABLISHED"
    and uniq: "client_conn_by_slot srv (cc_slot conn) = None" and ns: "no_stale srv"
  shows "\<exists>srv'. accept_client E c srv = Some srv' \<and> server_inv srv' \<and> no_stale srv'"
proof -
  let ?snt = "srv_sent srv @ sends E c (rspro_gen_ConnectClientRes (se_calloc_ok E) (srv_comp_id srv) ResultCode_ok)"
  let ?srv = "move_conn c CLNTC_ST_CONNECTED_CLIENT ?snt srv"
  note i = accept_client_inv(1) [OF E inv conn st uniq, of ?snt]
  have c: "c \<in> set (srv_connections srv)" "cc_peer conn"
    using server_inv_conn [OF inv conn st] by simp_all
  have ns': "no_stale ?srv"
    using ns in_connections [OF inv c(1)] conn
    by (auto simp: no_stale_def move_conn_def upd_conn_def)
  have "clnt_st_connected_client_onenter E c ?srv \<noteq> None"
  proof (cases "slotmap_by_client (srv_slotmaps srv) (cc_slot conn)")
    case None
    then show ?thesis by (simp add: clnt_st_connected_client_onenter_def conn)
  next
    case (Some p)
    then obtain m where m: "sm_heap (srv_slotmaps srv) p = Some m"
      using slotmap_by_client_SomeD by blast
    have "update_client_for_slotmap E m None ?srv \<noteq> None"
      by (rule update_client_total [OF E i]) (use no_stale_peer [OF i ns'] in \<open>auto simp: has_peer_def\<close>)
    with Some m show ?thesis by (simp add: clnt_st_connected_client_onenter_def conn)
  qed
  then obtain srv' where "clnt_st_connected_client_onenter E c ?srv = Some srv'"
    by blast
  with same_core_inv [OF client_onenter_same_core i] same_core_no_stale [OF client_onenter_same_core ns']
  show ?thesis by (simp add: accept_client_eq [OF E inv conn st])
qed

section \<open>The handlers\<close>

text \<open>A good outcome of a handler: it keeps the invariant, and with no stale connection
  around it neither aborts nor leaves one.\<close>

definition good :: "rspro_server \<Rightarrow> rspro_server option \<Rightarrow> bool" where
  "good srv r \<longleftrightarrow>
     (case r of None \<Rightarrow> \<not> no_stale srv | Some srv' \<Rightarrow> server_inv srv' \<and> (no_stale srv \<longrightarrow> no_stale srv'))"

lemma good_Some: "server_inv srv' \<Longrightarrow> (no_stale srv \<Longrightarrow> no_stale srv') \<Longrightarrow> good srv (Some srv')"
  by (simp add: good_def)

lemma good_same_core:
  assumes "server_inv srv" and "\<And>srv'. r = Some srv' \<Longrightarrow> same_core srv srv'" and "no_stale srv \<Longrightarrow> r \<noteq> None"
  shows "good srv r"
  using assms same_core_inv same_core_no_stale by (fastforce simp: good_def split: option.splits)

lemma good_trans: "good srv1 r \<Longrightarrow> (no_stale srv \<Longrightarrow> no_stale srv1) \<Longrightarrow> good srv r"
  by (auto simp: good_def split: option.splits)

lemma upd_maps_simps [simp]:
  "no_stale (upd_maps f srv) = no_stale srv" "has_peer (upd_maps f srv) c = has_peer srv c"
  "srv_banks (upd_maps f srv) = srv_banks srv" "srv_slotmaps (upd_maps f srv) = f (srv_slotmaps srv)"
  by (simp_all add: no_stale_def has_peer_def upd_maps_def)

lemma no_stale_unlisted:
  "c \<notin> set (srv_clients srv) \<union> set (srv_banks srv) \<Longrightarrow> no_stale srv \<Longrightarrow> no_stale (upd_conn c f srv)"
  by (auto simp: no_stale_def upd_conn_def)

lemma no_stale_remove: "no_stale srv \<Longrightarrow> no_stale (remove_conn c (upd_conn c f srv))"
  by (auto simp: no_stale_def remove_conn_def upd_conn_def)

lemma cleanup_good:
  assumes inv: "server_inv srv" and conn: "srv_conns srv c = Some conn"
    and c: "c \<in> set (srv_connections srv)"
  shows "good srv (server_client_cleanup c srv)"
proof -
  have "server_client_cleanup c srv \<noteq> None"
    by (simp add: cleanup_eq [OF conn])
  then obtain srv' where srv': "server_client_cleanup c srv = Some srv'" by blast
  moreover have "no_stale srv'" if "no_stale srv"
    using srv' that in_connections [OF inv c] unfolding cleanup_eq [OF conn]
    by (auto intro!: no_stale_unlisted no_stale_remove split: if_splits)
  ultimately show ?thesis
    using cleanup_inv [OF inv srv'] by (simp add: good_def)
qed

lemma state_chg_plain_good:
  assumes E: "srv_env_ok E" and inv: "server_inv srv" and conn: "srv_conns srv c = Some conn"
    and st: "cc_fi conn = Some st" "st_list st srv = srv_connections srv"
    and new: "\<And>srv. clnt_onenter E c new srv = Some srv" "T = st_timer new" "\<And>srv. st_list new srv = srv_connections srv"
  shows "good srv (clnt_state_chg E c new T srv)"
proof -
  have c: "c \<in> set (srv_connections srv)" "cc_peer conn"
    using server_inv_conn [OF inv conn st(1)] st(2) by simp_all
  have i: "server_inv (upd_conn c (\<lambda>cn. cn\<lparr>cc_fi := Some new, cc_T := T\<rparr>) srv)"
  proof -
    have "server_inv (upd_conn c (\<lambda>cn. conn\<lparr>cc_fi := Some new, cc_T := T\<rparr>) srv)"
      by (rule unlisted_inv [OF inv]) (use c in_connections [OF inv c(1)] new in \<open>auto simp: conn_ok_def\<close>)
    then show ?thesis using conn by (simp add: upd_conn_def)
  qed
  show ?thesis
    using inv i no_stale_unlisted [of c srv] in_connections [OF inv c(1)]
    by (auto simp: clnt_state_chg_def conn st(1) new(1) good_def)
qed

lemma reject_good:
  assumes E: "srv_env_ok E" and inv: "server_inv srv" and conn: "srv_conns srv c = Some conn"
    and st: "cc_fi conn = Some CLNTC_ST_ESTABLISHED"
    and prev: "prev \<in> set (srv_clients srv) \<union> set (srv_banks srv)"
  shows "good srv (reject_conn E c resp prev srv)"
proof -
  obtain pconn where p: "srv_conns srv prev = Some pconn"
    using server_invD(5) [OF inv] prev by (auto simp: all_lists_def)
  have h: "has_peer srv c"
    using conn server_inv_conn(1) [OF inv conn st] by (auto simp: has_peer_def)
  let ?srv = "srv\<lparr>srv_sent := srv_sent srv @ sends E c resp\<rparr>"
  have sc: "same_core srv ?srv"
    using same_core_send [OF send_eq [OF h]] .
  have "good ?srv (clnt_state_chg E c CLNTC_ST_REJECTED 2 ?srv)"
    by (rule state_chg_plain_good [OF E same_core_inv [OF sc inv], of c conn CLNTC_ST_ESTABLISHED])
      (simp_all add: conn st)
  then have "good srv (clnt_state_chg E c CLNTC_ST_REJECTED 2 ?srv)"
    by (rule good_trans) (rule same_core_no_stale [OF sc])
  moreover have "cc_peer pconn" if "no_stale srv"
    using no_stale_peer [OF inv that prev] p by auto
  ultimately show ?thesis
    by (auto simp: reject_conn_def p send_eq [OF h] good_def)
qed

lemma conn_ok_fields:
  "cc_fi (f cn) = cc_fi cn \<Longrightarrow> cc_peer (f cn) = cc_peer cn \<Longrightarrow> cc_T (f cn) = cc_T cn \<Longrightarrow>
     conn_ok srv c (f cn) = conn_ok srv c cn"
  by (simp add: conn_ok_def split: option.splits)

lemma established_client_good:
  assumes E: "srv_env_ok E" and inv: "server_inv srv" and conn: "srv_conns srv c = Some conn"
    and st: "cc_fi conn = Some CLNTC_ST_ESTABLISHED"
  shows "good srv (clnt_established_client_conn E c ident csl srv)"
proof -
  let ?cid = "rspro_comp_id_retrieve ident"
  let ?srv1 = "upd_conn c (cc_comp_id_update (\<lambda>_. ?cid)) srv"
  have c: "c \<in> set (srv_connections srv)"
    using server_inv_conn [OF inv conn st] by simp
  note out = in_connections [OF inv c]
  have i1: "server_inv ?srv1"
    by (rule unlisted_inv [OF inv]) (use out in \<open>auto simp: conn_ok_fields\<close>)
  have cl: "good srv (server_client_cleanup c ?srv1)"
    by (rule good_trans [OF cleanup_good [OF i1]])
      (use conn c out no_stale_unlisted [of c srv] in \<open>auto simp: upd_conn_def\<close>)
  show ?thesis
  proof (cases "ac_type ?cid \<noteq> ComponentType_remsimClient \<or> csl = None")
    case True
    with cl show ?thesis by (auto simp: clnt_established_client_conn_def Let_def)
  next
    case False
    then obtain s where csl: "csl = Some s" by blast
    let ?slot = "rspro2client_slot s"
    let ?srv2 = "upd_conn c (cc_slot_update (\<lambda>_. ?slot)) ?srv1"
    let ?conn = "conn\<lparr>cc_comp_id := ?cid, cc_slot := ?slot\<rparr>"
    have i2: "server_inv ?srv2"
      by (rule unlisted_inv [OF i1]) (use out in \<open>auto simp: conn_ok_fields upd_conn_def\<close>)
    have conn2: "srv_conns ?srv2 c = Some ?conn" "cc_fi ?conn = Some CLNTC_ST_ESTABLISHED"
      using conn st by simp_all
    have out2: "c \<notin> set (srv_clients ?srv2)"
      using out by (simp add: upd_conn_def)
    have ns: "no_stale srv \<Longrightarrow> no_stale ?srv2"
      using no_stale_unlisted out by simp
    have "good ?srv2 (clnt_established_client_conn E c ident csl srv)"
    proof (cases "client_conn_by_slot ?srv2 ?slot")
      case None
      then have "good ?srv2 (accept_client E c ?srv2)"
        using accept_client_inv(2) [OF E i2 conn2] accept_client_total [OF E i2 conn2]
        by (fastforce simp: good_def split: option.splits)
      with None False csl show ?thesis by (simp add: clnt_established_client_conn_def Let_def)
    next
      case (Some prev)
      then have prev: "prev \<in> set (srv_clients ?srv2)" "prev \<noteq> c"
        using client_conn_by_slot_SomeD [OF Some] out2 by auto
      with Some False csl reject_good [OF E i2 conn2, of prev] show ?thesis
        by (simp add: clnt_established_client_conn_def Let_def)
    qed
    then show ?thesis
      by (rule good_trans) (rule ns)
  qed
qed

lemma established_bank_good:
  assumes E: "srv_env_ok E" and inv: "server_inv srv" and conn: "srv_conns srv c = Some conn"
    and st: "cc_fi conn = Some CLNTC_ST_ESTABLISHED"
  shows "good srv (clnt_established_bank_conn E c ident b n srv)"
proof -
  let ?cid = "rspro_comp_id_retrieve ident"
  let ?srv1 = "upd_conn c (cc_comp_id_update (\<lambda>_. ?cid)) srv"
  have c: "c \<in> set (srv_connections srv)"
    using server_inv_conn [OF inv conn st] by simp
  note out = in_connections [OF inv c]
  have i1: "server_inv ?srv1"
    by (rule unlisted_inv [OF inv]) (use out in \<open>auto simp: conn_ok_fields\<close>)
  show ?thesis
  proof (cases "ac_type ?cid \<noteq> ComponentType_remsimBankd")
    case True
    have "good srv (server_client_cleanup c ?srv1)"
      by (rule good_trans [OF cleanup_good [OF i1]])
        (use conn c out no_stale_unlisted [of c srv] in \<open>auto simp: upd_conn_def\<close>)
    with True show ?thesis by (auto simp: clnt_established_bank_conn_def Let_def)
  next
    case False
    let ?f = "\<lambda>cn. cn\<lparr>cc_bank_id := word_of_int b, cc_num_slots := word_of_int n\<rparr>"
    let ?srv2 = "upd_conn c ?f ?srv1"
    let ?conn = "conn\<lparr>cc_comp_id := ?cid, cc_bank_id := word_of_int b, cc_num_slots := word_of_int n\<rparr>"
    have i2: "server_inv ?srv2"
      by (rule unlisted_inv [OF i1]) (use out in \<open>auto simp: conn_ok_fields [of ?f] upd_conn_def\<close>)
    have conn2: "srv_conns ?srv2 c = Some ?conn" "cc_fi ?conn = Some CLNTC_ST_ESTABLISHED"
      using conn st by simp_all
    have out2: "c \<notin> set (srv_banks ?srv2)"
      using out by (simp add: upd_conn_def)
    have ns: "no_stale srv \<Longrightarrow> no_stale ?srv2"
      using no_stale_unlisted out by simp
    have "good ?srv2 (clnt_established_bank_conn E c ident b n srv)"
    proof (cases "bankd_conn_by_id ?srv2 (word_of_int b)")
      case None
      then have "good ?srv2 (accept_bankd E c ?srv2)"
        using accept_bankd_total [OF E i2 conn2] by (fastforce simp: good_def)
      with None False show ?thesis by (simp add: clnt_established_bank_conn_def Let_def)
    next
      case (Some prev)
      then have prev: "prev \<in> set (srv_banks ?srv2)" "prev \<noteq> c"
        using bank_of_mem [OF bankd_conn_by_id_SomeD [OF Some]] out2 by auto
      with Some False reject_good [OF E i2 conn2, of prev] show ?thesis
        by (simp add: clnt_established_bank_conn_def Let_def)
    qed
    then show ?thesis
      by (rule good_trans) (rule ns)
  qed
qed

text \<open>The answers of a bankd, when they answer something.\<close>

lemma connected_bankd_good:
  assumes E: "srv_env_ok E" and inv: "server_inv srv" and conn: "srv_conns srv c = Some conn"
    and st: "cc_fi conn = Some CLNTC_ST_CONNECTED_BANKD"
    and ev: "(ev, k) \<in> {(CLNTC_E_CREATE_MAP_RES, maps_unack), (CLNTC_E_REMOVE_MAP_RES, maps_deleting)}"
    and ne: "bank_lists (srv_slotmaps srv) (c, k) \<noteq> []"
  shows "good srv (clnt_st_connected_bankd E c ev srv)"
proof -
  have h: "has_peer srv c"
    using conn server_inv_conn(1) [OF inv conn st] by (auto simp: has_peer_def)
  obtain p ps where l: "bank_lists (srv_slotmaps srv) (c, k) = p # ps"
    using ne by (cases "bank_lists (srv_slotmaps srv) (c, k)") auto
  obtain m where m: "sm_heap (srv_slotmaps srv) p = Some m" "sm_state m = list_state k"
    using lists_okD [OF maps_invD(2) [OF server_invD(2) [OF inv]], of p c k] l by auto
  have peers: "has_peer srv b" if "no_stale srv" "b \<in> set (srv_banks srv)" for b
    using no_stale_peer [OF inv that(1), of b] that(2) by (auto simp: has_peer_def)
  show ?thesis
  proof (cases "ev = CLNTC_E_CREATE_MAP_RES")
    case True
    let ?srv = "upd_maps (\<lambda>sm. Slotmap_state_change sm p SLMAP_S_ACTIVE (Some (c, maps_active))) srv"
    have i: "server_inv ?srv"
      using move_inv [OF inv, of p c k maps_active] l by simp
    have "good ?srv (update_client_for_slotmap E (m\<lparr>sm_state := SLMAP_S_ACTIVE\<rparr>) (Some c) ?srv)"
      by (rule good_same_core [OF i same_core_update_client], assumption, rule update_client_total [OF E i])
        (use peers h in auto)
    then have "good srv (update_client_for_slotmap E (m\<lparr>sm_state := SLMAP_S_ACTIVE\<rparr>) (Some c) ?srv)"
      by (rule good_trans) simp
    then show ?thesis
      using True ev l m by auto
  next
    case False
    have "good srv (update_client_for_slotmap E m (Some c) srv)"
      by (rule good_same_core [OF inv same_core_update_client], assumption, rule update_client_total [OF E inv])
        (use peers h in auto)
    then show ?thesis
      using False ev l m remove_res_inv [OF inv, of E c] by (auto simp: good_def split: option.splits Option.bind_split)
  qed
qed

text \<open>An event comes with the PDU that causes it, and a mapping response of a bankd answers a
  request.\<close>

definition ev_fits :: "remsim_server_client_event \<Rightarrow> RsproPDU_t option \<Rightarrow> bool" where
  "ev_fits ev data \<longleftrightarrow>
     (ev = CLNTC_E_CLIENT_CONN \<longrightarrow> (\<exists>pdu i s. data = Some pdu \<and> pdu_msg pdu = connectClientReq i s)) \<and>
     (ev = CLNTC_E_BANK_CONN \<longrightarrow> (\<exists>pdu i b n. data = Some pdu \<and> pdu_msg pdu = connectBankReq i b n))"

definition solicited :: "rspro_server \<Rightarrow> connref \<Rightarrow> remsim_server_client_event \<Rightarrow> bool" where
  "solicited srv c ev \<longleftrightarrow>
     (map_option cc_fi (srv_conns srv c) = Some (Some CLNTC_ST_CONNECTED_BANKD) \<longrightarrow>
        (ev = CLNTC_E_CREATE_MAP_RES \<longrightarrow> bank_lists (srv_slotmaps srv) (c, maps_unack) \<noteq> []) \<and>
        (ev = CLNTC_E_REMOVE_MAP_RES \<longrightarrow> bank_lists (srv_slotmaps srv) (c, maps_deleting) \<noteq> []))"

lemma push_good:
  assumes inv: "server_inv srv" and conn: "srv_conns srv c = Some conn"
    and st: "cc_fi conn = Some CLNTC_ST_CONNECTED_BANKD"
  shows "good srv (clnt_st_connected_bankd E c CLNTC_E_PUSH srv)"
proof -
  have p: "has_peer srv c" "c \<in> set (srv_banks srv)"
    using conn server_inv_conn [OF inv conn st] by (auto simp: has_peer_def)
  then have b: "bank_of srv c = Some (cc_bank_id conn)"
    using conn by (simp add: bank_of_def)
  show ?thesis
    using push_eq [OF p(1) server_invD(3) [OF inv], of E] push_inv [OF inv b _ p(1), of E]
    by (auto simp: good_def no_stale_def)
qed

lemma cfg_good:
  assumes E: "srv_env_ok E" and inv: "server_inv srv" and conn: "srv_conns srv c = Some conn"
    and st: "cc_fi conn = Some CLNTC_ST_CONNECTED_CLIENT"
  shows "good srv (clnt_st_connected_client E c CLNTC_E_CL_CFG_BANKD srv)"
proof -
  have "has_peer srv c"
    using conn server_inv_conn(1) [OF inv conn st] by (auto simp: has_peer_def)
  with conn show ?thesis
    by (intro good_same_core [OF inv])
      (auto simp: clnt_st_connected_client_def dest: same_core_send send_total)
qed

text \<open>The events that do not end the connection.\<close>

lemma clnt_dispatch_good:
  assumes E: "srv_env_ok E" and inv: "server_inv srv" and conn: "srv_conns srv c = Some conn"
    and fits: "ev_fits ev data" and sol: "solicited srv c ev"
    and ev: "ev \<noteq> CLNTC_E_TCP_DOWN" "ev \<noteq> CLNTC_E_KA_TIMEOUT"
  shows "good srv (clnt_dispatch E c ev data srv)"
proof (cases "cc_fi conn")
  case None
  then show ?thesis by (simp add: clnt_dispatch_def conn good_def inv)
next
  case (Some st)
  have all: "\<not> se_ev_ok E clnt_allstate_event_mask (clntc_ev_nr ev)"
    using ev by (cases ev) (auto simp: srv_env_okD [OF E] clnt_allstate_event_mask_def bit_simps)
  have d: "clnt_dispatch E c ev data srv =
      (if bit (clnt_in_event_mask st) (clntc_ev_nr ev) then clnt_action E c st ev data srv else Some srv)"
    using all by (simp add: clnt_dispatch_def conn Some srv_env_okD [OF E])
  have p: "cc_peer conn"
    using server_inv_conn(1) [OF inv conn Some] .
  have "good srv (clnt_action E c st ev data srv)" if b: "bit (clnt_in_event_mask st) (clntc_ev_nr ev)"
  proof (cases st)
    case CLNTC_ST_INIT
    then have "ev = CLNTC_E_TCP_UP"
      using b by (cases ev) auto
    with CLNTC_ST_INIT show ?thesis
      using state_chg_plain_good [OF E inv conn Some, of CLNTC_ST_ESTABLISHED 1] by (simp add: clnt_st_init_def)
  next
    case CLNTC_ST_ESTABLISHED
    then have "ev = CLNTC_E_CLIENT_CONN \<or> ev = CLNTC_E_BANK_CONN"
      using b by (cases ev) (auto simp: bit_simps)
    with CLNTC_ST_ESTABLISHED show ?thesis
      using fits conn p Some established_client_good [OF E inv conn] established_bank_good [OF E inv conn]
      by (auto simp: clnt_st_established_def ev_fits_def)
  next
    case CLNTC_ST_WAIT_CONF_RES
    then show ?thesis
      using server_inv_conn(2) [OF inv conn Some] by simp
  next
    case CLNTC_ST_CONNECTED_BANKD
    then have "ev = CLNTC_E_CREATE_MAP_RES \<or> ev = CLNTC_E_REMOVE_MAP_RES \<or> ev = CLNTC_E_PUSH"
      using b by (cases ev) (auto simp: bit_simps)
    moreover have st': "cc_fi conn = Some CLNTC_ST_CONNECTED_BANKD"
      using CLNTC_ST_CONNECTED_BANKD Some by simp
    ultimately show ?thesis
      using sol connected_bankd_good [OF E inv conn st', of ev maps_unack]
        connected_bankd_good [OF E inv conn st', of ev maps_deleting] push_good [OF inv conn st', of E]
      by (auto simp: solicited_def conn CLNTC_ST_CONNECTED_BANKD simp del: clnt_st_connected_bankd.simps)
  next
    case CLNTC_ST_CONNECTED_CLIENT
    then have "ev = CLNTC_E_CL_CFG_BANKD"
      using b by (cases ev) (auto simp: bit_simps)
    with CLNTC_ST_CONNECTED_CLIENT show ?thesis
      using cfg_good [OF E inv conn] Some by simp
  next
    case CLNTC_ST_REJECTED
    with b show ?thesis by simp
  qed
  with d show ?thesis
    by (auto simp: good_def inv)
qed

text \<open>The events that end it: a loss of the stream, and a silence of the peer.\<close>

lemma ka_timeout_eq:
  assumes E: "srv_env_ok E" and inv: "server_inv srv"
    and conn: "srv_conns srv c = Some conn" "cc_fi conn = Some st"
  shows "srv_ka_timeout_cb E c srv =
    Some (upd_conn c (\<lambda>cn. cn\<lparr>cc_fi := None, cc_peer := False, cc_ka := False\<rparr>) srv)"
  using server_inv_conn(1) [OF inv conn] conn
  by (simp add: srv_ka_timeout_cb_def clnt_dispatch_def srv_env_okD [OF E] clnt_allstate_event_mask_def bit_simps
      clnt_allstate_action_def cleanup_eq)

lemma closed_good:
  assumes E: "srv_env_ok E" and inv: "server_inv srv" and conn: "srv_conns srv c = Some conn"
  shows "good srv (sock_closed_cb E c srv)"
proof -
  have ns: "no_stale srv \<Longrightarrow> no_stale (upd_conn c (cc_ka_update (\<lambda>_. False)) srv)"
    by (rule same_core_no_stale [OF same_core_upd_conn]) (simp_all add: conn_core_def)
  show ?thesis
    using closed_inv [OF E inv, of c] no_stale_remove [of srv c] ns
    by (auto simp: good_def closed_eq [OF E inv conn])
qed

lemma timer_good:
  assumes inv: "server_inv srv" and conn: "srv_conns srv c = Some conn" "cc_fi conn = Some st" "cc_T conn \<noteq> 0"
  shows "good srv (server_client_fsm_timer_cb c srv)"
proof -
  have t: "cc_T conn = st_timer st" "c \<in> set (st_list st srv)"
    using server_inv_conn [OF inv conn(1,2)] by simp_all
  then have "c \<in> set (srv_connections srv)" "cc_T conn = 1 \<or> cc_T conn = 2"
    using conn(3) by (cases st; simp)+
  with cleanup_good [OF inv conn(1)] conn(1) show ?thesis
    by (auto simp: server_client_fsm_timer_cb_def)
qed

lemma new_conn_inv:
  assumes inv: "server_inv srv" and c: "srv_conns srv c = None" and peer: "cc_peer conn" "cc_fi conn = Some CLNTC_ST_INIT" "cc_T conn = 0"
  shows "server_inv (srv\<lparr>srv_conns := (srv_conns srv)(c \<mapsto> conn), srv_connections := srv_connections srv @ [c]\<rparr>)"
    (is "server_inv ?srv")
proof -
  note I = server_invD(1) [OF inv]
  have out: "c \<notin> set (all_lists srv)"
    using server_invD(5) [OF inv] c by auto
  have "conn_ok ?srv x cn" if x: "srv_conns ?srv x = Some cn" for x cn
  proof (cases "x = c")
    case True
    with x peer show ?thesis by (auto simp: conn_ok_def)
  next
    case False
    then have "conn_ok srv x cn"
      using x I by (auto simp: conns_inv_def)
    moreover have "y \<in> set (st_list s ?srv)" if "y \<in> set (st_list s srv)" for s y
      using that by (cases s) auto
    ultimately show ?thesis by (auto simp: conn_ok_def split: option.splits)
  qed
  moreover have "distinct (all_lists ?srv)" "set (all_lists ?srv) \<subseteq> dom (srv_conns ?srv)"
    using server_invD(4,5) [OF inv] out by (auto simp: all_lists_def)
  moreover have n: "((srv_conns srv)(c \<mapsto> conn)) x = srv_conns srv x" if "x \<in> set (all_lists srv)" for x
    using that out by auto
  then have "clients_unique ?srv" "banks_unique ?srv"
    using I out unfolding conns_inv_def clients_unique_def banks_unique_def all_lists_def by auto
  ultimately have "conns_inv ?srv"
    by (simp add: conns_inv_def)
  moreover have "bank_of ?srv = bank_of srv"
    using out by (auto simp: bank_of_def fun_eq_iff all_lists_def)
  ultimately show ?thesis
    using server_invD(2) [OF inv] by (simp add: server_inv_def)
qed

lemma accept_cb_good:
  assumes E: "srv_env_ok E" and inv: "server_inv srv" and c: "srv_conns srv c = None"
  shows "good srv (map_option snd (accept_cb E (Some c) peer_ok True True srv))"
proof (cases peer_ok)
  case True
  let ?conn = "zeroed_conn\<lparr>cc_peer := True, cc_fi := Some CLNTC_ST_INIT, cc_ka := True\<rparr>"
  let ?srv = "srv\<lparr>srv_conns := (srv_conns srv)(c \<mapsto> ?conn), srv_connections := srv_connections srv @ [c]\<rparr>"
  have i: "server_inv ?srv"
    by (rule new_conn_inv [OF inv c]) (simp_all add: zeroed_conn_def)
  have "good ?srv (clnt_dispatch E c CLNTC_E_TCP_UP None ?srv)"
    by (rule clnt_dispatch_good [OF E i, of _ ?conn]) (simp_all add: ev_fits_def solicited_def)
  moreover have "no_stale srv \<Longrightarrow> no_stale ?srv"
    using server_invD(5) [OF inv] c by (auto simp: no_stale_def all_lists_def)
  ultimately have "good srv (clnt_dispatch E c CLNTC_E_TCP_UP None ?srv)"
    by (rule good_trans)
  with True show ?thesis
    by (simp add: accept_cb_def Let_def option.map_comp comp_def option.map_ident)
qed (simp add: accept_cb_def good_def inv)

lemma dispatch_push_good:
  assumes E: "srv_env_ok E" and inv: "server_inv srv" and c: "srv_conns srv c \<noteq> None"
  shows "good srv (clnt_dispatch_push E c srv)"
proof -
  obtain conn where conn: "srv_conns srv c = Some conn"
    using c by blast
  show ?thesis
  proof (cases "cc_fi conn")
    case None
    with conn inv show ?thesis by (simp add: clnt_dispatch_push_def good_def)
  next
    case (Some st)
    show ?thesis
      using push_good [OF inv conn, of E] Some inv
      by (cases st) (auto simp: clnt_dispatch_push_def conn srv_env_okD [OF E] bit_simps good_def
          simp del: clnt_st_connected_bankd.simps)
  qed
qed

lemma dispatch_push_frame:
  assumes "clnt_dispatch_push E c srv = Some srv'" and wf: "slotmaps_wf (srv_slotmaps srv)" and inv: "server_inv srv"
  shows "srv_banks srv' = srv_banks srv" "srv_conns srv' = srv_conns srv"
proof -
  obtain conn where conn: "srv_conns srv c = Some conn"
    using assms(1) by (auto simp: clnt_dispatch_push_def split: Option.bind_splits)
  have "srv' = srv \<or> clnt_st_connected_bankd E c CLNTC_E_PUSH srv = Some srv' \<and> cc_fi conn \<noteq> None"
    using assms(1) conn by (auto simp: clnt_dispatch_push_def split: option.splits if_splits simp del: clnt_st_connected_bankd.simps)
  moreover have "has_peer srv c" if "cc_fi conn \<noteq> None"
    using that conn server_inv_conn(1) [OF inv conn] by (auto simp: has_peer_def)
  ultimately show "srv_banks srv' = srv_banks srv" "srv_conns srv' = srv_conns srv"
    using push_eq [OF _ wf] by fastforce+
qed

lemma push_banks_good:
  assumes E: "srv_env_ok E"
  shows "server_inv srv \<Longrightarrow> set cs \<subseteq> dom (srv_conns srv) \<Longrightarrow> good srv (push_banks E cs srv)"
proof (induction cs arbitrary: srv)
  case Nil
  then show ?case by (simp add: good_def)
next
  case (Cons c cs)
  let ?r = "if bank_lists (srv_slotmaps srv) (c, maps_new) = [] \<or> bank_lists (srv_slotmaps srv) (c, maps_delreq) = []
    then clnt_dispatch_push E c srv else Some srv"
  have "srv_conns srv c \<noteq> None"
    using Cons.prems(2) by auto
  then have g: "good srv ?r"
    using dispatch_push_good [OF E Cons.prems(1)] Cons.prems(1) by (simp add: good_def)
  show ?case
  proof (cases ?r)
    case None
    with g show ?thesis by (simp add: Let_def good_def)
  next
    case (Some srv1)
    have "srv_conns srv1 = srv_conns srv"
      using Some dispatch_push_frame(2) [OF _ server_invD(3) [OF Cons.prems(1)] Cons.prems(1)]
      by (auto split: if_splits)
    with g Some Cons.IH [of srv1] Cons.prems(2) have "good srv1 (push_banks E cs srv1)"
      by (auto simp: good_def)
    with g Some show ?thesis by (auto simp: Let_def good_def split: option.splits)
  qed
qed

lemma event_fd_good:
  assumes E: "srv_env_ok E" and inv: "server_inv srv"
  shows "good srv (map_option snd (event_fd_cb E rc srv))"
proof -
  let ?srv = "srv\<lparr>srv_event := False\<rparr>"
  have sc: "same_core srv ?srv"
    by (simp add: same_core_def)
  have "good ?srv (push_banks E (srv_banks srv) ?srv)"
    by (rule push_banks_good [OF E same_core_inv [OF sc inv]])
      (use server_invD(5) [OF inv] in \<open>auto simp: all_lists_def\<close>)
  then have "good srv (push_banks E (srv_banks srv) ?srv)"
    by (rule good_trans) (rule same_core_no_stale [OF sc])
  with inv show ?thesis
    by (simp add: event_fd_cb_def good_def option.map_comp comp_def option.map_ident split: option.splits)
qed

end
