(* ===== verification/C_Strings.thy ===== *)
theory C_Strings
  imports Prelude
begin

text \<open>
  The string functions of the C library that the program uses: \<open>strtoul\<close>, \<open>strtol\<close> and \<open>atoi\<close>, for a
  64-bit \<open>long\<close> and a 32-bit \<open>int\<close>; \<open>strstr\<close>, \<open>fgets\<close> and conversions of \<open>sscanf\<close>. A C string is the list of its
  characters before the NUL.
\<close>

definition ULONG_MAX :: nat where
  "ULONG_MAX = 2 ^ 64 - 1"

definition c_isspace :: "char \<Rightarrow> bool" where
  "c_isspace ch \<longleftrightarrow> of_char ch = (32 :: nat) \<or> 9 \<le> (of_char ch :: nat) \<and> (of_char ch :: nat) \<le> 13"

definition c_isdigit :: "char \<Rightarrow> bool" where
  "c_isdigit ch \<longleftrightarrow> 48 \<le> (of_char ch :: nat) \<and> (of_char ch :: nat) \<le> 57"

text \<open>The value of the longest prefix of digits.\<close>

fun digits_value :: "nat \<Rightarrow> string \<Rightarrow> nat" where
  "digits_value acc [] = acc"
| "digits_value acc (ch # s) = (if c_isdigit ch then digits_value (10 * acc + (of_char ch - 48)) s else acc)"

definition split_sign :: "string \<Rightarrow> bool \<times> string" where
  "split_sign s =
     (case dropWhile c_isspace s of
        [] \<Rightarrow> (False, [])
      | ch # r \<Rightarrow> if ch = CHR ''-'' then (True, r) else if ch = CHR ''+'' then (False, r) else (False, ch # r))"

text \<open>\<open>strtoul(s, NULL, 10)\<close>: its value and whether it sets \<open>errno\<close>. A minus sign negates in the
  unsigned type.\<close>

definition strtoul10 :: "string \<Rightarrow> nat \<times> bool" where
  "strtoul10 s =
     (let (neg, r) = split_sign s; v = digits_value 0 r
      in if v > ULONG_MAX then (ULONG_MAX, True)
         else ((if neg \<and> v \<noteq> 0 then 2 ^ 64 - v else v), False))"

text \<open>\<open>atoi\<close>, for numbers that fit: \<open>None\<close> where the result is undefined.\<close>

definition atoi :: "string \<Rightarrow> int option" where
  "atoi s =
     (let (neg, r) = split_sign s; v = (if neg then - int (digits_value 0 r) else int (digits_value 0 r))
      in if - (2 ^ 31) \<le> v \<and> v < 2 ^ 31 then Some v else None)"

text \<open>\<open>strtol(s, &end, 10)\<close>, and the text at \<open>end\<close>; it is the whole text when there is no number.\<close>

definition strtol10 :: "string \<Rightarrow> int \<times> string" where
  "strtol10 s =
     (let (neg, r) = split_sign s; v = (if neg then - int (digits_value 0 r) else int (digits_value 0 r))
      in if r = [] \<or> \<not> c_isdigit (hd r) then (0, s)
         else (max (- (2 ^ 63)) (min (2 ^ 63 - 1) v), dropWhile c_isdigit r))"

text \<open>\<open>strtol(s, NULL, 16)\<close>, where \<open>0x\<close> may come before the digits.\<close>

fun hex_val :: "char \<Rightarrow> nat option" where
  "hex_val c =
     (let n = of_char c :: nat
      in if 48 \<le> n \<and> n \<le> 57 then Some (n - 48)
         else if 65 \<le> n \<and> n \<le> 70 then Some (n - 55)
         else if 97 \<le> n \<and> n \<le> 102 then Some (n - 87) else None)"

fun hex_digits_value :: "nat \<Rightarrow> string \<Rightarrow> nat" where
  "hex_digits_value acc [] = acc"
| "hex_digits_value acc (c # s) = (case hex_val c of None \<Rightarrow> acc | Some d \<Rightarrow> hex_digits_value (16 * acc + d) s)"

definition strtol16 :: "string \<Rightarrow> int" where
  "strtol16 s =
     (let (neg, r) = split_sign s;
          d = (if take 2 r \<in> {''0x'', ''0X''} \<and> 2 < length r \<and> hex_val (r ! 2) \<noteq> None then drop 2 r else r);
          v = (if neg then - int (hex_digits_value 0 d) else int (hex_digits_value 0 d))
      in max (- (2 ^ 63)) (min (2 ^ 63 - 1) v))"

text \<open>\<open>strstr\<close>.\<close>

fun strstr :: "string \<Rightarrow> string \<Rightarrow> string option" where
  "strstr pat [] = (if pat = [] then Some [] else None)"
| "strstr pat (c # s) = (if take (length pat) (c # s) = pat then Some (c # s) else strstr pat s)"

text \<open>\<open>%d\<close> of \<open>sscanf\<close>: the number and the rest.\<close>

definition scan_d :: "string \<Rightarrow> (int \<times> string) option" where
  "scan_d s =
     (let (neg, r) = split_sign s
      in if r = [] \<or> \<not> c_isdigit (hd r) then None
         else Some (if neg then - int (digits_value 0 r) else int (digits_value 0 r), dropWhile c_isdigit r))"

text \<open>The conversions \<open>%ns\<close> and \<open>%n[...]\<close> of \<open>sscanf\<close>, with the rest of the text.\<close>

definition scan_set :: "nat \<Rightarrow> (char \<Rightarrow> bool) \<Rightarrow> string \<Rightarrow> (string \<times> string) option" where
  "scan_set n P s = (let w = take n (takeWhile P s) in if w = [] then None else Some (w, drop (length w) s))"

definition scan_s :: "nat \<Rightarrow> string \<Rightarrow> (string \<times> string) option" where
  "scan_s n s = scan_set n (\<lambda>c. \<not> c_isspace c) (dropWhile c_isspace s)"

text \<open>The texts that successive calls of \<open>fgets\<close> return: up to and with a newline, but at most \<open>n\<close> characters.\<close>

definition fgets :: "nat \<Rightarrow> string \<Rightarrow> string" where
  "fgets n s = take n (takeWhile (\<lambda>c. c \<noteq> CHR 0x0A) s @ take 1 (dropWhile (\<lambda>c. c \<noteq> CHR 0x0A) s))"

lemma fgets_nonempty: "s \<noteq> [] \<Longrightarrow> n \<noteq> 0 \<Longrightarrow> fgets n s \<noteq> []"
  by (cases s) (auto simp: fgets_def)

function fgets_lines :: "nat \<Rightarrow> string \<Rightarrow> string list" where
  "fgets_lines n s = (if s = [] \<or> n = 0 then [] else fgets n s # fgets_lines n (drop (length (fgets n s)) s))"
  by auto

termination
  by (relation "measure (length \<circ> snd)") (auto simp: fgets_nonempty)

declare fgets_lines.simps [simp del]

lemma takeWhile_stop: "(\<And>x. x \<in> set xs \<Longrightarrow> P x) \<Longrightarrow> \<not> P y \<Longrightarrow> takeWhile P (xs @ y # r) = xs"
  "(\<And>x. x \<in> set xs \<Longrightarrow> P x) \<Longrightarrow> \<not> P y \<Longrightarrow> dropWhile P (xs @ y # r) = y # r"
  by (induction xs) auto

lemma strtoul10_bound: "fst (strtoul10 s) \<le> ULONG_MAX"
  by (auto simp: strtoul10_def ULONG_MAX_def Let_def split: prod.splits)

text \<open>Decimal notation, and that reading it gives the number back.\<close>

fun dec_digits :: "nat \<Rightarrow> string" where
  "dec_digits n = (if n < 10 then [char_of (48 + n)] else dec_digits (n div 10) @ [char_of (48 + n mod 10)])"

declare dec_digits.simps [simp del]

lemma digit_char:
  assumes "d < 10"
  shows "c_isdigit (char_of (48 + d))" "of_char (char_of (48 + d) :: char) = (48 + d :: nat)"
  using assms by (simp_all add: c_isdigit_def)

lemma digits_value_append:
  "(\<And>ch. ch \<in> set s \<Longrightarrow> c_isdigit ch) \<Longrightarrow> digits_value acc (s @ t) = digits_value (digits_value acc s) t"
  by (induction s arbitrary: acc) auto

lemma dec_digits_digits: "ch \<in> set (dec_digits n) \<Longrightarrow> c_isdigit ch"
proof (induction n rule: dec_digits.induct)
  case (1 n)
  then show ?case
    by (cases "n < 10") (auto simp: dec_digits.simps [of n] digit_char)
qed

lemma digits_value_dec: "digits_value 0 (dec_digits n) = n"
proof (induction n rule: dec_digits.induct)
  case (1 n)
  show ?case
  proof (cases "n < 10")
    case True
    then show ?thesis by (simp add: dec_digits.simps [of n] digit_char)
  next
    case False
    then show ?thesis
      using 1 digit_char [of "n mod 10"]
      by (simp add: dec_digits.simps [of n] digits_value_append [OF dec_digits_digits])
  qed
qed

lemma dec_digits_nonempty: "dec_digits n \<noteq> []"
  by (simp add: dec_digits.simps [of n])

lemma split_sign_digits:
  assumes "s \<noteq> []" and "\<And>ch. ch \<in> set s \<Longrightarrow> c_isdigit ch"
  shows "split_sign s = (False, s)"
proof -
  obtain ch r where s: "s = ch # r"
    using assms(1) by (cases s) auto
  then have "c_isdigit ch"
    using assms(2) by simp
  then have "\<not> c_isspace ch" "ch \<noteq> CHR ''-''" "ch \<noteq> CHR ''+''"
    by (auto simp: c_isdigit_def c_isspace_def)
  with s show ?thesis by (simp add: split_sign_def)
qed

lemma strtoul10_dec: "n \<le> ULONG_MAX \<Longrightarrow> strtoul10 (dec_digits n) = (n, False)"
  using split_sign_digits [OF dec_digits_nonempty dec_digits_digits, of n]
  by (simp add: strtoul10_def digits_value_dec)

lemma length_dec_digits: "n < 10 ^ k \<Longrightarrow> 0 < k \<Longrightarrow> length (dec_digits n) \<le> k"
proof (induction k arbitrary: n)
  case (Suc k)
  then show ?case
  proof (cases "n < 10")
    case False
    with Suc.prems have "n div 10 < 10 ^ k" "0 < k" by (cases k; simp add: less_mult_imp_div_less mult.commute)+
    with Suc.IH False show ?thesis by (simp add: dec_digits.simps [of n])
  qed (simp add: dec_digits.simps [of n])
qed simp

lemma scan_d_dec:
  assumes "\<not> c_isdigit c"
  shows "scan_d (dec_digits n @ c # r) = Some (int n, c # r)"
proof -
  obtain d ds where dd: "dec_digits n = d # ds" "c_isdigit d"
    using dec_digits_nonempty [of n] dec_digits_digits [of _ n] by (cases "dec_digits n") auto
  have "\<not> c_isspace d" "d \<noteq> CHR ''-''" "d \<noteq> CHR ''+''"
    using dd(2) by (auto simp: c_isdigit_def c_isspace_def)
  then have sp: "split_sign (dec_digits n @ c # r) = (False, dec_digits n @ c # r)"
    by (simp add: split_sign_def dd(1))
  have v: "digits_value 0 (dec_digits n @ c # r) = n"
    using assms by (simp add: digits_value_append [OF dec_digits_digits] digits_value_dec)
  have "dropWhile c_isdigit (dec_digits n @ c # r) = c # r"
    using assms by (simp add: dropWhile_append2 [OF dec_digits_digits])
  with sp v dd show ?thesis
    by (simp add: scan_d_def)
qed

lemma strstr_absent: "c \<notin> set s \<Longrightarrow> strstr (c # pat) s = None"
  by (induction s) auto

end
