(* ===== verification/Rest_Api.thy ===== *)
theory Rest_Api
  imports Server_Inv C_Strings
begin

text \<open>
  The REST interface of the server, \<^verbatim>\<open>src/server/rest_api.c\<close>: conversion of the server's
  structures to and from JSON, the GET handlers, and the three handlers that change the slot mappings.
  A handler returns the HTTP status, the body (if any) and the server afterwards; \<open>None\<close> is an
  abort, as in Server.

  The JSON library (jansson) is not part of the sources: the record \<open>json_api\<close> holds the
  functions the code calls, and \<open>json_documented\<close> what their documentation says about reading
  back what was stored. A value that cannot be made (a name that is not UTF-8) is NULL, i.e. \<open>None\<close>.
  The result of allocating a mapping, the identifier strings of the machines and whether a write to
  the eventfd succeeds are arguments. A handler runs as one step; the
  interleaving of two additions is examined in Slotmap.
\<close>

record 'j json_api =
  json_is_object :: "'j \<Rightarrow> bool"
  json_object_get :: "'j \<Rightarrow> string \<Rightarrow> 'j option"
  json_is_integer :: "'j \<Rightarrow> bool"
  json_integer_value :: "'j \<Rightarrow> int"
  json_object :: 'j
  json_object_set_new :: "'j \<Rightarrow> string \<Rightarrow> 'j option \<Rightarrow> 'j"
  json_integer :: "int \<Rightarrow> 'j option"
  json_string :: "bytes \<Rightarrow> 'j option"
  json_array :: 'j
  json_array_append_new :: "'j \<Rightarrow> 'j \<Rightarrow> 'j"

definition json_documented :: "'j json_api \<Rightarrow> bool" where
  "json_documented J \<longleftrightarrow>
     json_is_object J (json_object J) \<and>
     (\<forall>ob k v. json_is_object J ob \<longrightarrow> json_is_object J (json_object_set_new J ob k v)) \<and>
     (\<forall>ob k. json_object_set_new J ob k None = ob) \<and>
     (\<forall>ob k k' v. json_is_object J ob \<longrightarrow>
        json_object_get J (json_object_set_new J ob k (Some v)) k' = (if k' = k then Some v else json_object_get J ob k')) \<and>
     (\<forall>i. - (2 ^ 63) \<le> i \<and> i < 2 ^ 63 \<longrightarrow>
        (\<exists>v. json_integer J i = Some v \<and> json_is_integer J v \<and> json_integer_value J v = i))"

text \<open>The bytes of a string literal.\<close>

definition ascii :: "string \<Rightarrow> bytes" where
  "ascii s = map of_char s"

section \<open>Conversions\<close>

definition comp_type_name :: "int \<Rightarrow> string option" where
  "comp_type_name t =
     (if t = ComponentType_remsimClient then Some ''remsimClient''
      else if t = ComponentType_remsimServer then Some ''remsimServer''
      else if t = ComponentType_remsimBankd then Some ''remsimBankd'' else None)"

definition set_nonempty :: "'j json_api \<Rightarrow> string \<Rightarrow> bytes \<Rightarrow> 'j \<Rightarrow> 'j" where
  "set_nonempty J k s ret = (if cstr s \<noteq> [] then json_object_set_new J ret k (json_string J (cstr s)) else ret)"

definition comp_id2json :: "'j json_api \<Rightarrow> app_comp_id \<Rightarrow> 'j option" where
  "comp_id2json J cid =
     do {
       tname \<leftarrow> comp_type_name (ac_type cid);
       let ret = json_object_set_new J (json_object J) ''type_'' (json_string J (ascii tname));
       let ret = json_object_set_new J ret ''name'' (json_string J (cstr (ac_name cid)));
       let ret = json_object_set_new J ret ''software'' (json_string J (cstr (ac_software cid)));
       let ret = json_object_set_new J ret ''swVersion'' (json_string J (cstr (ac_sw_version cid)));
       let ret = set_nonempty J ''hwManufacturer'' (ac_hw_manufacturer cid) ret;
       let ret = set_nonempty J ''hwModel'' (ac_hw_model cid) ret;
       let ret = set_nonempty J ''hwSerialNr'' (ac_hw_serial_nr cid) ret;
       let ret = set_nonempty J ''hwVersion'' (ac_hw_version cid) ret;
       Some (set_nonempty J ''fwVersion'' (ac_fw_version cid) ret)
     }"

fun clnt_state_name :: "remsim_server_client_fsm_state \<Rightarrow> string" where
  "clnt_state_name CLNTC_ST_INIT = ''INIT''"
| "clnt_state_name CLNTC_ST_ESTABLISHED = ''ESTABLISHED''"
| "clnt_state_name CLNTC_ST_WAIT_CONF_RES = ''WAIT_CONFIG_RES''"
| "clnt_state_name CLNTC_ST_CONNECTED_BANKD = ''CONNECTED_BANKD''"
| "clnt_state_name CLNTC_ST_CONNECTED_CLIENT = ''CONNECTED_CLIENT''"
| "clnt_state_name CLNTC_ST_REJECTED = ''REJECTED''"

text \<open>\<open>client2json\<close> reads the identifier and the state through \<open>conn->fi\<close>.\<close>

definition client2json :: "'j json_api \<Rightarrow> (connref \<Rightarrow> bytes) \<Rightarrow> connref \<Rightarrow> rspro_server \<Rightarrow> 'j option" where
  "client2json J fi_id c srv =
     do {
       conn \<leftarrow> srv_conns srv c;
       st \<leftarrow> cc_fi conn;
       let ret = json_object_set_new J (json_object J) ''peer'' (json_string J (fi_id c));
       let ret = json_object_set_new J ret ''state'' (json_string J (ascii (clnt_state_name st)));
       cj \<leftarrow> comp_id2json J (cc_comp_id conn);
       Some (json_object_set_new J ret ''component_id'' (Some cj))
     }"

definition bank2json :: "'j json_api \<Rightarrow> (connref \<Rightarrow> bytes) \<Rightarrow> connref \<Rightarrow> rspro_server \<Rightarrow> 'j option" where
  "bank2json J fi_id c srv =
     do {
       ret \<leftarrow> client2json J fi_id c srv;
       conn \<leftarrow> srv_conns srv c;
       let ret = json_object_set_new J ret ''bankId'' (json_integer J (uint (cc_bank_id conn)));
       Some (json_object_set_new J ret ''numberOfSlots'' (json_integer J (uint (cc_num_slots conn))))
     }"

definition bank_slot2json :: "'j json_api \<Rightarrow> bank_slot \<Rightarrow> 'j" where
  "bank_slot2json J b =
     json_object_set_new J (json_object_set_new J (json_object J) ''bankId'' (json_integer J (uint (bank_id b))))
       ''slotNr'' (json_integer J (uint (slot_nr b)))"

definition client_slot2json :: "'j json_api \<Rightarrow> client_slot \<Rightarrow> 'j" where
  "client_slot2json J c =
     json_object_set_new J (json_object_set_new J (json_object J) ''clientId'' (json_integer J (uint (client_id c))))
       ''slotNr'' (json_integer J (uint (cslot_nr c)))"

text \<open>An integer member of an object.\<close>

definition json_int_member :: "'j json_api \<Rightarrow> 'j \<Rightarrow> string \<Rightarrow> int option" where
  "json_int_member J ob k =
     (case json_object_get J ob k of
        None \<Rightarrow> None
      | Some v \<Rightarrow> if json_is_integer J v then Some (json_integer_value J v) else None)"

text \<open>\<open>json2bank_slot\<close> and \<open>json2client_slot\<close>: \<open>None\<close> is -EINVAL. The 64-bit value is stored in a
  \<open>uint16_t\<close> before it is compared.\<close>

definition json2bank_slot :: "'j json_api \<Rightarrow> 'j \<Rightarrow> bank_slot option" where
  "json2bank_slot J ob =
     (if \<not> json_is_object J ob then None
      else do {
        jbank_id \<leftarrow> json_int_member J ob ''bankId'';
        jslot_nr \<leftarrow> json_int_member J ob ''slotNr'';
        let bslot = \<lparr>bank_id = word_of_int jbank_id, slot_nr = word_of_int jslot_nr\<rparr>;
        if bank_id bslot > 1023 \<or> slot_nr bslot > 1023 then None else Some bslot
      })"

definition json2client_slot :: "'j json_api \<Rightarrow> 'j \<Rightarrow> client_slot option" where
  "json2client_slot J ob =
     (if \<not> json_is_object J ob then None
      else do {
        jclient_id \<leftarrow> json_int_member J ob ''clientId'';
        jslot_nr \<leftarrow> json_int_member J ob ''slotNr'';
        let cslot = \<lparr>client_id = word_of_int jclient_id, cslot_nr = word_of_int jslot_nr\<rparr>;
        if client_id cslot > 1023 \<or> cslot_nr cslot > 1023 then None else Some cslot
      })"

definition slotmap2json :: "'j json_api \<Rightarrow> slot_mapping \<Rightarrow> 'j" where
  "slotmap2json J m =
     json_object_set_new J
       (json_object_set_new J
         (json_object_set_new J (json_object J) ''bank'' (Some (bank_slot2json J (sm_bank m))))
         ''client'' (Some (client_slot2json J (sm_client m))))
       ''state'' (json_string J (ascii (slotmap_state_name (sm_state m))))"

definition json2slotmap :: "'j json_api \<Rightarrow> 'j \<Rightarrow> (bank_slot \<times> client_slot) option" where
  "json2slotmap J ob =
     (if \<not> json_is_object J ob then None
      else do {
        jbank \<leftarrow> json_object_get J ob ''bank'';
        if \<not> json_is_object J jbank then None
        else do {
          jclient \<leftarrow> json_object_get J ob ''client'';
          if \<not> json_is_object J jclient then None
          else do {
            b \<leftarrow> json2bank_slot J jbank;
            c \<leftarrow> json2client_slot J jclient;
            Some (b, c)
          }
        }
      })"

section \<open>GET handlers\<close>

text \<open>Lists of connections; the loop stops at a connection it cannot convert.\<close>

fun conns2json :: "'j json_api \<Rightarrow> (connref \<Rightarrow> 'j option) \<Rightarrow> connref list \<Rightarrow> 'j \<Rightarrow> 'j option" where
  "conns2json J conv [] arr = Some arr"
| "conns2json J conv (c # cs) arr = do { v \<leftarrow> conv c; conns2json J conv cs (json_array_append_new J arr v) }"

definition api_cb_banks_get :: "'j json_api \<Rightarrow> (connref \<Rightarrow> bytes) \<Rightarrow> rspro_server \<Rightarrow> (nat \<times> 'j option) option" where
  "api_cb_banks_get J fi_id srv =
     do {
       arr \<leftarrow> conns2json J (\<lambda>c. bank2json J fi_id c srv) (srv_banks srv) (json_array J);
       Some (200, Some (json_object_set_new J (json_object J) ''banks'' (Some arr)))
     }"

definition api_cb_clients_get :: "'j json_api \<Rightarrow> (connref \<Rightarrow> bytes) \<Rightarrow> rspro_server \<Rightarrow> (nat \<times> 'j option) option" where
  "api_cb_clients_get J fi_id srv =
     do {
       arr \<leftarrow> conns2json J (\<lambda>c. client2json J fi_id c srv) (srv_clients srv) (json_array J);
       Some (200, Some (json_object_set_new J (json_object J) ''clients'' (Some arr)))
     }"

text \<open>One bank or client by its number. Both loops compare the field \<open>bank.bank_id\<close>.\<close>

definition find_by_bank_id :: "rspro_server \<Rightarrow> nat \<Rightarrow> connref list \<Rightarrow> connref option" where
  "find_by_bank_id srv n cs =
     List.find (\<lambda>c. case srv_conns srv c of Some conn \<Rightarrow> unat (cc_bank_id conn) = n | None \<Rightarrow> False) cs"

definition api_cb_bank_get ::
  "'j json_api \<Rightarrow> (connref \<Rightarrow> bytes) \<Rightarrow> string option \<Rightarrow> rspro_server \<Rightarrow> (nat \<times> 'j option) option" where
  "api_cb_bank_get J fi_id bank_id_str srv =
     (case bank_id_str of
        None \<Rightarrow> Some (400, None)
      | Some s \<Rightarrow>
          let n = fst (strtoul10 s)
          in if n > 65535 then Some (400, None)
             else case find_by_bank_id srv n (srv_banks srv) of
                    None \<Rightarrow> Some (404, None)
                  | Some c \<Rightarrow> do { body \<leftarrow> bank2json J fi_id c srv; Some (200, Some body) })"

definition api_cb_client_get ::
  "'j json_api \<Rightarrow> (connref \<Rightarrow> bytes) \<Rightarrow> string option \<Rightarrow> rspro_server \<Rightarrow> (nat \<times> 'j option) option" where
  "api_cb_client_get J fi_id client_id_str srv =
     (case client_id_str of
        None \<Rightarrow> Some (400, None)
      | Some s \<Rightarrow>
          let n = fst (strtoul10 s)
          in if n > 65535 then Some (400, None)
             else case find_by_bank_id srv n (srv_clients srv) of
                    None \<Rightarrow> Some (404, None)
                  | Some c \<Rightarrow> do { body \<leftarrow> client2json J fi_id c srv; Some (200, Some body) })"

definition api_cb_slotmaps_get :: "'j json_api \<Rightarrow> rspro_server \<Rightarrow> (nat \<times> 'j option) option" where
  "api_cb_slotmaps_get J srv =
     do {
       arr \<leftarrow> conns2json J (\<lambda>p. map_option (slotmap2json J) (sm_heap (srv_slotmaps srv) p))
                (mappings (srv_slotmaps srv)) (json_array J);
       Some (200, Some (json_object_set_new J (json_object J) ''slotmaps'' (Some arr)))
     }"

section \<open>Changing the mappings\<close>

definition trigger_main_thread_via_eventfd :: "bool \<Rightarrow> rspro_server \<Rightarrow> rspro_server" where
  "trigger_main_thread_via_eventfd write_ok srv = (if write_ok then srv\<lparr>srv_event := True\<rparr> else srv)"

text \<open>\<open>api_cb_slotmaps_post\<close>, first from the slots that the body names (\<open>None\<close> without a usable
  body), then with the body itself.\<close>

definition slotmaps_post ::
  "mapref option \<Rightarrow> bool \<Rightarrow> (bank_slot \<times> client_slot) option \<Rightarrow> rspro_server \<Rightarrow> nat \<times> rspro_server" where
  "slotmaps_post alloc write_ok slots srv =
     (case slots of
        None \<Rightarrow> (400, srv)
      | Some (b, c) \<Rightarrow>
          case slotmap_add alloc (srv_slotmaps srv) b c of
            (None, _) \<Rightarrow> (400, srv)
          | (Some p, sm) \<Rightarrow>
              let srv1 = srv\<lparr>srv_slotmaps := Slotmap_state_change sm p SLMAP_S_NEW None\<rparr>
              in (201, case bankd_conn_by_id srv1 (bank_id b) of
                         None \<Rightarrow> srv1
                       | Some conn \<Rightarrow>
                           trigger_main_thread_via_eventfd write_ok
                             (upd_maps (\<lambda>sm. Slotmap_state_change sm p SLMAP_S_NEW (Some (conn, maps_new))) srv1)))"

definition api_cb_slotmaps_post ::
  "'j json_api \<Rightarrow> mapref option \<Rightarrow> bool \<Rightarrow> 'j option \<Rightarrow> rspro_server \<Rightarrow> nat \<times> rspro_server" where
  "api_cb_slotmaps_post J alloc write_ok json_req srv =
     slotmaps_post alloc write_ok (do { req \<leftarrow> json_req; json2slotmap J req }) srv"

text \<open>\<open>_slotmap_mark_deleted\<close>.\<close>

definition slotmap_mark_deleted :: "bool \<Rightarrow> mapref \<Rightarrow> rspro_server \<Rightarrow> rspro_server option" where
  "slotmap_mark_deleted write_ok p srv =
     do {
       m \<leftarrow> sm_heap (srv_slotmaps srv) p;
       let conn = bankd_conn_by_id srv (bank_id (sm_bank m));
       let srv1 = upd_maps (\<lambda>sm. slotmap_unlink sm p) srv;
       case sm_state m of
         SLMAP_S_NEW \<Rightarrow> Some (upd_maps (\<lambda>sm. slotmap_del sm p) srv1)
       | SLMAP_S_UNACKNOWLEDGED \<Rightarrow> Some srv1
       | SLMAP_S_ACTIVE \<Rightarrow>
           do {
             c \<leftarrow> conn;
             Some (trigger_main_thread_via_eventfd write_ok
               (upd_maps (\<lambda>sm. Slotmap_state_change sm p SLMAP_S_DELETE_REQ (Some (c, maps_delreq))) srv1))
           }
       | SLMAP_S_DELETE_REQ \<Rightarrow> Some srv1
       | SLMAP_S_DELETING \<Rightarrow> Some srv1
     }"

text \<open>\<open>api_cb_slotmaps_del\<close>; \<open>errno\<close> says whether \<open>errno\<close> is set when the number has been read (it is
  not cleared before).\<close>

definition api_cb_slotmaps_del ::
  "bool \<Rightarrow> bool \<Rightarrow> string option \<Rightarrow> rspro_server \<Rightarrow> (nat \<times> rspro_server) option" where
  "api_cb_slotmaps_del write_ok errno slotmap_id_str srv =
     (case slotmap_id_str of
        None \<Rightarrow> Some (400, srv)
      | Some s \<Rightarrow>
          let (map_id, err) = strtoul10 s
          in if map_id = ULONG_MAX \<and> (errno \<or> err) then Some (400, srv)
             else case List.find (\<lambda>p. case sm_heap (srv_slotmaps srv) p of
                                        Some m \<Rightarrow> unat (slotmap_get_id m) = map_id | None \<Rightarrow> False)
                         (mappings (srv_slotmaps srv)) of
                    None \<Rightarrow> Some (404, trigger_main_thread_via_eventfd write_ok srv)
                  | Some p \<Rightarrow>
                      do {
                        srv1 \<leftarrow> slotmap_mark_deleted write_ok p srv;
                        Some (200, trigger_main_thread_via_eventfd write_ok srv1)
                      })"

fun mark_all_deleted :: "bool \<Rightarrow> mapref list \<Rightarrow> rspro_server \<Rightarrow> rspro_server option" where
  "mark_all_deleted write_ok [] srv = Some srv"
| "mark_all_deleted write_ok (p # ps) srv =
     do { srv1 \<leftarrow> slotmap_mark_deleted write_ok p srv; mark_all_deleted write_ok ps srv1 }"

definition api_cb_global_reset_post :: "bool \<Rightarrow> rspro_server \<Rightarrow> (nat \<times> rspro_server) option" where
  "api_cb_global_reset_post write_ok srv =
     do {
       srv1 \<leftarrow> mark_all_deleted write_ok (mappings (srv_slotmaps srv)) srv;
       Some (200, trigger_main_thread_via_eventfd write_ok srv1)
     }"

section \<open>The handlers keep the invariant\<close>

lemma same_core_trigger: "same_core srv (trigger_main_thread_via_eventfd w srv)"
  by (simp add: trigger_main_thread_via_eventfd_def same_core_def)

lemma trigger_good:
  assumes "server_inv srv1" and "no_stale srv \<Longrightarrow> no_stale srv1"
  shows "good srv (Some (trigger_main_thread_via_eventfd w srv1))"
  using assms same_core_inv [OF same_core_trigger] same_core_no_stale [OF same_core_trigger]
  by (auto intro: good_Some)

lemma maps_good: "server_inv srv \<Longrightarrow> maps_inv (bank_of srv) (f (srv_slotmaps srv)) \<Longrightarrow> good srv (Some (upd_maps f srv))"
  using server_inv_maps [of srv "f (srv_slotmaps srv)" "srv_sent srv"] by (simp add: good_def upd_maps_eq [symmetric])

lemma slotmap_unlink_listed:
  assumes inv: "server_inv srv" and m: "sm_heap (srv_slotmaps srv) p = Some m" "sm_state m = SLMAP_S_ACTIVE"
  shows "\<exists>c. bankd_conn_by_id srv (bank_id (sm_bank m)) = Some c \<and> bank_of srv c = Some (bank_id (sm_bank m))"
proof -
  note I = maps_invD [OF server_invD(2) [OF inv]]
  obtain c k where k: "p \<in> set (bank_lists (srv_slotmaps srv) (c, k))"
    using I(3) m unfolding linked_ok_def by force
  then have "bank_of srv c = Some (bank_id (sm_bank m))"
    using lists_okD [OF I(2) k] m by auto
  then show ?thesis
    using bankd_conn_by_id_None [of srv "bank_id (sm_bank m)"] bankd_conn_by_id_SomeD
    by (cases "bankd_conn_by_id srv (bank_id (sm_bank m))") blast+
qed

lemma mark_deleted_good:
  assumes inv: "server_inv srv" and m: "sm_heap (srv_slotmaps srv) p = Some m"
  shows "\<exists>srv'. slotmap_mark_deleted w p srv = Some srv' \<and> server_inv srv' \<and> (no_stale srv \<longrightarrow> no_stale srv')"
proof -
  let ?srv = "upd_maps (\<lambda>sm. slotmap_unlink sm p) srv"
  have i: "server_inv ?srv" "no_stale ?srv = no_stale srv"
    using maps_good [OF inv, of "\<lambda>sm. slotmap_unlink sm p"] maps_inv_unlink [OF server_invD(2) [OF inv]]
    by (simp_all add: good_def)
  show ?thesis
  proof (cases "sm_state m = SLMAP_S_ACTIVE")
    case True
    obtain c where c: "bankd_conn_by_id srv (bank_id (sm_bank m)) = Some c" "bank_of srv c = Some (bank_id (sm_bank m))"
      using slotmap_unlink_listed [OF inv m True] by blast
    let ?f = "\<lambda>sm. Slotmap_state_change sm p SLMAP_S_DELETE_REQ (Some (c, maps_delreq))"
    have b: "bank_of ?srv = bank_of srv"
      unfolding upd_maps_eq by (rule bank_of_maps)
    have "sm_heap (srv_slotmaps ?srv) p = Some m"
      using m by simp
    then have "maps_inv_ex ({} - {(c, p)}) (bank_of ?srv) (Slotmap_state_change (srv_slotmaps ?srv) p (list_state maps_delreq) (Some (c, maps_delreq)))"
      by (rule maps_inv_link [OF server_invD(2) [OF i(1)] _ c(2) [folded b]])
        (rule bank_of_unique [OF server_invD(1) [OF i(1)] c(2) [folded b]])
    then have "good ?srv (Some (upd_maps ?f ?srv))"
      by (intro maps_good [OF i(1)]) simp
    then have "good ?srv (Some (trigger_main_thread_via_eventfd w (upd_maps ?f ?srv)))"
      by (intro trigger_good) (auto simp: good_def)
    with True c m i(2) show ?thesis
      by (auto simp: slotmap_mark_deleted_def good_def)
  next
    case False
    then show ?thesis
      using m i maps_good [OF i(1), of "\<lambda>sm. slotmap_del sm p"] maps_inv_del [OF server_invD(2) [OF i(1)], of p]
      by (cases "sm_state m") (auto simp: slotmap_mark_deleted_def good_def)
  qed
qed

lemma mark_deleted_heap:
  assumes "slotmap_mark_deleted w p srv = Some srv'" and "q \<noteq> p"
  shows "sm_heap (srv_slotmaps srv') q = sm_heap (srv_slotmaps srv) q"
  using assms
  by (auto simp: slotmap_mark_deleted_def trigger_main_thread_via_eventfd_def Let_def
      split: Option.bind_splits slot_mapping_state.splits if_splits)

lemma mark_all_good:
  assumes "server_inv srv" and "set ps \<subseteq> dom (sm_heap (srv_slotmaps srv))" and "distinct ps"
  shows "\<exists>srv'. mark_all_deleted w ps srv = Some srv' \<and> server_inv srv' \<and> (no_stale srv \<longrightarrow> no_stale srv')"
  using assms
proof (induction ps arbitrary: srv)
  case Nil
  then show ?case by simp
next
  case (Cons p ps)
  obtain m where "sm_heap (srv_slotmaps srv) p = Some m"
    using Cons.prems(2) by auto
  from mark_deleted_good [OF Cons.prems(1) this, of w] obtain srv1 where
    s: "slotmap_mark_deleted w p srv = Some srv1" "server_inv srv1" "no_stale srv \<longrightarrow> no_stale srv1"
    by blast
  have "set ps \<subseteq> dom (sm_heap (srv_slotmaps srv1))"
    using Cons.prems(2,3) mark_deleted_heap [OF s(1)] by (auto simp: dom_def subset_iff) metis
  from Cons.IH [OF s(2) this] Cons.prems(3) s show ?case by auto
qed

lemma global_reset_good:
  assumes inv: "server_inv srv"
  shows "good srv (map_option snd (api_cb_global_reset_post w srv))"
  using mark_all_good [OF inv, of "mappings (srv_slotmaps srv)" w] slotmaps_wfD [OF server_invD(3) [OF inv]]
    trigger_good [of _ srv w]
  by (auto simp: api_cb_global_reset_post_def)

lemma slotmaps_del_good:
  assumes inv: "server_inv srv"
  shows "good srv (map_option snd (api_cb_slotmaps_del w e s srv))"
proof -
  have g0: "good srv (Some srv)" "good srv (Some (trigger_main_thread_via_eventfd w srv))"
    using inv trigger_good [OF inv, of srv w] by (auto simp: good_def)
  have mark: "\<exists>srv1. slotmap_mark_deleted w p srv = Some srv1 \<and> good srv (Some (trigger_main_thread_via_eventfd w srv1))"
    if p: "p \<in> set (mappings (srv_slotmaps srv))" for p
  proof -
    obtain m where "sm_heap (srv_slotmaps srv) p = Some m"
      using p slotmaps_wfD(2) [OF server_invD(3) [OF inv]] by blast
    from mark_deleted_good [OF inv this, of w] trigger_good [of _ srv w] show ?thesis by auto
  qed
  show ?thesis
  proof (cases s)
    case None
    with g0 show ?thesis by (simp add: api_cb_slotmaps_del_def)
  next
    case (Some x)
    show ?thesis
    proof (cases "List.find (\<lambda>p. case sm_heap (srv_slotmaps srv) p of
        Some m \<Rightarrow> unat (slotmap_get_id m) = fst (strtoul10 x) | None \<Rightarrow> False) (mappings (srv_slotmaps srv))")
      case None
      with g0 Some show ?thesis
        by (simp add: api_cb_slotmaps_del_def Let_def split_beta del: find_None_iff')
    next
      case (Some p)
      from mark [OF conjunct1 [OF find_SomeD [OF this]]] g0 this \<open>s = Some x\<close> show ?thesis
        by (auto simp: api_cb_slotmaps_del_def Let_def split_beta)
    qed
  qed
qed

lemma slotmaps_post_good:
  assumes inv: "server_inv srv" and fr: "\<And>r. alloc = Some r \<Longrightarrow> fresh_ref (srv_slotmaps srv) r"
  shows "good srv (Some (snd (slotmaps_post alloc w slots srv)))"
proof (cases "\<exists>b c p sm. slots = Some (b, c) \<and> slotmap_add alloc (srv_slotmaps srv) b c = (Some p, sm)")
  case False
  then have "snd (slotmaps_post alloc w slots srv) = srv"
    by (auto simp: slotmaps_post_def split: option.splits prod.splits)
  with inv show ?thesis by (simp add: good_def)
next
  case True
  then obtain b c p sm where q: "slots = Some (b, c)"
    "slotmap_add alloc (srv_slotmaps srv) b c = (Some p, sm)" by blast
  then have al: "alloc = Some p" "slotmap_by_bank (srv_slotmaps srv) b = None" "slotmap_by_client (srv_slotmaps srv) c = None"
    and sm: "sm = slotmap_insert p (srv_slotmaps srv) b c"
    by (auto simp: slotmap_add_def simp del: not_None_eq split: if_splits option.splits)
  let ?m = "\<lparr>sm_bank = b, sm_client = c, sm_state = SLMAP_S_NEW\<rparr>"
  let ?sm = "Slotmap_state_change sm p SLMAP_S_NEW None"
  let ?srv = "srv\<lparr>srv_slotmaps := ?sm\<rparr>"
  have p: "\<And>l. p \<notin> set (bank_lists (srv_slotmaps srv) l)"
    using fresh_ref_unlinked [OF server_invD(3) [OF inv] fr [OF al(1)]] by blast
  have "?sm = sm"
    using p unfolding sm by (simp add: Slotmap_state_change_def slotmap_insert_def Let_def)
  then have ex: "maps_inv_ex {(c', q). q = p} (bank_of srv) ?sm"
    using maps_inv_insert [OF server_invD(2) [OF inv] fr [OF al(1)] al(2,3)] by (simp add: sm)
  have h: "sm_heap ?sm p = Some ?m"
    by (simp add: sm slotmap_insert_def)
  have b: "bank_of ?srv = bank_of srv"
    by (rule ext) (simp add: bank_of_def)
  show ?thesis
  proof (cases "bankd_conn_by_id ?srv (bank_id b)")
    case None
    then have "maps_inv (bank_of srv) ?sm"
      using ex h b by (auto simp: maps_inv_ex_def assigned_ok_def bankd_conn_by_id_None)
    from server_inv_maps [OF inv this, of "srv_sent srv"] None q show ?thesis
      by (simp add: slotmaps_post_def good_def no_stale_def)
  next
    case (Some conn)
    have bc: "bank_of srv conn = Some (bank_id b)"
      using bankd_conn_by_id_SomeD [OF Some] b by simp
    let ?f = "\<lambda>sm. Slotmap_state_change sm p SLMAP_S_NEW (Some (conn, maps_new))"
    have "maps_inv_ex ({(c', q). q = p} - {(conn, p)}) (bank_of srv) (Slotmap_state_change ?sm p (list_state maps_new) (Some (conn, maps_new)))"
      by (rule maps_inv_link [OF ex h]) (simp_all add: bc bank_of_unique [OF server_invD(1) [OF inv] bc])
    then have "maps_inv (bank_of srv) (?f ?sm)"
      using bank_of_unique [OF server_invD(1) [OF inv] bc] h unfolding maps_inv_ex_def assigned_ok_def
      by fastforce
    from server_inv_maps [OF inv this, of "srv_sent srv"] have "server_inv (upd_maps ?f ?srv)"
      by (simp add: upd_maps_def)
    moreover have "no_stale (upd_maps ?f ?srv) = no_stale srv"
      by (simp add: no_stale_def upd_maps_def)
    ultimately show ?thesis
      using trigger_good [of "upd_maps ?f ?srv" srv w] Some q by (simp add: slotmaps_post_def)
  qed
qed

end
