(* ===== verification/Server_Props.thy ===== *)
theory Server_Props
  imports Rest_Api
begin

text \<open>
  The runs of remsim-server and their properties. A step is a callback of the stream library, of a
  timer, of the keep-alive machine or of the eventfd, or a request to the REST interface. The flag of
  \<open>srv_reach\<close> says whether a keep-alive of an accepted connection may have timed out.
\<close>

section \<open>Runs\<close>

inductive srv_reach :: "bool \<Rightarrow> rspro_server \<Rightarrow> bool" where
  create: "srv_reach ka (rspro_server_create cid)"
| accept: "srv_reach ka srv \<Longrightarrow> srv_env_ok E \<Longrightarrow> srv_conns srv c = None \<Longrightarrow>
     accept_cb E (Some c) peer_ok True True srv = Some (rc, srv') \<Longrightarrow> srv_reach ka srv'"
| read: "srv_reach ka srv \<Longrightarrow> srv_env_ok E \<Longrightarrow> srv_conns srv c = Some conn \<Longrightarrow>
     sock_read_cb E C c res msg srv = Some (rc, srv') \<Longrightarrow> srv_reach ka srv'"
| closed: "srv_reach ka srv \<Longrightarrow> srv_env_ok E \<Longrightarrow> sock_closed_cb E c srv = Some srv' \<Longrightarrow> srv_reach ka srv'"
| timer: "srv_reach ka srv \<Longrightarrow> srv_conns srv c = Some conn \<Longrightarrow> cc_fi conn \<noteq> None \<Longrightarrow> cc_T conn \<noteq> 0 \<Longrightarrow>
     server_client_fsm_timer_cb c srv = Some srv' \<Longrightarrow> srv_reach ka srv'"
| ka_new: "srv_reach ka srv \<Longrightarrow> srv_env_ok E \<Longrightarrow> c \<in> set (srv_connections srv) \<Longrightarrow>
     srv_ka_timeout_cb E c srv = Some srv' \<Longrightarrow> srv_reach ka srv'"
| ka_accepted: "srv_reach ka srv \<Longrightarrow> srv_env_ok E \<Longrightarrow> srv_ka_timeout_cb E c srv = Some srv' \<Longrightarrow> srv_reach True srv'"
| eventfd: "srv_reach ka srv \<Longrightarrow> srv_env_ok E \<Longrightarrow> event_fd_cb E n srv = Some (rc, srv') \<Longrightarrow> srv_reach ka srv'"
| post: "srv_reach ka srv \<Longrightarrow> (\<And>r. alloc = Some r \<Longrightarrow> fresh_ref (srv_slotmaps srv) r) \<Longrightarrow>
     srv_reach ka (snd (slotmaps_post alloc w slots srv))"
| delete: "srv_reach ka srv \<Longrightarrow> api_cb_slotmaps_del w e s srv = Some (status, srv') \<Longrightarrow> srv_reach ka srv'"
| reset: "srv_reach ka srv \<Longrightarrow> api_cb_global_reset_post w srv = Some (status, srv') \<Longrightarrow> srv_reach ka srv'"

text \<open>A mapping response of a bankd that answers no request makes the server read the first entry
  of an empty list.\<close>

lemma unsolicited_aborts:
  assumes E: "srv_env_ok E" and "\<not> solicited srv c ev"
  shows "clnt_dispatch E c ev data srv = None"
  using assms(2)
  by (auto simp: solicited_def clnt_dispatch_def srv_env_okD [OF E] clnt_allstate_event_mask_def bit_simps)

definition rx_event :: "RsproPDU_t \<Rightarrow> remsim_server_client_event option" where
  "rx_event pdu =
     (case pdu_msg pdu of
        connectClientReq _ _ \<Rightarrow> Some CLNTC_E_CLIENT_CONN
      | connectBankReq _ _ _ \<Rightarrow> Some CLNTC_E_BANK_CONN
      | createMappingRes _ \<Rightarrow> Some CLNTC_E_CREATE_MAP_RES
      | removeMappingRes _ \<Rightarrow> Some CLNTC_E_REMOVE_MAP_RES
      | configClientIdRes _ \<Rightarrow> Some CLNTC_E_CONFIG_CL_RES
      | _ \<Rightarrow> None)"

lemma handle_rx_eq:
  "map_option snd (handle_rx_rspro E c pdu srv) =
     (case rx_event pdu of None \<Rightarrow> Some srv | Some ev \<Rightarrow> clnt_dispatch E c ev (Some pdu) srv)"
  by (auto simp: handle_rx_rspro_def rx_event_def Let_def option.map_comp comp_def option.map_ident
      split: RsproPDUchoice_t.split)

lemma rx_event_fits: "rx_event pdu = Some ev \<Longrightarrow> ev_fits ev (Some pdu) \<and> ev \<noteq> CLNTC_E_TCP_DOWN \<and> ev \<noteq> CLNTC_E_KA_TIMEOUT"
  by (auto simp: rx_event_def ev_fits_def split: RsproPDUchoice_t.splits)

text \<open>What the server relies on from its peers: a response answers a request, and
  connection-management messages are not empty.\<close>

definition msg_ok :: "rspro_server \<Rightarrow> connref \<Rightarrow> srv_msg \<Rightarrow> bool" where
  "msg_ok srv c msg \<longleftrightarrow>
     msg \<noteq> SrvCcm None \<and>
     (\<forall>pdu ev. msg = SrvRspro (Some pdu) \<longrightarrow> rx_event pdu = Some ev \<longrightarrow> solicited srv c ev)"

lemma handle_rx_good:
  assumes E: "srv_env_ok E" and inv: "server_inv srv" and c: "srv_conns srv c = Some conn"
    and sol: "\<And>ev. rx_event pdu = Some ev \<Longrightarrow> solicited srv c ev"
  shows "good srv (map_option snd (handle_rx_rspro E c pdu srv))"
  unfolding handle_rx_eq using clnt_dispatch_good [OF E inv c] sol rx_event_fits [of pdu] inv
  by (auto simp: good_def [of srv "Some srv"] split: option.split)

lemma sock_read_good:
  assumes E: "srv_env_ok E" and inv: "server_inv srv" and c: "srv_conns srv c = Some conn" and ok: "msg_ok srv c msg"
  shows "good srv (map_option snd (sock_read_cb E C c res msg srv))"
proof -
  have err: "good srv (map_option snd (map_option (Pair r) (sock_closed_cb E c srv)))" for r :: int
    using closed_good [OF E inv c] by (simp add: option.map_comp comp_def option.map_ident)
  have id: "good srv (Some srv)"
    using inv by (simp add: good_def)
  show ?thesis
  proof (cases "res \<le> 0")
    case True
    with err show ?thesis by (simp add: sock_read_cb_def Let_def)
  next
    case False
    show ?thesis
    proof (cases msg)
      case (SrvCcm m)
      then obtain ccm where "m = Some ccm"
        using ok by (auto simp: msg_ok_def)
      then obtain rc where "ipa_srv_conn_ccm C m = Some rc"
        by (cases ccm) (simp_all add: ipa_srv_conn_ccm_def)
      with SrvCcm False err id show ?thesis by (simp add: sock_read_cb_def Let_def)
    next
      case (SrvRspro p)
      show ?thesis
      proof (cases p)
        case None
        with SrvRspro False id show ?thesis by (simp add: sock_read_cb_def Let_def)
      next
        case (Some pdu)
        with SrvRspro False ok handle_rx_good [OF E inv c, of pdu] show ?thesis
          by (simp add: sock_read_cb_def Let_def msg_ok_def)
      qed
    next
      case SrvOtherExt
      with False err show ?thesis by (simp add: sock_read_cb_def Let_def)
    next
      case SrvOtherProto
      with False err show ?thesis by (simp add: sock_read_cb_def Let_def)
    qed
  qed
qed

lemma sock_read_not_ok:
  assumes E: "srv_env_ok E" and "\<not> msg_ok srv c msg" and "0 < res"
  shows "sock_read_cb E C c res msg srv = None"
proof -
  consider "msg = SrvCcm None" | pdu ev where "msg = SrvRspro (Some pdu)" "rx_event pdu = Some ev" "\<not> solicited srv c ev"
    using assms(2) by (auto simp: msg_ok_def)
  then show ?thesis
  proof cases
    case 1
    with assms(3) show ?thesis by (simp add: sock_read_cb_def ipa_srv_conn_ccm_def)
  next
    case (2 pdu ev)
    then have "map_option snd (handle_rx_rspro E c pdu srv) = None"
      using unsolicited_aborts [OF E] by (simp add: handle_rx_eq)
    with 2 assms(3) show ?thesis by (simp add: sock_read_cb_def)
  qed
qed

lemma good_not_None: "good srv (map_option f r) \<Longrightarrow> no_stale srv \<Longrightarrow> r \<noteq> None"
  by (cases r) (simp_all add: good_def)

lemma sock_read_step:
  assumes "srv_env_ok E" "server_inv srv" "srv_conns srv c = Some conn" "sock_read_cb E C c res msg srv = Some (rc, srv')"
  shows "server_inv srv' \<and> (no_stale srv \<longrightarrow> no_stale srv')"
proof (cases "msg_ok srv c msg")
  case True
  from sock_read_good [OF assms(1-3) this, of C res] assms(4) show ?thesis by (simp add: good_def)
next
  case False
  with sock_read_not_ok [OF assms(1) False, of res C] assms(4) have "\<not> 0 < res" by auto
  then have "sock_closed_cb E c srv = Some srv'"
    using assms(4) by (auto simp: sock_read_cb_def)
  with closed_good [OF assms(1-3)] show ?thesis by (simp add: good_def)
qed

lemma srv_reach_inv: "srv_reach ka srv \<Longrightarrow> server_inv srv \<and> (\<not> ka \<longrightarrow> no_stale srv)"
proof (induction rule: srv_reach.induct)
  case (create ka cid)
  have "bank_of (rspro_server_create cid) = (\<lambda>_. None)"
    by (rule ext) (simp add: bank_of_def rspro_server_create_def)
  then show ?case
    using maps_inv_init
    by (simp add: server_inv_def rspro_server_create_def conns_inv_def all_lists_def clients_unique_def
        banks_unique_def no_stale_def)
next
  case (accept ka srv E c peer_ok rc srv')
  with accept_cb_good [of E srv c peer_ok] show ?case by (auto simp: good_def)
next
  case (read ka srv E c conn C res msg rc srv')
  with sock_read_step [of E srv c conn C res msg rc srv'] show ?case by auto
next
  case (closed ka srv E c srv')
  then obtain conn where "srv_conns srv c = Some conn"
    by (auto simp: sock_closed_cb_def split: Option.bind_splits)
  with closed closed_good [of E srv c conn] show ?case by (auto simp: good_def)
next
  case (timer ka srv c conn srv')
  with timer_good [of srv c conn] show ?case by (auto simp: good_def)
next
  case (ka_new ka srv E c srv')
  then obtain conn where conn: "srv_conns srv c = Some conn"
    by (auto simp: srv_ka_timeout_cb_def clnt_dispatch_def split: Option.bind_splits)
  show ?case
  proof (cases "cc_fi conn")
    case None
    with ka_new conn show ?thesis by (auto simp: srv_ka_timeout_cb_def clnt_dispatch_def)
  next
    case (Some st)
    with ka_new conn have "srv' = upd_conn c (\<lambda>cn. cn\<lparr>cc_fi := None, cc_peer := False, cc_ka := False\<rparr>) srv"
      using ka_timeout_eq [of E srv c conn st] by auto
    with ka_new show ?thesis
      using gone_inv in_connections [of srv c] no_stale_unlisted [of c srv] by auto
  qed
next
  case (ka_accepted ka srv E c srv')
  then obtain conn where conn: "srv_conns srv c = Some conn"
    by (auto simp: srv_ka_timeout_cb_def clnt_dispatch_def split: Option.bind_splits)
  show ?case
  proof (cases "cc_fi conn")
    case None
    with ka_accepted conn show ?thesis by (auto simp: srv_ka_timeout_cb_def clnt_dispatch_def)
  next
    case (Some st)
    with ka_accepted conn have "srv' = upd_conn c (\<lambda>cn. cn\<lparr>cc_fi := None, cc_peer := False, cc_ka := False\<rparr>) srv"
      using ka_timeout_eq [of E srv c conn st] by auto
    with ka_accepted show ?thesis using gone_inv by auto
  qed
next
  case (eventfd ka srv E n rc srv')
  with event_fd_good [of E srv n] show ?case by (auto simp: good_def)
next
  case (post ka srv alloc w slots)
  then show ?case
    using slotmaps_post_good [of srv alloc w slots] by (auto simp: good_def)
next
  case (delete ka srv w e s status srv')
  with slotmaps_del_good [of srv w e s] show ?case by (auto simp: good_def)
next
  case (reset ka srv w status srv')
  with global_reset_good [of srv w] show ?case by (auto simp: good_def)
qed

section \<open>Properties\<close>

text \<open>C10. Integrity of the server, in every state a run can reach, keep-alive timeouts included. The
  mappings are a partial injection between bank slots and client slots. A mapping on one of the five
  lists of a bankd connection has the state of that list and belongs to that bank; a mapping past
  state NEW is on a list; and no mapping of a connected bank is forgotten: it is on
  one of that bank's lists. No two accepted clients have the same client slot and no two accepted
  bankds the same bank identifier.\<close>

theorem server_integrity:
  assumes "srv_reach ka srv"
  defines "sm \<equiv> srv_slotmaps srv"
  shows "(\<forall>b b' cs. slot_assoc sm b = Some cs \<longrightarrow> slot_assoc sm b' = Some cs \<longrightarrow> b = b') \<and>
    (\<forall>c k p. p \<in> set (bank_lists sm (c, k)) \<longrightarrow>
       (\<exists>m. sm_heap sm p = Some m \<and> sm_state m = list_state k \<and> bank_of srv c = Some (bank_id (sm_bank m)))) \<and>
    (\<forall>p m. sm_heap sm p = Some m \<longrightarrow> sm_state m \<noteq> SLMAP_S_NEW \<longrightarrow> (\<exists>c k. p \<in> set (bank_lists sm (c, k)))) \<and>
    (\<forall>p m c. p \<in> set (mappings sm) \<longrightarrow> sm_heap sm p = Some m \<longrightarrow> bank_of srv c = Some (bank_id (sm_bank m)) \<longrightarrow>
       (\<exists>k. p \<in> set (bank_lists sm (c, k)))) \<and>
    (\<forall>c \<in> set (srv_clients srv). \<forall>c' \<in> set (srv_clients srv).
       map_option cc_slot (srv_conns srv c) = map_option cc_slot (srv_conns srv c') \<longrightarrow> c = c') \<and>
    (\<forall>c \<in> set (srv_banks srv). \<forall>c' \<in> set (srv_banks srv).
       map_option cc_bank_id (srv_conns srv c) = map_option cc_bank_id (srv_conns srv c') \<longrightarrow> c = c')"
proof -
  have inv: "server_inv srv"
    using srv_reach_inv [OF assms(1)] by blast
  note I = maps_invD [OF server_invD(2) [OF inv], folded sm_def] and C = server_invD(1) [OF inv]
  have "\<forall>b b' cs. slot_assoc sm b = Some cs \<longrightarrow> slot_assoc sm b' = Some cs \<longrightarrow> b = b'"
    using sd.assoc_inj [OF I(1)] by blast
  moreover note I(2) [unfolded lists_ok_def] I(3) [unfolded linked_ok_def]
  moreover have "\<forall>p m c. p \<in> set (mappings sm) \<longrightarrow> sm_heap sm p = Some m \<longrightarrow> bank_of srv c = Some (bank_id (sm_bank m)) \<longrightarrow>
       (\<exists>k. p \<in> set (bank_lists sm (c, k)))"
    using I(4) unfolding assigned_ok_def by simp
  moreover have "clients_unique srv" "banks_unique srv"
    using C by (simp_all add: conns_inv_def)
  ultimately show ?thesis
    unfolding clients_unique_def banks_unique_def by blast
qed

definition ex_srv :: rspro_server where
  "ex_srv = rspro_server_create (cc_comp_id zeroed_conn)"


definition ex_senv :: srv_env where
  "ex_senv = \<lparr>se_ev_ok = bit, se_st_ok = bit, se_calloc_ok = True, se_enc_ok = (\<lambda>_. True), se_peer_ip = (\<lambda>_. Some 0x0a000001)\<rparr>"

lemma ex_senv_ok: "srv_env_ok ex_senv"
  by (simp add: srv_env_ok_def ex_senv_def fsm_documented_def)

text \<open>A server that has accepted one stream.\<close>

definition ex_srv1 :: rspro_server where
  "ex_srv1 = ex_srv\<lparr>srv_conns := [1 \<mapsto> zeroed_conn\<lparr>cc_peer := True, cc_fi := Some CLNTC_ST_ESTABLISHED, cc_T := 1, cc_ka := True\<rparr>],
     srv_connections := [1]\<rparr>"

lemma ex_srv1_accept: "accept_cb ex_senv (Some 1) True True True ex_srv = Some (0, ex_srv1)"
  by (simp add: accept_cb_def ex_srv_def ex_srv1_def rspro_server_create_def clnt_dispatch_def ex_senv_def
      clnt_allstate_event_mask_def bit_simps clnt_st_init_def clnt_state_chg_def upd_conn_def zeroed_conn_def)

lemma ex_srv1_reach: "srv_reach False ex_srv1"
  using srv_reach.accept [OF srv_reach.create [of False "cc_comp_id zeroed_conn", folded ex_srv_def] ex_senv_ok _ ex_srv1_accept]
  by (simp add: ex_srv_def rspro_server_create_def)


text \<open>Associating the mappings: those of the bank, in their order.\<close>

lemma associate_maps_lists:
  assumes "\<And>l p m. p \<in> set ps \<Longrightarrow> sm_heap sm p = Some m \<Longrightarrow> bank_id (sm_bank m) = bid \<Longrightarrow> p \<notin> set (bank_lists sm l)"
    and "distinct ps"
  shows "bank_lists (associate_maps c bid ps sm) l =
    bank_lists sm l @ (if l = (c, maps_new)
      then filter (\<lambda>p. \<exists>m. sm_heap sm p = Some m \<and> bank_id (sm_bank m) = bid) ps else [])"
  using assms
proof (induction ps arbitrary: sm)
  case (Cons p ps)
  let ?sm = "Slotmap_state_change sm p SLMAP_S_NEW (Some (c, maps_new))"
  show ?case
  proof (cases "\<exists>m. sm_heap sm p = Some m \<and> bank_id (sm_bank m) = bid")
    case False
    with Cons.IH [of sm] Cons.prems show ?thesis by (auto split: option.splits)
  next
    case True
    have d: "q \<notin> set (bank_lists ?sm l)"
      if "q \<in> set ps" "sm_heap ?sm q = Some m" "bank_id (sm_bank m) = bid" for q m l
      using that Cons.prems(1) [of q m l] Cons.prems(2) by (auto split: if_splits)
    have f: "filter (\<lambda>q. \<exists>m. sm_heap ?sm q = Some m \<and> bank_id (sm_bank m) = bid) ps =
        filter (\<lambda>q. \<exists>m. sm_heap sm q = Some m \<and> bank_id (sm_bank m) = bid) ps"
      using Cons.prems(2) by (intro filter_cong) auto
    have r: "removeAll p (bank_lists sm l) = bank_lists sm l"
      using Cons.prems(1) [of p _ l] True by auto
    have "bank_lists (associate_maps c bid ps ?sm) l = bank_lists ?sm l @ (if l = (c, maps_new)
        then filter (\<lambda>q. \<exists>m. sm_heap ?sm q = Some m \<and> bank_id (sm_bank m) = bid) ps else [])"
      using Cons.prems(2) by (intro Cons.IH d) simp_all
    then show ?thesis
      unfolding f using True r by auto
  qed
qed simp

lemma associate_maps_gen:
  assumes "sm_heap sm p = Some m"
  shows "\<exists>m'. sm_heap (associate_maps c bid ps sm) p = Some m' \<and> sm_bank m' = sm_bank m \<and> sm_client m' = sm_client m"
  using associate_maps_heap(1,2) [of c bid ps sm p] assms by auto

text \<open>The mappings of a bank that is not connected: on no list.\<close>

lemma unconnected_unlisted:
  assumes inv: "server_inv srv" and none: "\<And>c. bank_of srv c \<noteq> Some bid"
    and p: "sm_heap (srv_slotmaps srv) p = Some m" "bank_id (sm_bank m) = bid"
  shows "p \<notin> set (bank_lists (srv_slotmaps srv) l)"
proof
  assume "p \<in> set (bank_lists (srv_slotmaps srv) l)"
  then have "p \<in> set (bank_lists (srv_slotmaps srv) (fst l, snd l))" by simp
  from lists_okD [OF maps_invD(2) [OF server_invD(2) [OF inv]] this] p none show False by auto
qed

definition bank_maps :: "server_maps \<Rightarrow> u16 \<Rightarrow> mapref list" where
  "bank_maps sm bid = filter (\<lambda>p. \<exists>m. sm_heap sm p = Some m \<and> bank_id (sm_bank m) = bid) (mappings sm)"

lemma accept_bankd_result:
  assumes E: "srv_env_ok E" "se_calloc_ok E" "\<And>p. se_enc_ok E p" and inv: "server_inv srv"
    and conn: "srv_conns srv c = Some conn" and st: "cc_fi conn = Some CLNTC_ST_ESTABLISHED"
    and uniq: "bankd_conn_by_id srv (cc_bank_id conn) = None"
  defines "sm \<equiv> srv_slotmaps srv" and "ps \<equiv> bank_maps (srv_slotmaps srv) (cc_bank_id conn)"
  shows "\<exists>srv'. accept_bankd E c srv = Some srv' \<and>
    srv_sent srv' = srv_sent srv @ (c, the (rspro_gen_ConnectBankRes True (srv_comp_id srv) ResultCode_ok)) #
      map (\<lambda>p. (c, the (slotmap2CreateMappingReq True (the (sm_heap sm p))))) ps \<and>
    bank_lists (srv_slotmaps srv') (c, maps_unack) = ps \<and> bank_lists (srv_slotmaps srv') (c, maps_new) = []"
proof -
  let ?bid = "cc_bank_id conn"
  let ?sm = "associate_maps c ?bid (mappings sm) sm"
  let ?res = "rspro_gen_ConnectBankRes (se_calloc_ok E) (srv_comp_id srv) ResultCode_ok"
  let ?srv = "upd_maps (associate_maps c ?bid (mappings sm)) (move_conn c CLNTC_ST_CONNECTED_BANKD (srv_sent srv @ sends E c ?res) srv)"
  have c: "c \<in> set (srv_connections srv)" "cc_peer conn"
    using server_inv_conn [OF inv conn st] by simp_all
  have none: "\<And>x. bank_of srv x \<noteq> Some ?bid"
    using uniq by (simp add: bankd_conn_by_id_None)
  have nil: "bank_lists sm (c, k) = []" for k
  proof (rule ccontr)
    assume "bank_lists sm (c, k) \<noteq> []"
    then have "hd (bank_lists sm (c, k)) \<in> set (bank_lists sm (c, k))" by simp
    then have "bank_of srv c \<noteq> None"
      using lists_okD [OF maps_invD(2) [OF server_invD(2) [OF inv]]] unfolding sm_def by force
    with in_connections [OF inv c(1)] show False by (simp add: bank_of_def)
  qed
  have l: "bank_lists ?sm l = bank_lists sm l @ (if l = (c, maps_new) then ps else [])" for l
    using associate_maps_lists [of "mappings sm" sm ?bid c l] unconnected_unlisted [OF inv none]
      slotmaps_wfD(1) [OF server_invD(3) [OF inv]]
    by (simp add: ps_def bank_maps_def sm_def)
  have g: "slotmap2CreateMappingReq True (the (sm_heap ?sm p)) = slotmap2CreateMappingReq True (the (sm_heap sm p))" if p: "p \<in> set ps" for p
  proof -
    obtain m where m: "sm_heap sm p = Some m"
      using p by (auto simp: ps_def bank_maps_def sm_def)
    from associate_maps_gen [OF m, of c ?bid "mappings sm"] m show ?thesis
      by (auto simp: slotmap2CreateMappingReq_def)
  qed
  have i: "server_inv ?srv"
    using bank_associated_inv [OF inv conn st uniq] by (simp add: sm_def)
  have p: "has_peer ?srv c"
    using conn c by (simp add: has_peer_def upd_maps_def)
  have s: "sends E c (Some q) = [(c, q)]" for q
    using E(3) by (simp add: sends_def)
  have reqs: "push_requests E c ?sm = map (\<lambda>p. (c, the (slotmap2CreateMappingReq True (the (sm_heap sm p))))) ps"
  proof -
    have "concat (map (\<lambda>p. sends E c (slotmap2CreateMappingReq True (the (sm_heap ?sm p)))) ps) =
        concat (map (\<lambda>p. [(c, the (slotmap2CreateMappingReq True (the (sm_heap sm p))))]) ps)"
      by (intro arg_cong [of _ _ concat] map_cong refl)
        (simp add: g, simp add: slotmap2CreateMappingReq_def rspro_gen_CreateMappingReq_def mk_pdu_def s)
    then show ?thesis
      by (simp add: push_requests_def l nil E(2))
  qed
  have res: "sends E c ?res = [(c, the (rspro_gen_ConnectBankRes True (srv_comp_id srv) ResultCode_ok))]"
    using E(2) by (simp add: rspro_gen_ConnectBankRes_def mk_pdu_def s)
  have sm: "srv_slotmaps ?srv = ?sm" "srv_sent ?srv = srv_sent srv @ sends E c ?res"
    by (simp_all add: sm_def upd_maps_def)
  have "accept_bankd E c srv = clnt_st_connected_bankd E c CLNTC_E_PUSH ?srv"
    using accept_bankd_eq [OF E(1) inv conn st] unfolding sm_def .
  also have "\<dots> = Some (?srv\<lparr>srv_slotmaps := push_result c ?sm, srv_sent := srv_sent ?srv @ push_requests E c ?sm\<rparr>)"
    using push_eq [OF p server_invD(3) [OF i], of E] unfolding sm(1) .
  finally have eq: "accept_bankd E c srv =
      Some (?srv\<lparr>srv_slotmaps := push_result c ?sm, srv_sent := srv_sent ?srv @ push_requests E c ?sm\<rparr>)" .
  have "bank_lists (push_result c ?sm) (c, maps_unack) = ps" "bank_lists (push_result c ?sm) (c, maps_new) = []"
    using push_result_lists [OF server_invD(3) [OF i, unfolded sm(1)], of c c] by (simp_all add: l nil)
  moreover have "srv_sent ?srv @ push_requests E c ?sm =
      srv_sent srv @ (c, the (rspro_gen_ConnectBankRes True (srv_comp_id srv) ResultCode_ok)) #
      map (\<lambda>p. (c, the (slotmap2CreateMappingReq True (the (sm_heap sm p))))) ps"
    using sm(2) by (simp add: reqs res upd_maps_def)
  ultimately show ?thesis
    unfolding eq by simp
qed

text \<open>C12. When a bankd connects, it is first told that it is accepted and is then sent a
  CreateMappingReq for each known mapping of its bank, in the order of the collection and
  for no other mapping; all of these are then awaiting its answer.\<close>

theorem bankd_connect_pushes:
  assumes r: "srv_reach ka srv" and E: "srv_env_ok E" "se_calloc_ok E" "\<forall>p. se_enc_ok E p"
    and conn: "srv_conns srv c = Some conn" "cc_fi conn = Some CLNTC_ST_ESTABLISHED"
    and pdu: "pdu_msg pdu = connectBankReq ident b n" "ci_type ident = ComponentType_remsimBankd"
    and new: "bankd_conn_by_id srv (word_of_int b) = None"
  defines "ps \<equiv> bank_maps (srv_slotmaps srv) (word_of_int b)"
  shows "\<exists>srv'. handle_rx_rspro E c pdu srv = Some (0, srv') \<and>
    srv_sent srv' = srv_sent srv @ (c, the (rspro_gen_ConnectBankRes True (srv_comp_id srv) ResultCode_ok)) #
      map (\<lambda>p. (c, the (slotmap2CreateMappingReq True (the (sm_heap (srv_slotmaps srv) p))))) ps \<and>
    bank_lists (srv_slotmaps srv') (c, maps_unack) = ps \<and> bank_lists (srv_slotmaps srv') (c, maps_new) = []"
proof -
  let ?f = "\<lambda>cn. cn\<lparr>cc_comp_id := rspro_comp_id_retrieve ident, cc_bank_id := word_of_int b, cc_num_slots := word_of_int n\<rparr>"
  let ?srv = "upd_conn c ?f srv"
  have inv: "server_inv srv"
    using srv_reach_inv [OF r] by blast
  have c: "c \<in> set (srv_connections srv)" "cc_peer conn"
    using server_inv_conn [OF inv conn] by simp_all
  note out = in_connections [OF inv c(1)]
  have i: "server_inv ?srv"
    by (rule unlisted_inv [OF inv]) (use out in \<open>auto simp: conn_ok_fields [of ?f]\<close>)
  have by_id: "bankd_conn_by_id ?srv x = bankd_conn_by_id srv x" for x
    using out(2) unfolding bankd_conn_by_id_def by (auto simp: upd_conn_def intro!: find_cong_set)
  have ty: "ac_type (rspro_comp_id_retrieve ident) = ComponentType_remsimBankd"
    using pdu(2) by (simp add: rspro_comp_id_retrieve_def)
  have acc: "handle_rx_rspro E c pdu srv = map_option (Pair 0) (accept_bankd E c ?srv)"
    using conn c(2) pdu(1) ty new by_id
    by (simp add: handle_rx_rspro_def Let_def clnt_dispatch_def srv_env_okD [OF E(1)] clnt_allstate_event_mask_def bit_simps
        clnt_st_established_def clnt_established_bank_conn_def)
  have "\<exists>srv'. accept_bankd E c ?srv = Some srv' \<and>
    srv_sent srv' = srv_sent ?srv @ (c, the (rspro_gen_ConnectBankRes True (srv_comp_id ?srv) ResultCode_ok)) #
      map (\<lambda>p. (c, the (slotmap2CreateMappingReq True (the (sm_heap (srv_slotmaps ?srv) p)))))
        (bank_maps (srv_slotmaps ?srv) (cc_bank_id (?f conn))) \<and>
    bank_lists (srv_slotmaps srv') (c, maps_unack) = bank_maps (srv_slotmaps ?srv) (cc_bank_id (?f conn)) \<and>
    bank_lists (srv_slotmaps srv') (c, maps_new) = []"
    by (rule accept_bankd_result [OF E(1,2) _ i, of c "?f conn"]) (use E(3) conn new by_id in simp_all)
  moreover have "srv_sent ?srv = srv_sent srv" "srv_comp_id ?srv = srv_comp_id srv" "srv_slotmaps ?srv = srv_slotmaps srv"
    by (simp_all add: upd_conn_def)
  ultimately show ?thesis
    unfolding acc ps_def by auto
qed

text \<open>An identity for the examples: no optional fields.\<close>

definition ex_ident :: "int \<Rightarrow> ComponentIdentity_t" where
  "ex_ident t = \<lparr>ci_type = t, ci_name = [97], ci_software = [98], ci_swVersion = [99], ci_hwManufacturer = None,
     ci_hwModel = None, ci_hwSerialNr = None, ci_hwVersion = None, ci_fwVersion = None\<rparr>"

definition ex_pdu :: "RsproPDUchoice_t \<Rightarrow> RsproPDU_t" where
  "ex_pdu m = \<lparr>pdu_version = 2, pdu_tag = 0, pdu_msg = m\<rparr>"

theorem bankd_connect_pushes_witness:
  "\<exists>srv'. handle_rx_rspro ex_senv 1 (ex_pdu (connectBankReq (ex_ident ComponentType_remsimBankd) 1 8)) ex_srv1 = Some (0, srv') \<and>
     bank_lists (srv_slotmaps srv') (1, maps_unack) = []"
proof -
  have "bankd_conn_by_id ex_srv1 (word_of_int 1) = None" "bank_maps (srv_slotmaps ex_srv1) (word_of_int 1) = []"
    by (simp_all add: ex_srv1_def ex_srv_def rspro_server_create_def bankd_conn_by_id_def bank_maps_def slotmap_init_def)
  then show ?thesis
    using bankd_connect_pushes [OF ex_srv1_reach ex_senv_ok, of 1 _ "ex_pdu (connectBankReq (ex_ident ComponentType_remsimBankd) 1 8)"
        "ex_ident ComponentType_remsimBankd" 1 8]
    by (auto simp: ex_senv_def ex_srv1_def ex_pdu_def ex_ident_def)
qed

text \<open>What the loop of \<open>event_fd_cb\<close> does to the lists of one bankd.\<close>

definition after_event :: "server_maps \<Rightarrow> connref \<Rightarrow> bank_list \<Rightarrow> mapref list" where
  "after_event sm c k =
     (if bank_lists sm (c, maps_new) \<noteq> [] \<and> bank_lists sm (c, maps_delreq) \<noteq> [] then bank_lists sm (c, k)
      else case k of
        maps_new \<Rightarrow> []
      | maps_unack \<Rightarrow> bank_lists sm (c, maps_unack) @ bank_lists sm (c, maps_new)
      | maps_active \<Rightarrow> bank_lists sm (c, maps_active)
      | maps_delreq \<Rightarrow> []
      | maps_deleting \<Rightarrow> bank_lists sm (c, maps_deleting) @ bank_lists sm (c, maps_delreq))"

lemma push_one_bank:
  assumes E: "srv_env_ok E" and inv: "server_inv srv"
    and S: "(if bank_lists (srv_slotmaps srv) (c, maps_new) = [] \<or> bank_lists (srv_slotmaps srv) (c, maps_delreq) = []
      then clnt_dispatch_push E c srv else Some srv) = Some srv1"
  shows "server_inv srv1" "srv_conns srv1 = srv_conns srv" "srv_banks srv1 = srv_banks srv"
    "\<And>c' k. c' \<noteq> c \<Longrightarrow> bank_lists (srv_slotmaps srv1) (c', k) = bank_lists (srv_slotmaps srv) (c', k)"
    "\<And>conn k. srv_conns srv c = Some conn \<Longrightarrow> cc_fi conn = Some CLNTC_ST_CONNECTED_BANKD \<Longrightarrow>
       bank_lists (srv_slotmaps srv1) (c, k) = after_event (srv_slotmaps srv) c k"
proof -
  note wf = server_invD(3) [OF inv]
  have cases: "srv1 = srv \<or> clnt_st_connected_bankd E c CLNTC_E_PUSH srv = Some srv1 \<and> has_peer srv c"
  proof (cases "srv1 = srv")
    case False
    then have d: "clnt_dispatch_push E c srv = Some srv1"
      using S by (auto split: if_splits)
    then obtain conn where conn: "srv_conns srv c = Some conn"
      by (auto simp: clnt_dispatch_push_def split: Option.bind_splits)
    with d False have "clnt_st_connected_bankd E c CLNTC_E_PUSH srv = Some srv1 \<and> cc_fi conn \<noteq> None"
      by (auto simp: clnt_dispatch_push_def split: option.splits if_splits simp del: clnt_st_connected_bankd.simps)
    with conn server_inv_conn(1) [OF inv conn] show ?thesis by (auto simp: has_peer_def)
  qed simp
  have p: "srv1 = srv\<lparr>srv_slotmaps := push_result c (srv_slotmaps srv), srv_sent := srv_sent srv @ push_requests E c (srv_slotmaps srv)\<rparr>"
    if "srv1 \<noteq> srv"
    using that cases push_eq [OF _ wf, of c E] by simp
  show "srv_conns srv1 = srv_conns srv" "srv_banks srv1 = srv_banks srv"
    using p by (cases "srv1 = srv"; simp)+
  show "bank_lists (srv_slotmaps srv1) (c', k) = bank_lists (srv_slotmaps srv) (c', k)" if "c' \<noteq> c" for c' k
    using p that by (cases "srv1 = srv") (simp_all add: push_result_lists [OF wf])
  show "server_inv srv1"
    using S dispatch_push_good [OF E inv, of c] inv
    by (auto simp: good_def clnt_dispatch_push_def split: if_splits option.splits Option.bind_splits)
  show "bank_lists (srv_slotmaps srv1) (c, k) = after_event (srv_slotmaps srv) c k"
    if conn: "srv_conns srv c = Some conn" "cc_fi conn = Some CLNTC_ST_CONNECTED_BANKD" for conn k
  proof (cases "bank_lists (srv_slotmaps srv) (c, maps_new) \<noteq> [] \<and> bank_lists (srv_slotmaps srv) (c, maps_delreq) \<noteq> []")
    case True
    with S show ?thesis by (simp add: after_event_def)
  next
    case False
    have "has_peer srv c"
      using conn server_inv_conn(1) [OF inv conn] by (auto simp: has_peer_def)
    from push_eq [OF this wf, of E] False S conn show ?thesis
      by (auto simp: clnt_dispatch_push_def srv_env_okD [OF E] bit_simps after_event_def push_result_lists [OF wf]
          simp del: clnt_st_connected_bankd.simps)
  qed
qed

lemma push_banks_lists:
  assumes E: "srv_env_ok E"
  shows "server_inv srv \<Longrightarrow> distinct cs \<Longrightarrow> push_banks E cs srv = Some srv' \<Longrightarrow>
    srv_conns srv c = Some conn \<Longrightarrow> cc_fi conn = Some CLNTC_ST_CONNECTED_BANKD \<Longrightarrow>
    bank_lists (srv_slotmaps srv') (c, k) =
      (if c \<in> set cs then after_event (srv_slotmaps srv) c k else bank_lists (srv_slotmaps srv) (c, k))"
proof (induction cs arbitrary: srv)
  case (Cons x cs)
  let ?r = "if bank_lists (srv_slotmaps srv) (x, maps_new) = [] \<or> bank_lists (srv_slotmaps srv) (x, maps_delreq) = []
    then clnt_dispatch_push E x srv else Some srv"
  obtain srv1 where s1: "?r = Some srv1" "push_banks E cs srv1 = Some srv'"
    using Cons.prems(3) by (auto simp: Let_def split: Option.bind_splits)
  note o = push_one_bank [OF E Cons.prems(1) s1(1)]
  have ih: "bank_lists (srv_slotmaps srv') (c, k) =
      (if c \<in> set cs then after_event (srv_slotmaps srv1) c k else bank_lists (srv_slotmaps srv1) (c, k))"
    using Cons.IH [OF o(1) _ s1(2)] Cons.prems o(2) by simp
  show ?case
  proof (cases "c = x")
    case True
    then show ?thesis
      using ih Cons.prems o(5) by simp
  next
    case False
    then have e: "bank_lists (srv_slotmaps srv1) (c, k') = bank_lists (srv_slotmaps srv) (c, k')" for k'
      by (rule o(4))
    show ?thesis
      using ih False unfolding after_event_def e by simp
  qed
qed simp


text \<open>The same server after the stream has identified itself as bankd 1.\<close>

definition ex_srv2 :: rspro_server where
  "ex_srv2 = ex_srv1\<lparr>srv_conns := [1 \<mapsto> zeroed_conn\<lparr>cc_peer := True, cc_fi := Some CLNTC_ST_CONNECTED_BANKD, cc_T := 0,
       cc_ka := True, cc_comp_id := rspro_comp_id_retrieve (ex_ident ComponentType_remsimBankd), cc_bank_id := 1, cc_num_slots := 8\<rparr>],
     srv_connections := [], srv_banks := [1],
     srv_sent := [(1, the (rspro_gen_ConnectBankRes True (srv_comp_id ex_srv1) ResultCode_ok))]\<rparr>"

lemma ex_srv2_rx:
  "sock_read_cb ex_senv C 1 5 (SrvRspro (Some (ex_pdu (connectBankReq (ex_ident ComponentType_remsimBankd) 1 8)))) ex_srv1 =
     Some (0, ex_srv2)"
proof -
  have t: "ac_type (rspro_comp_id_retrieve (ex_ident ComponentType_remsimBankd)) = ComponentType_remsimBankd"
    by (simp add: rspro_comp_id_retrieve_def ex_ident_def)
  show ?thesis
    by (simp add: sock_read_cb_def handle_rx_rspro_def ex_pdu_def clnt_dispatch_def ex_srv1_def ex_srv_def rspro_server_create_def
        ex_senv_def clnt_allstate_event_mask_def bit_simps clnt_st_established_def clnt_established_bank_conn_def t Let_def
        bankd_conn_by_id_def upd_conn_def accept_bankd_def client_conn_send_def rspro_gen_ConnectBankRes_def mk_pdu_def
        clnt_state_chg_def clnt_st_connected_bankd_onenter_def upd_maps_def slotmap_init_def clnt_dispatch_push_def
        ex_srv2_def zeroed_conn_def)
qed

lemma ex_srv2_reach: "srv_reach False ex_srv2"
  using srv_reach.read [OF ex_srv1_reach ex_senv_ok _ ex_srv2_rx] by (simp add: ex_srv1_def)


text \<open>C21. A client whose keep-alive timed out cannot come back. The timeout ends the machine of its
  connection but leaves the object on the list of clients, without machine and stream. When
  the same client connects again, the server finds that object, takes it for a live connection
  and asks its NULL stream for an address; listing the clients over REST follows its NULL
  machine.\<close>

theorem ka_timeout_client_stuck:
  assumes r: "srv_reach ka srv" and E: "srv_env_ok E"
    and old: "srv_conns srv c = Some conn" "cc_fi conn = Some CLNTC_ST_CONNECTED_CLIENT"
    and to: "srv_ka_timeout_cb E c srv = Some srv1"
    and new: "srv_conns srv c' = Some conn'" "cc_fi conn' = Some CLNTC_ST_ESTABLISHED"
    and pdu: "pdu_msg pdu = connectClientReq ident (Some csl)" "ci_type ident = ComponentType_remsimClient"
      "rspro2client_slot csl = cc_slot conn"
  shows "handle_rx_rspro E c' pdu srv1 = None \<and> api_cb_clients_get J fi_id srv1 = None"
proof -
  have inv: "server_inv srv"
    using srv_reach_inv [OF r] by blast
  have ne: "c' \<noteq> c"
    using old new by auto
  have srv1: "srv1 = upd_conn c (\<lambda>cn. cn\<lparr>cc_fi := None, cc_peer := False, cc_ka := False\<rparr>) srv"
    using to ka_timeout_eq [OF E inv old] by simp
  have c: "c \<in> set (srv_clients srv)"
    using server_inv_conn(2) [OF inv old] by simp
  have c': "c' \<in> set (srv_connections srv)" "cc_peer conn'"
    using server_inv_conn [OF inv new] by simp_all
  have c1: "srv_conns srv1 c = Some (conn\<lparr>cc_fi := None, cc_peer := False, cc_ka := False\<rparr>)" "srv_conns srv1 c' = Some conn'"
    "srv_clients srv1 = srv_clients srv"
    using old new ne by (simp_all add: srv1 upd_conn_def)
  let ?f = "\<lambda>cn. cn\<lparr>cc_comp_id := rspro_comp_id_retrieve ident, cc_slot := cc_slot conn\<rparr>"
  let ?srv2 = "upd_conn c' ?f srv1"
  have out: "c' \<notin> set (srv_clients srv)"
    using in_connections [OF inv c'(1)] by simp
  have uniq: "x = c" if x: "x \<in> set (srv_clients srv)" "map_option cc_slot (srv_conns ?srv2 x) = Some (cc_slot conn)" for x
  proof -
    have "map_option cc_slot (srv_conns ?srv2 x) = map_option cc_slot (srv_conns srv x)"
      using x(1) out by (auto simp: upd_conn_def srv1 option.map_comp comp_def)
    with x(2) old(1) have "map_option cc_slot (srv_conns srv x) = map_option cc_slot (srv_conns srv c)" by simp
    with server_invD(1) [OF inv] x(1) c show ?thesis
      unfolding conns_inv_def clients_unique_def by blast
  qed
  have s2: "map_option cc_slot (srv_conns ?srv2 c) = Some (cc_slot conn)" "srv_clients ?srv2 = srv_clients srv"
    using c1 ne by (simp_all add: upd_conn_def)
  have "client_conn_by_slot ?srv2 (cc_slot conn) \<noteq> None"
    unfolding client_conn_by_slot_None s2(2) using s2(1) c by blast
  then obtain x where x: "client_conn_by_slot ?srv2 (cc_slot conn) = Some x" by blast
  have "x \<in> set (srv_clients srv)" "map_option cc_slot (srv_conns ?srv2 x) = Some (cc_slot conn)"
    using client_conn_by_slot_SomeD [OF x] unfolding s2(2) by auto
  then have "x = c" by (rule uniq)
  with x have look: "client_conn_by_slot ?srv2 (cc_slot conn) = Some c" by blast
  have "reject_conn E c' resp c ?srv2 = None" for resp
    using c1 ne by (simp add: reject_conn_def upd_conn_def)
  then have "handle_rx_rspro E c' pdu srv1 = None"
    using c1(2) c'(2) new(2) pdu look ne
    by (simp add: handle_rx_rspro_def Let_def clnt_dispatch_def srv_env_okD [OF E] clnt_allstate_event_mask_def bit_simps
        clnt_st_established_def clnt_established_client_conn_def rspro_comp_id_retrieve_def)
  moreover have "client2json J fi_id c srv1 = None"
    using c1(1) by (simp add: client2json_def)
  then have "conns2json J (\<lambda>c. client2json J fi_id c srv1) cs arr = None" if "c \<in> set cs" for cs arr
    using that by (induction cs arbitrary: arr) (auto split: Option.bind_split)
  ultimately show ?thesis
    using c c1(3) by (simp add: api_cb_clients_get_def)
qed

text \<open>C14. A lost bankd. When the stream of a bankd closes, its object is gone, no mapping is on a list
  of it any more, the mappings whose deletion was under way are gone, and every other
  mapping of it is back in state NEW, to be created again when the bankd returns. All other
  mappings are untouched.\<close>

theorem bankd_lost_resets_maps:
  assumes r: "srv_reach ka srv" and E: "srv_env_ok E"
    and conn: "srv_conns srv c = Some conn" "cc_fi conn = Some CLNTC_ST_CONNECTED_BANKD"
  defines "sm \<equiv> srv_slotmaps srv"
  shows "\<exists>srv'. sock_closed_cb E c srv = Some srv' \<and> srv_conns srv' c = None \<and> c \<notin> set (srv_banks srv') \<and>
    (\<forall>k. bank_lists (srv_slotmaps srv') (c, k) = []) \<and>
    (\<forall>p. sm_heap (srv_slotmaps srv') p =
      (if p \<in> set (bank_lists sm (c, maps_delreq)) \<union> set (bank_lists sm (c, maps_deleting)) then None
       else if \<exists>k. p \<in> set (bank_lists sm (c, k)) then map_option (\<lambda>m. m\<lparr>sm_state := SLMAP_S_NEW\<rparr>) (sm_heap sm p)
       else sm_heap sm p))"
proof -
  have inv: "server_inv srv"
    using srv_reach_inv [OF r] by blast
  show ?thesis
    using unlink_all_lists [OF server_invD(3) [OF inv]] unlink_all_heap(1) [OF server_invD(3) [OF inv]]
    by (simp add: closed_eq [OF E inv conn(1)] conn(2) remove_conn_def upd_conn_def sm_def)
qed

text \<open>A CreateMappingRes or RemoveMappingRes of a bankd that has no such request outstanding is
  not refused: the server takes the first entry of the empty list, which is no mapping.\<close>

theorem unsolicited_response_aborts:
  assumes E: "srv_env_ok E" and conn: "srv_conns srv c = Some conn" "cc_fi conn = Some CLNTC_ST_CONNECTED_BANKD"
    and empty: "pdu_msg pdu = createMappingRes res \<and> bank_lists (srv_slotmaps srv) (c, maps_unack) = [] \<or>
      pdu_msg pdu = removeMappingRes res \<and> bank_lists (srv_slotmaps srv) (c, maps_deleting) = []"
  shows "handle_rx_rspro E c pdu srv = None"
  using empty conn
  by (auto simp: handle_rx_rspro_def Let_def clnt_dispatch_def srv_env_okD [OF E] clnt_allstate_event_mask_def bit_simps)

theorem unsolicited_response_aborts_witness:
  "handle_rx_rspro ex_senv 1 (ex_pdu (createMappingRes 0)) ex_srv2 = None"
  using unsolicited_response_aborts [OF ex_senv_ok, of ex_srv2 1 _ "ex_pdu (createMappingRes 0)" 0]
  by (simp add: ex_srv2_def ex_srv1_def ex_srv_def rspro_server_create_def slotmap_init_def ex_pdu_def)

theorem bankd_lost_resets_maps_witness:
  "\<exists>srv'. sock_closed_cb ex_senv 1 ex_srv2 = Some srv' \<and> srv_conns srv' 1 = None"
  using bankd_lost_resets_maps [OF ex_srv2_reach ex_senv_ok, of 1] by (auto simp: ex_srv2_def)

text \<open>The client side of the examples: client 23:0 is connected, and a second stream has been accepted.\<close>

definition ex_cl_req :: RsproPDU_t where
  "ex_cl_req = ex_pdu (connectClientReq (ex_ident ComponentType_remsimClient) (Some \<lparr>cs_clientId = 23, cs_slotNr = 0\<rparr>))"

definition ex_client :: rspro_client_conn where
  "ex_client = zeroed_conn\<lparr>cc_peer := True, cc_fi := Some CLNTC_ST_CONNECTED_CLIENT, cc_T := 0, cc_ka := True,
     cc_comp_id := rspro_comp_id_retrieve (ex_ident ComponentType_remsimClient), cc_slot := \<lparr>client_id = 23, cslot_nr = 0\<rparr>\<rparr>"

definition ex_srvc1 :: rspro_server where
  "ex_srvc1 = ex_srv1\<lparr>srv_conns := [1 \<mapsto> ex_client], srv_connections := [], srv_clients := [1],
     srv_sent := [(1, the (rspro_gen_ConnectClientRes True (srv_comp_id ex_srv1) ResultCode_ok))]\<rparr>"

definition ex_srvc2 :: rspro_server where
  "ex_srvc2 = ex_srvc1\<lparr>srv_conns := [1 \<mapsto> ex_client,
      2 \<mapsto> zeroed_conn\<lparr>cc_peer := True, cc_fi := Some CLNTC_ST_ESTABLISHED, cc_T := 1, cc_ka := True\<rparr>],
     srv_connections := [2]\<rparr>"

lemmas ex_defs = ex_pdu_def ex_srv1_def ex_srv_def rspro_server_create_def ex_senv_def zeroed_conn_def slotmap_init_def

lemma ex_srvc1_rx: "sock_read_cb ex_senv C 1 5 (SrvRspro (Some ex_cl_req)) ex_srv1 = Some (0, ex_srvc1)"
proof -
  have t: "ac_type (rspro_comp_id_retrieve (ex_ident ComponentType_remsimClient)) = ComponentType_remsimClient"
    by (simp add: rspro_comp_id_retrieve_def ex_ident_def)
  show ?thesis
    by (simp add: sock_read_cb_def handle_rx_rspro_def clnt_dispatch_def ex_cl_req_def ex_client_def ex_srvc1_def ex_defs
        clnt_allstate_event_mask_def bit_simps clnt_st_established_def clnt_established_client_conn_def t Let_def
        client_conn_by_slot_def upd_conn_def accept_client_def client_conn_send_def rspro_gen_ConnectClientRes_def mk_pdu_def
        clnt_state_chg_def clnt_st_connected_client_onenter_def slotmap_by_client_def rspro2client_slot_def)
qed

lemma ex_srvc2_accept: "accept_cb ex_senv (Some 2) True True True ex_srvc1 = Some (0, ex_srvc2)"
  by (simp add: accept_cb_def ex_srvc1_def ex_srvc2_def ex_client_def ex_defs clnt_dispatch_def
      clnt_allstate_event_mask_def bit_simps clnt_st_init_def clnt_state_chg_def upd_conn_def)

lemma ex_srvc2_reach: "srv_reach False ex_srvc2"
proof -
  have "srv_reach False ex_srvc1"
    using srv_reach.read [OF ex_srv1_reach ex_senv_ok _ ex_srvc1_rx] by (simp add: ex_srv1_def)
  from srv_reach.accept [OF this ex_senv_ok _ ex_srvc2_accept] show ?thesis
    by (simp add: ex_srvc1_def)
qed

theorem ka_timeout_client_stuck_witness:
  "\<exists>srv1. srv_ka_timeout_cb ex_senv 1 ex_srvc2 = Some srv1 \<and> handle_rx_rspro ex_senv 2 ex_cl_req srv1 = None"
proof -
  have c: "srv_conns ex_srvc2 1 = Some ex_client" "cc_fi ex_client = Some CLNTC_ST_CONNECTED_CLIENT"
    by (simp_all add: ex_srvc2_def ex_client_def)
  obtain srv1 where s: "srv_ka_timeout_cb ex_senv 1 ex_srvc2 = Some srv1"
    using ka_timeout_eq [OF ex_senv_ok conjunct1 [OF srv_reach_inv [OF ex_srvc2_reach]] c] by simp
  let ?new = "zeroed_conn\<lparr>cc_peer := True, cc_fi := Some CLNTC_ST_ESTABLISHED, cc_T := 1, cc_ka := True\<rparr>"
  have n: "srv_conns ex_srvc2 2 = Some ?new" "cc_fi ?new = Some CLNTC_ST_ESTABLISHED"
    by (simp_all add: ex_srvc2_def)
  have q: "pdu_msg ex_cl_req = connectClientReq (ex_ident ComponentType_remsimClient) (Some \<lparr>cs_clientId = 23, cs_slotNr = 0\<rparr>)"
    "ci_type (ex_ident ComponentType_remsimClient) = ComponentType_remsimClient"
    "rspro2client_slot \<lparr>cs_clientId = 23, cs_slotNr = 0\<rparr> = cc_slot ex_client"
    by (simp_all add: ex_cl_req_def ex_pdu_def ex_ident_def ex_client_def rspro2client_slot_def)
  show ?thesis
    using s ka_timeout_client_stuck [OF ex_srvc2_reach ex_senv_ok c s n q] by blast
qed

text \<open>C13. The acknowledgement of a mapping reaches the client. When a bankd acknowledges the mapping it
  was sent first and the client of that mapping is connected and does not yet have this
  configuration, the mapping becomes active and the client is sent exactly one
  ConfigClientBankReq, with the bank slot, the address of that bankd's peer and port 9999.
  The result code of the acknowledgement plays no part: a refusal counts as success.\<close>

theorem create_ack_configures_client:
  assumes r: "srv_reach ka srv" and E: "srv_env_ok E" "se_calloc_ok E" "\<forall>p. se_enc_ok E p" "se_peer_ip E c = Some ip"
    and bank: "srv_conns srv c = Some bconn" "cc_fi bconn = Some CLNTC_ST_CONNECTED_BANKD"
    and p: "bank_lists (srv_slotmaps srv) (c, maps_unack) = p # ps" "sm_heap (srv_slotmaps srv) p = Some m"
    and cl: "client_conn_by_slot srv (sm_client m) = Some d" "srv_conns srv d = Some dconn" "cc_fi dconn = Some CLNTC_ST_CONNECTED_CLIENT"
    and chg: "cc_bankd_slot dconn \<noteq> sm_bank m \<or> cc_bankd_ip dconn \<noteq> ip \<or> cc_bankd_port dconn \<noteq> 9999"
    and pdu: "pdu_msg pdu = createMappingRes res"
  shows "\<exists>srv'. handle_rx_rspro E c pdu srv = Some (0, srv') \<and>
    srv_sent srv' = srv_sent srv @ [(d, the (rspro_gen_ConfigClientBankReq True (bank_slot2rspro (sm_bank m)) ip 9999))] \<and>
    sm_heap (srv_slotmaps srv') p = Some (m\<lparr>sm_state := SLMAP_S_ACTIVE\<rparr>) \<and>
    bank_lists (srv_slotmaps srv') (c, maps_unack) = ps"
proof -
  have inv: "server_inv srv"
    using srv_reach_inv [OF r] by blast
  have peer: "cc_peer bconn" "cc_peer dconn"
    using server_inv_conn(1) [OF inv bank] server_inv_conn(1) [OF inv cl(2,3)] by simp_all
  have ne: "d \<noteq> c"
    using bank cl by auto
  have ps: "removeAll p (p # ps) = ps"
    using bank_list_distinct [OF server_invD(3) [OF inv], of "(c, maps_unack)"] p(1) by simp
  let ?srv1 = "upd_maps (\<lambda>sm. Slotmap_state_change sm p SLMAP_S_ACTIVE (Some (c, maps_active))) srv"
  have look: "client_conn_by_slot ?srv1 (sm_client m) = Some d"
    using cl(1) by (simp add: client_conn_by_slot_def upd_maps_def)
  have "handle_rx_rspro E c pdu srv = map_option (Pair 0) (clnt_st_connected_bankd E c CLNTC_E_CREATE_MAP_RES srv)"
    using bank pdu by (simp add: handle_rx_rspro_def Let_def clnt_dispatch_def srv_env_okD [OF E(1)] clnt_allstate_event_mask_def
        bit_simps del: clnt_st_connected_bankd.simps)
  moreover have "clnt_st_connected_bankd E c CLNTC_E_CREATE_MAP_RES srv =
      update_client_for_slotmap E (m\<lparr>sm_state := SLMAP_S_ACTIVE\<rparr>) (Some c) ?srv1"
    using p by (simp add: upd_maps_def)
  moreover have "update_client_for_slotmap E (m\<lparr>sm_state := SLMAP_S_ACTIVE\<rparr>) (Some c) ?srv1 =
      Some (?srv1\<lparr>srv_conns := (srv_conns srv)(d \<mapsto> dconn\<lparr>cc_bankd_slot := sm_bank m, cc_bankd_ip := ip, cc_bankd_port := 9999\<rparr>),
        srv_sent := srv_sent srv @ [(d, the (rspro_gen_ConfigClientBankReq True (bank_slot2rspro (sm_bank m)) ip 9999))]\<rparr>)"
    using look cl ne peer bank(1) E chg
    by (cases dconn) (auto simp: update_client_for_slotmap_def Let_def set_client_bankd_def clnt_dispatch_cfg_def clnt_st_connected_client_def
        client_conn_send_def srv_env_okD [OF E(1)] bit_simps upd_maps_def upd_conn_def rspro_gen_ConfigClientBankReq_def mk_pdu_def)
  ultimately show ?thesis
    using p ps by (simp add: upd_maps_def)
qed

text \<open>The examples continued: the second stream is bankd 1, the mapping B1:0 - C23:0 is posted (at
  pointer 7) and pushed.\<close>

definition ex_bank :: rspro_client_conn where
  "ex_bank = zeroed_conn\<lparr>cc_peer := True, cc_fi := Some CLNTC_ST_CONNECTED_BANKD, cc_T := 0, cc_ka := True,
     cc_comp_id := rspro_comp_id_retrieve (ex_ident ComponentType_remsimBankd), cc_bank_id := 1, cc_num_slots := 8\<rparr>"

definition ex_srvb3 :: rspro_server where
  "ex_srvb3 = ex_srvc2\<lparr>srv_conns := [1 \<mapsto> ex_client, 2 \<mapsto> ex_bank], srv_connections := [], srv_banks := [2],
     srv_sent := srv_sent ex_srvc2 @ [(2, the (rspro_gen_ConnectBankRes True (srv_comp_id ex_srvc2) ResultCode_ok))]\<rparr>"

definition ex_map :: "slot_mapping_state \<Rightarrow> slot_mapping" where
  "ex_map st = \<lparr>sm_bank = ex_bs 1 0, sm_client = ex_cs 23 0, sm_state = st\<rparr>"

definition ex_srvb4 :: rspro_server where
  "ex_srvb4 = ex_srvb3\<lparr>srv_slotmaps := \<lparr>mappings = [7], sm_heap = [7 \<mapsto> ex_map SLMAP_S_NEW],
     bank_lists = (\<lambda>_. [])((2, maps_new) := [7])\<rparr>, srv_event := True\<rparr>"

definition ex_srvb5 :: rspro_server where
  "ex_srvb5 = ex_srvb3\<lparr>srv_slotmaps := \<lparr>mappings = [7], sm_heap = [7 \<mapsto> ex_map SLMAP_S_UNACKNOWLEDGED],
     bank_lists = (\<lambda>_. [])((2, maps_unack) := [7])\<rparr>,
     srv_sent := srv_sent ex_srvb3 @ [(2, the (slotmap2CreateMappingReq True (ex_map SLMAP_S_NEW)))]\<rparr>"

lemma ex_srvb3_rx:
  "sock_read_cb ex_senv C 2 5 (SrvRspro (Some (ex_pdu (connectBankReq (ex_ident ComponentType_remsimBankd) 1 8)))) ex_srvc2 =
     Some (0, ex_srvb3)"
proof -
  have t: "ac_type (rspro_comp_id_retrieve (ex_ident ComponentType_remsimBankd)) = ComponentType_remsimBankd"
    by (simp add: rspro_comp_id_retrieve_def ex_ident_def)
  show ?thesis
    by (simp add: sock_read_cb_def handle_rx_rspro_def clnt_dispatch_def ex_defs ex_srvc1_def ex_srvc2_def ex_srvb3_def ex_bank_def
        clnt_allstate_event_mask_def bit_simps clnt_st_established_def clnt_established_bank_conn_def t Let_def
        bankd_conn_by_id_def upd_conn_def accept_bankd_def client_conn_send_def rspro_gen_ConnectBankRes_def mk_pdu_def
        clnt_state_chg_def clnt_st_connected_bankd_onenter_def upd_maps_def clnt_dispatch_push_def)
qed

lemma ex_srvb4_post: "slotmaps_post (Some 7) True (Some (ex_bs 1 0, ex_cs 23 0)) ex_srvb3 = (201, ex_srvb4)"
  by (simp add: slotmaps_post_def slotmap_add_def slotmap_by_bank_def slotmap_by_client_def slotmap_insert_def ex_srvb3_def
      ex_srvb4_def ex_srvc1_def ex_srvc2_def ex_defs Slotmap_state_change_def bankd_conn_by_id_def ex_bank_def ex_bs_def upd_maps_def
      trigger_main_thread_via_eventfd_def ex_map_def Let_def ex_cs_def fun_eq_iff)

lemma ex_srvb5_event: "event_fd_cb ex_senv 8 ex_srvb4 = Some (0, ex_srvb5)"
  by (simp add: event_fd_cb_def ex_srvb3_def ex_srvb4_def ex_srvb5_def ex_srvc1_def ex_srvc2_def ex_defs ex_bank_def Let_def
      clnt_dispatch_push_def bit_simps client_conn_send_def slotmap2CreateMappingReq_def rspro_gen_CreateMappingReq_def
      mk_pdu_def upd_maps_def Slotmap_state_change_def ex_map_def ex_bs_def ex_cs_def fun_eq_iff)

lemma ex_srvb5_reach: "srv_reach False ex_srvb5"
proof -
  have "srv_reach False ex_srvb3"
    using srv_reach.read [OF ex_srvc2_reach ex_senv_ok _ ex_srvb3_rx] by (simp add: ex_srvc2_def)
  then have "srv_reach False (snd (slotmaps_post (Some 7) True (Some (ex_bs 1 0, ex_cs 23 0)) ex_srvb3))"
    by (rule srv_reach.post) (auto simp: fresh_ref_def ex_srvb3_def ex_srvc2_def ex_srvc1_def ex_defs)
  then have "srv_reach False ex_srvb4"
    by (simp add: ex_srvb4_post)
  from srv_reach.eventfd [OF this ex_senv_ok ex_srvb5_event] show ?thesis .
qed

theorem server_integrity_witness:
  "bank_of ex_srvb5 2 = Some 1 \<and> (\<exists>k. 7 \<in> set (bank_lists (srv_slotmaps ex_srvb5) (2, k)))"
proof -
  have b: "bank_of ex_srvb5 2 = Some 1" "7 \<in> set (mappings (srv_slotmaps ex_srvb5))"
    "sm_heap (srv_slotmaps ex_srvb5) 7 = Some (ex_map SLMAP_S_UNACKNOWLEDGED)"
    by (simp_all add: bank_of_def ex_srvb5_def ex_srvb3_def ex_bank_def)
  moreover have "bank_id (sm_bank (ex_map SLMAP_S_UNACKNOWLEDGED)) = 1"
    by (simp add: ex_map_def ex_bs_def)
  ultimately show ?thesis
    using server_integrity [OF ex_srvb5_reach] by metis
qed

theorem create_ack_configures_client_witness:
  "\<exists>srv'. handle_rx_rspro ex_senv 2 (ex_pdu (createMappingRes 5)) ex_srvb5 = Some (0, srv') \<and>
     last (srv_sent srv') = (1, the (rspro_gen_ConfigClientBankReq True (bank_slot2rspro (ex_bs 1 0)) 0x0a000001 9999))"
proof -
  have "client_conn_by_slot ex_srvb5 (sm_client (ex_map SLMAP_S_UNACKNOWLEDGED)) = Some 1"
    by (simp add: client_conn_by_slot_def ex_srvb5_def ex_srvb3_def ex_srvc2_def ex_srvc1_def ex_client_def ex_map_def ex_cs_def)
  then show ?thesis
    using create_ack_configures_client [OF ex_srvb5_reach ex_senv_ok, where c = 2 and ip = "0x0a000001" and bconn = ex_bank and p = 7 and ps = "[]"
        and m = "ex_map SLMAP_S_UNACKNOWLEDGED" and d = 1 and dconn = ex_client and pdu = "ex_pdu (createMappingRes 5)" and res = 5]
    by (auto simp: ex_srvb5_def ex_srvb3_def ex_senv_def ex_bank_def ex_client_def ex_pdu_def zeroed_conn_def ex_map_def ex_bs_def)
qed

section \<open>The REST interface\<close>

lemma json_docD:
  assumes "json_documented J"
  shows "json_is_object J (json_object J)"
    "json_is_object J ob \<Longrightarrow> json_is_object J (json_object_set_new J ob k v)"
    "json_object_set_new J ob k None = ob"
    "json_is_object J ob \<Longrightarrow>
       json_object_get J (json_object_set_new J ob k (Some x)) k' = (if k' = k then Some x else json_object_get J ob k')"
    "- (2 ^ 63) \<le> i \<and> i < 2 ^ 63 \<Longrightarrow> \<exists>v. json_integer J i = Some v \<and> json_is_integer J v \<and> json_integer_value J v = i"
  using assms by (simp_all add: json_documented_def)

lemma json_word16:
  assumes "json_documented J"
  shows "\<exists>v. json_integer J (uint (w :: u16)) = Some v \<and> json_is_integer J v \<and> json_integer_value J v = uint w"
proof (rule json_docD(5) [OF assms], intro conjI)
  show "- (2 ^ 63) \<le> uint w"
    by (rule order_trans [of _ 0]) simp_all
  show "uint w < 2 ^ 63"
    using word16_bound [of w] by simp
qed

lemma json_bank_slot:
  assumes J: "json_documented J"
  shows "json_is_object J (bank_slot2json J b)"
    and "bank_id b \<le> 1023 \<Longrightarrow> slot_nr b \<le> 1023 \<Longrightarrow> json2bank_slot J (bank_slot2json J b) = Some b"
proof -
  note D = json_docD [OF J]
  obtain v w where v: "json_integer J (uint (bank_id b)) = Some v" "json_is_integer J v" "json_integer_value J v = uint (bank_id b)"
    and w: "json_integer J (uint (slot_nr b)) = Some w" "json_is_integer J w" "json_integer_value J w = uint (slot_nr b)"
    using json_word16 [OF J] by metis
  show "json_is_object J (bank_slot2json J b)"
    by (simp add: bank_slot2json_def D)
  then show "json2bank_slot J (bank_slot2json J b) = Some b" if "bank_id b \<le> 1023" "slot_nr b \<le> 1023"
    using that by (simp add: json2bank_slot_def json_int_member_def bank_slot2json_def v w D not_less)
qed

lemma json_client_slot:
  assumes J: "json_documented J"
  shows "json_is_object J (client_slot2json J c)"
    and "client_id c \<le> 1023 \<Longrightarrow> cslot_nr c \<le> 1023 \<Longrightarrow> json2client_slot J (client_slot2json J c) = Some c"
proof -
  note D = json_docD [OF J]
  obtain v w where v: "json_integer J (uint (client_id c)) = Some v" "json_is_integer J v" "json_integer_value J v = uint (client_id c)"
    and w: "json_integer J (uint (cslot_nr c)) = Some w" "json_is_integer J w" "json_integer_value J w = uint (cslot_nr c)"
    using json_word16 [OF J] by metis
  show "json_is_object J (client_slot2json J c)"
    by (simp add: client_slot2json_def D)
  then show "json2client_slot J (client_slot2json J c) = Some c" if "client_id c \<le> 1023" "cslot_nr c \<le> 1023"
    using that by (simp add: json2client_slot_def json_int_member_def client_slot2json_def v w D not_less)
qed

text \<open>C20. A mapping that the REST interface lists can be posted back: reading the JSON of a mapping
  gives its bank slot and its client slot, as long as the four numbers are within the range
  that is accepted.\<close>

theorem json_slotmap_roundtrip:
  assumes J: "json_documented J"
    and range: "bank_id (sm_bank m) \<le> 1023" "slot_nr (sm_bank m) \<le> 1023" "client_id (sm_client m) \<le> 1023" "cslot_nr (sm_client m) \<le> 1023"
  shows "json2slotmap J (slotmap2json J m) = Some (sm_bank m, sm_client m)"
proof -
  note D = json_docD [OF J]
  have "json_object_get J (slotmap2json J m) k = (if k = ''bank'' then Some (bank_slot2json J (sm_bank m)) else
      if k = ''client'' then Some (client_slot2json J (sm_client m)) else json_object_get J (json_object J) k)"
    if "k \<noteq> ''state''" for k
    using that by (cases "json_string J (ascii (slotmap_state_name (sm_state m)))") (simp_all add: slotmap2json_def D)
  moreover have "json_is_object J (slotmap2json J m)"
    by (simp add: slotmap2json_def D)
  ultimately show ?thesis
    using range by (simp add: json2slotmap_def json_bank_slot [OF J] json_client_slot [OF J])
qed

text \<open>JSON values, as an instance of the documented behaviour.\<close>

datatype jval = JObj "(string \<times> jval) list" | JInt int | JStr bytes | JArr "jval list"

definition ex_json :: "jval json_api" where
  "ex_json = \<lparr>
     json_is_object = (\<lambda>v. case v of JObj _ \<Rightarrow> True | _ \<Rightarrow> False),
     json_object_get = (\<lambda>v k. case v of JObj kvs \<Rightarrow> map_of kvs k | _ \<Rightarrow> None),
     json_is_integer = (\<lambda>v. case v of JInt _ \<Rightarrow> True | _ \<Rightarrow> False),
     json_integer_value = (\<lambda>v. case v of JInt i \<Rightarrow> i | _ \<Rightarrow> 0),
     json_object = JObj [],
     json_object_set_new = (\<lambda>v k x. case x of None \<Rightarrow> v | Some y \<Rightarrow> (case v of JObj kvs \<Rightarrow> JObj ((k, y) # kvs) | _ \<Rightarrow> v)),
     json_integer = (\<lambda>i. Some (JInt i)),
     json_string = (\<lambda>s. Some (JStr s)),
     json_array = JArr [],
     json_array_append_new = (\<lambda>a v. case a of JArr vs \<Rightarrow> JArr (vs @ [v]) | _ \<Rightarrow> a)\<rparr>"

lemma ex_json_documented: "json_documented ex_json"
  by (auto simp: json_documented_def ex_json_def split: jval.splits option.splits)

theorem json_slotmap_roundtrip_witness:
  "json2slotmap ex_json (slotmap2json ex_json (ex_map SLMAP_S_ACTIVE)) = Some (ex_bs 1 0, ex_cs 23 0)"
  using json_slotmap_roundtrip [OF ex_json_documented, of "ex_map SLMAP_S_ACTIVE"]
  by (simp add: ex_map_def ex_bs_def ex_cs_def)

text \<open>Which numbers of a posted bank slot are accepted. The check against 1023 comes after the
  64-bit value has been stored in 16 bits, so it is the remainder modulo 65536 that counts: 65537
  is accepted, as bank 1, and -65535 too.\<close>

theorem json_bank_slot_range:
  assumes "json_is_object J ob" and "json_int_member J ob ''bankId'' = Some i" and "json_int_member J ob ''slotNr'' = Some j"
  shows "json2bank_slot J ob =
    (if i mod 65536 \<le> 1023 \<and> j mod 65536 \<le> 1023
     then Some \<lparr>bank_id = word_of_int (i mod 65536), slot_nr = word_of_int (j mod 65536)\<rparr> else None)"
proof -
  have le: "(word_of_int x > (1023 :: u16)) \<longleftrightarrow> \<not> x mod 65536 \<le> 1023" for x
    by (simp add: word_less_def uint_word_of_int not_le)
  have md: "(word_of_int (x mod 65536) :: u16) = word_of_int x" for x
    by (rule word_of_int_eq_iff [THEN iffD2]) (simp add: take_bit_eq_mod)
  show ?thesis
    using assms by (simp add: json2bank_slot_def Let_def le md)
qed

theorem json_bank_slot_range_witness:
  "json2bank_slot ex_json (JObj [(''bankId'', JInt 65537), (''slotNr'', JInt 3)]) = Some (ex_bs 1 3)"
  using json_bank_slot_range [of ex_json "JObj [(''bankId'', JInt 65537), (''slotNr'', JInt 3)]" 65537 3]
  by (simp add: ex_json_def json_int_member_def ex_bs_def)

text \<open>DELETE by identifier. The decimal identifier of a listed mapping addresses exactly that
  mapping. It is off the collection at once, so that its bank slot can be mapped again: a NEW
  mapping is gone, an ACTIVE one waits on its bankd's list for the deletion request. A mapping
  that the bankd has not acknowledged yet is only forgotten: it keeps its state and its
  place among the unacknowledged, and no deletion is ever requested for it.\<close>

theorem rest_delete_by_id:
  assumes r: "srv_reach ka srv" and p: "p \<in> set (mappings (srv_slotmaps srv))" "sm_heap (srv_slotmaps srv) p = Some m"
  defines "sm \<equiv> srv_slotmaps srv"
  shows "\<exists>srv'. api_cb_slotmaps_del w e (Some (dec_digits (unat (slotmap_get_id m)))) srv = Some (200, srv') \<and>
    slot_assoc (srv_slotmaps srv') = (slot_assoc sm)(sm_bank m := None) \<and>
    (case sm_state m of
       SLMAP_S_NEW \<Rightarrow> sm_heap (srv_slotmaps srv') p = None
     | SLMAP_S_ACTIVE \<Rightarrow>
         \<exists>c. bank_of srv c = Some (bank_id (sm_bank m)) \<and> p \<in> set (bank_lists (srv_slotmaps srv') (c, maps_delreq)) \<and>
           sm_heap (srv_slotmaps srv') p = Some (m\<lparr>sm_state := SLMAP_S_DELETE_REQ\<rparr>)
     | _ \<Rightarrow> sm_heap (srv_slotmaps srv') p = Some m \<and> bank_lists (srv_slotmaps srv') = bank_lists sm)"
proof -
  have inv: "server_inv srv"
    using srv_reach_inv [OF r] by blast
  note wf = server_invD(3) [OF inv, folded sm_def]
  have id: "unat (slotmap_get_id m) < 2 ^ 32"
    using unsigned_less [of "slotmap_get_id m"] by simp
  then have n: "strtoul10 (dec_digits (unat (slotmap_get_id m))) = (unat (slotmap_get_id m), False)"
    "unat (slotmap_get_id m) \<noteq> ULONG_MAX"
    by (simp_all add: strtoul10_dec ULONG_MAX_def)
  have inj: "a = b" if "unat a = unat b" for a b :: u32
    using that by (metis of_nat_unat ucast_id)
  have uniq: "q = p" if "q \<in> set (mappings sm)" "case sm_heap sm q of Some k \<Rightarrow> unat (slotmap_get_id k) = unat (slotmap_get_id m) | None \<Rightarrow> False" for q
    using that p wf_bank_unique [OF wf, of q p _ m] by (auto simp: slotmap_get_id_eq sm_def split: option.splits dest!: inj)
  have f: "List.find (\<lambda>q. case sm_heap sm q of Some k \<Rightarrow> unat (slotmap_get_id k) = unat (slotmap_get_id m) | None \<Rightarrow> False)
      (mappings sm) = Some p"
    by (rule find_Some_iff_distinct [OF uniq, THEN iffD2]) (use p in \<open>simp_all add: sm_def\<close>)
  obtain srv1 where s1: "slotmap_mark_deleted w p srv = Some srv1"
    using mark_deleted_good [OF inv p(2), of w] by blast
  have del: "api_cb_slotmaps_del w e (Some (dec_digits (unat (slotmap_get_id m)))) srv = Some (200, trigger_main_thread_via_eventfd w srv1)"
    using f n s1 by (simp add: api_cb_slotmaps_del_def sm_def)
  have by_bank: "slotmap_by_bank sm (sm_bank m) = Some p"
    using p by (subst slotmap_by_bank_eq_Some [OF wf]) (auto simp: sm_def)
  have unl: "slotmap_by_bank (slotmap_unlink sm p) b = (if b = sm_bank m then None else slotmap_by_bank sm b)" for b
  proof (cases "b = sm_bank m")
    case True
    have "sm_bank n \<noteq> sm_bank m" if "q \<in> set (mappings sm)" "q \<noteq> p" "sm_heap sm q = Some n" for q n
      using wf_bank_unique [OF wf that(1) p(1) [folded sm_def] that(3) p(2) [folded sm_def]] that(2) by blast
    then have "slotmap_by_bank (slotmap_unlink sm p) (sm_bank m) = None"
      by (auto simp: slotmap_by_bank_None)
    with True show ?thesis by simp
  next
    case False
    then show ?thesis
      unfolding slotmap_by_bank_alt using p(2) by (simp add: find_removeAll_other sm_def)
  qed
  have assoc: "slot_assoc (slotmap_unlink sm p) = (slot_assoc sm)(sm_bank m := None)"
    by (rule ext) (auto simp: slot_assoc_def unl split: option.split)
  have dass: "slot_assoc (slotmap_del (slotmap_unlink sm p) p) = (slot_assoc sm)(sm_bank m := None)"
  proof -
    have "slotmap_del (slotmap_unlink sm p) p = slotmap_del sm p"
      by (simp add: slotmap_del_def slotmap_unlink_def)
    then show ?thesis
      using sd.del_assoc [OF wf by_bank] by simp
  qed
  show ?thesis
    using s1 p(2) assoc dass slotmap_unlink_listed [OF inv p(2)] unfolding del
    by (cases "sm_state m")
      (auto simp: slotmap_mark_deleted_def trigger_main_thread_via_eventfd_def Let_def sm_def split: Option.bind_splits)
qed

theorem rest_delete_by_id_witness:
  "\<exists>srv'. api_cb_slotmaps_del True False (Some (dec_digits (unat (slotmap_get_id (ex_map SLMAP_S_UNACKNOWLEDGED))))) ex_srvb5 = Some (200, srv') \<and>
     slot_assoc (srv_slotmaps srv') (ex_bs 1 0) = None \<and> bank_lists (srv_slotmaps srv') (2, maps_unack) = [7]"
proof -
  have "7 \<in> set (mappings (srv_slotmaps ex_srvb5))" "sm_heap (srv_slotmaps ex_srvb5) 7 = Some (ex_map SLMAP_S_UNACKNOWLEDGED)"
    "bank_lists (srv_slotmaps ex_srvb5) (2, maps_unack) = [7]"
    by (simp_all add: ex_srvb5_def)
  with rest_delete_by_id [OF ex_srvb5_reach this(1,2), of True False] show ?thesis
    by (auto simp: ex_map_def)
qed

end
