(* ===== verification/Bankd_Types.thy ===== *)
theory Bankd_Types
  imports Srvc_Fsm Slotmap
begin

text \<open>
  The data of remsim-bankd (\<^verbatim>\<open>src/bankd/bankd.h\<close>): the worker threads, the daemon's global
  structure, and the table of card reader driver operations. A worker is never removed from
  the list of workers while the daemon runs, so its place in that list stands for its pointer.

  What a worker does to the outside world is appended to its \<open>w_out\<close>, in order: PDUs written
  to the client's socket, calls of the PC/SC API, the GSMTAP trace, the closing of the socket.
  The buffer \<open>card.atr\<close> has \<open>MAX_ATR_SIZE\<close> bytes, 33 in pcsclite.
\<close>

datatype bankd_worker_state =
    BW_ST_INIT
  | BW_ST_ACCEPTING
  | BW_ST_CONN_WAIT_ID
  | BW_ST_CONN_CLIENT
  | BW_ST_CONN_CLIENT_WAIT_MAP
  | BW_ST_CONN_CLIENT_MAPPED
  | BW_ST_CONN_CLIENT_MAPPED_CARD
  | BW_ST_CONN_CLIENT_UNMAPPED

text \<open>The code compares states with \<open>>=\<close>: the order is that of the enumeration.\<close>

fun bw_nr :: "bankd_worker_state \<Rightarrow> nat" where
  "bw_nr BW_ST_INIT = 0"
| "bw_nr BW_ST_ACCEPTING = 1"
| "bw_nr BW_ST_CONN_WAIT_ID = 2"
| "bw_nr BW_ST_CONN_CLIENT = 3"
| "bw_nr BW_ST_CONN_CLIENT_WAIT_MAP = 4"
| "bw_nr BW_ST_CONN_CLIENT_MAPPED = 5"
| "bw_nr BW_ST_CONN_CLIENT_MAPPED_CARD = 6"
| "bw_nr BW_ST_CONN_CLIENT_UNMAPPED = 7"

lemma bw_nr_inj [simp]: "bw_nr a = bw_nr b \<longleftrightarrow> a = b"
  by (cases a; cases b) simp_all

instantiation bankd_worker_state :: linorder
begin

definition less_eq_bankd_worker_state :: "bankd_worker_state \<Rightarrow> bankd_worker_state \<Rightarrow> bool" where
  "less_eq_bankd_worker_state a b \<longleftrightarrow> bw_nr a \<le> bw_nr b"

definition less_bankd_worker_state :: "bankd_worker_state \<Rightarrow> bankd_worker_state \<Rightarrow> bool" where
  "less_bankd_worker_state a b \<longleftrightarrow> bw_nr a < bw_nr b"

instance
  by standard (auto simp: less_eq_bankd_worker_state_def less_bankd_worker_state_def)

end

lemmas bw_order = less_eq_bankd_worker_state_def less_bankd_worker_state_def

datatype bankd_effect =
    WTx RsproPDU_t               \<comment> \<open>PDU written to the client's socket\<close>
  | TxPong                       \<comment> \<open>ipa_ccm_send_pong\<close>
  | TxCcmIdAck                   \<comment> \<open>ipa_ccm_send_id_ack\<close>
  | GsmtapAtr bytes              \<comment> \<open>bankd_gsmtap_send_apdu, GSMTAP_SIM_ATR\<close>
  | GsmtapApdu bytes bytes       \<comment> \<open>bankd_gsmtap_send_apdu, GSMTAP_SIM_APDU\<close>
  | ScEstablish                  \<comment> \<open>SCardEstablishContext\<close>
  | ScConnect string bool        \<comment> \<open>SCardConnect to a reader, SCARD_SHARE_SHARED or not\<close>
  | ScReconnect nat bool bool    \<comment> \<open>SCardReconnect: handle, shared, cold reset\<close>
  | ScTransmit nat bytes         \<comment> \<open>SCardTransmit of a command to a card handle\<close>
  | ScDisconnect nat             \<comment> \<open>SCardDisconnect\<close>
  | ScRelease nat                \<comment> \<open>SCardReleaseContext\<close>
  | CloseFd int                  \<comment> \<open>close of the client's socket\<close>

text \<open>The administrative calls of the PC/SC API, all but the transmission of a command.\<close>

fun is_sc :: "bankd_effect \<Rightarrow> bool" where
  "is_sc ScEstablish = True"
| "is_sc (ScConnect _ _) = True"
| "is_sc (ScReconnect _ _ _) = True"
| "is_sc (ScDisconnect _) = True"
| "is_sc (ScRelease _) = True"
| "is_sc _ = False"

definition MAX_ATR_SIZE :: nat where
  "MAX_ATR_SIZE = 33"

record bankd_worker =
  w_num :: nat
  w_state :: bankd_worker_state
  w_timeout :: nat
  w_slot :: bank_slot
  w_fd :: int
  w_clslot :: client_slot
  w_reader_name :: "string option"
  w_hContext :: nat
  w_hCard :: nat
  w_atr :: bytes
  w_atr_len :: nat
  last_vccPresent :: bool
  last_resetActive :: bool
  w_out :: "bankd_effect list"

record bankd_driver_ops =
  op_open_card :: "bankd_worker \<Rightarrow> int \<times> bankd_worker"
  op_reset_card :: "bankd_worker \<Rightarrow> bool \<Rightarrow> int \<times> bankd_worker"
  op_transceive :: "bankd_worker \<Rightarrow> bytes \<Rightarrow> int \<times> bytes \<times> bankd_worker"
  op_cleanup :: "bankd_worker \<Rightarrow> bankd_worker"

record pcsc_slot_name =
  psn_slot :: bank_slot
  name_regex :: "string option"

record bankd =
  b_comp_id :: app_comp_id
  b_srvc :: rspro_server_conn
  b_slotmaps :: "unit slotmaps"
  b_workers :: "bankd_worker list"
  pcsc_slot_names :: "pcsc_slot_name list"
  permit_shared_pcsc :: bool
  gsmtap_host :: "string option"
  gsmtap_slot :: int
  ki_enabled :: bool
  ki_proxy_slot :: nat
  ki_carrier :: u32
  ki_imsi :: "string option"
  ki_iccid :: "string option"
  ki_proxy_slots :: "nat list"
  ki_next_slot_idx :: nat
  ki_virtual_slot_start :: nat
  ki_virtual_slot_end :: nat

definition bw_emit :: "bankd_effect \<Rightarrow> bankd_worker \<Rightarrow> bankd_worker" where
  "bw_emit x w = w\<lparr>w_out := w_out w @ [x]\<rparr>"

lemma bw_emit_sel [simp]:
  "w_num (bw_emit x w) = w_num w" "w_state (bw_emit x w) = w_state w" "w_timeout (bw_emit x w) = w_timeout w"
  "w_slot (bw_emit x w) = w_slot w" "w_fd (bw_emit x w) = w_fd w" "w_clslot (bw_emit x w) = w_clslot w"
  "w_reader_name (bw_emit x w) = w_reader_name w" "w_hContext (bw_emit x w) = w_hContext w"
  "w_hCard (bw_emit x w) = w_hCard w" "w_atr (bw_emit x w) = w_atr w" "w_atr_len (bw_emit x w) = w_atr_len w"
  "last_vccPresent (bw_emit x w) = last_vccPresent w" "last_resetActive (bw_emit x w) = last_resetActive w"
  "w_out (bw_emit x w) = w_out w @ [x]"
  by (simp_all add: bw_emit_def)

text \<open>A C \<open>long\<close> returned through an \<open>int\<close>.\<close>

definition int_of_long :: "int \<Rightarrow> int" where
  "int_of_long l = sint (word_of_int l :: u32)"

lemma int_of_long_small: "- (2 ^ 31) \<le> l \<Longrightarrow> l < 2 ^ 31 \<Longrightarrow> int_of_long l = l"
  unfolding int_of_long_def sint_sbintrunc' by (simp add: signed_take_bit_int_eq_self)

lemma int_of_long_high:
  assumes "2 ^ 31 \<le> l" "l < 2 ^ 32"
  shows "int_of_long l = l - 2 ^ 32"
proof -
  have "(word_of_int l :: u32) = word_of_int (l - 2 ^ 32)"
    by (simp add: word_of_int_eq_iff take_bit_eq_mod)
  then have "int_of_long l = int_of_long (l - 2 ^ 32)"
    unfolding int_of_long_def by (rule arg_cong)
  with assms show ?thesis
    by (simp add: int_of_long_small)
qed

end
