(* ===== verification/Bankd_Pcsc.thy ===== *)
theory Bankd_Pcsc
  imports Bankd_Types C_Strings
begin

text \<open>
  The PC/SC side of remsim-bankd (\<^verbatim>\<open>src/bankd/bankd_pcsc.c\<close>): reading the table of reader
  names from the CSV file, looking a slot up in it, and the card reader driver.

  libcsv, the POSIX regular expressions and pcsclite are outside the sources. libcsv reaches
  the program through the two callbacks, so a file is the sequence of their calls. The record
  \<open>pcsc_env\<close> holds the results of the other calls during one step; \<open>pcsc_documented\<close> is what
  the code relies on: an error of the PC/SC API is one of its 0x801xxxxx codes, a successful
  \<open>SCardConnect\<close> gives a handle, and \<open>SCardStatus\<close> does not write beyond the length it is
  given. The interface \<open>card_driver\<close> is the contract of \<open>struct bankd_driver_ops\<close>, on which the
  worker threads rest; the PC/SC driver is interpreted in it.
\<close>

section \<open>The table of slot names\<close>

datatype parser_state_name = ST_NONE | ST_BANK_NR | ST_SLOT_NR | ST_PCSC_NAME

record parser_state =
  ps_state :: parser_state_name
  ps_cur :: "pcsc_slot_name option"

definition parser_state_init :: parser_state where
  "parser_state_init = \<lparr>ps_state = ST_BANK_NR, ps_cur = None\<rparr>"

text \<open>The field callback; \<open>None\<close> is a failed assertion (or an undefined \<open>atoi\<close>).\<close>

definition cb1 :: "string \<Rightarrow> parser_state \<Rightarrow> parser_state option" where
  "cb1 field ps =
     (case ps_state ps of
        ST_BANK_NR \<Rightarrow>
          if ps_cur ps \<noteq> None then None
          else do {
            n \<leftarrow> atoi field;
            Some \<lparr>ps_state = ST_SLOT_NR,
                  ps_cur = Some \<lparr>psn_slot = \<lparr>bank_id = word_of_int n, slot_nr = 0\<rparr>, name_regex = None\<rparr>\<rparr>
          }
      | ST_SLOT_NR \<Rightarrow>
          do {
            cur \<leftarrow> ps_cur ps;
            n \<leftarrow> atoi field;
            Some \<lparr>ps_state = ST_PCSC_NAME,
                  ps_cur = Some (cur\<lparr>psn_slot := (psn_slot cur)\<lparr>slot_nr := word_of_int n\<rparr>\<rparr>)\<rparr>
          }
      | ST_PCSC_NAME \<Rightarrow>
          do {
            cur \<leftarrow> ps_cur ps;
            Some (ps\<lparr>ps_cur := Some (cur\<lparr>name_regex := Some field\<rparr>)\<rparr>)
          }
      | ST_NONE \<Rightarrow> None)"

text \<open>The row callback; \<open>None\<close> is the use of a NULL row or of a NULL expression.\<close>

definition cb2 :: "(string \<Rightarrow> int) \<Rightarrow> parser_state \<Rightarrow> bankd \<Rightarrow> (parser_state \<times> bankd) option" where
  "cb2 regcomp ps b =
     do {
       sn \<leftarrow> ps_cur ps;
       re \<leftarrow> name_regex sn;
       Some (\<lparr>ps_state = ST_BANK_NR, ps_cur = None\<rparr>,
             if regcomp re \<noteq> 0 then b else b\<lparr>pcsc_slot_names := pcsc_slot_names b @ [sn]\<rparr>)
     }"

text \<open>The calls libcsv makes.\<close>

datatype csv_event = CsvField string | CsvRow

fun csv_run ::
  "(string \<Rightarrow> int) \<Rightarrow> csv_event list \<Rightarrow> parser_state \<times> bankd \<Rightarrow> (parser_state \<times> bankd) option" where
  "csv_run regcomp [] pb = Some pb"
| "csv_run regcomp (CsvField f # es) (ps, b) = do { ps' \<leftarrow> cb1 f ps; csv_run regcomp es (ps', b) }"
| "csv_run regcomp (CsvRow # es) (ps, b) = do { pb' \<leftarrow> cb2 regcomp ps b; csv_run regcomp es pb' }"

text \<open>The read loop: for each block, the callbacks made by \<open>csv_parse\<close> and whether it consumed
  the block.\<close>

fun csv_blocks ::
  "(string \<Rightarrow> int) \<Rightarrow> (csv_event list \<times> bool) list \<Rightarrow> parser_state \<times> bankd \<Rightarrow>
     (bool \<times> parser_state \<times> bankd) option" where
  "csv_blocks regcomp [] pb = Some (True, pb)"
| "csv_blocks regcomp ((es, consumed) # bs) pb =
     do { pb' \<leftarrow> csv_run regcomp es pb; if consumed then csv_blocks regcomp bs pb' else Some (False, pb') }"

record csv_file =
  csv_init_ok :: bool
  fopen_ok :: bool
  csv_parts :: "(csv_event list \<times> bool) list"
  csv_fini_events :: "csv_event list"

definition bankd_pcsc_read_slotnames ::
  "(string \<Rightarrow> int) \<Rightarrow> csv_file \<Rightarrow> bankd \<Rightarrow> (int \<times> bankd) option" where
  "bankd_pcsc_read_slotnames regcomp f b =
     (if \<not> csv_init_ok f then Some (-1, b)
      else if \<not> fopen_ok f then Some (-1, b)
      else do {
        (ok, pb) \<leftarrow> csv_blocks regcomp (csv_parts f) (parser_state_init, b);
        if \<not> ok then Some (-1, snd pb)
        else do { pb' \<leftarrow> csv_run regcomp (csv_fini_events f) pb; Some (0, snd pb') }
      })"

definition bankd_pcsc_get_slot_name :: "bankd \<Rightarrow> bank_slot \<Rightarrow> string option" where
  "bankd_pcsc_get_slot_name b slot =
     (case List.find (\<lambda>cur. bank_slot_equals (psn_slot cur) slot) (pcsc_slot_names b) of
        None \<Rightarrow> None
      | Some cur \<Rightarrow> name_regex cur)"

section \<open>The PC/SC driver\<close>

record pcsc_env =
  regcomp_r :: "string \<Rightarrow> int"
  regexec_r :: "string \<Rightarrow> string \<Rightarrow> int"
  establish_r :: "int \<times> nat"
  list_readers_r :: "int \<times> string list"
  connect_r :: "string \<Rightarrow> bool \<Rightarrow> int \<times> nat"
  status_r :: "nat \<Rightarrow> int \<times> bytes"
  reconnect_r :: "nat \<Rightarrow> bool \<Rightarrow> bool \<Rightarrow> int"
  transmit_r :: "nat \<Rightarrow> bytes \<Rightarrow> int \<times> bytes"

abbreviation (input) SCARD_S_SUCCESS :: int where "SCARD_S_SUCCESS \<equiv> 0"

text \<open>\<open>True\<close> for SCARD_SHARE_SHARED, \<open>False\<close> for SCARD_SHARE_EXCLUSIVE.\<close>

definition bankd_share_mode :: "bankd \<Rightarrow> bool" where
  "bankd_share_mode b = (if permit_shared_pcsc b then True else False)"

definition pcsc_get_atr :: "pcsc_env \<Rightarrow> bankd_worker \<Rightarrow> int \<times> bankd_worker" where
  "pcsc_get_atr P w =
     (let w1 = w\<lparr>w_atr_len := MAX_ATR_SIZE\<rparr>;
          (rc, atr) = status_r P (w_hCard w1);
          w2 = w1\<lparr>w_atr := buf_write (w_atr w1) atr\<rparr>
      in if rc \<noteq> SCARD_S_SUCCESS then (int_of_long rc, w2)
         else (int_of_long rc, w2\<lparr>w_atr_len := length atr\<rparr>))"

text \<open>The loop over the reader names; the first one that matches is connected to.\<close>

fun connect_matching ::
  "pcsc_env \<Rightarrow> bankd \<Rightarrow> string \<Rightarrow> string list \<Rightarrow> bankd_worker \<Rightarrow> int \<times> bankd_worker" where
  "connect_matching P b re [] w = (-1, w)"
| "connect_matching P b re (p # ps) w =
     (if regexec_r P re p = 0 then
        let (rc, h) = connect_r P p (bankd_share_mode b);
            w1 = (bw_emit (ScConnect p (bankd_share_mode b)) w)\<lparr>w_hCard := h\<rparr>
        in if rc = SCARD_S_SUCCESS then (0, w1) else (-1, w1)
      else connect_matching P b re ps w)"

text \<open>The reader name is set whenever the driver is called (\<open>worker_open_card\<close>).\<close>

definition pcsc_connect_slot_regex :: "pcsc_env \<Rightarrow> bankd \<Rightarrow> bankd_worker \<Rightarrow> int \<times> bankd_worker" where
  "pcsc_connect_slot_regex P b w =
     (let re = (case w_reader_name w of None \<Rightarrow> [] | Some n \<Rightarrow> n)
      in if regcomp_r P re \<noteq> 0 then (- EINVAL, w)
         else let (rc, readers) = list_readers_r P
              in if rc \<noteq> SCARD_S_SUCCESS then (-1, w) else connect_matching P b re readers w)"

definition pcsc_open_card :: "pcsc_env \<Rightarrow> bankd \<Rightarrow> bankd_worker \<Rightarrow> int \<times> bankd_worker" where
  "pcsc_open_card P b w =
     (let (rc1, w1) =
        (if w_hContext w = 0 then
           let (rc, h) = establish_r P in (rc, (bw_emit ScEstablish w)\<lparr>w_hContext := h\<rparr>)
         else (SCARD_S_SUCCESS, w))
      in if rc1 \<noteq> SCARD_S_SUCCESS then (int_of_long rc1, w1)
         else let (rc2, w2) = (if w_hCard w1 = 0 then pcsc_connect_slot_regex P b w1 else (0, w1))
              in if rc2 \<noteq> 0 then (rc2, w2) else pcsc_get_atr P w2)"

definition pcsc_reset_card :: "pcsc_env \<Rightarrow> bankd \<Rightarrow> bankd_worker \<Rightarrow> bool \<Rightarrow> int \<times> bankd_worker" where
  "pcsc_reset_card P b w cold_reset =
     (let rc = reconnect_r P (w_hCard w) (bankd_share_mode b) cold_reset;
          w1 = bw_emit (ScReconnect (w_hCard w) (bankd_share_mode b) cold_reset) w
      in if rc \<noteq> SCARD_S_SUCCESS then (int_of_long rc, w1) else pcsc_get_atr P w1)"

definition pcsc_transceive :: "pcsc_env \<Rightarrow> bankd_worker \<Rightarrow> bytes \<Rightarrow> int \<times> bytes \<times> bankd_worker" where
  "pcsc_transceive P w out =
     (let (rc, inb) = transmit_r P (w_hCard w) out
      in (int_of_long rc, inb, bw_emit (ScTransmit (w_hCard w) out) w))"

definition pcsc_cleanup :: "bankd_worker \<Rightarrow> bankd_worker" where
  "pcsc_cleanup w =
     (let w1 = (if w_hCard w \<noteq> 0 then (bw_emit (ScDisconnect (w_hCard w)) w)\<lparr>w_hCard := 0\<rparr> else w)
      in if w_hContext w1 \<noteq> 0 then (bw_emit (ScRelease (w_hContext w1)) w1)\<lparr>w_hContext := 0\<rparr> else w1)"

definition pcsc_driver_ops :: "pcsc_env \<Rightarrow> bankd \<Rightarrow> bankd_driver_ops" where
  "pcsc_driver_ops P b =
     \<lparr>op_open_card = pcsc_open_card P b,
      op_reset_card = pcsc_reset_card P b,
      op_transceive = pcsc_transceive P,
      op_cleanup = pcsc_cleanup\<rparr>"

section \<open>The contract of a driver\<close>

text \<open>The part of a worker that a driver may change: handles, ATR and the log of PC/SC calls.\<close>

definition reader_frame :: "bankd_worker \<Rightarrow> bankd_worker \<Rightarrow> bool" where
  "reader_frame w w' \<longleftrightarrow>
     w_num w' = w_num w \<and> w_state w' = w_state w \<and> w_timeout w' = w_timeout w \<and> w_slot w' = w_slot w \<and>
     w_fd w' = w_fd w \<and> w_clslot w' = w_clslot w \<and> w_reader_name w' = w_reader_name w \<and>
     last_vccPresent w' = last_vccPresent w \<and> last_resetActive w' = last_resetActive w \<and>
     (\<exists>es. w_out w' = w_out w @ es \<and> (\<forall>e \<in> set es. is_sc e))"

lemma reader_frame_refl [simp]: "reader_frame w w"
  by (simp add: reader_frame_def)

lemma reader_frame_trans: "reader_frame u v \<Longrightarrow> reader_frame v w \<Longrightarrow> reader_frame u w"
  unfolding reader_frame_def by (elim conjE exE) (simp add: ball_Un)

lemma reader_frame_emit: "is_sc e \<Longrightarrow> reader_frame w (bw_emit e w)"
  by (simp add: reader_frame_def)

lemma reader_frame_set [simp]:
  "reader_frame w (v\<lparr>w_hContext := c\<rparr>) \<longleftrightarrow> reader_frame w v" "reader_frame w (v\<lparr>w_hCard := h\<rparr>) \<longleftrightarrow> reader_frame w v"
  "reader_frame w (v\<lparr>w_atr := a\<rparr>) \<longleftrightarrow> reader_frame w v" "reader_frame w (v\<lparr>w_atr_len := l\<rparr>) \<longleftrightarrow> reader_frame w v"
  by (simp_all add: reader_frame_def)

lemma reader_frameD:
  assumes "reader_frame w w'"
  shows "w_num w' = w_num w" "w_state w' = w_state w" "w_timeout w' = w_timeout w" "w_slot w' = w_slot w"
    "w_fd w' = w_fd w" "w_clslot w' = w_clslot w" "w_reader_name w' = w_reader_name w"
    "last_vccPresent w' = last_vccPresent w" "last_resetActive w' = last_resetActive w"
    "\<exists>es. w_out w' = w_out w @ es \<and> (\<forall>e \<in> set es. is_sc e)"
  using assms by (simp_all add: reader_frame_def)

locale card_driver =
  fixes env_doc :: "'p \<Rightarrow> bool"
    and driver :: "'p \<Rightarrow> bankd \<Rightarrow> bankd_driver_ops"
  assumes open_frame: "op_open_card (driver P b) w = (rc, w') \<Longrightarrow> reader_frame w w'"
    and open_result: "env_doc P \<Longrightarrow> op_open_card (driver P b) w = (rc, w') \<Longrightarrow>
      rc \<le> 0 \<and> (rc = 0 \<longrightarrow> w_hCard w' \<noteq> 0 \<and> w_atr_len w' \<le> MAX_ATR_SIZE)"
    and reset_frame: "op_reset_card (driver P b) w cold = (rc, w') \<Longrightarrow> reader_frame w w' \<and> w_hCard w' = w_hCard w"
    and transceive_frame: "op_transceive (driver P b) w apdu = (rc, resp, w') \<Longrightarrow>
      w' = bw_emit (ScTransmit (w_hCard w) apdu) w"
    and cleanup_frame: "reader_frame w (op_cleanup (driver P b) w)"
    and cleanup_closed: "w_hCard (op_cleanup (driver P b) w) = 0"
begin

lemma open_keeps:
  assumes "op_open_card (driver P b) w = (rc, w')"
  shows "w_state w' = w_state w" "w_slot w' = w_slot w" "w_clslot w' = w_clslot w" "w_timeout w' = w_timeout w"
    "w_reader_name w' = w_reader_name w"
  using reader_frameD [OF open_frame [OF assms]] by simp_all

lemma open_success:
  assumes "env_doc P" "op_open_card (driver P b) w = (rc, w')" "0 \<le> rc"
  shows "rc = 0" "w_hCard w' \<noteq> 0" "w_atr_len w' \<le> MAX_ATR_SIZE"
  using open_result [OF assms(1,2)] assms(3) by auto

end

text \<open>What the PC/SC API promises.\<close>

definition pcsc_rc_ok :: "int \<Rightarrow> bool" where
  "pcsc_rc_ok rc \<longleftrightarrow> rc = SCARD_S_SUCCESS \<or> 2148532225 \<le> rc \<and> rc < 2149580800"

definition pcsc_documented :: "pcsc_env \<Rightarrow> bool" where
  "pcsc_documented P \<longleftrightarrow> pcsc_rc_ok (fst (establish_r P)) \<and>
     (\<forall>h. pcsc_rc_ok (fst (status_r P h)) \<and> length (snd (status_r P h)) \<le> MAX_ATR_SIZE) \<and>
     (\<forall>p s. fst (connect_r P p s) = SCARD_S_SUCCESS \<longrightarrow> snd (connect_r P p s) \<noteq> 0)"

lemma int_of_long_pcsc:
  assumes "pcsc_rc_ok rc"
  shows "int_of_long rc \<le> 0" "int_of_long rc = 0 \<longleftrightarrow> rc = 0"
  using assms by (auto simp: pcsc_rc_ok_def int_of_long_small int_of_long_high)

lemma pcsc_get_atr_frame: "pcsc_get_atr P w = (rc, w') \<Longrightarrow> reader_frame w w' \<and> w_hCard w' = w_hCard w"
  by (cases "status_r P (w_hCard w)") (auto simp: pcsc_get_atr_def Let_def split: if_splits)

lemma pcsc_get_atr_result:
  assumes "pcsc_documented P" "pcsc_get_atr P w = (rc, w')"
  shows "rc \<le> 0 \<and> (rc = 0 \<longrightarrow> w_atr_len w' \<le> MAX_ATR_SIZE)"
proof -
  obtain r a where st: "status_r P (w_hCard w) = (r, a)"
    by (cases "status_r P (w_hCard w)")
  then have "pcsc_rc_ok r" "length a \<le> MAX_ATR_SIZE"
    using assms(1) unfolding pcsc_documented_def by (metis fst_conv, metis snd_conv)
  with st assms(2) int_of_long_pcsc [of r] show ?thesis
    by (auto simp: pcsc_get_atr_def Let_def split: if_splits)
qed

lemma connect_matching_frame: "connect_matching P b re ps w = (rc, w') \<Longrightarrow> reader_frame w w'"
proof (induction P b re ps w rule: connect_matching.induct)
  case (2 P b re p ps w)
  then show ?case
    by (cases "connect_r P p (bankd_share_mode b)") (auto simp: reader_frame_emit Let_def split: if_splits)
qed simp

lemma connect_matching_result:
  assumes "pcsc_documented P"
  shows "connect_matching P b re ps w = (rc, w') \<Longrightarrow> rc \<le> 0 \<and> (rc = 0 \<longrightarrow> w_hCard w' \<noteq> 0)"
  using assms
proof (induction P b re ps w rule: connect_matching.induct)
  case (2 P b re p ps w)
  obtain r h where c: "connect_r P p (bankd_share_mode b) = (r, h)"
    by (cases "connect_r P p (bankd_share_mode b)")
  then have "r = 0 \<longrightarrow> h \<noteq> 0"
    using 2(3) unfolding pcsc_documented_def by (metis fst_conv snd_conv)
  with 2 c show ?case
    by (auto simp: Let_def split: if_splits)
qed simp

lemma pcsc_connect_frame:
  assumes "pcsc_connect_slot_regex P b w = (rc, w')"
  shows "reader_frame w w'"
  using assms connect_matching_frame
  by (cases "list_readers_r P") (auto simp: pcsc_connect_slot_regex_def Let_def split: if_splits)

lemma pcsc_connect_result:
  assumes "pcsc_documented P" "pcsc_connect_slot_regex P b w = (rc, w')"
  shows "rc \<le> 0 \<and> (rc = 0 \<longrightarrow> w_hCard w' \<noteq> 0)"
  using assms connect_matching_result [OF assms(1)]
  by (cases "list_readers_r P") (auto simp: pcsc_connect_slot_regex_def EINVAL_def Let_def split: if_splits)

text \<open>\<open>pcsc_open_card\<close> in three steps: the context, the card, the ATR.\<close>

lemma pcsc_open_cardE:
  assumes "pcsc_open_card P b w = (rc, w')"
  obtains (ctx) rc1 w1 where "rc = int_of_long rc1" "rc1 = fst (establish_r P)" "rc1 \<noteq> 0" "w' = w1" "reader_frame w w1"
    | (conn) w1 where "reader_frame w w1" "pcsc_connect_slot_regex P b w1 = (rc, w')" "rc \<noteq> 0"
    | (atr) w1 w2 where "reader_frame w w1" "w_hCard w1 = 0 \<longrightarrow> pcsc_connect_slot_regex P b w1 = (0, w2)"
      "w_hCard w1 \<noteq> 0 \<longrightarrow> w2 = w1" "pcsc_get_atr P w2 = (rc, w')"
proof -
  define u where "u = (if w_hContext w = 0 then (bw_emit ScEstablish w)\<lparr>w_hContext := snd (establish_r P)\<rparr> else w)"
  have fr: "reader_frame w u"
    by (simp add: u_def reader_frame_emit)
  show ?thesis
  proof (cases "w_hContext w = 0 \<and> fst (establish_r P) \<noteq> 0")
    case True
    then have "rc = int_of_long (fst (establish_r P))" "w' = u"
      using assms by (auto simp: pcsc_open_card_def u_def Let_def split: prod.splits if_splits)
    with True fr show ?thesis by (intro ctx) auto
  next
    case False
    then have eq: "(let (rc2, w2) = (if w_hCard u = 0 then pcsc_connect_slot_regex P b u else (0, u))
         in if rc2 \<noteq> 0 then (rc2, w2) else pcsc_get_atr P w2) = (rc, w')"
      using assms by (auto simp: pcsc_open_card_def u_def Let_def split: prod.splits if_splits)
    obtain rc2 w2 where c: "(if w_hCard u = 0 then pcsc_connect_slot_regex P b u else (0, u)) = (rc2, w2)"
      by (cases "if w_hCard u = 0 then pcsc_connect_slot_regex P b u else (0, u)")
    show ?thesis
    proof (cases "rc2 = 0")
      case True
      with c eq fr show ?thesis
        by (intro atr [of u w2]) (auto split: if_splits)
    next
      case False
      with c eq fr show ?thesis
        by (intro conn [of u]) (auto split: if_splits)
    qed
  qed
qed

lemma pcsc_open_frame:
  assumes "pcsc_open_card P b w = (rc, w')"
  shows "reader_frame w w'"
  using assms
proof (cases rule: pcsc_open_cardE)
  case (conn w1)
  then show ?thesis using pcsc_connect_frame reader_frame_trans by blast
next
  case (atr w1 w2)
  then have "reader_frame w1 w2"
    using pcsc_connect_frame by (cases "w_hCard w1 = 0") auto
  with atr show ?thesis using pcsc_get_atr_frame reader_frame_trans by blast
qed simp

lemma pcsc_open_result:
  assumes "pcsc_documented P" "pcsc_open_card P b w = (rc, w')"
  shows "rc \<le> 0 \<and> (rc = 0 \<longrightarrow> w_hCard w' \<noteq> 0 \<and> w_atr_len w' \<le> MAX_ATR_SIZE)"
  using assms(2)
proof (cases rule: pcsc_open_cardE)
  case (ctx rc1 w1)
  moreover have "pcsc_rc_ok rc1"
    using assms(1) ctx by (simp add: pcsc_documented_def)
  ultimately show ?thesis using int_of_long_pcsc [of rc1] by simp
next
  case (conn w1)
  then show ?thesis using pcsc_connect_result [OF assms(1)] by blast
next
  case (atr w1 w2)
  then have "w_hCard w2 \<noteq> 0"
    using pcsc_connect_result [OF assms(1)] by (cases "w_hCard w1 = 0") auto
  with atr show ?thesis
    using pcsc_get_atr_result [OF assms(1)] pcsc_get_atr_frame by metis
qed

lemma pcsc_reset_frame:
  assumes "pcsc_reset_card P b w cold = (rc, w')"
  shows "reader_frame w w' \<and> w_hCard w' = w_hCard w"
proof -
  define u where "u = bw_emit (ScReconnect (w_hCard w) (bankd_share_mode b) cold) w"
  have u: "reader_frame w u" "w_hCard u = w_hCard w"
    by (simp_all add: u_def reader_frame_emit)
  show ?thesis
  proof (cases "reconnect_r P (w_hCard w) (bankd_share_mode b) cold = 0")
    case True
    then have "pcsc_get_atr P u = (rc, w')"
      using assms by (simp add: pcsc_reset_card_def u_def Let_def)
    from pcsc_get_atr_frame [OF this] u show ?thesis
      by (auto intro: reader_frame_trans)
  next
    case False
    then have "w' = u"
      using assms by (simp add: pcsc_reset_card_def u_def Let_def)
    with u show ?thesis by simp
  qed
qed

interpretation pcsc: card_driver pcsc_documented pcsc_driver_ops
proof (unfold_locales, goal_cases)
  case 1 then show ?case by (simp add: pcsc_driver_ops_def pcsc_open_frame)
next
  case 2 then show ?case unfolding pcsc_driver_ops_def by (simp add: pcsc_open_result)
next
  case 3 then show ?case unfolding pcsc_driver_ops_def using pcsc_reset_frame by simp
next
  case 4 then show ?case by (auto simp: pcsc_driver_ops_def pcsc_transceive_def split: prod.splits)
next
  case 5 show ?case
    by (auto simp: pcsc_driver_ops_def pcsc_cleanup_def Let_def reader_frame_def)
next
  case 6 show ?case by (simp add: pcsc_driver_ops_def pcsc_cleanup_def Let_def)
qed

section \<open>Reading the table\<close>

text \<open>The calls libcsv makes for a file with the given rows, and the entry of a row: the fields
  after the third one overwrite the name.\<close>

definition csv_rows :: "string list list \<Rightarrow> csv_event list" where
  "csv_rows rows = concat (map (\<lambda>r. map CsvField r @ [CsvRow]) rows)"

definition row_ok :: "string list \<Rightarrow> bool" where
  "row_ok r \<longleftrightarrow> 3 \<le> length r \<and> atoi (r ! 0) \<noteq> None \<and> atoi (r ! 1) \<noteq> None"

definition row_entry :: "string list \<Rightarrow> pcsc_slot_name" where
  "row_entry r =
     \<lparr>psn_slot = \<lparr>bank_id = word_of_int (the (atoi (r ! 0))), slot_nr = word_of_int (the (atoi (r ! 1)))\<rparr>,
      name_regex = Some (last r)\<rparr>"

lemma csv_run_append:
  "csv_run regcomp (es @ fs) pb = (case csv_run regcomp es pb of None \<Rightarrow> None | Some pb' \<Rightarrow> csv_run regcomp fs pb')"
  by (induction regcomp es pb rule: csv_run.induct) (auto split: bind_splits option.splits)

lemma csv_run_names:
  "csv_run regcomp (map CsvField fs) (\<lparr>ps_state = ST_PCSC_NAME, ps_cur = Some c\<rparr>, b) =
     Some (\<lparr>ps_state = ST_PCSC_NAME,
            ps_cur = Some (if fs = [] then c else c\<lparr>name_regex := Some (last fs)\<rparr>)\<rparr>, b)"
  by (induction fs arbitrary: c) (simp_all add: cb1_def)

lemma csv_run_row:
  assumes "row_ok r"
  shows "csv_run regcomp (map CsvField r @ [CsvRow]) (parser_state_init, b) =
     Some (parser_state_init,
           if regcomp (last r) = 0 then b\<lparr>pcsc_slot_names := pcsc_slot_names b @ [row_entry r]\<rparr> else b)"
proof -
  obtain x y z fs where r: "r = x # y # z # fs"
    using assms by (cases r; cases "tl r"; cases "tl (tl r)") (auto simp: row_ok_def)
  obtain m n where at: "atoi x = Some m" "atoi y = Some n"
    using assms r by (auto simp: row_ok_def)
  have "csv_run regcomp (map CsvField r @ [CsvRow]) (parser_state_init, b) =
     csv_run regcomp (map CsvField (z # fs) @ [CsvRow]) (\<lparr>ps_state = ST_PCSC_NAME,
       ps_cur = Some \<lparr>psn_slot = \<lparr>bank_id = word_of_int m, slot_nr = word_of_int n\<rparr>, name_regex = None\<rparr>\<rparr>, b)"
    using r at by (simp add: parser_state_init_def cb1_def)
  then show ?thesis
    unfolding csv_run_append csv_run_names
    using r at by (simp add: cb2_def row_entry_def parser_state_init_def)
qed

lemma csv_run_rows:
  "(\<And>r. r \<in> set rows \<Longrightarrow> row_ok r) \<Longrightarrow>
   csv_run regcomp (csv_rows rows) (parser_state_init, b) =
     Some (parser_state_init, b\<lparr>pcsc_slot_names := pcsc_slot_names b @
       map row_entry (filter (\<lambda>r. regcomp (last r) = 0) rows)\<rparr>)"
proof (induction rows arbitrary: b)
  case Nil
  then show ?case by (simp add: csv_rows_def)
next
  case (Cons r rows)
  have "csv_rows (r # rows) = (map CsvField r @ [CsvRow]) @ csv_rows rows"
    by (simp add: csv_rows_def)
  then have "csv_run regcomp (csv_rows (r # rows)) (parser_state_init, b) =
      csv_run regcomp (csv_rows rows) (parser_state_init,
           if regcomp (last r) = 0 then b\<lparr>pcsc_slot_names := pcsc_slot_names b @ [row_entry r]\<rparr> else b)"
    by (simp only: csv_run_append [of regcomp "map CsvField r @ [CsvRow]"]
        csv_run_row [OF Cons.prems [OF list.set_intros(1)]] option.simps)
  moreover have "csv_run regcomp (csv_rows rows) (parser_state_init, b') =
     Some (parser_state_init, b'\<lparr>pcsc_slot_names := pcsc_slot_names b' @
       map row_entry (filter (\<lambda>r. regcomp (last r) = 0) rows)\<rparr>)" for b'
    by (rule Cons.IH) (simp add: Cons.prems)
  ultimately show ?case by simp
qed

lemma csv_blocks_concat:
  "(\<And>x. x \<in> set bs \<Longrightarrow> snd x) \<Longrightarrow>
   csv_blocks regcomp bs pb = map_option (Pair True) (csv_run regcomp (concat (map fst bs)) pb)"
proof (induction bs arbitrary: pb)
  case (Cons x bs)
  obtain es where "x = (es, True)"
    using Cons.prems [of x] by (cases x) auto
  moreover have "csv_blocks regcomp bs pb' = map_option (Pair True) (csv_run regcomp (concat (map fst bs)) pb')" for pb'
    using Cons.prems by (intro Cons.IH) simp
  ultimately show ?case
    by (cases "csv_run regcomp es pb") (simp_all add: csv_run_append)
qed simp

lemma csv_short_row:
  assumes "length r < 3"
  shows "csv_run regcomp (map CsvField r @ [CsvRow]) (parser_state_init, b) = None"
proof -
  consider "r = []" | x where "r = [x]" | x y where "r = [x, y]"
    using assms by (cases r; cases "tl r") (auto simp: less_Suc_eq numeral_3_eq_3)
  then show ?thesis
  proof cases
    case 1
    then show ?thesis by (simp add: parser_state_init_def cb2_def)
  next
    case 2
    then show ?thesis by (cases "atoi x") (simp_all add: parser_state_init_def cb1_def cb2_def)
  next
    case 3
    then show ?thesis
      by (cases "atoi x"; cases "atoi y") (simp_all add: parser_state_init_def cb1_def cb2_def)
  qed
qed

text \<open>C29. Reading the table of slot names: whatever blocks the file is read in, a file whose rows
  have at least three fields with numbers in the first two is accepted, and the slots are then
  resolved to the name (the last field) of the first row for the slot whose expression
  compiles; rows with an invalid expression are ignored. A row of fewer than three fields
  makes the daemon dereference a NULL pointer.\<close>

theorem csv_slotnames:
  assumes "csv_init_ok f" "fopen_ok f" "\<And>x. x \<in> set (csv_parts f) \<Longrightarrow> snd x"
    and "concat (map fst (csv_parts f)) @ csv_fini_events f = csv_rows rows"
    and "\<And>r. r \<in> set rows \<Longrightarrow> row_ok r"
    and "pcsc_slot_names b = []"
  shows "(\<exists>b'. bankd_pcsc_read_slotnames regcomp f b = Some (0, b') \<and> b_workers b' = b_workers b \<and>
       (\<forall>slot. bankd_pcsc_get_slot_name b' slot =
          map_option last (List.find (\<lambda>r. regcomp (last r) = 0 \<and> psn_slot (row_entry r) = slot) rows))) \<and>
     (\<forall>r. length r < 3 \<longrightarrow> csv_run regcomp (map CsvField r @ [CsvRow]) (parser_state_init, b) = None)"
proof -
  define es where "es = concat (map fst (csv_parts f))"
  define b' where "b' = b\<lparr>pcsc_slot_names := map row_entry (filter (\<lambda>r. regcomp (last r) = 0) rows)\<rparr>"
  have run: "csv_run regcomp (es @ csv_fini_events f) (parser_state_init, b) = Some (parser_state_init, b')"
    using csv_run_rows [of rows regcomp b] assms(4-6) by (simp add: b'_def es_def)
  then obtain pb where pb: "csv_run regcomp es (parser_state_init, b) = Some pb"
      "csv_run regcomp (csv_fini_events f) pb = Some (parser_state_init, b')"
    by (auto simp: csv_run_append split: option.splits)
  then have "bankd_pcsc_read_slotnames regcomp f b = Some (0, b')"
    using assms(1,2) csv_blocks_concat [OF assms(3), where regcomp = regcomp]
    by (simp add: bankd_pcsc_read_slotnames_def es_def)
  moreover have "bankd_pcsc_get_slot_name b' slot =
      map_option last (List.find (\<lambda>r. regcomp (last r) = 0 \<and> psn_slot (row_entry r) = slot) rows)" for slot
    unfolding b'_def bankd_pcsc_get_slot_name_def
    by (induction rows) (auto simp: bank_slot_equals_def row_entry_def)
  ultimately show ?thesis
    using csv_short_row by (auto simp: b'_def)
qed

definition ex_srvc0 :: rspro_server_conn where
  "ex_srvc0 = (ex_srvc SRVC_ST_CONNECTED 0)\<lparr>srvc_bank_id := 1, srvc_num_slots := 8\<rparr>"

definition ex_bankd :: bankd where
  "ex_bankd =
     \<lparr>b_comp_id = ex_comp_id, b_srvc = ex_srvc0, b_slotmaps = slotmap_init, b_workers = [],
      pcsc_slot_names = [], permit_shared_pcsc = False, gsmtap_host = None, gsmtap_slot = -1,
      ki_enabled = False, ki_proxy_slot = 0, ki_carrier = 0, ki_imsi = None, ki_iccid = None,
      ki_proxy_slots = [], ki_next_slot_idx = 0, ki_virtual_slot_start = 0, ki_virtual_slot_end = 0\<rparr>"

definition ex_rows :: "string list list" where
  "ex_rows = [[''1'', ''0'', ''Reader 0''], [''1'', ''1'', ''Reader 1'']]"

definition ex_csv :: csv_file where
  "ex_csv = \<lparr>csv_init_ok = True, fopen_ok = True,
     csv_parts = [([CsvField ''1''], True),
       ([CsvField ''0'', CsvField ''Reader 0'', CsvRow, CsvField ''1''], True)],
     csv_fini_events = [CsvField ''1'', CsvField ''Reader 1'', CsvRow]\<rparr>"

lemma atoi_ex: "atoi ''0'' = Some 0" "atoi ''1'' = Some 1"
  by (simp_all add: atoi_def split_sign_def c_isspace_def c_isdigit_def)

theorem csv_slotnames_witness:
  "\<exists>b'. bankd_pcsc_read_slotnames (\<lambda>_. 0) ex_csv ex_bankd = Some (0, b') \<and>
     bankd_pcsc_get_slot_name b' (ex_bs 1 1) = Some ''Reader 1''"
proof -
  have ok: "row_ok r" if "r \<in> set ex_rows" for r
    using that by (auto simp: ex_rows_def row_ok_def atoi_ex)
  have ev: "concat (map fst (csv_parts ex_csv)) @ csv_fini_events ex_csv = csv_rows ex_rows"
    by (simp add: ex_csv_def ex_rows_def csv_rows_def)
  have f: "csv_init_ok ex_csv" "fopen_ok ex_csv" "pcsc_slot_names ex_bankd = []"
    by (simp_all add: ex_csv_def ex_bankd_def)
  have all: "snd x" if "x \<in> set (csv_parts ex_csv)" for x
    using that by (auto simp: ex_csv_def)
  have "map_option last (List.find (\<lambda>r. psn_slot (row_entry r) = ex_bs 1 1) ex_rows) = Some ''Reader 1''"
    by (simp add: ex_rows_def row_entry_def atoi_ex ex_bs_def)
  then show ?thesis
    using csv_slotnames [OF f(1,2) all ev ok f(3), of "\<lambda>_. 0"] by auto
qed

end
