(* ===== verification/Bankd_Worker.thy ===== *)
theory Bankd_Worker
  imports Bankd_Pcsc
begin

text \<open>
  The worker threads of remsim-bankd (second half of \<^verbatim>\<open>src/bankd/bankd_main.c\<close>). A worker
  accepts a client's TCP connection, identifies the client, looks up the bank slot mapped to
  it, opens the card and relays TPDUs, and starts over when the connection or the mapping is
  gone.

  A thread runs from one blocking call to the next in one step. Its blocking calls are
  \<open>accept\<close>, \<open>select\<close> (whose outcome is a \<open>wait_res\<close>) and \<open>recv\<close> (\<open>recv_in\<close>: the signals
  that interrupt it before it returns, and what it returns). Signals are handled while the
  thread is blocked. The function that handles an incoming message reads the daemon's
  structure and may change it (the round robin index, the log of another worker), so it maps
  a \<open>bankd\<close> and the worker's place to a \<open>bankd\<close>.

  The record \<open>worker_env\<close> holds the results of the calls it makes: the BER decoder and
  encoder (End_To_End puts those of Rspro_Asn here), the socket writes, and the byte that an uninitialised buffer holds. \<open>None\<close> is an
  abort: a failed \<open>OSMO_ASSERT\<close>, or an access outside an array.
\<close>

section \<open>States and signals\<close>

datatype bankd_signal = SIGMAPDEL | SIGMAPADD | SIGUSR1

record worker_env =
  we_calloc :: bool
  we_enc :: "RsproPDU_t \<Rightarrow> bool"
  we_write :: "RsproPDU_t \<Rightarrow> bool"
  we_dec :: "bytes \<Rightarrow> RsproPDU_t option"
  we_pong_rc :: int
  we_id_ack_rc :: int
  we_stack :: u8

definition worker_set_state :: "bankd_worker \<Rightarrow> bankd_worker_state \<Rightarrow> bankd_worker" where
  "worker_set_state w new_state = w\<lparr>w_state := new_state, w_timeout := 0\<rparr>"

definition worker_set_state_timeout :: "bankd_worker \<Rightarrow> bankd_worker_state \<Rightarrow> nat \<Rightarrow> bankd_worker" where
  "worker_set_state_timeout w new_state timeout_secs = w\<lparr>w_state := new_state, w_timeout := timeout_secs\<rparr>"

definition no_slot :: bank_slot where
  "no_slot = \<lparr>bank_id = 0xffff, slot_nr = 0xffff\<rparr>"

definition handle_sig_mapdel :: "bankd_worker \<Rightarrow> bankd_worker" where
  "handle_sig_mapdel w =
     (if w_state w \<ge> BW_ST_CONN_CLIENT_MAPPED
      then worker_set_state (w\<lparr>w_slot := no_slot\<rparr>) BW_ST_CONN_CLIENT_UNMAPPED else w)"

definition handle_sig_mapadd :: "bankd_worker \<Rightarrow> bankd_worker" where
  "handle_sig_mapadd w = w"

text \<open>The handler installed for a signal, run on the worker; SIGUSR1 prints a memory report.\<close>

fun deliver :: "bankd_signal \<Rightarrow> bankd_worker \<Rightarrow> bankd_worker" where
  "deliver SIGMAPDEL w = handle_sig_mapdel w"
| "deliver SIGMAPADD w = handle_sig_mapadd w"
| "deliver SIGUSR1 w = w"

section \<open>Card and mapping\<close>

definition worker_open_card ::
  "bankd_driver_ops \<Rightarrow> bankd \<Rightarrow> bankd_worker \<Rightarrow> (int \<times> bankd_worker) option" where
  "worker_open_card D b w =
     (if w_state w \<noteq> BW_ST_CONN_CLIENT_MAPPED then None
      else let w1 = (if w_reader_name w = None
                     then w\<lparr>w_reader_name := bankd_pcsc_get_slot_name b (w_slot w)\<rparr> else w)
           in if w_reader_name w1 = None then Some (-1, w1)
              else let (rc, w2) = op_open_card D w1
                   in if rc < 0 then Some (rc, w2)
                      else Some (0, worker_set_state w2 BW_ST_CONN_CLIENT_MAPPED_CARD))"

definition worker_send_rspro :: "worker_env \<Rightarrow> bankd_worker \<Rightarrow> RsproPDU_t option \<Rightarrow> int \<times> bankd_worker" where
  "worker_send_rspro E w pdu =
     (case pdu of
        None \<Rightarrow> (-1, w)
      | Some p \<Rightarrow> if \<not> we_enc E p then (-1, w)
                  else if we_write E p then (0, bw_emit (WTx p) w) else (-1, w))"

definition worker_try_slotmap ::
  "bankd_driver_ops \<Rightarrow> bankd \<Rightarrow> bankd_worker \<Rightarrow> (int \<times> bankd_worker) option" where
  "worker_try_slotmap D b w =
     (case slotmap_by_client (b_slotmaps b) (w_clslot w) of
        None \<Rightarrow> Some (-1, worker_set_state_timeout w BW_ST_CONN_CLIENT_WAIT_MAP 10)
      | Some p \<Rightarrow>
          (case sm_heap (b_slotmaps b) p of
             None \<Rightarrow> None
           | Some slmap \<Rightarrow>
               worker_open_card D b
                 (worker_set_state_timeout (w\<lparr>w_slot := sm_bank slmap\<rparr>) BW_ST_CONN_CLIENT_MAPPED 10)))"

definition gsmtap_enabled :: "bankd \<Rightarrow> bankd_worker \<Rightarrow> bool" where
  "gsmtap_enabled b w \<longleftrightarrow>
     gsmtap_host b \<noteq> None \<and> (gsmtap_slot b = -1 \<or> gsmtap_slot b = uint (slot_nr (w_slot w)))"

definition worker_send_atr :: "worker_env \<Rightarrow> bankd \<Rightarrow> bankd_worker \<Rightarrow> int \<times> bankd_worker" where
  "worker_send_atr E b w =
     (let atr = take (w_atr_len w) (w_atr w);
          set_atr = rspro_gen_SetAtrReq (we_calloc E) (client_id (w_clslot w)) (cslot_nr (w_clslot w)) atr;
          w1 = (if gsmtap_enabled b w then bw_emit (GsmtapAtr atr) w else w)
      in if set_atr = None then (-1, w1) else worker_send_rspro E w1 set_atr)"

definition worker_handle_connectClientReq ::
  "bankd_driver_ops \<Rightarrow> worker_env \<Rightarrow> bankd \<Rightarrow> bankd_worker \<Rightarrow> RsproPDU_t \<Rightarrow> (int \<times> bankd_worker) option" where
  "worker_handle_connectClientReq D E b w pdu =
     (case pdu_msg pdu of
        connectClientReq cid clientSlot \<Rightarrow>
          (let respond_and_err = (\<lambda>rc. let resp = rspro_gen_ConnectClientRes (we_calloc E) (b_comp_id b)
                                             ResultCode_illegalClientId
                                       in Some (rc, snd (worker_send_rspro E w resp)))
           in if w_state w \<noteq> BW_ST_CONN_WAIT_ID then respond_and_err (-102)
              else case clientSlot of
                None \<Rightarrow> respond_and_err (-103)
              | Some cs \<Rightarrow>
                  do {
                    (r, w2) \<leftarrow> worker_try_slotmap D b
                      (worker_set_state (w\<lparr>w_clslot := rspro2client_slot cs\<rparr>) BW_ST_CONN_CLIENT);
                    let res = (if r \<ge> 0 then ResultCode_ok else ResultCode_cardNotPresent);
                    let (rc, w3) = worker_send_rspro E w2 (rspro_gen_ConnectClientRes (we_calloc E) (b_comp_id b) res);
                    if rc < 0 then Some (rc, w3)
                    else if res = ResultCode_ok then Some (worker_send_atr E b w3)
                    else Some (rc, w3)
                  })
      | _ \<Rightarrow> None)"

section \<open>The Ki proxy\<close>

definition set_worker :: "nat \<Rightarrow> bankd_worker \<Rightarrow> bankd \<Rightarrow> bankd" where
  "set_worker i w b = b\<lparr>b_workers := (b_workers b)[i := w]\<rparr>"

definition num_slots :: "bankd \<Rightarrow> nat" where
  "num_slots b = unat (srvc_num_slots (b_srvc b))"

text \<open>The selection loop, with the number of attempts left: the slot found, and the next index.\<close>

fun ki_select :: "nat \<Rightarrow> nat list \<Rightarrow> nat \<Rightarrow> nat \<Rightarrow> (nat option \<times> nat) option" where
  "ki_select ns pool 0 idx = Some (None, idx)"
| "ki_select ns pool (Suc left) idx =
     (if idx \<ge> length pool then None
      else let selected_slot = pool ! idx; idx' = (idx + 1) mod length pool
           in if selected_slot \<ge> ns then ki_select ns pool left idx' else Some (Some selected_slot, idx'))"

definition find_proxy :: "bankd \<Rightarrow> bank_slot \<Rightarrow> nat option" where
  "find_proxy b slot =
     List.find (\<lambda>j. bank_slot_equals (w_slot (b_workers b ! j)) slot \<and>
                    w_state (b_workers b ! j) = BW_ST_CONN_CLIENT_MAPPED_CARD) [0..<length (b_workers b)]"

text \<open>The choice of a slot (from the pool, or the single configured one), and the exchange with
  the worker that has it.\<close>

definition ki_choose :: "bankd \<Rightarrow> (nat option \<times> bankd) option" where
  "ki_choose b =
     (if ki_proxy_slots b \<noteq> [] then
        map_option (\<lambda>(s, idx). (s, b\<lparr>ki_next_slot_idx := idx\<rparr>))
          (ki_select (num_slots b) (ki_proxy_slots b) (length (ki_proxy_slots b)) (ki_next_slot_idx b))
      else if ki_proxy_slot b \<ge> num_slots b then Some (None, b) else Some (Some (ki_proxy_slot b), b))"

definition ki_forward :: "bankd_driver_ops \<Rightarrow> bankd \<Rightarrow> nat \<Rightarrow> nat \<Rightarrow> bytes \<Rightarrow> int \<times> bytes \<times> bankd" where
  "ki_forward D b i selected_slot apdu =
     (let proxy_slot = \<lparr>bank_id = bank_id (w_slot (b_workers b ! i)), slot_nr = of_nat selected_slot\<rparr>
      in case find_proxy b proxy_slot of
           None \<Rightarrow> (-1, [], b)
         | Some j \<Rightarrow>
             if j = i then (-1, [], b)
             else let (rc, resp, w') = op_transceive D (b_workers b ! j) apdu in (rc, resp, set_worker j w' b))"

definition worker_handle_ki_proxy ::
  "bankd_driver_ops \<Rightarrow> bankd \<Rightarrow> nat \<Rightarrow> bytes \<Rightarrow> (int \<times> bytes \<times> bankd) option" where
  "worker_handle_ki_proxy D b i apdu =
     (if apdu = [] then Some (-1, [], b)
      else do {
        (sel, b1) \<leftarrow> ki_choose b;
        (case sel of None \<Rightarrow> Some (-1, [], b1) | Some selected_slot \<Rightarrow> Some (ki_forward D b1 i selected_slot apdu))
      })"

section \<open>Messages of the client\<close>

definition is_virtual_slot :: "bankd \<Rightarrow> bankd_worker \<Rightarrow> bool" where
  "is_virtual_slot b w \<longleftrightarrow>
     ki_virtual_slot_end b > 0 \<and> unat (slot_nr (w_slot w)) \<ge> ki_virtual_slot_start b \<and>
     unat (slot_nr (w_slot w)) \<le> ki_virtual_slot_end b"

text \<open>The exchange with the card (the worker's own one, or one of the proxy pool), and the
  response to the client.\<close>

definition tpdu_exchange ::
  "bankd_driver_ops \<Rightarrow> bankd \<Rightarrow> nat \<Rightarrow> bytes \<Rightarrow> (int \<times> bytes \<times> bankd) option" where
  "tpdu_exchange D b i data =
     (if ki_enabled b \<and> length data > 1 \<and> data ! 1 = 0x88 \<and> is_virtual_slot b (b_workers b ! i)
      then worker_handle_ki_proxy D b i data
      else let (rc, rx, w') = op_transceive D (b_workers b ! i) data in Some (rc, rx, set_worker i w' b))"

definition tpdu_respond ::
  "worker_env \<Rightarrow> bankd \<Rightarrow> nat \<Rightarrow> BankSlot_t \<Rightarrow> ClientSlot_t \<Rightarrow> bytes \<Rightarrow> bytes \<Rightarrow> bankd" where
  "tpdu_respond E b i toBankSlot fromClientSlot data rx_buf =
     (let w1 = b_workers b ! i;
          pdu_resp = rspro_gen_TpduCard2Modem (we_calloc E) toBankSlot fromClientSlot rx_buf;
          w2 = snd (worker_send_rspro E w1 pdu_resp);
          w3 = (if gsmtap_enabled b w2 then bw_emit (GsmtapApdu data rx_buf) w2 else w2)
      in set_worker i w3 b)"

definition worker_handle_tpduModemToCard ::
  "bankd_driver_ops \<Rightarrow> worker_env \<Rightarrow> bankd \<Rightarrow> nat \<Rightarrow> RsproPDU_t \<Rightarrow> (int \<times> bankd) option" where
  "worker_handle_tpduModemToCard D E b i pdu =
     (case pdu_msg pdu of
        tpduModemToCard fromClientSlot toBankSlot flags data \<Rightarrow>
          (let w = b_workers b ! i
           in if w_state w \<noteq> BW_ST_CONN_CLIENT_MAPPED_CARD then Some (-104, b)
              else if \<not> bank_slot_equals (w_slot w) (rspro2bank_slot toBankSlot) then Some (-105, b)
              else if \<not> client_slot_equals (w_clslot w) (rspro2client_slot fromClientSlot) then Some (-106, b)
              else do {
                (rc, rx_buf, b1) \<leftarrow> tpdu_exchange D b i data;
                if rc < 0 then Some (rc, b1)
                else Some (0, tpdu_respond E b1 i toBankSlot fromClientSlot data rx_buf)
              })
      | _ \<Rightarrow> None)"

definition worker_handle_clientSlotStatusInd ::
  "bankd_driver_ops \<Rightarrow> bankd_worker \<Rightarrow> SlotPhysStatus_t \<Rightarrow> int \<times> bankd_worker" where
  "worker_handle_clientSlotStatusInd D w sps =
     (let (rc, w1) =
        (if sps_vccPresent sps = Some 0 then
           (if last_vccPresent w then op_reset_card D w True else (0, w))
         else if sps_resetActive sps \<noteq> 0 then
           (if \<not> last_resetActive w then op_reset_card D w False else (0, w))
         else (0, w));
          w2 = (case sps_vccPresent sps of None \<Rightarrow> w1 | Some v \<Rightarrow> w1\<lparr>last_vccPresent := v \<noteq> 0\<rparr>)
      in (rc, w2\<lparr>last_resetActive := sps_resetActive sps \<noteq> 0\<rparr>))"

definition worker_handle_rspro ::
  "bankd_driver_ops \<Rightarrow> worker_env \<Rightarrow> bankd \<Rightarrow> nat \<Rightarrow> RsproPDU_t \<Rightarrow> (int \<times> bankd) option" where
  "worker_handle_rspro D E b i pdu =
     (case pdu_msg pdu of
        connectClientReq _ _ \<Rightarrow>
          map_option (\<lambda>(rc, w). (rc, set_worker i w b))
            (worker_handle_connectClientReq D E b (b_workers b ! i) pdu)
      | tpduModemToCard _ _ _ _ \<Rightarrow> worker_handle_tpduModemToCard D E b i pdu
      | clientSlotStatusInd _ _ sps \<Rightarrow>
          Some (0, set_worker i (snd (worker_handle_clientSlotStatusInd D (b_workers b ! i) sps)) b)
      | setAtrRes _ \<Rightarrow> Some (0, b)
      | _ \<Rightarrow> Some (-101, b))"

section \<open>Reading\<close>

text \<open>A \<open>recv\<close> call: the signals that interrupt it (one list per EINTR), then its result: a
  negative return code or the bytes received.\<close>

type_synonym recv_in = "bankd_signal list list \<times> (int + bytes)"

text \<open>The restarts after EINTR; \<open>True\<close> when the worker has been unmapped.\<close>

fun recv_restart :: "bankd_signal list list \<Rightarrow> bankd_worker \<Rightarrow> bool \<times> bankd_worker" where
  "recv_restart [] w = (False, w)"
| "recv_restart (sigs # r) w =
     (let w' = foldl (\<lambda>w s. deliver s w) w sigs
      in if w_state w' = BW_ST_CONN_CLIENT_UNMAPPED then (True, w') else recv_restart r w')"

definition sizeof_ipaccess_head :: nat where
  "sizeof_ipaccess_head = 3"

definition ntohs :: "u8 \<Rightarrow> u8 \<Rightarrow> nat" where
  "ntohs hi lo = 256 * unat hi + unat lo"

text \<open>The return code, the bytes in the buffer and the worker; \<open>None\<close> is a write beyond the
  buffer.\<close>

definition blocking_ipa_read ::
  "nat \<Rightarrow> recv_in \<Rightarrow> recv_in \<Rightarrow> bankd_worker \<Rightarrow> (int \<times> bytes \<times> bankd_worker) option" where
  "blocking_ipa_read buf_size hdr body w =
     (if buf_size < sizeof_ipaccess_head then Some (-1, [], w)
      else let (unmapped, w1) = recv_restart (fst hdr) w
           in if unmapped then Some (-23, [], w1)
              else case snd hdr of
                Inl rc \<Rightarrow> Some (rc, [], w1)
              | Inr h \<Rightarrow>
                  if length h < sizeof_ipaccess_head then Some (-2, h, w1)
                  else let len = ntohs (h ! 0) (h ! 1); (unmapped2, w2) = recv_restart (fst body) w1
                       in if unmapped2 then Some (-23, h, w2)
                          else case snd body of
                            Inl rc \<Rightarrow> Some (rc, h, w2)
                          | Inr d \<Rightarrow>
                              if sizeof_ipaccess_head + length d > buf_size then None
                              else if length d < len then Some (-3, h @ d, w2)
                              else Some (int len, h @ d, w2))"

section \<open>The transceive loop\<close>

text \<open>The outcome of \<open>select\<close> in \<open>wait_for_fd_or_timeout\<close>; a readable socket comes with the two
  \<open>recv\<close> calls of \<open>blocking_ipa_read\<close>.\<close>

datatype wait_res = WaitIntr | WaitErr int | WaitTimeout | WaitReady recv_in recv_in

text \<open>\<open>LoopRestart\<close> is \<open>goto restart_wait\<close>.\<close>

datatype loop_res = LoopRestart | LoopRet int

abbreviation (input) IPAC_PROTO_IPACCESS :: u8 where "IPAC_PROTO_IPACCESS \<equiv> 0xfe"
abbreviation (input) IPAC_PROTO_OSMO :: u8 where "IPAC_PROTO_OSMO \<equiv> 0xee"
abbreviation (input) IPAC_PROTO_EXT_RSPRO :: u8 where "IPAC_PROTO_EXT_RSPRO \<equiv> 0x07"
abbreviation (input) IPAC_MSGT_PING_nr :: u8 where "IPAC_MSGT_PING_nr \<equiv> 0x00"
abbreviation (input) IPAC_MSGT_ID_ACK_nr :: u8 where "IPAC_MSGT_ID_ACK_nr \<equiv> 0x06"

definition worker_timeout ::
  "bankd_driver_ops \<Rightarrow> worker_env \<Rightarrow> bankd \<Rightarrow> bankd_worker \<Rightarrow> (int \<times> bankd_worker) option" where
  "worker_timeout D E b w =
     do {
       (rc, w1) \<leftarrow> (case w_state w of
                       BW_ST_CONN_CLIENT_WAIT_MAP \<Rightarrow> worker_try_slotmap D b w
                     | BW_ST_CONN_CLIENT_MAPPED \<Rightarrow> worker_open_card D b w
                     | _ \<Rightarrow> None);
       Some (0, if rc = 0 then snd (worker_send_atr E b w1) else w1)
     }"

text \<open>The part after \<open>blocking_ipa_read\<close>: \<open>buf\<close> holds the header and \<open>data_len\<close> further bytes.\<close>

definition worker_handle_ipa ::
  "bankd_driver_ops \<Rightarrow> worker_env \<Rightarrow> bankd \<Rightarrow> nat \<Rightarrow> bytes \<Rightarrow> nat \<Rightarrow> (int \<times> bankd) option" where
  "worker_handle_ipa D E b i buf data_len =
     (let proto = buf ! 2; payload = drop sizeof_ipaccess_head buf; w = b_workers b ! i;
          data0 = (if payload = [] then we_stack E else payload ! 0)
      in if proto \<noteq> IPAC_PROTO_OSMO \<and> proto \<noteq> IPAC_PROTO_IPACCESS then Some (-4, b)
         else if proto = IPAC_PROTO_IPACCESS then
           if data0 = IPAC_MSGT_PING_nr then Some (we_pong_rc E, set_worker i (bw_emit TxPong w) b)
           else if data0 = IPAC_MSGT_ID_ACK_nr then Some (we_id_ack_rc E, set_worker i (bw_emit TxCcmIdAck w) b)
           else Some (0, b)
         else if data_len < 1 then Some (-5, b)
         else if data0 \<noteq> IPAC_PROTO_EXT_RSPRO then Some (-6, b)
         else case we_dec E (take (data_len - 1) (tl payload)) of
                None \<Rightarrow> Some (-7, b)
              | Some pdu \<Rightarrow>
                  map_option (\<lambda>(rc, b'). (if rc < 0 then rc else 0, b')) (worker_handle_rspro D E b i pdu))"

fun worker_transceive_loop ::
  "bankd_driver_ops \<Rightarrow> worker_env \<Rightarrow> nat \<Rightarrow> wait_res \<Rightarrow> bankd \<Rightarrow> (loop_res \<times> bankd) option" where
  "worker_transceive_loop D E i WaitIntr b =
     (let w = b_workers b ! i
      in if w_state w = BW_ST_CONN_CLIENT_UNMAPPED then Some (LoopRet (-23), b)
         else map_option (\<lambda>(rc, w'). (LoopRestart, set_worker i w' b)) (worker_try_slotmap D b w))"
| "worker_transceive_loop D E i (WaitErr rc) b = Some (LoopRet rc, b)"
| "worker_transceive_loop D E i WaitTimeout b =
     map_option (\<lambda>(rc, w'). (LoopRet rc, set_worker i w' b)) (worker_timeout D E b (b_workers b ! i))"
| "worker_transceive_loop D E i (WaitReady hdr body) b =
     do {
       (rc, buf, w1) \<leftarrow> blocking_ipa_read 65536 hdr body (b_workers b ! i);
       let b1 = set_worker i w1 b;
       if rc < 0 then Some (LoopRet rc, b1)
       else map_option (\<lambda>(r, b'). (LoopRet r, b')) (worker_handle_ipa D E b1 i buf (nat rc))
     }"

section \<open>The thread\<close>

text \<open>\<open>worker_main\<close> up to its loop, the return of \<open>accept\<close>, the clean-up after a connection, and
  one pass of the inner loop. A worker in state ACCEPTING is at the \<open>accept\<close> call, and one
  in a later state at the \<open>select\<close> call.\<close>

definition worker_main_start :: "bankd_worker \<Rightarrow> bankd_worker" where
  "worker_main_start w = worker_set_state ((worker_set_state w BW_ST_INIT)\<lparr>w_slot := no_slot\<rparr>) BW_ST_ACCEPTING"

definition worker_main_accept :: "int \<Rightarrow> bankd_worker \<Rightarrow> bankd_worker" where
  "worker_main_accept rc w =
     (if rc < 0 then worker_set_state w BW_ST_ACCEPTING
      else worker_set_state (w\<lparr>w_fd := rc\<rparr>) BW_ST_CONN_WAIT_ID)"

definition worker_main_cleanup :: "bankd_driver_ops \<Rightarrow> bankd_worker \<Rightarrow> bankd_worker" where
  "worker_main_cleanup D w =
     (let w1 = op_cleanup D (w\<lparr>w_atr := replicate MAX_ATR_SIZE 0, w_atr_len := 0\<rparr>);
          w2 = w1\<lparr>w_reader_name := None\<rparr>;
          w3 = (if w_fd w2 \<ge> 0 then bw_emit (CloseFd (w_fd w2)) w2 else w2)
      in worker_set_state (w3\<lparr>w_fd := -1, w_clslot := \<lparr>client_id = 0, cslot_nr = 0\<rparr>\<rparr>) BW_ST_ACCEPTING)"

definition worker_main_loop ::
  "bankd_driver_ops \<Rightarrow> worker_env \<Rightarrow> nat \<Rightarrow> wait_res \<Rightarrow> bankd \<Rightarrow> bankd option" where
  "worker_main_loop D E i res b =
     do {
       (r, b1) \<leftarrow> worker_transceive_loop D E i res b;
       (case r of
          LoopRestart \<Rightarrow> Some b1
        | LoopRet rc \<Rightarrow>
            if rc < 0 \<or> w_state (b_workers b1 ! i) = BW_ST_CONN_CLIENT_UNMAPPED
            then Some (set_worker i (worker_main_cleanup D (b_workers b1 ! i)) b1)
            else Some b1)
     }"

text \<open>The worker that \<open>bankd_create_worker\<close> makes.\<close>

definition bankd_create_worker :: "bool \<Rightarrow> nat \<Rightarrow> bankd \<Rightarrow> bankd option" where
  "bankd_create_worker created n b =
     (let w = \<lparr>w_num = n, w_state = BW_ST_INIT, w_timeout = 0, w_slot = \<lparr>bank_id = 0, slot_nr = 0\<rparr>,
               w_fd = 0, w_clslot = \<lparr>client_id = 0, cslot_nr = 0\<rparr>, w_reader_name = None,
               w_hContext = 0, w_hCard = 0, w_atr = replicate MAX_ATR_SIZE 0, w_atr_len = 0,
               last_vccPresent = True, last_resetActive = False, w_out = []\<rparr>
      in if \<not> created then None else Some (b\<lparr>b_workers := b_workers b @ [w]\<rparr>))"

end
