(* ===== verification/Bankd_Main.thy ===== *)
theory Bankd_Main
  imports Bankd_Worker
begin

text \<open>
  The main thread of remsim-bankd (first half of \<^verbatim>\<open>src/bankd/bankd_main.c\<close>): defaults, command
  line, creation of the workers, and the messages of remsim-server, which create and remove
  slot mappings and signal the workers. The connection to the server is the machine of
  Srvc_Fsm. \<open>getopt_long\<close> is an argument: the command line is the list of options with their
  arguments it returns, and \<open>None\<close> as the result of \<open>slotmap_add\<close>'s allocation is NULL.
\<close>

section \<open>Signals to workers\<close>

definition signal_matches :: "bank_slot option \<Rightarrow> client_slot option \<Rightarrow> bankd_worker \<Rightarrow> bool" where
  "signal_matches bs cs w \<longleftrightarrow>
     (case bs of None \<Rightarrow> True | Some s \<Rightarrow> bank_id s = bank_id (w_slot w) \<and> slot_nr s = slot_nr (w_slot w)) \<and>
     (case cs of None \<Rightarrow> True | Some s \<Rightarrow> client_id s = client_id (w_clslot w) \<and> cslot_nr s = cslot_nr (w_clslot w))"

text \<open>The loop over the list of workers: the first match gets the signal.\<close>

fun signal_first :: "(bankd_worker \<Rightarrow> bool) \<Rightarrow> bankd_signal \<Rightarrow> bankd_worker list \<Rightarrow> bankd_worker list" where
  "signal_first P sig [] = []"
| "signal_first P sig (w # ws) = (if P w then deliver sig w # ws else w # signal_first P sig ws)"

definition send_signal_to_worker ::
  "bank_slot option \<Rightarrow> client_slot option \<Rightarrow> bankd_signal \<Rightarrow> bankd \<Rightarrow> bankd" where
  "send_signal_to_worker bs cs sig b =
     b\<lparr>b_workers := signal_first (signal_matches bs cs) sig (b_workers b)\<rparr>"

definition bankd_srvc_remove_mapping :: "mapref \<Rightarrow> bankd \<Rightarrow> bankd option" where
  "bankd_srvc_remove_mapping p b =
     do {
       m \<leftarrow> sm_heap (b_slotmaps b) p;
       Some (send_signal_to_worker (Some (sm_bank m)) None SIGMAPDEL
         (b\<lparr>b_slotmaps := slotmap_del (b_slotmaps b) p\<rparr>))
     }"

section \<open>Messages of the server\<close>

definition srvc_respond :: "srvc_env \<Rightarrow> RsproPDU_t option \<Rightarrow> bankd \<Rightarrow> bankd option" where
  "srvc_respond E resp b = map_option (\<lambda>(rc, s). b\<lparr>b_srvc := s\<rparr>) (server_conn_send_rspro E resp (b_srvc b))"

text \<open>The cases of \<open>bankd_srvc_handle_rx\<close> up to the response: the result code for it.\<close>

definition bankd_add ::
  "mapref option \<Rightarrow> bank_slot \<Rightarrow> client_slot \<Rightarrow> bankd \<Rightarrow> int \<times> bankd" where
  "bankd_add alloc bs cs b =
     (case slotmap_add alloc (b_slotmaps b) bs cs of
        (None, maps) \<Rightarrow> (ResultCode_illegalSlotId, b\<lparr>b_slotmaps := maps\<rparr>)
      | (Some p, maps) \<Rightarrow>
          (ResultCode_ok, send_signal_to_worker None (Some cs) SIGMAPADD (b\<lparr>b_slotmaps := maps\<rparr>)))"

definition bankd_create_mapping ::
  "mapref option \<Rightarrow> ClientSlot_t \<Rightarrow> BankSlot_t \<Rightarrow> bankd \<Rightarrow> (int \<times> bankd) option" where
  "bankd_create_mapping alloc client bank b =
     (if bs_bankId bank \<noteq> uint (srvc_bank_id (b_srvc b)) then Some (ResultCode_illegalBankId, b)
      else if bs_slotNr bank \<ge> uint (srvc_num_slots (b_srvc b)) then Some (ResultCode_illegalSlotId, b)
      else let bs = rspro2bank_slot bank; cs = rspro2client_slot client
           in case slotmap_by_bank (b_slotmaps b) bs of
                None \<Rightarrow> Some (bankd_add alloc bs cs b)
              | Some p \<Rightarrow>
                  do {
                    m \<leftarrow> sm_heap (b_slotmaps b) p;
                    if client_slot_equals (sm_client m) cs then Some (ResultCode_ok, b)
                    else do { b1 \<leftarrow> bankd_srvc_remove_mapping p b; Some (bankd_add alloc bs cs b1) }
                  })"

definition bankd_remove_mapping :: "ClientSlot_t \<Rightarrow> BankSlot_t \<Rightarrow> bankd \<Rightarrow> (int \<times> bankd) option" where
  "bankd_remove_mapping client bank b =
     (if bs_bankId bank \<noteq> uint (srvc_bank_id (b_srvc b)) then Some (ResultCode_illegalBankId, b)
      else if bs_slotNr bank \<ge> uint (srvc_num_slots (b_srvc b)) then Some (ResultCode_illegalSlotId, b)
      else case slotmap_by_bank (b_slotmaps b) (rspro2bank_slot bank) of
             None \<Rightarrow> Some (ResultCode_unknownSlotmap, b)
           | Some p \<Rightarrow>
               do {
                 m \<leftarrow> sm_heap (b_slotmaps b) p;
                 if \<not> client_slot_equals (sm_client m) (rspro2client_slot client)
                 then Some (ResultCode_unknownSlotmap, b)
                 else do { b1 \<leftarrow> bankd_srvc_remove_mapping p b; Some (ResultCode_ok, b1) }
               })"

definition bankd_reset_state :: "bankd \<Rightarrow> bankd" where
  "bankd_reset_state b =
     (let b1 = b\<lparr>b_slotmaps := slotmap_del_all (b_slotmaps b)\<rparr>
      in b1\<lparr>b_workers := map (deliver SIGMAPDEL) (b_workers b1)\<rparr>)"

definition bankd_srvc_handle_rx ::
  "srvc_env \<Rightarrow> mapref option \<Rightarrow> RsproPDU_t \<Rightarrow> bankd \<Rightarrow> (int \<times> bankd) option" where
  "bankd_srvc_handle_rx E alloc pdu b =
     (case pdu_msg pdu of
        connectBankRes identity result \<Rightarrow>
          if ci_type identity \<noteq> ComponentType_remsimServer then
            map_option (\<lambda>(rc, s). (-1, b\<lparr>b_srvc := s\<rparr>)) (srvc_dispatch E SRVC_E_DISCONNECT None (b_srvc b))
          else
            map_option (\<lambda>(rc, s). (0, b\<lparr>b_srvc := s\<rparr>))
              (srvc_dispatch E SRVC_E_CLIENT_CONN_RES (Some pdu)
                 ((b_srvc b)\<lparr>peer_comp_id := rspro_comp_id_retrieve identity\<rparr>))
      | createMappingReq client bank \<Rightarrow>
          do {
            (res, b1) \<leftarrow> bankd_create_mapping alloc client bank b;
            b2 \<leftarrow> srvc_respond E (rspro_gen_CreateMappingRes (calloc_ok E) res) b1;
            Some (0, b2)
          }
      | removeMappingReq client bank \<Rightarrow>
          do {
            (res, b1) \<leftarrow> bankd_remove_mapping client bank b;
            b2 \<leftarrow> srvc_respond E (rspro_gen_RemoveMappingRes (calloc_ok E) res) b1;
            Some (0, b2)
          }
      | resetStateReq \<Rightarrow>
          map_option (Pair 0) (srvc_respond E (rspro_gen_ResetStateRes (calloc_ok E) ResultCode_ok) (bankd_reset_state b))
      | _ \<Rightarrow> Some (-1, b))"

section \<open>Initialisation and command line\<close>

definition bankd_comp_id :: "string \<Rightarrow> string \<Rightarrow> app_comp_id" where
  "bankd_comp_id hostname version =
     (zero_comp_id ComponentType_remsimBankd)
       \<lparr>ac_name := strlcpy_name name_buf hostname,
        ac_software := strlcpy_name name_buf ''remsim-bankd'',
        ac_sw_version := strlcpy_name name_buf version\<rparr>"

text \<open>The zeroed structure after \<open>bankd_init\<close> and the settings of \<open>main\<close> before the options.\<close>

definition bankd_init :: "string \<Rightarrow> string \<Rightarrow> bankd" where
  "bankd_init hostname version =
     \<lparr>b_comp_id = bankd_comp_id hostname version,
      b_srvc =
        \<lparr>srvc_conn = False, srvc_st = SRVC_ST_INIT, srvc_T = 0, srvc_timeout = 0, srvc_ka = False,
         reestablish_delay_idx = 0, reestablish_last_ms = 0,
         own_comp_id = bankd_comp_id hostname version, peer_comp_id = zero_comp_id 0,
         srvc_clslot = None, server_host = None, server_port = 9998,
         srvc_parent = False, parent_conn_evt = 0, parent_disc_evt = 0,
         srvc_bank_id = 1, srvc_num_slots = 8, srvc_out = []\<rparr>,
      b_slotmaps = slotmap_init, b_workers = [], pcsc_slot_names = [],
      permit_shared_pcsc = False, gsmtap_host = None, gsmtap_slot = -1,
      ki_enabled = False, ki_proxy_slot = 0, ki_carrier = 0, ki_imsi = None, ki_iccid = None,
      ki_proxy_slots = [], ki_next_slot_idx = 0, ki_virtual_slot_start = 0, ki_virtual_slot_end = 0\<rparr>"

record bankd_opts =
  o_bankd :: bankd
  g_bind_port :: int
  g_bind_ip :: "string option"

text \<open>\<open>exit\<close> with a status, an undefined \<open>atoi\<close>, or the settings.\<close>

datatype opt_res = OptExit nat | OptUndefined | OptOk bankd_opts

text \<open>\<open>strtok_r\<close> with one delimiter: empty tokens are skipped.\<close>

fun split_on :: "char \<Rightarrow> string \<Rightarrow> string list" where
  "split_on d [] = [[]]"
| "split_on d (c # s) =
     (if c = d then [] # split_on d s
      else case split_on d s of [] \<Rightarrow> [[c]] | t # ts \<Rightarrow> (c # t) # ts)"

definition strtok_all :: "char \<Rightarrow> string \<Rightarrow> string list" where
  "strtok_all d s = filter (\<lambda>t. t \<noteq> []) (split_on d s)"

text \<open>\<open>strchr(s, '-')\<close> and the numbers before and after it.\<close>

definition dash_split :: "string \<Rightarrow> (string \<times> string) option" where
  "dash_split s =
     (if CHR ''-'' \<in> set s then Some (takeWhile (\<lambda>c. c \<noteq> CHR ''-'') s, tl (dropWhile (\<lambda>c. c \<noteq> CHR ''-'') s))
      else None)"

datatype slots_res = SlotsExit | SlotsUndefined | SlotsOk "nat list"

fun parse_proxy_slots :: "string list \<Rightarrow> nat list \<Rightarrow> slots_res" where
  "parse_proxy_slots [] temp_slots = SlotsOk temp_slots"
| "parse_proxy_slots (token # rest) temp_slots =
     (if length temp_slots \<ge> 1024 then SlotsOk temp_slots
      else case dash_split token of
             Some (a, e) \<Rightarrow>
               (case (atoi a, atoi e) of
                  (Some start, Some end) \<Rightarrow>
                    if start < 0 \<or> end > 1023 \<or> start > end then SlotsExit
                    else parse_proxy_slots rest
                      (temp_slots @ take (1024 - length temp_slots) [nat start..<nat end + 1])
                | _ \<Rightarrow> SlotsUndefined)
           | None \<Rightarrow>
               (case atoi token of
                  Some slot \<Rightarrow>
                    if slot < 0 \<or> slot > 1023 then SlotsExit
                    else parse_proxy_slots rest (temp_slots @ [nat slot])
                | None \<Rightarrow> SlotsUndefined))"

definition opt_int :: "string \<Rightarrow> (int \<Rightarrow> opt_res) \<Rightarrow> opt_res" where
  "opt_int optarg f = (case atoi optarg of None \<Rightarrow> OptUndefined | Some n \<Rightarrow> f n)"

text \<open>One iteration of the \<open>getopt_long\<close> loop. The logging options do not change the
  structure.\<close>

definition handle_option :: "char \<Rightarrow> string \<Rightarrow> bankd_opts \<Rightarrow> opt_res" where
  "handle_option c optarg st =
     (let b = o_bankd st; set = (\<lambda>b'. OptOk (st\<lparr>o_bankd := b'\<rparr>)); srvc = b_srvc b
      in if c = CHR ''h'' \<or> c = CHR ''V'' then OptExit 0
         else if c = CHR ''i'' then set (b\<lparr>b_srvc := srvc\<lparr>server_host := Some optarg\<rparr>\<rparr>)
         else if c = CHR ''p'' then opt_int optarg (\<lambda>n. set (b\<lparr>b_srvc := srvc\<lparr>server_port := word_of_int n\<rparr>\<rparr>))
         else if c = CHR ''b'' then opt_int optarg (\<lambda>n. set (b\<lparr>b_srvc := srvc\<lparr>srvc_bank_id := word_of_int n\<rparr>\<rparr>))
         else if c = CHR ''n'' then opt_int optarg (\<lambda>n. set (b\<lparr>b_srvc := srvc\<lparr>srvc_num_slots := word_of_int n\<rparr>\<rparr>))
         else if c = CHR ''N'' then
           set (b\<lparr>b_srvc := srvc\<lparr>own_comp_id := (own_comp_id srvc)\<lparr>ac_name := strlcpy_name (ac_name (own_comp_id srvc)) optarg\<rparr>\<rparr>\<rparr>)
         else if c = CHR ''I'' then OptOk (st\<lparr>g_bind_ip := Some optarg\<rparr>)
         else if c = CHR ''P'' then opt_int optarg (\<lambda>n. OptOk (st\<lparr>g_bind_port := n\<rparr>))
         else if c = CHR ''s'' then set (b\<lparr>permit_shared_pcsc := True\<rparr>)
         else if c = CHR ''g'' then set (b\<lparr>gsmtap_host := Some optarg\<rparr>)
         else if c = CHR ''G'' then opt_int optarg (\<lambda>n. set (b\<lparr>gsmtap_slot := n\<rparr>))
         else if c = CHR ''k'' then set (b\<lparr>ki_enabled := True\<rparr>)
         else if c = CHR ''K'' then
           opt_int optarg (\<lambda>slot. if slot < 0 \<or> slot > 1023 then OptExit 2 else set (b\<lparr>ki_proxy_slot := nat slot\<rparr>))
         else if c = CHR ''S'' then
           (case parse_proxy_slots (strtok_all (CHR '','') optarg) [] of
              SlotsExit \<Rightarrow> OptExit 2
            | SlotsUndefined \<Rightarrow> OptUndefined
            | SlotsOk slots \<Rightarrow> if length slots > 0 then set (b\<lparr>ki_proxy_slots := slots\<rparr>) else OptOk st)
         else if c = CHR ''v'' then
           (case dash_split optarg of
              None \<Rightarrow> OptExit 2
            | Some (a, e) \<Rightarrow>
                opt_int a (\<lambda>start. opt_int e (\<lambda>end.
                  if start < 0 \<or> end > 1023 \<or> start > end then OptExit 2
                  else set (b\<lparr>ki_virtual_slot_start := nat start, ki_virtual_slot_end := nat end\<rparr>))))
         else if c = CHR ''C'' then opt_int optarg (\<lambda>n. set (b\<lparr>ki_carrier := word_of_int n\<rparr>))
         else if c = CHR ''M'' then set (b\<lparr>ki_imsi := Some optarg\<rparr>)
         else if c = CHR ''c'' then set (b\<lparr>ki_iccid := Some optarg\<rparr>)
         else OptOk st)"

fun handle_options :: "(char \<times> string) list \<Rightarrow> bankd_opts \<Rightarrow> opt_res" where
  "handle_options [] st = OptOk st"
| "handle_options ((c, a) # r) st =
     (case handle_option c a st of OptOk st' \<Rightarrow> handle_options r st' | x \<Rightarrow> x)"

text \<open>The creation of the workers; each thread then runs to its \<open>accept\<close> call. \<open>None\<close> is
  \<open>exit(21)\<close>.\<close>

fun create_workers :: "(nat \<Rightarrow> bool) \<Rightarrow> nat list \<Rightarrow> bankd \<Rightarrow> bankd option" where
  "create_workers created [] b = Some b"
| "create_workers created (i # is) b =
     do { b1 \<leftarrow> bankd_create_worker (created i) i b; create_workers created is b1 }"

definition bankd_start :: "(nat \<Rightarrow> bool) \<Rightarrow> bankd \<Rightarrow> bankd option" where
  "bankd_start created b =
     do {
       b1 \<leftarrow> create_workers created [0..<num_slots b] b;
       Some (b1\<lparr>b_workers := map worker_main_start (b_workers b1)\<rparr>)
     }"

text \<open>\<open>main\<close> up to the event loop; \<open>None\<close> is a call of \<open>exit\<close>.\<close>

record startup_env =
  se_hostname :: string
  se_version :: string
  se_regcomp :: "string \<Rightarrow> int"
  se_csv :: csv_file
  se_srvc :: srvc_env
  se_fsm_alloc_ok :: bool
  se_listen_ok :: bool
  se_gsmtap_ok :: bool
  se_created :: "nat \<Rightarrow> bool"

definition bankd_main :: "startup_env \<Rightarrow> (char \<times> string) list \<Rightarrow> bankd option" where
  "bankd_main A argv =
     (case handle_options argv \<lparr>o_bankd = bankd_init (se_hostname A) (se_version A), g_bind_port = 9999, g_bind_ip = None\<rparr> of
        OptOk st \<Rightarrow>
          (let b = o_bankd st
           in if server_host (b_srvc b) = None then None
              else do {
                (rc, b1) \<leftarrow> bankd_pcsc_read_slotnames (se_regcomp A) (se_csv A) b;
                if rc \<noteq> 0 \<or> \<not> se_fsm_alloc_ok A then None
                else do {
                  (r, s) \<leftarrow> srvc_dispatch (se_srvc A) SRVC_E_ESTABLISH None (server_conn_fsm_alloc (b_srvc b1));
                  let b2 = b1\<lparr>b_srvc := s\<rparr>;
                  if \<not> se_listen_ok A then None
                  else if gsmtap_host b2 \<noteq> None \<and> \<not> se_gsmtap_ok A then None
                  else bankd_start (se_created A) b2
                }
              })
      | _ \<Rightarrow> None)"

end
