(* ===== verification/Bankd_Inv.thy ===== *)
theory Bankd_Inv
  imports Bankd_Main
begin

text \<open>
  The invariant of remsim-bankd and its preservation by every step of the main thread and of
  the workers. The lemmas on workers are proved for any driver that keeps the contract
  \<open>card_driver\<close> and hold for the PC/SC driver by its interpretation.
\<close>

section \<open>Invariant\<close>

definition worker_inv :: "bankd_worker \<Rightarrow> bool" where
  "worker_inv w \<longleftrightarrow>
     (w_timeout w \<noteq> 0 \<longrightarrow> w_state w = BW_ST_CONN_CLIENT_WAIT_MAP \<or> w_state w = BW_ST_CONN_CLIENT_MAPPED) \<and>
     (w_state w = BW_ST_CONN_CLIENT_MAPPED_CARD \<longrightarrow> w_reader_name w \<noteq> None \<and> w_hCard w \<noteq> 0) \<and>
     (w_state w \<le> BW_ST_ACCEPTING \<longrightarrow>
        w_reader_name w = None \<and> w_hCard w = 0 \<and> w_clslot w = \<lparr>client_id = 0, cslot_nr = 0\<rparr>) \<and>
     (w_state w > BW_ST_ACCEPTING \<longrightarrow> 0 \<le> w_fd w)"

definition bankd_inv :: "bankd \<Rightarrow> bool" where
  "bankd_inv b \<longleftrightarrow> slotmaps_wf (b_slotmaps b) \<and> srvc_inv (b_srvc b) \<and>
     (ki_proxy_slots b \<noteq> [] \<longrightarrow> ki_next_slot_idx b < length (ki_proxy_slots b)) \<and>
     (\<forall>w \<in> set (b_workers b). worker_inv w)"

lemma worker_inv_emit [simp]: "worker_inv (bw_emit e w) \<longleftrightarrow> worker_inv w"
  by (simp add: worker_inv_def)

lemma worker_inv_upd [simp]:
  "worker_inv (w\<lparr>w_slot := s\<rparr>) \<longleftrightarrow> worker_inv w"
  "worker_inv (w\<lparr>last_vccPresent := v\<rparr>) \<longleftrightarrow> worker_inv w"
  "worker_inv (w\<lparr>last_resetActive := v\<rparr>) \<longleftrightarrow> worker_inv w"
  by (simp_all add: worker_inv_def)

lemma set_state_sel [simp]:
  "w_state (worker_set_state w st) = st" "w_timeout (worker_set_state w st) = 0"
  "w_slot (worker_set_state w st) = w_slot w" "w_clslot (worker_set_state w st) = w_clslot w"
  "w_fd (worker_set_state w st) = w_fd w" "w_reader_name (worker_set_state w st) = w_reader_name w"
  "w_hCard (worker_set_state w st) = w_hCard w" "w_out (worker_set_state w st) = w_out w"
  "w_atr (worker_set_state w st) = w_atr w" "w_atr_len (worker_set_state w st) = w_atr_len w"
  "w_hContext (worker_set_state w st) = w_hContext w"
  "w_state (worker_set_state_timeout w st t) = st" "w_timeout (worker_set_state_timeout w st t) = t"
  "w_slot (worker_set_state_timeout w st t) = w_slot w" "w_clslot (worker_set_state_timeout w st t) = w_clslot w"
  "w_fd (worker_set_state_timeout w st t) = w_fd w" "w_reader_name (worker_set_state_timeout w st t) = w_reader_name w"
  "w_hCard (worker_set_state_timeout w st t) = w_hCard w" "w_out (worker_set_state_timeout w st t) = w_out w"
  "w_atr (worker_set_state_timeout w st t) = w_atr w" "w_atr_len (worker_set_state_timeout w st t) = w_atr_len w"
  "w_hContext (worker_set_state_timeout w st t) = w_hContext w"
  by (simp_all add: worker_set_state_def worker_set_state_timeout_def)

lemma deliver_inv: "worker_inv w \<Longrightarrow> worker_inv (deliver sig w)"
  by (cases sig) (auto simp: worker_inv_def handle_sig_mapdel_def handle_sig_mapadd_def bw_order)

lemma deliver_state:
  "w_state (deliver sig w) = w_state w \<or>
     w_state (deliver sig w) = BW_ST_CONN_CLIENT_UNMAPPED \<and> w_state w \<ge> BW_ST_CONN_CLIENT_MAPPED"
  by (cases sig) (auto simp: handle_sig_mapdel_def handle_sig_mapadd_def)

lemma deliver_gt: "w_state w > BW_ST_ACCEPTING \<Longrightarrow> w_state (deliver sig w) > BW_ST_ACCEPTING"
  using deliver_state [of sig w] by (auto simp: bw_order)

lemma delivers_inv:
  "worker_inv w \<and> w_state w > BW_ST_ACCEPTING \<Longrightarrow>
   worker_inv (foldl (\<lambda>w s. deliver s w) w sigs) \<and> w_state (foldl (\<lambda>w s. deliver s w) w sigs) > BW_ST_ACCEPTING"
  by (induction sigs arbitrary: w) (auto simp: deliver_inv deliver_gt)

lemma recv_restart_inv:
  assumes "worker_inv w" "w_state w > BW_ST_ACCEPTING" "recv_restart r w = (u, w')"
  shows "worker_inv w' \<and> w_state w' > BW_ST_ACCEPTING"
  using assms
proof (induction r arbitrary: w)
  case (Cons sigs r)
  show ?case
  proof (cases "w_state (foldl (\<lambda>w s. deliver s w) w sigs) = BW_ST_CONN_CLIENT_UNMAPPED")
    case True
    with Cons.prems delivers_inv [of w sigs] show ?thesis by (auto simp: Let_def)
  next
    case False
    with Cons.prems show ?thesis
      using delivers_inv [of w sigs] Cons.IH [of "foldl (\<lambda>w s. deliver s w) w sigs"] by (simp add: Let_def)
  qed
qed simp

lemma reader_frame_inv:
  assumes "reader_frame w w'" "w_hCard w' = w_hCard w" "worker_inv w"
  shows "worker_inv w'"
  using assms(2,3) reader_frameD [OF assms(1)] by (simp add: worker_inv_def)

lemma worker_send_rspro_inv [simp]: "worker_inv (snd (worker_send_rspro E w p)) \<longleftrightarrow> worker_inv w"
  by (simp add: worker_send_rspro_def split: option.splits)

lemma worker_send_rspro_state [simp]: "w_state (snd (worker_send_rspro E w p)) = w_state w"
  by (simp add: worker_send_rspro_def split: option.splits)

lemma worker_send_atr_inv [simp]: "worker_inv (snd (worker_send_atr E b w)) \<longleftrightarrow> worker_inv w"
  by (simp add: worker_send_atr_def Let_def)

lemma worker_send_atr_state [simp]: "w_state (snd (worker_send_atr E b w)) = w_state w"
  by (simp add: worker_send_atr_def Let_def)

text \<open>The accepting case of \<open>worker_handle_connectClientReq\<close>, step by step.\<close>

lemma connectClientReq_accept:
  assumes "pdu_msg pdu = connectClientReq cid (Some cs)" "w_state w = BW_ST_CONN_WAIT_ID"
    and "worker_try_slotmap D b (worker_set_state (w\<lparr>w_clslot := rspro2client_slot cs\<rparr>) BW_ST_CONN_CLIENT) = Some (r, w2)"
    and "res = (if r \<ge> 0 then ResultCode_ok else ResultCode_cardNotPresent)"
    and "worker_send_rspro E w2 (rspro_gen_ConnectClientRes (we_calloc E) (b_comp_id b) res) = (rc, w3)"
  shows "worker_handle_connectClientReq D E b w pdu =
      (if rc < 0 then Some (rc, w3) else if res = ResultCode_ok then Some (worker_send_atr E b w3) else Some (rc, w3))"
  using assms(1-3,5) by (simp add: worker_handle_connectClientReq_def Let_def assms(4) [symmetric])

section \<open>Workers and drivers\<close>

context card_driver
begin

lemma worker_open_card_ok:
  assumes doc: "env_doc P" and st: "w_state w = BW_ST_CONN_CLIENT_MAPPED" and inv: "worker_inv w"
  shows "\<exists>rc w'. worker_open_card (driver P b) b' w = Some (rc, w') \<and> worker_inv w' \<and> rc \<le> 0 \<and>
     w_state w' = (if rc = 0 then BW_ST_CONN_CLIENT_MAPPED_CARD else BW_ST_CONN_CLIENT_MAPPED) \<and>
     w_timeout w' = (if rc = 0 then 0 else w_timeout w) \<and>
     w_slot w' = w_slot w \<and> w_clslot w' = w_clslot w \<and>
     (w_reader_name w = None \<longrightarrow> w_reader_name w' = bankd_pcsc_get_slot_name b' (w_slot w)) \<and>
     (\<exists>es. w_out w' = w_out w @ es \<and> (\<forall>e \<in> set es. is_sc e))"
proof -
  define w1 where "w1 = (if w_reader_name w = None
     then w\<lparr>w_reader_name := bankd_pcsc_get_slot_name b' (w_slot w)\<rparr> else w)"
  have inv1: "worker_inv w1" and st1: "w_state w1 = BW_ST_CONN_CLIENT_MAPPED"
    using inv st by (auto simp: w1_def worker_inv_def bw_order)
  have f1: "w_timeout w1 = w_timeout w" "w_slot w1 = w_slot w" "w_clslot w1 = w_clslot w" "w_out w1 = w_out w"
      "w_fd w1 = w_fd w" "w_reader_name w = None \<Longrightarrow> w_reader_name w1 = bankd_pcsc_get_slot_name b' (w_slot w)"
    by (auto simp: w1_def)
  show ?thesis
  proof (cases "w_reader_name w1 = None")
    case True
    then have "worker_open_card (driver P b) b' w = Some (-1, w1)"
      by (simp add: worker_open_card_def st w1_def [symmetric] Let_def)
    with inv1 st1 f1 show ?thesis by simp
  next
    case False
    obtain rc w2 where op: "op_open_card (driver P b) w1 = (rc, w2)"
      by (cases "op_open_card (driver P b) w1")
    note fr = reader_frameD [OF open_frame [OF op]]
    show ?thesis
    proof (cases "rc < 0")
      case True
      then have "worker_open_card (driver P b) b' w = Some (rc, w2)"
        using False op by (auto simp: worker_open_card_def st w1_def [symmetric] Let_def)
      moreover have "worker_inv w2"
        using inv1 st1 fr by (simp add: worker_inv_def bw_order)
      ultimately show ?thesis
        using True f1 fr st1 by simp
    next
      case nneg: False
      note os = open_success [OF doc op]
      have "worker_open_card (driver P b) b' w = Some (0, worker_set_state w2 BW_ST_CONN_CLIENT_MAPPED_CARD)"
        using False nneg op by (auto simp: worker_open_card_def st w1_def [symmetric] Let_def)
      moreover have "worker_inv (worker_set_state w2 BW_ST_CONN_CLIENT_MAPPED_CARD)"
        using inv1 st1 fr os nneg False by (simp add: worker_inv_def bw_order)
      ultimately show ?thesis
        using f1 fr by simp
    qed
  qed
qed

lemma worker_try_slotmap_ok:
  assumes doc: "env_doc P" and wf: "slotmaps_wf (b_slotmaps b')" and inv: "worker_inv w"
    and st: "w_state w > BW_ST_ACCEPTING"
  shows "\<exists>rc w'. worker_try_slotmap (driver P b) b' w = Some (rc, w') \<and> worker_inv w' \<and> rc \<le> 0 \<and>
     w_state w' > BW_ST_ACCEPTING \<and> w_state w' \<noteq> BW_ST_CONN_CLIENT_UNMAPPED \<and>
     (rc = 0 \<longleftrightarrow> w_state w' = BW_ST_CONN_CLIENT_MAPPED_CARD) \<and> w_clslot w' = w_clslot w \<and>
     (w_state w' \<ge> BW_ST_CONN_CLIENT_MAPPED \<longrightarrow> slot_assoc (b_slotmaps b') (w_slot w') = Some (w_clslot w)) \<and>
     (\<exists>es. w_out w' = w_out w @ es \<and> (\<forall>e \<in> set es. is_sc e))"
proof (cases "slotmap_by_client (b_slotmaps b') (w_clslot w)")
  case None
  then show ?thesis
    using inv st by (simp add: worker_try_slotmap_def worker_inv_def bw_order)
next
  case (Some p)
  then obtain m where m: "p \<in> set (mappings (b_slotmaps b'))" "sm_heap (b_slotmaps b') p = Some m"
      "sm_client m = w_clslot w"
    using slotmap_by_client_eq_Some [OF wf] by auto
  define w1 where "w1 = worker_set_state_timeout (w\<lparr>w_slot := sm_bank m\<rparr>) BW_ST_CONN_CLIENT_MAPPED 10"
  have w1: "w_state w1 = BW_ST_CONN_CLIENT_MAPPED" "worker_inv w1" "w_slot w1 = sm_bank m" "w_clslot w1 = w_clslot w"
      "w_out w1 = w_out w"
    using inv st by (auto simp: w1_def worker_inv_def bw_order)
  have as: "slot_assoc (b_slotmaps b') (sm_bank m) = Some (w_clslot w)"
    using m by (auto simp: slot_assoc_eq_Some [OF wf])
  have "worker_try_slotmap (driver P b) b' w = worker_open_card (driver P b) b' w1"
    using Some m by (simp add: worker_try_slotmap_def w1_def)
  with worker_open_card_ok [OF doc w1(1,2), of b b'] w1 as show ?thesis
    by (auto simp: bw_order split: if_splits)
qed

lemma connectClientReq_ok:
  assumes doc: "env_doc P" and wf: "slotmaps_wf (b_slotmaps b')" and inv: "worker_inv w"
    and st: "w_state w > BW_ST_ACCEPTING" and pdu: "pdu_msg pdu = connectClientReq cid cl"
  shows "\<exists>rc w'. worker_handle_connectClientReq (driver P b) E b' w pdu = Some (rc, w') \<and> worker_inv w' \<and>
     w_state w' > BW_ST_ACCEPTING"
proof (cases "w_state w = BW_ST_CONN_WAIT_ID \<and> cl \<noteq> None")
  case False
  then show ?thesis
    using pdu inv st by (cases cl) (auto simp: worker_handle_connectClientReq_def Let_def)
next
  case True
  then obtain cs where cs: "cl = Some cs" "w_state w = BW_ST_CONN_WAIT_ID"
    by auto
  define w1 where "w1 = worker_set_state (w\<lparr>w_clslot := rspro2client_slot cs\<rparr>) BW_ST_CONN_CLIENT"
  have w1: "worker_inv w1" "w_state w1 > BW_ST_ACCEPTING"
    using inv cs by (auto simp: w1_def worker_inv_def bw_order)
  obtain r w2 where t: "worker_try_slotmap (driver P b) b' w1 = Some (r, w2)" "worker_inv w2" "w_state w2 > BW_ST_ACCEPTING"
    using worker_try_slotmap_ok [OF doc wf w1, of b] by auto
  define res where "res = (if r \<ge> 0 then ResultCode_ok else ResultCode_cardNotPresent)"
  obtain rc w3 where s: "worker_send_rspro E w2 (rspro_gen_ConnectClientRes (we_calloc E) (b_comp_id b') res) = (rc, w3)"
    by (cases "worker_send_rspro E w2 (rspro_gen_ConnectClientRes (we_calloc E) (b_comp_id b') res)")
  have w3: "worker_inv w3" "w_state w3 > BW_ST_ACCEPTING"
    using worker_send_rspro_inv [of E w2] worker_send_rspro_state [of E w2] s t by (metis snd_conv)+
  have eq: "worker_handle_connectClientReq (driver P b) E b' w pdu =
      (if rc < 0 then Some (rc, w3) else if res = ResultCode_ok then Some (worker_send_atr E b' w3) else Some (rc, w3))"
    using pdu cs t(1) s by (intro connectClientReq_accept [where cid = cid and cs = cs and r = r]) (simp_all add: w1_def res_def)
  have "worker_inv (snd (worker_send_atr E b' w3))" "w_state (snd (worker_send_atr E b' w3)) > BW_ST_ACCEPTING"
    using w3 by simp_all
  then show ?thesis
    unfolding eq using w3 by (cases "worker_send_atr E b' w3") (simp split: if_splits)
qed

lemma timeout_ok:
  assumes doc: "env_doc P" and wf: "slotmaps_wf (b_slotmaps b')" and inv: "worker_inv w"
    and t: "w_timeout w \<noteq> 0"
  shows "\<exists>w'. worker_timeout (driver P b) E b' w = Some (0, w') \<and> worker_inv w' \<and> w_state w' > BW_ST_ACCEPTING"
proof -
  have st: "w_state w = BW_ST_CONN_CLIENT_WAIT_MAP \<or> w_state w = BW_ST_CONN_CLIENT_MAPPED"
    using inv t by (simp add: worker_inv_def)
  have "\<exists>rc w'. (case w_state w of BW_ST_CONN_CLIENT_WAIT_MAP \<Rightarrow> worker_try_slotmap (driver P b) b' w
      | BW_ST_CONN_CLIENT_MAPPED \<Rightarrow> worker_open_card (driver P b) b' w | _ \<Rightarrow> None) = Some (rc, w') \<and>
      worker_inv w' \<and> w_state w' > BW_ST_ACCEPTING"
    using st
  proof
    assume s: "w_state w = BW_ST_CONN_CLIENT_WAIT_MAP"
    then have "w_state w > BW_ST_ACCEPTING" by (simp add: bw_order)
    from worker_try_slotmap_ok [OF doc wf inv this, of b] s show ?thesis by auto
  next
    assume s: "w_state w = BW_ST_CONN_CLIENT_MAPPED"
    from worker_open_card_ok [OF doc s inv, of b b'] s show ?thesis by (fastforce simp: bw_order)
  qed
  then show ?thesis
    by (auto simp: worker_timeout_def)
qed

lemma statusInd_inv:
  assumes "worker_inv w"
  shows "worker_inv (snd (worker_handle_clientSlotStatusInd (driver P b) w sps))"
    and "w_state (snd (worker_handle_clientSlotStatusInd (driver P b) w sps)) = w_state w"
proof -
  have r: "worker_inv (snd (op_reset_card (driver P b) w c)) \<and> w_state (snd (op_reset_card (driver P b) w c)) = w_state w" for c
  proof -
    have "reader_frame w (snd (op_reset_card (driver P b) w c)) \<and> w_hCard (snd (op_reset_card (driver P b) w c)) = w_hCard w"
      by (rule reset_frame [OF prod.collapse [symmetric]])
    then show ?thesis
      using reader_frame_inv [OF _ _ assms] reader_frameD(2) by blast
  qed
  show "worker_inv (snd (worker_handle_clientSlotStatusInd (driver P b) w sps))"
    and "w_state (snd (worker_handle_clientSlotStatusInd (driver P b) w sps)) = w_state w"
    using r [of True] r [of False] assms
    by (simp_all add: worker_handle_clientSlotStatusInd_def Let_def case_prod_beta split: option.split)
qed

lemma worker_cleanup_inv:
  "worker_inv (worker_main_cleanup (driver P b) w)"
proof -
  define u where "u = w\<lparr>w_atr := replicate MAX_ATR_SIZE 0, w_atr_len := 0\<rparr>"
  note fr = reader_frameD [OF cleanup_frame [of u P b]] and c = cleanup_closed [of P b u]
  show ?thesis
    using fr c by (auto simp: worker_main_cleanup_def worker_inv_def u_def [symmetric] bw_order Let_def)
qed

end

section \<open>The daemon's structure\<close>

lemma set_worker_sel [simp]:
  "b_slotmaps (set_worker i w b) = b_slotmaps b" "b_srvc (set_worker i w b) = b_srvc b"
  "ki_proxy_slots (set_worker i w b) = ki_proxy_slots b" "ki_next_slot_idx (set_worker i w b) = ki_next_slot_idx b"
  "b_workers (set_worker i w b) = (b_workers b)[i := w]" "b_comp_id (set_worker i w b) = b_comp_id b"
  "pcsc_slot_names (set_worker i w b) = pcsc_slot_names b" "gsmtap_host (set_worker i w b) = gsmtap_host b"
  "gsmtap_slot (set_worker i w b) = gsmtap_slot b" "num_slots (set_worker i w b) = num_slots b"
  by (simp_all add: set_worker_def num_slots_def)

lemma bankd_inv_set_worker: "bankd_inv b \<Longrightarrow> worker_inv w \<Longrightarrow> bankd_inv (set_worker i w b)"
  unfolding bankd_inv_def using set_update_subset_insert [of "b_workers b" i w] by auto

lemma bankd_invD:
  assumes "bankd_inv b"
  shows "slotmaps_wf (b_slotmaps b)" "srvc_inv (b_srvc b)" "i < length (b_workers b) \<Longrightarrow> worker_inv (b_workers b ! i)"
    "ki_proxy_slots b \<noteq> [] \<Longrightarrow> ki_next_slot_idx b < length (ki_proxy_slots b)"
  using assms by (auto simp: bankd_inv_def)

lemma ki_select_ok:
  assumes "idx < length pool"
  shows "\<exists>s idx'. ki_select ns pool k idx = Some (s, idx') \<and> idx' < length pool \<and>
     (\<forall>x. s = Some x \<longrightarrow> x < ns \<and> x \<in> set pool)"
  using assms
proof (induction ns pool k idx rule: ki_select.induct)
  case (2 ns pool left idx)
  have lt: "(idx + 1) mod length pool < length pool"
    using 2(2) by (intro mod_less_divisor) auto
  show ?case
  proof (cases "pool ! idx \<ge> ns")
    case True
    with 2 lt show ?thesis by (simp add: Let_def)
  next
    case False
    with 2 lt show ?thesis by (simp add: Let_def)
  qed
qed simp

lemma find_proxy_Some:
  "find_proxy b s = Some j \<Longrightarrow> j < length (b_workers b) \<and> w_slot (b_workers b ! j) = s \<and>
     w_state (b_workers b ! j) = BW_ST_CONN_CLIENT_MAPPED_CARD"
  by (auto simp: find_proxy_def bank_slot_equals_def dest!: find_SomeD split: if_splits)

lemma ki_choose_workers: "ki_choose b = Some (sel, b1) \<Longrightarrow> b_workers b1 = b_workers b"
  by (auto simp: ki_choose_def split: if_splits)

lemma ki_choose_ok:
  assumes inv: "bankd_inv b"
  shows "\<exists>sel b1. ki_choose b = Some (sel, b1) \<and> bankd_inv b1"
proof (cases "ki_proxy_slots b = []")
  case True
  then show ?thesis using inv by (auto simp: ki_choose_def)
next
  case False
  from ki_select_ok [OF bankd_invD(4) [OF inv False], of "num_slots b" "length (ki_proxy_slots b)"]
  show ?thesis using inv False by (auto simp: ki_choose_def bankd_inv_def)
qed

context card_driver
begin

lemma ki_forward_effect:
  assumes "ki_forward (driver P b0) b i x apdu = (rc, rx, b1)"
  shows "b1 = b \<or> (\<exists>j. b1 = set_worker j (bw_emit (ScTransmit (w_hCard (b_workers b ! j)) apdu) (b_workers b ! j)) b \<and>
     j \<noteq> i \<and> j < length (b_workers b) \<and> w_state (b_workers b ! j) = BW_ST_CONN_CLIENT_MAPPED_CARD \<and>
     w_slot (b_workers b ! j) = \<lparr>bank_id = bank_id (w_slot (b_workers b ! i)), slot_nr = of_nat x\<rparr>)"
proof (cases "find_proxy b \<lparr>bank_id = bank_id (w_slot (b_workers b ! i)), slot_nr = of_nat x\<rparr>")
  case None
  with assms show ?thesis by (simp add: ki_forward_def)
next
  case (Some j)
  obtain rc' resp w' where op: "op_transceive (driver P b0) (b_workers b ! j) apdu = (rc', resp, w')"
    by (cases "op_transceive (driver P b0) (b_workers b ! j) apdu")
  have "if j = i then b1 = b else b1 = set_worker j w' b"
    using assms Some op by (simp add: ki_forward_def split: if_splits)
  then show ?thesis
    using transceive_frame [OF op] find_proxy_Some [OF Some] by (auto split: if_splits)
qed

lemma ki_forward_inv:
  assumes "bankd_inv b" "ki_forward (driver P b0) b i x apdu = (rc, rx, b1)"
  shows "bankd_inv b1 \<and> length (b_workers b1) = length (b_workers b)"
  using ki_forward_effect [OF assms(2)] bankd_inv_set_worker [OF assms(1)] bankd_invD(3) [OF assms(1)] assms(1) by auto

lemma ki_proxy_ok:
  assumes inv: "bankd_inv b"
  shows "\<exists>rc resp b1. worker_handle_ki_proxy (driver P b0) b i apdu = Some (rc, resp, b1) \<and> bankd_inv b1 \<and>
     length (b_workers b1) = length (b_workers b)"
proof -
  obtain sel b1 where c: "ki_choose b = Some (sel, b1)" "bankd_inv b1"
    using ki_choose_ok [OF inv] by blast
  note w = ki_choose_workers [OF c(1)]
  show ?thesis
  proof (cases sel)
    case None
    then show ?thesis using inv c w by (simp add: worker_handle_ki_proxy_def)
  next
    case (Some x)
    obtain rc rx b2 where "ki_forward (driver P b0) b1 i x apdu = (rc, rx, b2)"
      by (cases "ki_forward (driver P b0) b1 i x apdu")
    then show ?thesis using inv c w Some ki_forward_inv [OF c(2)] by (auto simp: worker_handle_ki_proxy_def)
  qed
qed

lemma tpdu_exchange_ok:
  assumes inv: "bankd_inv b'" and i: "i < length (b_workers b')"
  shows "\<exists>rc rx b1. tpdu_exchange (driver P b) b' i data = Some (rc, rx, b1) \<and> bankd_inv b1 \<and>
     length (b_workers b1) = length (b_workers b')"
proof (cases "ki_enabled b' \<and> length data > 1 \<and> data ! 1 = 0x88 \<and> is_virtual_slot b' (b_workers b' ! i)")
  case True
  then show ?thesis using ki_proxy_ok [OF inv, of P b i data] by (auto simp: tpdu_exchange_def)
next
  case False
  obtain rc rx w' where op: "op_transceive (driver P b) (b_workers b' ! i) data = (rc, rx, w')"
    by (cases "op_transceive (driver P b) (b_workers b' ! i) data")
  have "worker_inv w'"
    using transceive_frame [OF op] bankd_invD(3) [OF inv i] by simp
  then show ?thesis
    unfolding tpdu_exchange_def if_not_P [OF False] using op bankd_inv_set_worker [OF inv] by simp
qed

lemma tpdu_ok:
  assumes inv: "bankd_inv b'" and i: "i < length (b_workers b')"
    and pdu: "pdu_msg pdu = tpduModemToCard fc tb fl data"
  shows "\<exists>rc b1. worker_handle_tpduModemToCard (driver P b) E b' i pdu = Some (rc, b1) \<and> bankd_inv b1 \<and>
     length (b_workers b1) = length (b_workers b')"
proof -
  obtain rc rx b1 where st: "tpdu_exchange (driver P b) b' i data = Some (rc, rx, b1)" "bankd_inv b1"
      "length (b_workers b1) = length (b_workers b')"
    using tpdu_exchange_ok [OF inv i] by blast
  have w1: "worker_inv (b_workers b1 ! i)"
    using bankd_invD(3) [OF st(2)] i st(3) by simp
  have "bankd_inv (tpdu_respond E b1 i tb fc data rx) \<and>
      length (b_workers (tpdu_respond E b1 i tb fc data rx)) = length (b_workers b1)"
    using w1 bankd_inv_set_worker [OF st(2)] by (auto simp: tpdu_respond_def Let_def)
  then show ?thesis
    using pdu st inv by (auto simp: worker_handle_tpduModemToCard_def Let_def)
qed

lemma handle_rspro_ok:
  assumes doc: "env_doc P" and inv: "bankd_inv b'" and i: "i < length (b_workers b')"
    and st: "w_state (b_workers b' ! i) > BW_ST_ACCEPTING"
  shows "\<exists>rc b1. worker_handle_rspro (driver P b) E b' i pdu = Some (rc, b1) \<and> bankd_inv b1 \<and>
     length (b_workers b1) = length (b_workers b')"
proof -
  note wi = bankd_invD(3) [OF inv i]
  show ?thesis
  proof (cases "pdu_msg pdu")
    case (connectClientReq cid cl)
    then show ?thesis
      using connectClientReq_ok [OF doc bankd_invD(1) [OF inv] wi st connectClientReq, of b E]
        bankd_inv_set_worker [OF inv] by (auto simp: worker_handle_rspro_def)
  next
    case (tpduModemToCard fc tb fl data)
    then show ?thesis
      using tpdu_ok [OF inv i tpduModemToCard] by (auto simp: worker_handle_rspro_def)
  next
    case (clientSlotStatusInd a c sps)
    then show ?thesis
      using statusInd_inv(1) [OF wi, of P b sps] bankd_inv_set_worker [OF inv] by (auto simp: worker_handle_rspro_def)
  qed (use inv in \<open>auto simp: worker_handle_rspro_def\<close>)
qed

lemma handle_ipa_ok:
  assumes doc: "env_doc P" and inv: "bankd_inv b'" and i: "i < length (b_workers b')"
    and st: "w_state (b_workers b' ! i) > BW_ST_ACCEPTING"
  shows "\<exists>rc b1. worker_handle_ipa (driver P b) E b' i buf n = Some (rc, b1) \<and> bankd_inv b1 \<and>
     length (b_workers b1) = length (b_workers b')"
proof -
  have r: "\<exists>rc b1. worker_handle_rspro (driver P b) E b' i p = Some (rc, b1) \<and> bankd_inv b1 \<and>
     length (b_workers b1) = length (b_workers b')" for p
    by (rule handle_rspro_ok [OF doc inv i st])
  have e: "bankd_inv (set_worker i (bw_emit x (b_workers b' ! i)) b')" for x
    using bankd_inv_set_worker [OF inv] bankd_invD(3) [OF inv i] by simp
  have d: "\<exists>rc b1. (case x of None \<Rightarrow> Some (-7, b') | Some pdu \<Rightarrow>
      map_option (\<lambda>(rc, b'). (if rc < 0 then rc else 0, b')) (worker_handle_rspro (driver P b) E b' i pdu)) =
      Some (rc, b1) \<and> bankd_inv b1 \<and> length (b_workers b1) = length (b_workers b')" for x
  proof (cases x)
    case (Some a)
    obtain rc b1 where "worker_handle_rspro (driver P b) E b' i a = Some (rc, b1)" "bankd_inv b1"
        "length (b_workers b1) = length (b_workers b')"
      using r [of a] by blast
    with Some show ?thesis by (cases "rc < 0") simp_all
  qed (use inv in simp)
  show ?thesis
    using inv e d by (simp add: worker_handle_ipa_def Let_def)
qed

lemma blocking_ipa_read_inv:
  assumes "blocking_ipa_read n hdr body w = Some (rc, buf, w')" "worker_inv w" "w_state w > BW_ST_ACCEPTING"
  shows "worker_inv w' \<and> w_state w' > BW_ST_ACCEPTING"
proof -
  obtain u1 w1 where r1: "recv_restart (fst hdr) w = (u1, w1)" by (cases "recv_restart (fst hdr) w")
  obtain u2 w2 where r2: "recv_restart (fst body) w1 = (u2, w2)" by (cases "recv_restart (fst body) w1")
  note i1 = recv_restart_inv [OF assms(2,3) r1]
  note i2 = recv_restart_inv [OF i1 [THEN conjunct1] i1 [THEN conjunct2] r2]
  show ?thesis
    using assms i1 i2 r1 r2
    by (auto simp: blocking_ipa_read_def Let_def split: if_splits sum.splits)
qed

end

text \<open>What \<open>select\<close> and \<open>recv\<close> promise: an error is negative, a timeout happens only when one was
  given, and no more bytes arrive than were asked for.\<close>

fun wait_documented :: "bankd_worker \<Rightarrow> wait_res \<Rightarrow> bool" where
  "wait_documented w WaitIntr = True"
| "wait_documented w (WaitErr rc) = (rc < 0)"
| "wait_documented w WaitTimeout = (w_timeout w \<noteq> 0)"
| "wait_documented w (WaitReady hdr body) =
     (case snd hdr of
        Inl rc \<Rightarrow> rc < 0
      | Inr h \<Rightarrow> length h \<le> sizeof_ipaccess_head \<and>
          (sizeof_ipaccess_head \<le> length h \<longrightarrow>
            (case snd body of Inl rc \<Rightarrow> rc < 0 | Inr d \<Rightarrow> length d \<le> ntohs (h ! 0) (h ! 1))))"

text \<open>The length field of the message, when a header arrives.\<close>

fun ipa_len_ok :: "wait_res \<Rightarrow> bool" where
  "ipa_len_ok (WaitReady (_, Inr (hi # lo # _)) body) = (ntohs hi lo \<le> 65533)"
| "ipa_len_ok _ = True"

lemma blocking_ipa_read_some:
  assumes "wait_documented w (WaitReady hdr body)" "ipa_len_ok (WaitReady hdr body)"
  shows "blocking_ipa_read 65536 hdr body w' \<noteq> None"
proof (cases "snd hdr")
  case (Inl rc)
  then show ?thesis by (auto simp: blocking_ipa_read_def Let_def split: prod.split)
next
  case (Inr h)
  have "length d + 3 \<le> 65536" if h: "3 \<le> length h" and d: "snd body = Inr d" for d
  proof -
    obtain hi lo t where ht: "h = hi # lo # t"
      using h by (cases h; cases "tl h") auto
    then have "ntohs hi lo \<le> 65533"
      using assms(2) Inr by (cases hdr) simp
    moreover have "length d \<le> ntohs hi lo"
      using assms(1) Inr h d ht by (simp add: sizeof_ipaccess_head_def)
    ultimately show ?thesis by simp
  qed
  with Inr show ?thesis
    by (auto simp: blocking_ipa_read_def sizeof_ipaccess_head_def Let_def split: prod.split sum.split)
qed

context card_driver
begin

lemma transceive_loop_inv:
  assumes doc: "env_doc P" and inv: "bankd_inv b'" and i: "i < length (b_workers b')"
    and st: "w_state (b_workers b' ! i) > BW_ST_ACCEPTING"
    and w: "wait_documented (b_workers b' ! i) res"
    and S: "worker_transceive_loop (driver P b) E i res b' = Some (r, b1)"
  shows "bankd_inv b1 \<and> length (b_workers b1) = length (b_workers b')"
proof (cases res)
  case WaitIntr
  then show ?thesis
    using S inv worker_try_slotmap_ok [OF doc bankd_invD(1) [OF inv] bankd_invD(3) [OF inv i] st, of b]
      bankd_inv_set_worker [OF inv] by (auto simp: Let_def split: if_splits)
next
  case (WaitErr rc)
  then show ?thesis using S inv by simp
next
  case WaitTimeout
  then show ?thesis
    using S w timeout_ok [OF doc bankd_invD(1) [OF inv] bankd_invD(3) [OF inv i], of b E]
      bankd_inv_set_worker [OF inv] by auto
next
  case (WaitReady hdr body)
  then obtain rc buf w1 where r: "blocking_ipa_read 65536 hdr body (b_workers b' ! i) = Some (rc, buf, w1)"
    using S by (auto split: bind_splits)
  note i1 = blocking_ipa_read_inv [OF r bankd_invD(3) [OF inv i] st]
  define b2 where "b2 = set_worker i w1 b'"
  have b2: "bankd_inv b2" "i < length (b_workers b2)" "w_state (b_workers b2 ! i) > BW_ST_ACCEPTING"
      "length (b_workers b2) = length (b_workers b')"
    using i1 i bankd_inv_set_worker [OF inv] by (simp_all add: b2_def)
  show ?thesis
    using S WaitReady r b2 handle_ipa_ok [OF doc b2(1-3), of b E buf "nat rc"]
    by (auto simp: b2_def [symmetric] Let_def split: if_splits)
qed

lemma transceive_loop_some:
  assumes doc: "env_doc P" and inv: "bankd_inv b'" and i: "i < length (b_workers b')"
    and st: "w_state (b_workers b' ! i) > BW_ST_ACCEPTING"
    and w: "wait_documented (b_workers b' ! i) res" and len: "ipa_len_ok res"
  shows "worker_transceive_loop (driver P b) E i res b' \<noteq> None"
proof (cases res)
  case WaitIntr
  then show ?thesis
    using worker_try_slotmap_ok [OF doc bankd_invD(1) [OF inv] bankd_invD(3) [OF inv i] st, of b]
    by (auto simp: Let_def)
next
  case WaitTimeout
  then show ?thesis
    using w timeout_ok [OF doc bankd_invD(1) [OF inv] bankd_invD(3) [OF inv i], of b E] by auto
next
  case (WaitReady hdr body)
  obtain rc buf w1 where r: "blocking_ipa_read 65536 hdr body (b_workers b' ! i) = Some (rc, buf, w1)"
    using blocking_ipa_read_some [of "b_workers b' ! i" hdr body "b_workers b' ! i"] w len WaitReady by auto
  note i1 = blocking_ipa_read_inv [OF r bankd_invD(3) [OF inv i] st]
  define b2 where "b2 = set_worker i w1 b'"
  have b2: "bankd_inv b2" "i < length (b_workers b2)" "w_state (b_workers b2 ! i) > BW_ST_ACCEPTING"
    using i1 i bankd_inv_set_worker [OF inv] by (simp_all add: b2_def)
  show ?thesis
    using WaitReady r handle_ipa_ok [OF doc b2, of b E buf "nat rc"]
    by (auto simp: b2_def [symmetric] Let_def)
qed simp

lemma main_loop_inv:
  assumes doc: "env_doc P" and inv: "bankd_inv b'" and i: "i < length (b_workers b')"
    and st: "w_state (b_workers b' ! i) > BW_ST_ACCEPTING"
    and w: "wait_documented (b_workers b' ! i) res"
    and S: "worker_main_loop (driver P b) E i res b' = Some b1"
  shows "bankd_inv b1 \<and> length (b_workers b1) = length (b_workers b')"
proof -
  obtain r b2 where t: "worker_transceive_loop (driver P b) E i res b' = Some (r, b2)"
    using S by (auto simp: worker_main_loop_def split: bind_splits)
  have b2: "bankd_inv b2" "length (b_workers b2) = length (b_workers b')"
    using transceive_loop_inv [OF doc inv i st w t] by simp_all
  show ?thesis
    using S t b2 bankd_inv_set_worker [OF b2(1) worker_cleanup_inv]
    by (cases r) (auto simp: worker_main_loop_def split: if_splits)
qed

end

section \<open>The main thread\<close>

lemma signal_first_inv:
  "(\<And>w. w \<in> set ws \<Longrightarrow> worker_inv w) \<Longrightarrow> w \<in> set (signal_first P sig ws) \<Longrightarrow> worker_inv w"
  by (induction ws) (auto simp: deliver_inv split: if_splits)

lemma send_signal_sel [simp]:
  "b_slotmaps (send_signal_to_worker bs cs sig b) = b_slotmaps b"
  "b_srvc (send_signal_to_worker bs cs sig b) = b_srvc b"
  "ki_proxy_slots (send_signal_to_worker bs cs sig b) = ki_proxy_slots b"
  "ki_next_slot_idx (send_signal_to_worker bs cs sig b) = ki_next_slot_idx b"
  by (simp_all add: send_signal_to_worker_def)

lemma send_signal_inv: "bankd_inv b \<Longrightarrow> bankd_inv (send_signal_to_worker bs cs sig b)"
  unfolding bankd_inv_def
  using signal_first_inv [of "b_workers b"] by (auto simp: send_signal_to_worker_def)

lemma bankd_inv_maps: "bankd_inv b \<Longrightarrow> slotmaps_wf m \<Longrightarrow> bankd_inv (b\<lparr>b_slotmaps := m\<rparr>)"
  by (simp add: bankd_inv_def)

lemma bankd_inv_srvc: "bankd_inv b \<Longrightarrow> srvc_inv s \<Longrightarrow> bankd_inv (b\<lparr>b_srvc := s\<rparr>)"
  by (simp add: bankd_inv_def)

lemma remove_mapping_ok:
  assumes "bankd_inv b" "slotmap_by_bank (b_slotmaps b) bs = Some p"
  shows "\<exists>m. sm_heap (b_slotmaps b) p = Some m \<and> sm_bank m = bs \<and>
     bankd_srvc_remove_mapping p b = Some (send_signal_to_worker (Some bs) None SIGMAPDEL
        (b\<lparr>b_slotmaps := slotmap_del (b_slotmaps b) p\<rparr>)) \<and>
     bankd_inv (b\<lparr>b_slotmaps := slotmap_del (b_slotmaps b) p\<rparr>)"
  using assms slotmap_by_bank_eq_Some [OF bankd_invD(1) [OF assms(1)]]
  by (auto simp: bankd_srvc_remove_mapping_def intro!: bankd_inv_maps slotmaps_wf_del bankd_invD(1))

text \<open>What a CreateMappingReq means for the association of bank slots with client slots: the
  request is refused when it is not for this bank or not for one of its slots; otherwise the bank
  slot loses the mapping it had, and gets the new one unless the client slot is in use
  elsewhere (or memory is short).\<close>

definition create_spec ::
  "int \<Rightarrow> int \<Rightarrow> bool \<Rightarrow> ClientSlot_t \<Rightarrow> BankSlot_t \<Rightarrow> (bank_slot \<rightharpoonup> client_slot) \<Rightarrow> int \<times> (bank_slot \<rightharpoonup> client_slot)" where
  "create_spec own_bank nr_slots memory client bank A =
     (let bs = rspro2bank_slot bank; cs = rspro2client_slot client
      in if bs_bankId bank \<noteq> own_bank then (ResultCode_illegalBankId, A)
         else if bs_slotNr bank \<ge> nr_slots then (ResultCode_illegalSlotId, A)
         else if A bs = Some cs then (ResultCode_ok, A)
         else if cs \<in> ran A \<or> \<not> memory then (ResultCode_illegalSlotId, A(bs := None))
         else (ResultCode_ok, A(bs \<mapsto> cs)))"

text \<open>The allocator returns memory that is unused when it is called, that is after the deletion
  of the mapping that the request replaces.\<close>

definition alloc_ok :: "mapref option \<Rightarrow> BankSlot_t \<Rightarrow> unit slotmaps \<Rightarrow> bool" where
  "alloc_ok alloc bank maps \<longleftrightarrow>
     (case alloc of
        None \<Rightarrow> True
      | Some r \<Rightarrow> fresh_ref (case slotmap_by_bank maps (rspro2bank_slot bank) of
                               None \<Rightarrow> maps | Some p \<Rightarrow> slotmap_del maps p) r)"

lemma bankd_add_ok:
  assumes inv: "bankd_inv b" and fr: "\<And>r. alloc = Some r \<Longrightarrow> fresh_ref (b_slotmaps b) r"
    and free: "slot_assoc (b_slotmaps b) bs = None"
  shows "\<exists>res b1. bankd_add alloc bs cs b = (res, b1) \<and> bankd_inv b1 \<and>
     (res, slot_assoc (b_slotmaps b1)) =
       (if cs \<in> ran (slot_assoc (b_slotmaps b)) \<or> alloc = None
        then (ResultCode_illegalSlotId, slot_assoc (b_slotmaps b))
        else (ResultCode_ok, (slot_assoc (b_slotmaps b))(bs \<mapsto> cs)))"
proof -
  note wf = bankd_invD(1) [OF inv]
  show ?thesis
  proof (cases "cs \<in> ran (slot_assoc (b_slotmaps b)) \<or> alloc = None")
    case True
    then have "slotmap_add alloc (b_slotmaps b) bs cs = (None, b_slotmaps b)"
      using sd.add_used [OF wf] sd.add_nomem [OF wf] by blast
    with True inv show ?thesis by (auto simp: bankd_add_def)
  next
    case False
    then obtain r where r: "alloc = Some r" by auto
    obtain m' where m: "slotmap_add (Some r) (b_slotmaps b) bs cs = (Some r, m')" "slotmaps_wf m'"
        "slot_assoc m' = (slot_assoc (b_slotmaps b))(bs \<mapsto> cs)"
      using sd.add_ok [OF wf fr [OF r] free] False by blast
    then show ?thesis
      using False r send_signal_inv [OF bankd_inv_maps [OF inv m(2)]] by (simp add: bankd_add_def)
  qed
qed

lemma create_mapping_ok:
  assumes inv: "bankd_inv b" and al: "alloc_ok alloc bank (b_slotmaps b)"
  shows "\<exists>res b1. bankd_create_mapping alloc client bank b = Some (res, b1) \<and> bankd_inv b1 \<and> b_srvc b1 = b_srvc b \<and>
     (res, slot_assoc (b_slotmaps b1)) = create_spec (uint (srvc_bank_id (b_srvc b))) (uint (srvc_num_slots (b_srvc b)))
        (alloc \<noteq> None) client bank (slot_assoc (b_slotmaps b))"
proof -
  note wf = bankd_invD(1) [OF inv]
  define bs cs where d: "bs = rspro2bank_slot bank" "cs = rspro2client_slot client"
  have srvc: "b_srvc (snd (bankd_add alloc bs cs x)) = b_srvc x" for x
    by (simp add: bankd_add_def split: prod.split option.split)
  show ?thesis
  proof (cases "bs_bankId bank \<noteq> uint (srvc_bank_id (b_srvc b)) \<or> bs_slotNr bank \<ge> uint (srvc_num_slots (b_srvc b))")
    case True
    then show ?thesis
      using inv by (auto simp: bankd_create_mapping_def create_spec_def)
  next
    case valid: False
    show ?thesis
    proof (cases "slotmap_by_bank (b_slotmaps b) bs")
      case None
      then have free: "slot_assoc (b_slotmaps b) bs = None"
        using slot_assoc_None [OF wf] by simp
      have "bankd_create_mapping alloc client bank b = Some (bankd_add alloc bs cs b)"
        using valid None by (simp add: bankd_create_mapping_def d)
      moreover have "fresh_ref (b_slotmaps b) r" if "alloc = Some r" for r
        using al None that by (simp add: alloc_ok_def d)
      moreover have "(slot_assoc (b_slotmaps b))(bs := None) = slot_assoc (b_slotmaps b)"
        using free by (simp add: fun_upd_idem)
      ultimately show ?thesis
        using bankd_add_ok [OF inv _ free, of alloc cs] srvc [of b] valid free
        by (auto simp: create_spec_def d [symmetric] Let_def)
    next
      case (Some p)
      then obtain m where m: "sm_heap (b_slotmaps b) p = Some m" "sm_bank m = bs"
          and rm: "bankd_srvc_remove_mapping p b = Some (send_signal_to_worker (Some bs) None SIGMAPDEL
             (b\<lparr>b_slotmaps := slotmap_del (b_slotmaps b) p\<rparr>))"
          and inv0: "bankd_inv (b\<lparr>b_slotmaps := slotmap_del (b_slotmaps b) p\<rparr>)"
        using remove_mapping_ok [OF inv] by blast
      define b0 where "b0 = send_signal_to_worker (Some bs) None SIGMAPDEL (b\<lparr>b_slotmaps := slotmap_del (b_slotmaps b) p\<rparr>)"
      have b0: "bankd_inv b0" "b_slotmaps b0 = slotmap_del (b_slotmaps b) p" "b_srvc b0 = b_srvc b"
        using send_signal_inv [OF inv0] by (simp_all add: b0_def)
      have assoc: "slot_assoc (b_slotmaps b) bs = Some (sm_client m)"
        using Some m by (simp add: slot_assoc_def)
      have a0: "slot_assoc (b_slotmaps b0) = (slot_assoc (b_slotmaps b))(bs := None)"
        using slot_assoc_del [OF wf Some] b0 by simp
      show ?thesis
      proof (cases "sm_client m = cs")
        case True
        then show ?thesis
          using valid Some m inv assoc
          by (auto simp: bankd_create_mapping_def create_spec_def d [symmetric] client_slot_equals_def)
      next
        case False
        then have neq: "\<not> client_slot_equals (sm_client m) cs"
          by (cases "sm_client m"; cases cs) (auto simp: client_slot_equals_def)
        then have "bankd_create_mapping alloc client bank b = Some (bankd_add alloc bs cs b0)"
          using valid Some m rm by (simp add: bankd_create_mapping_def d [symmetric] b0_def)
        moreover have "fresh_ref (b_slotmaps b0) r" if "alloc = Some r" for r
          using al Some that b0 by (simp add: alloc_ok_def d)
        moreover have "cs \<in> ran (slot_assoc (b_slotmaps b0)) \<longleftrightarrow> cs \<in> ran (slot_assoc (b_slotmaps b))"
          unfolding a0 sd.ran_del [OF wf assoc] using False by auto
        ultimately show ?thesis
          using bankd_add_ok [OF b0(1), of alloc bs cs] srvc [of b0] valid assoc False b0 a0
          by (auto simp: create_spec_def d [symmetric] Let_def)
      qed
    qed
  qed
qed

lemma remove_mapping_req_ok:
  assumes inv: "bankd_inv b"
  shows "\<exists>res b1. bankd_remove_mapping client bank b = Some (res, b1) \<and> bankd_inv b1 \<and> b_srvc b1 = b_srvc b"
proof (cases "slotmap_by_bank (b_slotmaps b) (rspro2bank_slot bank)")
  case None
  with inv show ?thesis by (auto simp: bankd_remove_mapping_def)
next
  case (Some p)
  from remove_mapping_ok [OF inv Some] inv Some show ?thesis
    by (auto simp: bankd_remove_mapping_def intro: send_signal_inv)
qed

lemma reset_state_ok:
  assumes inv: "bankd_inv b"
  shows "bankd_inv (bankd_reset_state b)" "b_srvc (bankd_reset_state b) = b_srvc b"
  using inv slotmaps_wf_del_all [OF bankd_invD(1) [OF inv]] deliver_inv [of _ SIGMAPDEL]
  by (auto simp: bankd_reset_state_def bankd_inv_def Let_def)

lemma srvc_respond_ok:
  assumes "bankd_inv b" "env_ok E (b_srvc b)"
  shows "\<exists>s. srvc_respond E p b = Some (b\<lparr>b_srvc := s\<rparr>) \<and> bankd_inv (b\<lparr>b_srvc := s\<rparr>)"
  using send_rspro_inv [OF assms(2) bankd_invD(2) [OF assms(1)], of p] bankd_inv_srvc [OF assms(1)]
  by (auto simp: srvc_respond_def)

lemma handle_rx_ok:
  assumes inv: "bankd_inv b" and E: "env_ok E (b_srvc b)"
    and al: "\<And>client bank. pdu_msg pdu = createMappingReq client bank \<Longrightarrow> alloc_ok alloc bank (b_slotmaps b)"
  shows "\<exists>rc b1. bankd_srvc_handle_rx E alloc pdu b = Some (rc, b1) \<and> bankd_inv b1"
proof (cases "pdu_msg pdu")
  case (connectBankRes ident result)
  have inv': "srvc_inv ((b_srvc b)\<lparr>peer_comp_id := c\<rparr>)" "env_ok E ((b_srvc b)\<lparr>peer_comp_id := c\<rparr>)" for c
    using bankd_invD(2) [OF inv] E
    by (simp_all add: srvc_inv_def env_ok_def split: server_conn_fsm_state.splits)
  have "ev_data_ok SRVC_E_CLIENT_CONN_RES (Some pdu)"
    using connectBankRes by (simp add: ev_data_ok_def rspro_get_result_def)
  from srvc_dispatch_inv [OF inv'(2,1) this] srvc_dispatch_inv [OF E bankd_invD(2) [OF inv], of SRVC_E_DISCONNECT None]
  show ?thesis
    using connectBankRes bankd_inv_srvc [OF inv] by (fastforce simp: bankd_srvc_handle_rx_def)
next
  case (createMappingReq client bank)
  from create_mapping_ok [OF inv al [OF this], of client] obtain res b1
    where b1: "bankd_create_mapping alloc client bank b = Some (res, b1)" "bankd_inv b1" "b_srvc b1 = b_srvc b"
    by blast
  have "\<exists>s. srvc_respond E p b1 = Some (b1\<lparr>b_srvc := s\<rparr>) \<and> bankd_inv (b1\<lparr>b_srvc := s\<rparr>)" for p
    by (rule srvc_respond_ok) (use b1 E in simp_all)
  from this [of "rspro_gen_CreateMappingRes (calloc_ok E) res"] b1 createMappingReq show ?thesis
    by (auto simp: bankd_srvc_handle_rx_def)
next
  case (removeMappingReq client bank)
  from remove_mapping_req_ok [OF inv, of client bank] obtain res b1
    where b1: "bankd_remove_mapping client bank b = Some (res, b1)" "bankd_inv b1" "b_srvc b1 = b_srvc b"
    by blast
  have "\<exists>s. srvc_respond E p b1 = Some (b1\<lparr>b_srvc := s\<rparr>) \<and> bankd_inv (b1\<lparr>b_srvc := s\<rparr>)" for p
    by (rule srvc_respond_ok) (use b1 E in simp_all)
  from this [of "rspro_gen_RemoveMappingRes (calloc_ok E) res"] b1 removeMappingReq show ?thesis
    by (auto simp: bankd_srvc_handle_rx_def)
next
  case resetStateReq
  from srvc_respond_ok [OF reset_state_ok(1) [OF inv], of E] E reset_state_ok(2) [OF inv] resetStateReq
  show ?thesis by (fastforce simp: bankd_srvc_handle_rx_def)
qed (use inv in \<open>auto simp: bankd_srvc_handle_rx_def\<close>)

section \<open>Start-up\<close>

definition no_names :: "bankd \<Rightarrow> bankd" where
  "no_names b = b\<lparr>pcsc_slot_names := []\<rparr>"

lemma no_names_upd [simp]: "no_names (b\<lparr>pcsc_slot_names := ns\<rparr>) = no_names b"
  by (simp add: no_names_def)

lemma cb2_frame: "cb2 regcomp ps b = Some pb' \<Longrightarrow> no_names (snd pb') = no_names b"
  by (auto simp: cb2_def split: bind_splits)

lemma csv_run_frame: "csv_run regcomp es pb = Some pb' \<Longrightarrow> no_names (snd pb') = no_names (snd pb)"
  by (induction regcomp es pb rule: csv_run.induct) (auto split: bind_splits dest!: cb2_frame)

lemma csv_blocks_frame: "csv_blocks regcomp bs pb = Some (ok, pb') \<Longrightarrow> no_names (snd pb') = no_names (snd pb)"
proof (induction bs arbitrary: pb)
  case (Cons x bs)
  then obtain es c pb1 where x: "x = (es, c)" and r: "csv_run regcomp es pb = Some pb1"
    by (cases x) (auto split: bind_splits)
  show ?case
  proof (cases c)
    case True
    then have "csv_blocks regcomp bs pb1 = Some (ok, pb')"
      using Cons.prems x r by simp
    then show ?thesis
      using Cons.IH csv_run_frame [OF r] by metis
  next
    case False
    then show ?thesis using Cons.prems x r csv_run_frame [OF r] by simp
  qed
qed simp

lemma read_slotnames_frame:
  assumes "bankd_pcsc_read_slotnames regcomp f b = Some (rc, b')"
  shows "no_names b' = no_names b"
  using assms
  by (auto simp: bankd_pcsc_read_slotnames_def split: if_splits bind_splits
      dest!: csv_run_frame csv_blocks_frame)

text \<open>What the options leave alone.\<close>

definition fresh_bankd :: "bankd \<Rightarrow> bool" where
  "fresh_bankd b \<longleftrightarrow> b_slotmaps b = slotmap_init \<and> b_workers b = [] \<and> ki_next_slot_idx b = 0"

lemma handle_option_fresh:
  "handle_option c a st = OptOk st' \<Longrightarrow> fresh_bankd (o_bankd st) \<Longrightarrow> fresh_bankd (o_bankd st')"
  unfolding handle_option_def Let_def opt_int_def fresh_bankd_def
  by (auto split: if_splits option.splits slots_res.splits)

lemma handle_options_fresh:
  "handle_options opts st = OptOk st' \<Longrightarrow> fresh_bankd (o_bankd st) \<Longrightarrow> fresh_bankd (o_bankd st')"
proof (induction opts arbitrary: st)
  case (Cons x opts)
  obtain c a where x: "x = (c, a)" by (cases x)
  with Cons.prems obtain st1 where "handle_option c a st = OptOk st1" "handle_options opts st1 = OptOk st'"
    by (auto split: opt_res.splits)
  with Cons.IH Cons.prems(2) show ?case by (blast intro: handle_option_fresh)
qed simp

lemma create_workers_fresh:
  assumes "create_workers created is b = Some b'" "\<forall>w \<in> set (b_workers b). worker_inv (worker_main_start w)"
  shows "(\<forall>w \<in> set (b_workers b'). worker_inv (worker_main_start w)) \<and>
     length (b_workers b') = length (b_workers b) + length is \<and> b'\<lparr>b_workers := []\<rparr> = b\<lparr>b_workers := []\<rparr>"
  using assms
proof (induction "is" arbitrary: b)
  case (Cons i "is")
  obtain b1 where b1: "bankd_create_worker (created i) i b = Some b1" "create_workers created is b1 = Some b'"
    using Cons.prems by (auto split: bind_splits)
  then have "\<forall>w \<in> set (b_workers b1). worker_inv (worker_main_start w)" "length (b_workers b1) = Suc (length (b_workers b))"
      "b1\<lparr>b_workers := []\<rparr> = b\<lparr>b_workers := []\<rparr>"
    using Cons.prems(2)
    by (auto simp: bankd_create_worker_def worker_main_start_def worker_inv_def bw_order Let_def split: if_splits)
  with Cons.IH [OF b1(2)] show ?case by simp
qed simp

lemma fresh_bankd_names: "no_names b' = no_names b \<Longrightarrow> fresh_bankd b' \<longleftrightarrow> fresh_bankd b"
  unfolding fresh_bankd_def no_names_def
  by (metis bankd.select_convs(3,4,15) bankd.surjective bankd.update_convs(5))

lemma bankd_init_fresh: "fresh_bankd (bankd_init h v)"
  by (simp add: fresh_bankd_def bankd_init_def)

lemma bankd_start_inv:
  assumes S: "bankd_start created b = Some b'" and fr: "fresh_bankd b" and inv: "srvc_inv (b_srvc b)"
  shows "bankd_inv b' \<and> length (b_workers b') = num_slots b"
proof -
  obtain b1 where b1: "create_workers created [0..<num_slots b] b = Some b1"
      and b': "b' = b1\<lparr>b_workers := map worker_main_start (b_workers b1)\<rparr>"
    using S by (auto simp: bankd_start_def split: bind_splits)
  note c = create_workers_fresh [OF b1]
  have w: "\<forall>w \<in> set (b_workers b1). worker_inv (worker_main_start w)" "length (b_workers b1) = num_slots b"
      and eq: "b1\<lparr>b_workers := []\<rparr> = b\<lparr>b_workers := []\<rparr>"
    using c fr by (auto simp: fresh_bankd_def)
  have f: "b_slotmaps b1 = b_slotmaps b" "b_srvc b1 = b_srvc b" "ki_proxy_slots b1 = ki_proxy_slots b"
      "ki_next_slot_idx b1 = ki_next_slot_idx b"
    using arg_cong [OF eq, of b_slotmaps] arg_cong [OF eq, of b_srvc] arg_cong [OF eq, of ki_proxy_slots]
      arg_cong [OF eq, of ki_next_slot_idx] by simp_all
  show ?thesis
    using w f fr inv by (auto simp: b' bankd_inv_def fresh_bankd_def intro: slotmaps_wf_init)
qed

lemma srvc_alloc_inv: "srvc_inv (server_conn_fsm_alloc s)"
  by (simp add: srvc_inv_def server_conn_fsm_alloc_def)

lemma bankd_main_inv:
  assumes S: "bankd_main A argv = Some b" and E: "\<And>s. env_ok (se_srvc A) (server_conn_fsm_alloc s)"
  shows "bankd_inv b"
proof -
  obtain st where o: "handle_options argv \<lparr>o_bankd = bankd_init (se_hostname A) (se_version A),
      g_bind_port = 9999, g_bind_ip = None\<rparr> = OptOk st"
    using S by (auto simp: bankd_main_def split: opt_res.splits)
  have fr: "fresh_bankd (o_bankd st)"
    using handle_options_fresh [OF o] bankd_init_fresh by simp
  obtain b1 r s where rd: "bankd_pcsc_read_slotnames (se_regcomp A) (se_csv A) (o_bankd st) = Some (0, b1)"
      and dis: "srvc_dispatch (se_srvc A) SRVC_E_ESTABLISH None (server_conn_fsm_alloc (b_srvc b1)) = Some (r, s)"
      and st: "bankd_start (se_created A) (b1\<lparr>b_srvc := s\<rparr>) = Some b"
    using S o by (auto simp: bankd_main_def Let_def split: if_splits bind_splits)
  have "fresh_bankd (b1\<lparr>b_srvc := s\<rparr>)"
    using fresh_bankd_names [OF read_slotnames_frame [OF rd]] fr by (simp add: fresh_bankd_def)
  moreover have "srvc_inv s"
    using srvc_dispatch_inv [OF E srvc_alloc_inv ev_data_ok_other, of SRVC_E_ESTABLISH None "b_srvc b1"] dis by auto
  ultimately show ?thesis
    using bankd_start_inv [OF st] by simp
qed

end
