(* ===== verification/Bankd_System.thy ===== *)
theory Bankd_System
  imports Bankd_Inv
begin

text \<open>
  remsim-bankd as a whole: the main thread and the workers take steps in any order. A step of
  the main thread is a message of the server or an event of the connection to it; a step of a
  worker is the return of one of its blocking calls. Signals are delivered within the step of
  the main thread that sends them. \<open>input_doc\<close> collects what an input assumes of the libraries
  involved, \<open>input_ok\<close> when it can occur.
\<close>

datatype bankd_input =
    InServer srvc_env "mapref option" RsproPDU_t
  | InAccept nat int
  | InWorker nat pcsc_env worker_env wait_res

fun bankd_do :: "bankd_input \<Rightarrow> bankd \<Rightarrow> bankd option" where
  "bankd_do (InServer E alloc pdu) b = map_option snd (bankd_srvc_handle_rx E alloc pdu b)"
| "bankd_do (InAccept i rc) b = Some (set_worker i (worker_main_accept rc (b_workers b ! i)) b)"
| "bankd_do (InWorker i P E res) b = worker_main_loop (pcsc_driver_ops P b) E i res b"

fun input_doc :: "bankd_input \<Rightarrow> bool" where
  "input_doc (InServer E alloc pdu) = (fsm_documented (ev_ok E) (st_ok E) \<and> 0 \<le> now_ms E)"
| "input_doc (InAccept i rc) = True"
| "input_doc (InWorker i P E res) = pcsc_documented P"

fun input_ok :: "bankd_input \<Rightarrow> bankd \<Rightarrow> bool" where
  "input_ok (InServer E alloc pdu) b \<longleftrightarrow> reestablish_last_ms (b_srvc b) \<le> now_ms E \<and>
     (case pdu_msg pdu of createMappingReq client bank \<Rightarrow> alloc_ok alloc bank (b_slotmaps b) | _ \<Rightarrow> True)"
| "input_ok (InAccept i rc) b \<longleftrightarrow> i < length (b_workers b) \<and> w_state (b_workers b ! i) = BW_ST_ACCEPTING"
| "input_ok (InWorker i P E res) b \<longleftrightarrow> i < length (b_workers b) \<and> w_state (b_workers b ! i) > BW_ST_ACCEPTING \<and>
     wait_documented (b_workers b ! i) res"

text \<open>A step of the connection to the server that is not a message for the daemon.\<close>

definition srvc_step :: "srvc_env \<Rightarrow> rspro_server_conn \<Rightarrow> rspro_server_conn \<Rightarrow> bool" where
  "srvc_step E s s' \<longleftrightarrow>
     srvc_disconnect_cb E s = Some s' \<or> srvc_connect_cb E s = Some s' \<or> ipa_keepalive_timeout_cb E s = Some s' \<or>
     0 < srvc_timeout s \<and> srvc_T s \<noteq> 0 \<and> server_conn_fsm_timer_cb E s = Some s'"

inductive bankd_reach :: "bankd \<Rightarrow> bool" where
  start: "bankd_main A argv = Some b \<Longrightarrow> (\<And>s. env_ok (se_srvc A) (server_conn_fsm_alloc s)) \<Longrightarrow> bankd_reach b"
| srvc: "bankd_reach b \<Longrightarrow> env_ok E (b_srvc b) \<Longrightarrow> srvc_step E (b_srvc b) s' \<Longrightarrow> bankd_reach (b\<lparr>b_srvc := s'\<rparr>)"
| input: "bankd_reach b \<Longrightarrow> input_doc inp \<Longrightarrow> input_ok inp b \<Longrightarrow> bankd_do inp b = Some b' \<Longrightarrow> bankd_reach b'"

inductive_cases bankd_reachE: "bankd_reach b"

text \<open>Runs.\<close>

fun bankd_run :: "bankd_input list \<Rightarrow> bankd \<Rightarrow> bankd option" where
  "bankd_run [] b = Some b"
| "bankd_run (inp # inps) b = (if input_ok inp b then do { b' \<leftarrow> bankd_do inp b; bankd_run inps b' } else None)"

lemma bankd_run_reach:
  "bankd_reach b \<Longrightarrow> (\<And>inp. inp \<in> set inps \<Longrightarrow> input_doc inp) \<Longrightarrow> bankd_run inps b = Some b' \<Longrightarrow> bankd_reach b'"
proof (induction inps arbitrary: b)
  case (Cons inp inps)
  then obtain b1 where b1: "input_ok inp b" "bankd_do inp b = Some b1" "bankd_run inps b1 = Some b'"
    by (auto split: if_splits bind_splits)
  have "bankd_reach b1"
    using bankd_reach.input [OF Cons.prems(1) _ b1(1,2)] Cons.prems(2) by simp
  with Cons.IH b1(3) Cons.prems(2) show ?case by simp
qed simp

lemma bankd_run_append:
  "bankd_run (xs @ ys) b = (case bankd_run xs b of None \<Rightarrow> None | Some b' \<Rightarrow> bankd_run ys b')"
  by (induction xs arbitrary: b) (auto split: bind_splits option.splits)

lemma run_facts:
  "(case bankd_run tr b of None \<Rightarrow> False | Some b' \<Rightarrow> Q b') \<Longrightarrow>
   bankd_run tr b = Some (the (bankd_run tr b)) \<and> Q (the (bankd_run tr b))"
  by (auto split: option.splits)

lemma srvc_step_inv:
  assumes E: "env_ok E s" and inv: "srvc_inv s" and S: "srvc_step E s s'"
  shows "srvc_inv s'"
proof -
  have d: "srvc_dispatch_state E ev p s0 = Some (rc, s1) \<Longrightarrow> srvc_inv s1"
    if "ev \<noteq> SRVC_E_CLIENT_CONN_RES" "env_ok E s0" "srvc_inv s0" for ev p s0 rc s1
    using dispatch_state_inv [OF that(2,3) ev_data_ok_other [OF that(1)], of p] by auto
  show ?thesis
    using S E inv unfolding srvc_step_def srvc_disconnect_cb_def srvc_connect_cb_def ipa_keepalive_timeout_cb_def
    by (auto intro: d [OF _ E inv, of SRVC_E_TCP_UP] d [OF _ E inv, of SRVC_E_KA_TIMEOUT] timer_cb_inv [OF E inv]
        d [of SRVC_E_TCP_DOWN "s\<lparr>srvc_ka := False\<rparr>"])
qed

lemma input_inv:
  assumes inv: "bankd_inv b" and d: "input_doc inp" and ok: "input_ok inp b" and S: "bankd_do inp b = Some b'"
  shows "bankd_inv b'"
proof (cases inp)
  case (InServer E alloc pdu)
  have E: "env_ok E (b_srvc b)"
    using d ok InServer by (simp add: env_ok_def)
  have "alloc_ok alloc bank (b_slotmaps b)" if "pdu_msg pdu = createMappingReq client bank" for client bank
    using ok InServer that by simp
  from handle_rx_ok [OF inv E this] S InServer show ?thesis by fastforce
next
  case (InAccept i rc)
  then have "worker_inv (worker_main_accept rc (b_workers b ! i))"
    using ok bankd_invD(3) [OF inv, of i] by (auto simp: worker_main_accept_def worker_inv_def bw_order)
  with S InAccept bankd_inv_set_worker [OF inv] show ?thesis by auto
next
  case (InWorker i P E res)
  then show ?thesis
    using d ok S pcsc.main_loop_inv [OF _ inv, of P i res b E b'] by simp
qed

lemma bankd_reach_inv: "bankd_reach b \<Longrightarrow> bankd_inv b"
proof (induction rule: bankd_reach.induct)
  case (start A argv b)
  then show ?case by (rule bankd_main_inv)
next
  case (srvc b E s')
  show ?case
    by (rule bankd_inv_srvc [OF srvc.IH srvc_step_inv [OF srvc.hyps(2) bankd_invD(2) [OF srvc.IH] srvc.hyps(3)]])
next
  case (input b inp b')
  show ?case by (rule input_inv [OF input.IH input.hyps(2-4)])
qed

section \<open>An example daemon\<close>

text \<open>Two slots, two readers. Card handles 10 and 11.\<close>

definition ex_pcsc :: pcsc_env where
  "ex_pcsc = \<lparr>regcomp_r = (\<lambda>_. 0), regexec_r = (\<lambda>re s. if re = s then 0 else 1),
     establish_r = (0, 3), list_readers_r = (0, [''R0'', ''R1'']),
     connect_r = (\<lambda>p _. (0, if p = ''R0'' then 10 else 11)),
     status_r = (\<lambda>h. (0, [0x3b, of_nat h])), reconnect_r = (\<lambda>_ _ _. 0),
     transmit_r = (\<lambda>h _. (0, [of_nat h, 0x90, 0]))\<rparr>"

definition ex_wenv :: "RsproPDUchoice_t \<Rightarrow> worker_env" where
  "ex_wenv m = \<lparr>we_calloc = True, we_enc = (\<lambda>_. True), we_write = (\<lambda>_. True),
     we_dec = (\<lambda>_. Some \<lparr>pdu_version = 2, pdu_tag = 0, pdu_msg = m\<rparr>),
     we_pong_rc = 0, we_id_ack_rc = 0, we_stack = 0\<rparr>"

definition ex_start :: startup_env where
  "ex_start = \<lparr>se_hostname = ''bank'', se_version = ''1'', se_regcomp = (\<lambda>_. 0),
     se_csv = \<lparr>csv_init_ok = True, fopen_ok = True,
       csv_parts = [(csv_rows [[''1'', ''0'', ''R0''], [''1'', ''1'', ''R1'']], True)], csv_fini_events = []\<rparr>,
     se_srvc = ex_env 0, se_fsm_alloc_ok = True, se_listen_ok = True, se_gsmtap_ok = True,
     se_created = (\<lambda>_. True)\<rparr>"

definition ex_argv :: "(char \<times> string) list" where
  "ex_argv = [(CHR ''i'', ''10.0.0.1''), (CHR ''n'', ''2'')]"

definition ex_daemon :: bankd where
  "ex_daemon = the (bankd_main ex_start ex_argv)"

lemma ex_daemon_facts:
  "bankd_main ex_start ex_argv \<noteq> None \<and>
   (case bankd_main ex_start ex_argv of None \<Rightarrow> False | Some b \<Rightarrow>
      reestablish_last_ms (b_srvc b) = 0 \<and> mappings (b_slotmaps b) = [] \<and> sm_heap (b_slotmaps b) 7 = None \<and>
      length (b_workers b) = 2 \<and> w_state (b_workers b ! 0) = BW_ST_ACCEPTING)"
  by code_simp

lemma ex_daemon_main: "bankd_main ex_start ex_argv = Some ex_daemon"
  using ex_daemon_facts by (auto simp: ex_daemon_def)

lemma ex_daemon_sel:
  "reestablish_last_ms (b_srvc ex_daemon) = 0" "mappings (b_slotmaps ex_daemon) = []"
  "sm_heap (b_slotmaps ex_daemon) 7 = None" "length (b_workers ex_daemon) = 2"
  "w_state (b_workers ex_daemon ! 0) = BW_ST_ACCEPTING"
  using ex_daemon_facts by (simp_all add: ex_daemon_main)

lemma ex_daemon_reach: "bankd_reach ex_daemon"
proof (rule bankd_reach.start [OF ex_daemon_main])
  show "env_ok (se_srvc ex_start) (server_conn_fsm_alloc s)" for s
    by (simp add: ex_start_def ex_env_ok server_conn_fsm_alloc_def)
qed

text \<open>A message of the server, and one of a client to worker \<open>i\<close>.\<close>

definition ex_server :: "RsproPDUchoice_t \<Rightarrow> mapref option \<Rightarrow> bankd_input" where
  "ex_server m alloc = InServer (ex_env 5000) alloc \<lparr>pdu_version = 2, pdu_tag = 0, pdu_msg = m\<rparr>"

definition ex_rx :: "nat \<Rightarrow> RsproPDUchoice_t \<Rightarrow> bankd_input" where
  "ex_rx i m = InWorker i ex_pcsc (ex_wenv m) (WaitReady ([], Inr [0, 2, 0xee]) ([], Inr [0x07, 0]))"

definition ex_create :: "bankd_input" where
  "ex_create = ex_server (createMappingReq \<lparr>cs_clientId = 23, cs_slotNr = 0\<rparr> \<lparr>bs_bankId = 1, bs_slotNr = 0\<rparr>) (Some 7)"

lemma ex_server_doc: "input_doc (ex_server m a)"
  by (simp add: ex_server_def ex_env_def fsm_documented_def)

lemma ex_pcsc_doc: "pcsc_documented ex_pcsc"
  by (simp add: pcsc_documented_def pcsc_rc_ok_def ex_pcsc_def MAX_ATR_SIZE_def)

lemma ex_rx_doc: "input_doc (ex_rx i m)"
  by (simp add: ex_rx_def ex_pcsc_doc)

lemma ex_create_ok: "input_ok ex_create ex_daemon"
proof -
  have "alloc_ok (Some 7) bank (b_slotmaps ex_daemon)" for bank
    by (simp add: alloc_ok_def slotmap_by_bank_def fresh_ref_def ex_daemon_sel)
  then show ?thesis
    by (simp add: ex_create_def ex_server_def ex_daemon_sel ex_env_def)
qed

text \<open>The example daemon once its connection to the server is up: the timer fires, the TCP
  connection is established, and the server accepts the bank.\<close>

definition ex_welcome :: RsproPDUchoice_t where
  "ex_welcome = connectBankRes ((fill_comp_id ex_comp_id)\<lparr>ci_type := ComponentType_remsimServer\<rparr>) ResultCode_ok"

definition ex_srvc1 :: rspro_server_conn where
  "ex_srvc1 = the (server_conn_fsm_timer_cb (ex_env 0) (b_srvc ex_daemon))"

definition ex_srvc2 :: rspro_server_conn where
  "ex_srvc2 = the (srvc_connect_cb (ex_env 0) ex_srvc1)"

definition ex_up :: bankd where
  "ex_up = the (bankd_do (ex_server ex_welcome None) (ex_daemon\<lparr>b_srvc := ex_srvc2\<rparr>))"

lemma ex_up_facts:
  "server_conn_fsm_timer_cb (ex_env 0) (b_srvc ex_daemon) \<noteq> None \<and> 0 < srvc_timeout (b_srvc ex_daemon) \<and>
   srvc_T (b_srvc ex_daemon) \<noteq> 0 \<and> srvc_connect_cb (ex_env 0) ex_srvc1 \<noteq> None \<and>
   reestablish_last_ms ex_srvc1 = 0 \<and> reestablish_last_ms ex_srvc2 = 0 \<and>
   bankd_do (ex_server ex_welcome None) (ex_daemon\<lparr>b_srvc := ex_srvc2\<rparr>) \<noteq> None"
  by code_simp

lemma ex_up_sel:
  "reestablish_last_ms (b_srvc ex_up) = 0 \<and> srvc_st (b_srvc ex_up) = SRVC_ST_CONNECTED \<and>
   srvc_bank_id (b_srvc ex_up) = 1 \<and> srvc_num_slots (b_srvc ex_up) = 2 \<and>
   mappings (b_slotmaps ex_up) = [] \<and> sm_heap (b_slotmaps ex_up) 7 = None \<and>
   length (b_workers ex_up) = 2"
  by code_simp

lemma ex_up_reach: "bankd_reach ex_up"
proof -
  have s1: "server_conn_fsm_timer_cb (ex_env 0) (b_srvc ex_daemon) = Some ex_srvc1"
    and s2: "srvc_connect_cb (ex_env 0) ex_srvc1 = Some ex_srvc2"
    and s3: "bankd_do (ex_server ex_welcome None) (ex_daemon\<lparr>b_srvc := ex_srvc2\<rparr>) = Some ex_up"
    using ex_up_facts by (auto simp: ex_srvc1_def ex_srvc2_def ex_up_def)
  have r1: "bankd_reach (ex_daemon\<lparr>b_srvc := ex_srvc1\<rparr>)"
    by (rule bankd_reach.srvc [OF ex_daemon_reach])
      (use s1 ex_up_facts in \<open>auto simp: srvc_step_def ex_env_ok ex_daemon_sel\<close>)
  have r2: "bankd_reach ((ex_daemon\<lparr>b_srvc := ex_srvc1\<rparr>)\<lparr>b_srvc := ex_srvc2\<rparr>)"
    by (rule bankd_reach.srvc [OF r1, of "ex_env 0"])
      (use s2 ex_up_facts in \<open>auto simp: srvc_step_def ex_env_ok\<close>)
  show ?thesis
    by (rule bankd_reach.input [OF r2 ex_server_doc, of ex_welcome None])
      (use s3 ex_up_facts in \<open>simp_all add: ex_server_def ex_welcome_def ex_env_def\<close>)
qed

text \<open>The connection and the daemon in this state, written out.\<close>

definition ex_srvc_up :: "rspro_server_conn \<Rightarrow> rspro_server_conn" where
  "ex_srvc_up s = s\<lparr>srvc_conn := True, srvc_st := SRVC_ST_CONNECTED, srvc_T := 0, srvc_timeout := 0, srvc_ka := True,
     peer_comp_id := rspro_comp_id_retrieve ((fill_comp_id ex_comp_id)\<lparr>ci_type := ComponentType_remsimServer\<rparr>),
     srvc_out := [CliOpen (Some ''10.0.0.1'') 9998, KaStart,
       TxRspro (the (rspro_gen_ConnectBankReq True (own_comp_id s) 1 2))]\<rparr>"

lemma ex_up_srvc: "b_srvc ex_up = ex_srvc_up (b_srvc ex_daemon)"
  by code_simp

lemma handle_welcome_frame:
  "bankd_do (ex_server ex_welcome None) b = Some b' \<Longrightarrow> b' = b\<lparr>b_srvc := b_srvc b'\<rparr>"
  by (auto simp: ex_server_def ex_welcome_def bankd_srvc_handle_rx_def split: if_splits)

lemma ex_up_code: "ex_up = ex_daemon\<lparr>b_srvc := ex_srvc_up (b_srvc ex_daemon)\<rparr>"
proof -
  have "bankd_do (ex_server ex_welcome None) (ex_daemon\<lparr>b_srvc := ex_srvc2\<rparr>) = Some ex_up"
    using ex_up_facts by (auto simp: ex_up_def)
  from handle_welcome_frame [OF this] show ?thesis
    by (simp add: ex_up_srvc)
qed

end
