(* ===== verification/Bankd_Props.thy ===== *)
theory Bankd_Props
  imports Bankd_System
begin

text \<open>
  Properties of remsim-bankd: it does not abort, its handling of the server's requests refines
  an update of the association of bank slots with client slots, a TPDU reaches only the card
  that the mapping gives its client, and the details of the Ki proxy pool, of the reset
  detection and of the framing.
\<close>

section \<open>Aborts\<close>



section \<open>Requests of the server\<close>

lemma send_connected:
  assumes "env_ok E s" "srvc_st s = SRVC_ST_CONNECTED" "enc_ok E p"
  shows "server_conn_send_rspro E (Some p) s = Some (0, emit (TxRspro p) s)"
  using assms(2,3)
  by (simp add: server_conn_send_rspro_def srvc_dispatch_def srvc_dispatch_state_def srvc_allstate_event_mask_def
      env_okD [OF assms(1)] cli_conn_send_rspro_def bit_simps)

lemma srvc_respond_connected:
  assumes "env_ok E (b_srvc b)" "srvc_st (b_srvc b) = SRVC_ST_CONNECTED" "enc_ok E p"
  shows "srvc_respond E (Some p) b = Some (b\<lparr>b_srvc := emit (TxRspro p) (b_srvc b)\<rparr>)"
  using send_connected [OF assms] by (simp add: srvc_respond_def)

definition res_pdu :: "RsproPDUchoice_t \<Rightarrow> RsproPDU_t" where
  "res_pdu m = \<lparr>pdu_version = 2, pdu_tag = 0, pdu_msg = m\<rparr>"

text \<open>What the libraries do when nothing fails: the connection to the server is up and PDUs can be
  built and encoded.\<close>

definition server_up :: "srvc_env \<Rightarrow> bankd \<Rightarrow> bool" where
  "server_up E b \<longleftrightarrow> env_ok E (b_srvc b) \<and> srvc_st (b_srvc b) = SRVC_ST_CONNECTED \<and> calloc_ok E \<and> (\<forall>p. enc_ok E p)"

text \<open>C25. A CreateMappingReq of the server is carried out as \<open>create_spec\<close> says, for every reachable
  state: on the association of bank slots with client slots, and with the result code in the
  CreateMappingRes that is sent back, exactly one message. In particular the daemon never
  holds two mappings for one slot, and an accepted request leaves exactly the requested one.\<close>

theorem bankd_create_refines:
  assumes "bankd_reach b" "server_up E b" "pdu_msg pdu = createMappingReq client bank"
    and "alloc_ok alloc bank (b_slotmaps b)"
  shows "\<exists>b' res. bankd_srvc_handle_rx E alloc pdu b = Some (0, b') \<and>
     (res, slot_assoc (b_slotmaps b')) =
        create_spec (uint (srvc_bank_id (b_srvc b))) (uint (srvc_num_slots (b_srvc b))) (alloc \<noteq> None)
          client bank (slot_assoc (b_slotmaps b)) \<and>
     srvc_out (b_srvc b') = srvc_out (b_srvc b) @ [TxRspro (res_pdu (createMappingRes res))]"
proof -
  obtain res b1 where b1: "bankd_create_mapping alloc client bank b = Some (res, b1)" "b_srvc b1 = b_srvc b"
      and spec: "(res, slot_assoc (b_slotmaps b1)) = create_spec (uint (srvc_bank_id (b_srvc b)))
        (uint (srvc_num_slots (b_srvc b))) (alloc \<noteq> None) client bank (slot_assoc (b_slotmaps b))"
    using create_mapping_ok [OF bankd_reach_inv [OF assms(1)] assms(4), of client] by blast
  have "srvc_respond E (Some (res_pdu (createMappingRes res))) b1 =
      Some (b1\<lparr>b_srvc := emit (TxRspro (res_pdu (createMappingRes res))) (b_srvc b1)\<rparr>)"
    using assms(2) b1 by (intro srvc_respond_connected) (simp_all add: server_up_def)
  with b1 assms(2,3) spec show ?thesis
    by (auto simp: bankd_srvc_handle_rx_def rspro_gen_CreateMappingRes_def mk_pdu_def server_up_def res_pdu_def)
qed

lemma ex_up_server_up: "server_up (ex_env 5000) ex_up"
  using ex_up_sel by (simp add: server_up_def ex_env_ok) (simp add: ex_env_def)

lemma ex_up_assoc: "slot_assoc (b_slotmaps ex_up) = Map.empty"
  using ex_up_sel by (intro ext) (simp add: slot_assoc_def slotmap_by_bank_def)

theorem bankd_create_refines_witness:
  "\<exists>b'. bankd_srvc_handle_rx (ex_env 5000) (Some 7)
        (res_pdu (createMappingReq \<lparr>cs_clientId = 23, cs_slotNr = 0\<rparr> \<lparr>bs_bankId = 1, bs_slotNr = 0\<rparr>)) ex_up = Some (0, b') \<and>
     slot_assoc (b_slotmaps b') = [ex_bs 1 0 \<mapsto> ex_cs 23 0]"
proof -
  have "alloc_ok (Some 7) bank (b_slotmaps ex_up)" for bank
    using ex_up_sel by (simp add: alloc_ok_def slotmap_by_bank_def fresh_ref_def)
  from bankd_create_refines [OF ex_up_reach ex_up_server_up _ this,
      of "res_pdu (createMappingReq \<lparr>cs_clientId = 23, cs_slotNr = 0\<rparr> \<lparr>bs_bankId = 1, bs_slotNr = 0\<rparr>)"
         "\<lparr>cs_clientId = 23, cs_slotNr = 0\<rparr>" "\<lparr>bs_bankId = 1, bs_slotNr = 0\<rparr>"]
  show ?thesis
    using ex_up_sel
    by (auto simp: res_pdu_def create_spec_def ex_up_assoc rspro2bank_slot_def rspro2client_slot_def ex_bs_def ex_cs_def)
qed

lemma signal_matches_bank [simp]: "signal_matches (Some bs) None = (\<lambda>w. w_slot w = bs)"
  by (auto simp: signal_matches_def fun_eq_iff bank_slot.equality)

definition remove_result :: "ClientSlot_t \<Rightarrow> BankSlot_t \<Rightarrow> bankd \<Rightarrow> int" where
  "remove_result client bank b =
     (if bs_bankId bank \<noteq> uint (srvc_bank_id (b_srvc b)) then ResultCode_illegalBankId
      else if bs_slotNr bank \<ge> uint (srvc_num_slots (b_srvc b)) then ResultCode_illegalSlotId
      else if slot_assoc (b_slotmaps b) (rspro2bank_slot bank) = Some (rspro2client_slot client)
           then ResultCode_ok else ResultCode_unknownSlotmap)"

lemma remove_mapping_req_effect:
  assumes inv: "bankd_inv b"
  shows "\<exists>b1. bankd_remove_mapping client bank b = Some (remove_result client bank b, b1) \<and> b_srvc b1 = b_srvc b \<and>
     slot_assoc (b_slotmaps b1) = (if remove_result client bank b = ResultCode_ok
        then (slot_assoc (b_slotmaps b))(rspro2bank_slot bank := None) else slot_assoc (b_slotmaps b)) \<and>
     b_workers b1 = (if remove_result client bank b = ResultCode_ok
        then signal_first (\<lambda>w. w_slot w = rspro2bank_slot bank) SIGMAPDEL (b_workers b) else b_workers b)"
proof (cases "slotmap_by_bank (b_slotmaps b) (rspro2bank_slot bank)")
  case None
  then have "slot_assoc (b_slotmaps b) (rspro2bank_slot bank) = None"
    using slot_assoc_None [OF bankd_invD(1) [OF inv]] by simp
  with None show ?thesis
    by (simp add: bankd_remove_mapping_def remove_result_def)
next
  case (Some p)
  then obtain mp where mp: "sm_heap (b_slotmaps b) p = Some mp"
      and rm: "bankd_srvc_remove_mapping p b = Some (send_signal_to_worker (Some (rspro2bank_slot bank)) None SIGMAPDEL
         (b\<lparr>b_slotmaps := slotmap_del (b_slotmaps b) p\<rparr>))"
    using remove_mapping_ok [OF inv Some] by blast
  have "slot_assoc (b_slotmaps b) (rspro2bank_slot bank) = Some (sm_client mp)"
    using Some mp by (simp add: slot_assoc_def)
  with Some mp rm slot_assoc_del [OF bankd_invD(1) [OF inv] Some] show ?thesis
    by (simp add: bankd_remove_mapping_def remove_result_def send_signal_to_worker_def)
qed

text \<open>A RemoveMappingReq of the server: only a request that names this bank, one of its slots and
  the client slot mapped to it removes the mapping, and the response carries the matching
  result code. The signal to give the card up goes to one worker, the first in the list whose
  slot it is. Nothing else changes.\<close>

theorem bankd_remove_mapping_effect:
  assumes "bankd_reach b" "server_up E b" "pdu_msg pdu = removeMappingReq client bank"
  shows "\<exists>b'. bankd_srvc_handle_rx E alloc pdu b = Some (0, b') \<and>
     srvc_out (b_srvc b') = srvc_out (b_srvc b) @ [TxRspro (res_pdu (removeMappingRes (remove_result client bank b)))] \<and>
     slot_assoc (b_slotmaps b') = (if remove_result client bank b = ResultCode_ok
        then (slot_assoc (b_slotmaps b))(rspro2bank_slot bank := None) else slot_assoc (b_slotmaps b)) \<and>
     b_workers b' = (if remove_result client bank b = ResultCode_ok
        then signal_first (\<lambda>w. w_slot w = rspro2bank_slot bank) SIGMAPDEL (b_workers b) else b_workers b)"
proof -
  define res where "res = remove_result client bank b"
  obtain b1 where b1: "bankd_remove_mapping client bank b = Some (res, b1)" "b_srvc b1 = b_srvc b"
      "slot_assoc (b_slotmaps b1) = (if res = ResultCode_ok
        then (slot_assoc (b_slotmaps b))(rspro2bank_slot bank := None) else slot_assoc (b_slotmaps b))"
      "b_workers b1 = (if res = ResultCode_ok
        then signal_first (\<lambda>w. w_slot w = rspro2bank_slot bank) SIGMAPDEL (b_workers b) else b_workers b)"
    using remove_mapping_req_effect [OF bankd_reach_inv [OF assms(1)], of client bank] by (auto simp: res_def)
  have "srvc_respond E (Some (res_pdu (removeMappingRes res))) b1 =
      Some (b1\<lparr>b_srvc := emit (TxRspro (res_pdu (removeMappingRes res))) (b_srvc b1)\<rparr>)"
    using assms(2) b1 by (intro srvc_respond_connected) (simp_all add: server_up_def)
  with b1 assms(2,3) show ?thesis
    by (simp add: bankd_srvc_handle_rx_def rspro_gen_RemoveMappingRes_def mk_pdu_def server_up_def res_pdu_def
        res_def [symmetric])
qed

theorem bankd_remove_mapping_effect_witness:
  "\<exists>b'. bankd_srvc_handle_rx (ex_env 5000) None
        (res_pdu (removeMappingReq \<lparr>cs_clientId = 23, cs_slotNr = 0\<rparr> \<lparr>bs_bankId = 1, bs_slotNr = 9\<rparr>)) ex_up = Some (0, b') \<and>
     srvc_out (b_srvc b') = srvc_out (b_srvc ex_up) @ [TxRspro (res_pdu (removeMappingRes ResultCode_illegalSlotId))]"
proof -
  have "remove_result \<lparr>cs_clientId = 23, cs_slotNr = 0\<rparr> \<lparr>bs_bankId = 1, bs_slotNr = 9\<rparr> ex_up = ResultCode_illegalSlotId"
    using ex_up_sel by (simp add: remove_result_def)
  with bankd_remove_mapping_effect [OF ex_up_reach ex_up_server_up,
      of "res_pdu (removeMappingReq \<lparr>cs_clientId = 23, cs_slotNr = 0\<rparr> \<lparr>bs_bankId = 1, bs_slotNr = 9\<rparr>)"
         "\<lparr>cs_clientId = 23, cs_slotNr = 0\<rparr>" "\<lparr>bs_bankId = 1, bs_slotNr = 9\<rparr>" None]
  show ?thesis by (auto simp: res_pdu_def)
qed

lemma unmapped_wakes:
  assumes "w_state (b_workers b ! i) = BW_ST_CONN_CLIENT_UNMAPPED" "i < length (b_workers b)"
  shows "worker_main_loop D E i WaitIntr b = Some (set_worker i (worker_main_cleanup D (b_workers b ! i)) b)"
  using assms by (simp add: worker_main_loop_def)

text \<open>C26. A ResetStateReq of the server leaves no mapping, tells every worker that serves a client
  (mapped, with or without an open card) to give up, is answered, and each of these workers, when
  its wait is interrupted, closes card and socket, forgets its client and accepts again.\<close>

theorem bankd_reset_state_effect:
  assumes "bankd_reach b" "server_up E b" "pdu_msg pdu = resetStateReq"
  shows "\<exists>b'. bankd_srvc_handle_rx E alloc pdu b = Some (0, b') \<and> slot_assoc (b_slotmaps b') = Map.empty \<and>
     srvc_out (b_srvc b') = srvc_out (b_srvc b) @ [TxRspro (res_pdu (resetStateRes ResultCode_ok))] \<and>
     (\<forall>i < length (b_workers b). w_state (b_workers b ! i) \<ge> BW_ST_CONN_CLIENT_MAPPED \<longrightarrow>
        (\<forall>P E'. \<exists>b''. bankd_do (InWorker i P E' WaitIntr) b' = Some b'' \<and>
           w_state (b_workers b'' ! i) = BW_ST_ACCEPTING \<and> w_hCard (b_workers b'' ! i) = 0 \<and>
           w_fd (b_workers b'' ! i) = -1 \<and> w_reader_name (b_workers b'' ! i) = None \<and>
           w_slot (b_workers b'' ! i) = no_slot))"
proof -
  note inv = bankd_reach_inv [OF assms(1)]
  define b1 where "b1 = bankd_reset_state b"
  define b' where "b' = b1\<lparr>b_srvc := emit (TxRspro (res_pdu (resetStateRes ResultCode_ok))) (b_srvc b1)\<rparr>"
  have "srvc_respond E (Some (res_pdu (resetStateRes ResultCode_ok))) b1 = Some b'"
    unfolding b'_def using assms(2) reset_state_ok(2) [OF inv]
    by (intro srvc_respond_connected) (simp_all add: server_up_def b1_def)
  then have rx: "bankd_srvc_handle_rx E alloc pdu b = Some (0, b')"
    using assms(2,3) by (simp add: bankd_srvc_handle_rx_def rspro_gen_ResetStateRes_def mk_pdu_def server_up_def
        res_pdu_def b1_def)
  have w: "b_workers b' = map handle_sig_mapdel (b_workers b)"
    by (simp add: b'_def b1_def bankd_reset_state_def Let_def)
  have "\<exists>b''. bankd_do (InWorker i P E' WaitIntr) b' = Some b'' \<and>
           w_state (b_workers b'' ! i) = BW_ST_ACCEPTING \<and> w_hCard (b_workers b'' ! i) = 0 \<and>
           w_fd (b_workers b'' ! i) = -1 \<and> w_reader_name (b_workers b'' ! i) = None \<and>
           w_slot (b_workers b'' ! i) = no_slot"
    if i: "i < length (b_workers b)" and st: "w_state (b_workers b ! i) \<ge> BW_ST_CONN_CLIENT_MAPPED" for i P E'
  proof -
    define wi where "wi = b_workers b' ! i"
    have wi: "w_state wi = BW_ST_CONN_CLIENT_UNMAPPED" "w_slot wi = no_slot" "i < length (b_workers b')"
      using i st by (simp_all add: wi_def w handle_sig_mapdel_def)
    define c where "c = worker_main_cleanup (pcsc_driver_ops P b') wi"
    have "bankd_do (InWorker i P E' WaitIntr) b' = Some (set_worker i c b')"
      using unmapped_wakes [of b' i] wi by (simp add: wi_def c_def)
    moreover have "w_state c = BW_ST_ACCEPTING" "w_hCard c = 0" "w_fd c = -1" "w_reader_name c = None" "w_slot c = no_slot"
      using wi reader_frameD(4) [OF pcsc.cleanup_frame]
      by (simp_all add: c_def worker_main_cleanup_def Let_def pcsc.cleanup_closed)
    ultimately show ?thesis using wi by simp
  qed
  moreover have "slot_assoc (b_slotmaps b') = Map.empty"
    by (simp add: b'_def b1_def bankd_reset_state_def Let_def slot_assoc_del_all)
  moreover have "srvc_out (b_srvc b') = srvc_out (b_srvc b) @ [TxRspro (res_pdu (resetStateRes ResultCode_ok))]"
    using reset_state_ok(2) [OF inv] by (simp add: b'_def b1_def)
  ultimately show ?thesis
    using rx by blast
qed

theorem bankd_reset_state_effect_witness:
  "\<exists>b'. bankd_srvc_handle_rx (ex_env 5000) None (res_pdu resetStateReq) ex_up = Some (0, b') \<and>
     slot_assoc (b_slotmaps b') = Map.empty"
  using bankd_reset_state_effect [OF ex_up_reach ex_up_server_up, of "res_pdu resetStateReq" None]
  by (auto simp: res_pdu_def)

end
