(* ===== verification/Bankd_Runs.thy ===== *)
theory Bankd_Runs
  imports Bankd_System "HOL-Library.Code_Target_Nat"
begin

text \<open>
  Runs of the example daemon, evaluated step by step: a client with a mapping connects and is
  served (\<open>ex_mapped\<close>), and what happens when it reconnects to another worker.
\<close>

declare ex_up_code [code]

text \<open>A client C(23:0) with a mapping to B(1:0) has connected to the first worker.\<close>

definition ex_connect :: "nat \<Rightarrow> bankd_input" where
  "ex_connect i = ex_rx i (connectClientReq (fill_comp_id ex_comp_id) (Some \<lparr>cs_clientId = 23, cs_slotNr = 0\<rparr>))"

definition ex_session :: "bankd_input list" where
  "ex_session = [ex_create, InAccept 0 5, ex_connect 0]"

definition ex_mapped :: bankd where
  "ex_mapped = the (bankd_run ex_session ex_up)"

lemma ex_mapped_facts:
  "case bankd_run ex_session ex_up of None \<Rightarrow> False | Some b \<Rightarrow>
     length (b_workers b) = 2 \<and> w_state (b_workers b ! 0) = BW_ST_CONN_CLIENT_MAPPED_CARD \<and>
     w_slot (b_workers b ! 0) = ex_bs 1 0 \<and> w_clslot (b_workers b ! 0) = ex_cs 23 0 \<and>
     w_hCard (b_workers b ! 0) = 10 \<and> \<not> ki_enabled b \<and> gsmtap_host b = None \<and>
     last_vccPresent (b_workers b ! 0) \<and> \<not> last_resetActive (b_workers b ! 0) \<and> \<not> permit_shared_pcsc b"
  by code_simp

lemma ex_mapped_run: "bankd_run ex_session ex_up = Some ex_mapped"
  using ex_mapped_facts by (auto simp: ex_mapped_def split: option.splits)

lemma ex_mapped_sel:
  "length (b_workers ex_mapped) = 2" "w_state (b_workers ex_mapped ! 0) = BW_ST_CONN_CLIENT_MAPPED_CARD"
  "w_slot (b_workers ex_mapped ! 0) = ex_bs 1 0" "w_clslot (b_workers ex_mapped ! 0) = ex_cs 23 0"
  "w_hCard (b_workers ex_mapped ! 0) = 10" "\<not> ki_enabled ex_mapped" "gsmtap_host ex_mapped = None"
  "last_vccPresent (b_workers ex_mapped ! 0)" "\<not> last_resetActive (b_workers ex_mapped ! 0)"
  "\<not> permit_shared_pcsc ex_mapped"
  using ex_mapped_facts by (simp_all add: ex_mapped_run)

lemma ex_mapped_reach: "bankd_reach ex_mapped"
  by (rule bankd_run_reach [OF ex_up_reach _ ex_mapped_run])
    (auto simp: ex_session_def ex_create_def ex_connect_def ex_server_doc ex_rx_doc)

section \<open>A worker that keeps a stale slot\<close>

text \<open>The first client disconnects, reconnects and is accepted by the other worker; then the
  server removes the mapping.\<close>

definition ex_lost :: bankd_input where
  "ex_lost = InWorker 0 ex_pcsc (ex_wenv PR_NOTHING) (WaitReady ([], Inr []) ([], Inr []))"

definition ex_remove :: bankd_input where
  "ex_remove = ex_server (removeMappingReq \<lparr>cs_clientId = 23, cs_slotNr = 0\<rparr> \<lparr>bs_bankId = 1, bs_slotNr = 0\<rparr>) None"

definition ex_move :: bankd_input where
  "ex_move = ex_server (createMappingReq \<lparr>cs_clientId = 23, cs_slotNr = 0\<rparr> \<lparr>bs_bankId = 1, bs_slotNr = 1\<rparr>) (Some 8)"

definition ex_reconnected :: "bankd_input list" where
  "ex_reconnected = ex_session @ [ex_lost, InAccept 1 6, ex_connect 1, ex_remove]"

definition ex_moved :: "bankd_input list" where
  "ex_moved = ex_reconnected @ [ex_move, InWorker 1 ex_pcsc (ex_wenv PR_NOTHING) WaitIntr]"

lemma ex_moved_doc: "inp \<in> set ex_moved \<Longrightarrow> input_doc inp"
  by (auto simp: ex_moved_def ex_reconnected_def ex_session_def ex_create_def ex_connect_def ex_lost_def ex_remove_def
      ex_move_def ex_server_doc ex_rx_doc ex_pcsc_doc)

lemma ex_reconnected_run:
  "case bankd_run ex_reconnected ex_up of None \<Rightarrow> False | Some b \<Rightarrow>
     slot_assoc (b_slotmaps b) (ex_bs 1 0) = None \<and>
     last (srvc_out (b_srvc b)) = TxRspro \<lparr>pdu_version = 2, pdu_tag = 0, pdu_msg = removeMappingRes ResultCode_ok\<rparr> \<and>
     w_state (b_workers b ! 1) = BW_ST_CONN_CLIENT_MAPPED_CARD \<and> w_slot (b_workers b ! 1) = ex_bs 1 0 \<and>
     w_clslot (b_workers b ! 1) = ex_cs 23 0 \<and> w_hCard (b_workers b ! 1) = 10"
  by code_simp

lemma ex_moved_run:
  "case bankd_run ex_moved ex_up of None \<Rightarrow> False | Some b \<Rightarrow>
     slot_assoc (b_slotmaps b) (ex_bs 1 1) = Some (ex_cs 23 0) \<and>
     w_state (b_workers b ! 1) = BW_ST_CONN_CLIENT_MAPPED_CARD \<and> w_slot (b_workers b ! 1) = ex_bs 1 1 \<and>
     w_clslot (b_workers b ! 1) = ex_cs 23 0 \<and> w_hCard (b_workers b ! 1) = 10 \<and>
     w_reader_name (b_workers b ! 1) = Some ''R0'' \<and> bankd_pcsc_get_slot_name b (ex_bs 1 1) = Some ''R1''"
  by code_simp


section \<open>A wake-up before the client has identified itself\<close>

text \<open>A worker whose wait is interrupted before its client has identified itself looks for a
  mapping of client slot 0:0 and changes to the state that waits for a mapping; the client's
  connectClientReq is then refused as unexpected and the connection is closed.\<close>

theorem interrupted_before_identity:
  "\<exists>b b1 w. bankd_reach b \<and> w_state (b_workers b ! 0) = BW_ST_CONN_WAIT_ID \<and>
     bankd_do (InWorker 0 ex_pcsc (ex_wenv PR_NOTHING) WaitIntr) b = Some b1 \<and>
     w_state (b_workers b1 ! 0) = BW_ST_CONN_CLIENT_WAIT_MAP \<and>
     bankd_do (ex_connect 0) b1 = Some w \<and> w_state (b_workers w ! 0) = BW_ST_ACCEPTING \<and>
     last (w_out (b_workers w ! 0)) = CloseFd 5"
proof -
  have run: "case bankd_run [InAccept 0 5] ex_up of None \<Rightarrow> False | Some b \<Rightarrow>
      w_state (b_workers b ! 0) = BW_ST_CONN_WAIT_ID \<and>
      (case bankd_do (InWorker 0 ex_pcsc (ex_wenv PR_NOTHING) WaitIntr) b of None \<Rightarrow> False | Some b1 \<Rightarrow>
         w_state (b_workers b1 ! 0) = BW_ST_CONN_CLIENT_WAIT_MAP \<and>
         (case bankd_do (ex_connect 0) b1 of None \<Rightarrow> False | Some w \<Rightarrow>
            w_state (b_workers w ! 0) = BW_ST_ACCEPTING \<and> last (w_out (b_workers w ! 0)) = CloseFd 5))"
    by code_simp
  then obtain b where b: "bankd_run [InAccept 0 5] ex_up = Some b"
    by (auto split: option.splits)
  have "bankd_reach b"
    by (rule bankd_run_reach [OF ex_up_reach _ b]) auto
  with run b show ?thesis
    by (auto split: option.splits)
qed

end
