(* ===== verification/Bankd_Relay.thy ===== *)
theory Bankd_Relay
  imports Bankd_Runs
begin

text \<open>
  The relay of TPDUs by the workers of remsim-bankd: which commands reach which card, the round
  robin over the Ki proxy pool, and the detection of resets of the modem.
\<close>

section \<open>Which commands reach which card\<close>

definition no_transmit :: "bankd_effect list \<Rightarrow> bool" where
  "no_transmit es \<longleftrightarrow> (\<forall>h d. ScTransmit h d \<notin> set es)"

text \<open>A worker's log grows, without a command for a card.\<close>

definition out_quiet :: "bankd_worker \<Rightarrow> bankd_worker \<Rightarrow> bool" where
  "out_quiet w w' \<longleftrightarrow> (\<exists>es. w_out w' = w_out w @ es \<and> no_transmit es)"

lemma out_quiet_refl [simp]: "out_quiet w w"
  by (simp add: out_quiet_def no_transmit_def)

lemma out_quiet_trans [trans]: "out_quiet u v \<Longrightarrow> out_quiet v w \<Longrightarrow> out_quiet u w"
  by (auto simp: out_quiet_def no_transmit_def)

lemma out_quiet_emit: "(\<And>h d. e \<noteq> ScTransmit h d) \<Longrightarrow> out_quiet w (bw_emit e w)"
  by (auto simp: out_quiet_def no_transmit_def)

lemma out_quiet_same: "w_out w' = w_out w \<Longrightarrow> out_quiet w w'"
  by (simp add: out_quiet_def no_transmit_def)

lemma out_quiet_sc: "\<exists>es. w_out w' = w_out w @ es \<and> (\<forall>e \<in> set es. is_sc e) \<Longrightarrow> out_quiet w w'"
  unfolding out_quiet_def no_transmit_def by fastforce

lemma out_quietD: "out_quiet w w' \<Longrightarrow> w_out w' = w_out w @ es \<Longrightarrow> no_transmit es"
  by (auto simp: out_quiet_def)

lemma send_rspro_quiet: "out_quiet w (snd (worker_send_rspro E w p))"
  by (auto simp: worker_send_rspro_def intro: out_quiet_emit split: option.split)

lemma send_atr_quiet: "out_quiet w (snd (worker_send_atr E b w))"
  by (auto simp: worker_send_atr_def Let_def
      intro: out_quiet_trans [OF out_quiet_emit send_rspro_quiet] out_quiet_emit send_rspro_quiet)

context card_driver
begin

lemma connectClientReq_quiet:
  assumes doc: "env_doc P" and wf: "slotmaps_wf (b_slotmaps b')" and inv: "worker_inv w"
    and st: "w_state w > BW_ST_ACCEPTING" and pdu: "pdu_msg pdu = connectClientReq cid cl"
    and S: "worker_handle_connectClientReq (driver P b) E b' w pdu = Some (rc, w')"
  shows "out_quiet w w'"
proof (cases "w_state w = BW_ST_CONN_WAIT_ID \<and> cl \<noteq> None")
  case False
  then show ?thesis
    using pdu S send_rspro_quiet [of w E]
    by (cases cl) (auto simp: worker_handle_connectClientReq_def Let_def split: if_splits)
next
  case True
  then obtain cs where cs: "cl = Some cs" "w_state w = BW_ST_CONN_WAIT_ID"
    by auto
  define w1 where "w1 = worker_set_state (w\<lparr>w_clslot := rspro2client_slot cs\<rparr>) BW_ST_CONN_CLIENT"
  have w1: "worker_inv w1" "w_state w1 > BW_ST_ACCEPTING" "out_quiet w w1"
    using inv cs by (auto simp: w1_def worker_inv_def bw_order intro: out_quiet_same)
  obtain r w2 where t: "worker_try_slotmap (driver P b) b' w1 = Some (r, w2)" "out_quiet w1 w2"
    using worker_try_slotmap_ok [OF doc wf w1(1,2), of b] by (blast intro: out_quiet_sc)
  define res where "res = (if r \<ge> 0 then ResultCode_ok else ResultCode_cardNotPresent)"
  obtain rc3 w3 where s: "worker_send_rspro E w2 (rspro_gen_ConnectClientRes (we_calloc E) (b_comp_id b') res) = (rc3, w3)"
    by (cases "worker_send_rspro E w2 (rspro_gen_ConnectClientRes (we_calloc E) (b_comp_id b') res)")
  have "out_quiet w2 w3"
    using send_rspro_quiet [of w2 E] s by (metis snd_conv)
  then have q: "out_quiet w w3"
    using w1(3) t(2) out_quiet_trans by blast
  have "worker_handle_connectClientReq (driver P b) E b' w pdu =
      (if rc3 < 0 then Some (rc3, w3) else if res = ResultCode_ok then Some (worker_send_atr E b' w3) else Some (rc3, w3))"
    using pdu cs t(1) s by (intro connectClientReq_accept [where cid = cid and cs = cs and r = r]) (simp_all add: w1_def res_def)
  then have "w' = w3 \<or> w' = snd (worker_send_atr E b' w3)"
    using S by (metis option.inject snd_conv)
  with q send_atr_quiet show ?thesis
    using out_quiet_trans by blast
qed

lemma statusInd_quiet:
  "out_quiet w (snd (worker_handle_clientSlotStatusInd (driver P b) w sps))"
proof -
  have r: "out_quiet w (snd (op_reset_card (driver P b) w c))" for c
    using reset_frame [OF prod.collapse [symmetric]] reader_frameD(10) out_quiet_sc by blast
  define d where "d = (if sps_vccPresent sps = Some 0 then
           (if last_vccPresent w then op_reset_card (driver P b) w True else (0, w))
         else if sps_resetActive sps \<noteq> 0 then
           (if \<not> last_resetActive w then op_reset_card (driver P b) w False else (0, w))
         else (0, w))"
  have "out_quiet w (snd d)"
    using r by (simp add: d_def)
  moreover have "w_out (snd (worker_handle_clientSlotStatusInd (driver P b) w sps)) = w_out (snd d)"
    by (simp add: worker_handle_clientSlotStatusInd_def d_def [symmetric] case_prod_beta split: option.split)
  ultimately show ?thesis
    by (metis out_quiet_def)
qed

end

text \<open>Whose card an exchange uses: the worker's own, or, for a RUN GSM ALGORITHM on a virtual
  slot with the proxy enabled, that of another worker with an open card in the same bank.\<close>

definition proxied :: "bankd \<Rightarrow> nat \<Rightarrow> nat \<Rightarrow> bytes \<Rightarrow> bool" where
  "proxied b i j data \<longleftrightarrow> ki_enabled b \<and> length data > 1 \<and> data ! 1 = 0x88 \<and> is_virtual_slot b (b_workers b ! i) \<and>
     j \<noteq> i \<and> j < length (b_workers b) \<and> w_state (b_workers b ! j) = BW_ST_CONN_CLIENT_MAPPED_CARD \<and>
     bank_id (w_slot (b_workers b ! j)) = bank_id (w_slot (b_workers b ! i))"

definition transmitted :: "nat \<Rightarrow> bytes \<Rightarrow> bankd \<Rightarrow> bankd \<Rightarrow> bool" where
  "transmitted j data b b' \<longleftrightarrow>
     b_workers b' = (b_workers b)[j := bw_emit (ScTransmit (w_hCard (b_workers b ! j)) data) (b_workers b ! j)]"

context card_driver
begin

lemma ki_proxy_transmits:
  assumes S: "worker_handle_ki_proxy (driver P b0) b i data = Some (rc, rx, b1)"
  shows "b_workers b1 = b_workers b \<or>
     (\<exists>j. transmitted j data b b1 \<and> j \<noteq> i \<and> j < length (b_workers b) \<and>
        w_state (b_workers b ! j) = BW_ST_CONN_CLIENT_MAPPED_CARD \<and>
        bank_id (w_slot (b_workers b ! j)) = bank_id (w_slot (b_workers b ! i)))"
proof (cases "data = []")
  case True
  then show ?thesis using S by (simp add: worker_handle_ki_proxy_def)
next
  case False
  then obtain sel b2 where c: "ki_choose b = Some (sel, b2)"
      and r: "(case sel of None \<Rightarrow> Some (-1, [], b2) | Some x \<Rightarrow> Some (ki_forward (driver P b0) b2 i x data)) = Some (rc, rx, b1)"
    using S by (auto simp: worker_handle_ki_proxy_def split: bind_splits)
  note w = ki_choose_workers [OF c]
  show ?thesis
  proof (cases sel)
    case (Some x)
    with r have "ki_forward (driver P b0) b2 i x data = (rc, rx, b1)" by simp
    from ki_forward_effect [OF this] w show ?thesis by (auto simp: transmitted_def)
  qed (use r w in simp)
qed

lemma tpdu_exchange_transmits:
  assumes S: "tpdu_exchange (driver P b0) b i data = Some (rc, rx, b1)" and i: "i < length (b_workers b)"
  shows "b_workers b1 = b_workers b \<or> (\<exists>j. transmitted j data b b1 \<and> (j = i \<or> proxied b i j data))"
proof (cases "ki_enabled b \<and> length data > 1 \<and> data ! 1 = 0x88 \<and> is_virtual_slot b (b_workers b ! i)")
  case True
  then show ?thesis
    using S ki_proxy_transmits [of P b0 b i data rc rx b1] by (auto simp: tpdu_exchange_def proxied_def)
next
  case False
  obtain rc' rx' w' where op: "op_transceive (driver P b0) (b_workers b ! i) data = (rc', rx', w')"
    by (cases "op_transceive (driver P b0) (b_workers b ! i) data")
  then have "b1 = set_worker i w' b"
    using S unfolding tpdu_exchange_def if_not_P [OF False] by simp
  then show ?thesis
    using transceive_frame [OF op] by (auto simp: transmitted_def)
qed

lemma tpdu_respond_quiet:
  assumes "j < length (b_workers b)"
  shows "out_quiet (b_workers b ! j) (b_workers (tpdu_respond E b i tb fc data rx) ! j)"
proof (cases "j = i")
  case True
  have "out_quiet w (bw_emit (GsmtapApdu data rx) (snd (worker_send_rspro E w p)))" for w p
    by (rule out_quiet_trans [OF send_rspro_quiet out_quiet_emit]) simp
  with True assms send_rspro_quiet show ?thesis
    by (simp add: tpdu_respond_def Let_def)
qed (simp add: tpdu_respond_def Let_def)

text \<open>The workers' logs after a message of client \<open>i\<close>.\<close>

lemma handle_rspro_transmits:
  assumes doc: "env_doc P" and inv: "bankd_inv b" and i: "i < length (b_workers b)"
    and st: "w_state (b_workers b ! i) > BW_ST_ACCEPTING"
    and S: "worker_handle_rspro (driver P b0) E b i pdu = Some (rc, b')" and j: "j < length (b_workers b)"
    and es: "w_out (b_workers b' ! j) = w_out (b_workers b ! j) @ es" and tx: "ScTransmit h d \<in> set es"
  shows "\<exists>fc tb fl. pdu_msg pdu = tpduModemToCard fc tb fl d \<and>
     w_state (b_workers b ! i) = BW_ST_CONN_CLIENT_MAPPED_CARD \<and>
     w_slot (b_workers b ! i) = rspro2bank_slot tb \<and> w_clslot (b_workers b ! i) = rspro2client_slot fc \<and>
     h = w_hCard (b_workers b ! j) \<and> (j = i \<or> proxied b i j d) \<and> (\<exists>as cs. es = as @ ScTransmit h d # cs \<and> no_transmit (as @ cs))"
proof -
  have loud: "\<not> out_quiet (b_workers b ! j) (b_workers b' ! j)"
    using out_quietD [OF _ es] tx by (auto simp: no_transmit_def)
  show ?thesis
  proof (cases "pdu_msg pdu")
    case (connectClientReq cid cl)
    then obtain w' where "worker_handle_connectClientReq (driver P b0) E b (b_workers b ! i) pdu = Some (rc, w')"
        "b' = set_worker i w' b"
      using S by (auto simp: worker_handle_rspro_def)
    with connectClientReq_quiet [OF doc bankd_invD(1) [OF inv] bankd_invD(3) [OF inv i] st connectClientReq, of b0 E rc w'] loud
    show ?thesis by (cases "j = i") (auto simp: i)
  next
    case (clientSlotStatusInd a c sps)
    then have "b' = set_worker i (snd (worker_handle_clientSlotStatusInd (driver P b0) (b_workers b ! i) sps)) b"
      using S by (simp add: worker_handle_rspro_def)
    with statusInd_quiet loud show ?thesis by (cases "j = i") (auto simp: i)
  next
    case (tpduModemToCard fc tb fl data)
    then have T: "worker_handle_tpduModemToCard (driver P b0) E b i pdu = Some (rc, b')"
      using S by (simp add: worker_handle_rspro_def)
    have ne: "b' \<noteq> b" using loud by auto
    then have pre: "w_state (b_workers b ! i) = BW_ST_CONN_CLIENT_MAPPED_CARD" "w_slot (b_workers b ! i) = rspro2bank_slot tb"
        "w_clslot (b_workers b ! i) = rspro2client_slot fc"
      using T tpduModemToCard
      by (auto simp: worker_handle_tpduModemToCard_def bank_slot_equals_def client_slot_equals_def Let_def split: if_splits)
    obtain rc1 rx b1 where ex: "tpdu_exchange (driver P b0) b i data = Some (rc1, rx, b1)"
        and b': "b' = b1 \<or> b' = tpdu_respond E b1 i tb fc data rx"
      using T tpduModemToCard pre
      by (auto simp: worker_handle_tpduModemToCard_def bank_slot_equals_def client_slot_equals_def Let_def split: if_splits bind_splits)
    have q: "out_quiet (b_workers b1 ! j) (b_workers b' ! j)" if "length (b_workers b1) = length (b_workers b)"
      using b' tpdu_respond_quiet [of j b1 E i tb fc data rx] that j by auto
    from tpdu_exchange_transmits [OF ex i] obtain k where k: "transmitted k data b b1" "k = i \<or> proxied b i k data"
      using q loud by auto
    have jk: "j = k"
      using q loud k(1) by (cases "j = k") (auto simp: transmitted_def)
    then have o1: "w_out (b_workers b1 ! j) = w_out (b_workers b ! j) @ [ScTransmit (w_hCard (b_workers b ! j)) data]"
      using k(1) j by (simp add: transmitted_def)
    obtain cs where "w_out (b_workers b' ! j) = w_out (b_workers b1 ! j) @ cs" "no_transmit cs"
      using q k(1) by (auto simp: out_quiet_def transmitted_def)
    with o1 es have "es = [] @ ScTransmit (w_hCard (b_workers b ! j)) data # cs" "no_transmit ([] @ cs)"
      by auto
    moreover have "h = w_hCard (b_workers b ! j)" "d = data"
      using calculation tx by (auto simp: no_transmit_def)
    ultimately show ?thesis
      using tpduModemToCard pre k(2) jk by blast
  qed (use S loud in \<open>auto simp: worker_handle_rspro_def\<close>)
qed

end


definition ex_tpdu :: RsproPDU_t where
  "ex_tpdu = \<lparr>pdu_version = 2, pdu_tag = 0,
     pdu_msg = tpduModemToCard \<lparr>cs_clientId = 23, cs_slotNr = 0\<rparr> \<lparr>bs_bankId = 1, bs_slotNr = 0\<rparr> no_flags [0xa0, 0xa4]\<rparr>"

definition ex_answer :: RsproPDU_t where
  "ex_answer = \<lparr>pdu_version = 2, pdu_tag = 0,
     pdu_msg = tpduCardToModem \<lparr>bs_bankId = 1, bs_slotNr = 0\<rparr> \<lparr>cs_clientId = 23, cs_slotNr = 0\<rparr> no_flags [10, 0x90, 0]\<rparr>"

lemma ex_tpdu_handled:
  "worker_handle_rspro (pcsc_driver_ops ex_pcsc ex_mapped) (ex_wenv PR_NOTHING) ex_mapped 0 ex_tpdu =
     Some (0, set_worker 0 (bw_emit (WTx ex_answer) (bw_emit (ScTransmit 10 [0xa0, 0xa4]) (b_workers ex_mapped ! 0))) ex_mapped)"
  using ex_mapped_sel
  by (simp add: worker_handle_rspro_def worker_handle_tpduModemToCard_def ex_tpdu_def tpdu_exchange_def
      pcsc_driver_ops_def pcsc_transceive_def tpdu_respond_def bank_slot_equals_def client_slot_equals_def
      rspro2bank_slot_def rspro2client_slot_def ex_bs_def ex_cs_def ex_pcsc_def ex_answer_def
      worker_send_rspro_def rspro_gen_TpduCard2Modem_def mk_pdu_def ex_wenv_def gsmtap_enabled_def set_worker_def int_of_long_def)


end
