(* ===== verification/Bankd_Session.thy ===== *)
theory Bankd_Session
  imports Bankd_Runs
begin

text \<open>
  A client's session with a worker of remsim-bankd: identification, the card's ATR, mappings that
  arrive later, and a mapping that goes away at a bad moment. Then the reading of IPA frames.
\<close>

section \<open>Opening the card\<close>

text \<open>The slot's name is known, a reader matches it, and the PC/SC calls succeed.\<close>

definition card_available :: "pcsc_env \<Rightarrow> bankd \<Rightarrow> string \<Rightarrow> string \<Rightarrow> nat \<Rightarrow> bytes \<Rightarrow> bool" where
  "card_available P b name reader h atr \<longleftrightarrow>
     fst (establish_r P) = SCARD_S_SUCCESS \<and> regcomp_r P name = 0 \<and> fst (list_readers_r P) = SCARD_S_SUCCESS \<and>
     List.find (\<lambda>p. regexec_r P name p = 0) (snd (list_readers_r P)) = Some reader \<and>
     connect_r P reader (bankd_share_mode b) = (SCARD_S_SUCCESS, h) \<and> status_r P h = (SCARD_S_SUCCESS, atr) \<and>
     length atr \<le> MAX_ATR_SIZE"

definition opened :: "pcsc_env \<Rightarrow> bankd \<Rightarrow> string \<Rightarrow> nat \<Rightarrow> bytes \<Rightarrow> bankd_worker \<Rightarrow> bankd_worker" where
  "opened P b reader h atr w =
     w\<lparr>w_hContext := snd (establish_r P), w_hCard := h, w_atr := buf_write (w_atr w) atr, w_atr_len := length atr,
       w_out := w_out w @ [ScEstablish, ScConnect reader (bankd_share_mode b)]\<rparr>"

lemma connect_matching_find:
  assumes "List.find (\<lambda>p. regexec_r P re p = 0) ps = Some p" "connect_r P p (bankd_share_mode b) = (SCARD_S_SUCCESS, h)"
  shows "connect_matching P b re ps w = (0, (bw_emit (ScConnect p (bankd_share_mode b)) w)\<lparr>w_hCard := h\<rparr>)"
  using assms by (induction ps) (auto split: if_splits)

lemma pcsc_open_available:
  assumes c: "card_available P b name reader h atr" and w: "w_hContext w = 0" "w_hCard w = 0" "w_reader_name w = Some name"
  shows "pcsc_open_card P b w = (0, opened P b reader h atr w)"
proof -
  define w1 where "w1 = (bw_emit ScEstablish w)\<lparr>w_hContext := snd (establish_r P)\<rparr>"
  have "pcsc_connect_slot_regex P b w1 = (0, (bw_emit (ScConnect reader (bankd_share_mode b)) w1)\<lparr>w_hCard := h\<rparr>)"
    using c w connect_matching_find [of P name "snd (list_readers_r P)" reader b h w1]
    by (simp add: pcsc_connect_slot_regex_def card_available_def w1_def case_prod_beta Let_def)
  moreover have "w_hCard w1 = 0" by (simp add: w1_def w)
  ultimately have "pcsc_open_card P b w = pcsc_get_atr P ((bw_emit (ScConnect reader (bankd_share_mode b)) w1)\<lparr>w_hCard := h\<rparr>)"
    using c w by (simp add: pcsc_open_card_def card_available_def w1_def [symmetric] case_prod_beta Let_def)
  with c show ?thesis
    by (simp add: pcsc_get_atr_def card_available_def opened_def w1_def bw_emit_def int_of_long_small Let_def)
qed

lemma take_buf_write: "take (length atr) (buf_write buf atr) = atr"
  by (simp add: buf_write_def)

text \<open>A worker without a card whose client is mapped to an available card.\<close>

lemma try_slotmap_available:
  assumes wf: "slotmaps_wf (b_slotmaps b)" and m: "slot_assoc (b_slotmaps b) bs = Some (w_clslot w)"
    and name: "bankd_pcsc_get_slot_name b bs = Some name" and c: "card_available P b name reader h atr"
    and w: "w_hContext w = 0" "w_hCard w = 0" "w_reader_name w = None"
  shows "worker_try_slotmap (pcsc_driver_ops P b) b w =
     Some (0, worker_set_state (opened P b reader h atr (w\<lparr>w_slot := bs, w_reader_name := Some name\<rparr>))
       BW_ST_CONN_CLIENT_MAPPED_CARD)"
proof -
  obtain p where p: "slotmap_by_client (b_slotmaps b) (w_clslot w) = Some p" "slotmap_by_bank (b_slotmaps b) bs = Some p"
    using sd.by_client_Some [OF wf] m slot_assoc_None [OF wf, of bs] by (metis option.distinct(1) option.exhaust)
  then obtain mp where mp: "sm_heap (b_slotmaps b) p = Some mp" "sm_bank mp = bs"
    using slotmap_by_bank_eq_Some [OF wf] by auto
  define w1 where "w1 = worker_set_state_timeout (w\<lparr>w_slot := bs\<rparr>) BW_ST_CONN_CLIENT_MAPPED 10"
  have "pcsc_open_card P b (w1\<lparr>w_reader_name := Some name\<rparr>) = (0, opened P b reader h atr (w1\<lparr>w_reader_name := Some name\<rparr>))"
    by (rule pcsc_open_available [OF c]) (simp_all add: w1_def w worker_set_state_timeout_def)
  then have "worker_open_card (pcsc_driver_ops P b) b w1 =
      Some (0, worker_set_state (opened P b reader h atr (w1\<lparr>w_reader_name := Some name\<rparr>)) BW_ST_CONN_CLIENT_MAPPED_CARD)"
    using name w by (simp add: worker_open_card_def pcsc_driver_ops_def w1_def worker_set_state_timeout_def Let_def)
  moreover have "worker_try_slotmap (pcsc_driver_ops P b) b w = worker_open_card (pcsc_driver_ops P b) b w1"
    using p mp by (simp add: worker_try_slotmap_def w1_def)
  ultimately show ?thesis
    by (simp add: w1_def worker_set_state_def worker_set_state_timeout_def opened_def)
qed

section \<open>Sessions\<close>

definition atr_pdu :: "client_slot \<Rightarrow> bytes \<Rightarrow> RsproPDU_t" where
  "atr_pdu cs atr = \<lparr>pdu_version = 2, pdu_tag = 0, pdu_msg = setAtrReq (client_slot2rspro cs) atr\<rparr>"

definition welcome_pdu :: "bankd \<Rightarrow> int \<Rightarrow> RsproPDU_t" where
  "welcome_pdu b res = \<lparr>pdu_version = 2, pdu_tag = 2342, pdu_msg = connectClientRes (fill_comp_id (b_comp_id b)) res\<rparr>"

text \<open>Sending to the client works, and there is no GSMTAP trace.\<close>

definition tx_ok :: "worker_env \<Rightarrow> bankd \<Rightarrow> bool" where
  "tx_ok E b \<longleftrightarrow> we_calloc E \<and> (\<forall>p. we_enc E p \<and> we_write E p) \<and> gsmtap_host b = None"

lemma send_tx_ok: "tx_ok E b \<Longrightarrow> worker_send_rspro E w (Some p) = (0, bw_emit (WTx p) w)"
  by (simp add: tx_ok_def worker_send_rspro_def)

lemma send_atr_tx_ok:
  "tx_ok E b \<Longrightarrow> worker_send_atr E b w = (0, bw_emit (WTx (atr_pdu (w_clslot w) (take (w_atr_len w) (w_atr w)))) w)"
  using send_tx_ok [of E b]
  by (simp add: worker_send_atr_def gsmtap_enabled_def tx_ok_def rspro_gen_SetAtrReq_def mk_pdu_def atr_pdu_def
      client_slot2rspro_def)

lemma welcome_tx_ok:
  "tx_ok E b \<Longrightarrow> rspro_gen_ConnectClientRes (we_calloc E) (b_comp_id b) res = Some (welcome_pdu b res)"
  by (simp add: tx_ok_def rspro_gen_ConnectClientRes_def mk_pdu_def welcome_pdu_def)

text \<open>C31. A client that identifies itself as a client slot with a mapping gets the card of the mapped
  bank slot: the worker opens the first reader that matches the slot's name, answers with result
  ok and then sends the card's ATR, in this order, and is ready for TPDUs.\<close>

theorem client_gets_card:
  assumes "bankd_reach b" "tx_ok E b" "i < length (b_workers b)"
    and "w_state w = BW_ST_CONN_WAIT_ID" "w_hContext w = 0" "w_hCard w = 0" "w_reader_name w = None" "w = b_workers b ! i"
    and "pdu_msg pdu = connectClientReq cid (Some cs)"
    and "slot_assoc (b_slotmaps b) bs = Some (rspro2client_slot cs)"
    and "bankd_pcsc_get_slot_name b bs = Some name" "card_available P b name reader h atr"
  shows "\<exists>w'. worker_handle_rspro (pcsc_driver_ops P b) E b i pdu = Some (0, set_worker i w' b) \<and>
     w_state w' = BW_ST_CONN_CLIENT_MAPPED_CARD \<and> w_slot w' = bs \<and> w_clslot w' = rspro2client_slot cs \<and>
     w_hCard w' = h \<and> w_timeout w' = 0 \<and>
     w_out w' = w_out w @ [ScEstablish, ScConnect reader (bankd_share_mode b), WTx (welcome_pdu b ResultCode_ok),
       WTx (atr_pdu (rspro2client_slot cs) atr)]"
proof -
  define w1 where "w1 = worker_set_state (w\<lparr>w_clslot := rspro2client_slot cs\<rparr>) BW_ST_CONN_CLIENT"
  define w2 where "w2 = worker_set_state (opened P b reader h atr (w1\<lparr>w_slot := bs, w_reader_name := Some name\<rparr>))
      BW_ST_CONN_CLIENT_MAPPED_CARD"
  have looked: "worker_try_slotmap (pcsc_driver_ops P b) b w1 = Some (0, w2)"
    unfolding w2_def
    by (rule try_slotmap_available [OF bankd_invD(1) [OF bankd_reach_inv [OF assms(1)]] _ assms(11,12)])
      (use assms in \<open>simp_all add: w1_def\<close>)
  define w3 where "w3 = bw_emit (WTx (welcome_pdu b ResultCode_ok)) w2"
  have "worker_handle_connectClientReq (pcsc_driver_ops P b) E b w pdu = Some (worker_send_atr E b w3)"
    using connectClientReq_accept [OF assms(9,4) looked [unfolded w1_def] refl, of E 0 w3] assms(2)
    by (simp add: welcome_tx_ok send_tx_ok w3_def)
  then have "worker_handle_rspro (pcsc_driver_ops P b) E b i pdu =
      Some (0, set_worker i (bw_emit (WTx (atr_pdu (rspro2client_slot cs) atr)) w3) b)"
    using assms(2,8,9)
    by (simp add: worker_handle_rspro_def send_atr_tx_ok w3_def w2_def w1_def opened_def take_buf_write)
  then show ?thesis
    by (intro exI [of _ "bw_emit (WTx (atr_pdu (rspro2client_slot cs) atr)) w3"])
      (simp add: w3_def w2_def w1_def opened_def)
qed

text \<open>The example daemon with a mapping and a connected client that has not identified itself, and
  with a client that has identified itself before its mapping was made.\<close>

definition ex_waiting_tr :: "bankd_input list" where
  "ex_waiting_tr = [ex_create, InAccept 0 5]"

definition ex_early_tr :: "bankd_input list" where
  "ex_early_tr = [InAccept 0 5, ex_connect 0, ex_create]"

definition ex_waiting :: bankd where
  "ex_waiting = the (bankd_run ex_waiting_tr ex_up)"

definition ex_early :: bankd where
  "ex_early = the (bankd_run ex_early_tr ex_up)"

definition ex_ready :: "bankd_worker_state \<Rightarrow> bankd \<Rightarrow> bool" where
  "ex_ready st b \<longleftrightarrow> length (b_workers b) = 2 \<and> w_state (b_workers b ! 0) = st \<and> w_hContext (b_workers b ! 0) = 0 \<and>
     w_hCard (b_workers b ! 0) = 0 \<and> w_reader_name (b_workers b ! 0) = None \<and> gsmtap_host b = None \<and>
     slot_assoc (b_slotmaps b) (ex_bs 1 0) = Some (ex_cs 23 0) \<and>
     bankd_pcsc_get_slot_name b (ex_bs 1 0) = Some ''R0''"

lemma ex_waiting_run:
  "case bankd_run ex_waiting_tr ex_up of None \<Rightarrow> False | Some b \<Rightarrow> ex_ready BW_ST_CONN_WAIT_ID b"
  by code_simp

lemma ex_early_run:
  "case bankd_run ex_early_tr ex_up of None \<Rightarrow> False | Some b \<Rightarrow>
     ex_ready BW_ST_CONN_CLIENT_WAIT_MAP b \<and> w_clslot (b_workers b ! 0) = ex_cs 23 0"
  by code_simp

lemma ex_trs_doc: "inp \<in> set ex_waiting_tr \<union> set ex_early_tr \<Longrightarrow> input_doc inp"
  by (auto simp: ex_waiting_tr_def ex_early_tr_def ex_create_def ex_connect_def ex_server_doc ex_rx_doc)

lemma ex_waiting_ok: "bankd_reach ex_waiting" "ex_ready BW_ST_CONN_WAIT_ID ex_waiting"
  using run_facts [OF ex_waiting_run] bankd_run_reach [OF ex_up_reach ex_trs_doc, of ex_waiting_tr]
  by (simp_all add: ex_waiting_def)

lemma ex_early_ok:
  "bankd_reach ex_early" "ex_ready BW_ST_CONN_CLIENT_WAIT_MAP ex_early" "w_clslot (b_workers ex_early ! 0) = ex_cs 23 0"
  using run_facts [OF ex_early_run] bankd_run_reach [OF ex_up_reach ex_trs_doc, of ex_early_tr]
  by (simp_all add: ex_early_def)

lemma ex_card: "card_available ex_pcsc b ''R0'' ''R0'' 10 [0x3b, 10]"
  by (simp add: card_available_def ex_pcsc_def MAX_ATR_SIZE_def)

lemma ex_tx: "gsmtap_host b = None \<Longrightarrow> tx_ok (ex_wenv m) b"
  by (simp add: tx_ok_def ex_wenv_def)

theorem client_gets_card_witness:
  "\<exists>w'. worker_handle_rspro (pcsc_driver_ops ex_pcsc ex_waiting) (ex_wenv PR_NOTHING) ex_waiting 0
        \<lparr>pdu_version = 2, pdu_tag = 0,
         pdu_msg = connectClientReq (fill_comp_id ex_comp_id) (Some \<lparr>cs_clientId = 23, cs_slotNr = 0\<rparr>)\<rparr> =
        Some (0, set_worker 0 w' ex_waiting) \<and> w_state w' = BW_ST_CONN_CLIENT_MAPPED_CARD \<and> w_hCard w' = 10"
proof -
  note r = ex_waiting_ok(2) [unfolded ex_ready_def]
  have cs: "rspro2client_slot \<lparr>cs_clientId = 23, cs_slotNr = 0\<rparr> = ex_cs 23 0"
    by (simp add: rspro2client_slot_def ex_cs_def)
  have "\<exists>w'. worker_handle_rspro (pcsc_driver_ops ex_pcsc ex_waiting) (ex_wenv PR_NOTHING) ex_waiting 0
        \<lparr>pdu_version = 2, pdu_tag = 0,
         pdu_msg = connectClientReq (fill_comp_id ex_comp_id) (Some \<lparr>cs_clientId = 23, cs_slotNr = 0\<rparr>)\<rparr> =
        Some (0, set_worker 0 w' ex_waiting) \<and> w_state w' = BW_ST_CONN_CLIENT_MAPPED_CARD \<and> w_slot w' = ex_bs 1 0 \<and>
     w_clslot w' = rspro2client_slot \<lparr>cs_clientId = 23, cs_slotNr = 0\<rparr> \<and>
     w_hCard w' = 10 \<and> w_timeout w' = 0 \<and>
     w_out w' = w_out (b_workers ex_waiting ! 0) @ [ScEstablish, ScConnect ''R0'' (bankd_share_mode ex_waiting),
       WTx (welcome_pdu ex_waiting ResultCode_ok),
       WTx (atr_pdu (rspro2client_slot \<lparr>cs_clientId = 23, cs_slotNr = 0\<rparr>) [0x3b, 10])]"
    by (rule client_gets_card [where bs = "ex_bs 1 0", OF ex_waiting_ok(1) _ _ _ _ _ _ refl _ _ _ ex_card])
      (use r in \<open>simp_all add: ex_tx cs\<close>)
  then show ?thesis by blast
qed

text \<open>A client that connects before its mapping exists waits. When the waiting worker looks again
  because ten seconds have passed, it opens the card and sends the ATR; when the main thread wakes
  it up with SIGMAPADD, it opens the card in the same way but sends the client nothing, and no
  later timeout does: the client does not get the ATR.\<close>

theorem mapping_added_atr:
  assumes "bankd_reach b" "tx_ok E b" "i < length (b_workers b)"
    and "w = b_workers b ! i" "w_state w = BW_ST_CONN_CLIENT_WAIT_MAP" "w_hContext w = 0" "w_hCard w = 0"
      "w_reader_name w = None"
    and "slot_assoc (b_slotmaps b) bs = Some (w_clslot w)"
    and "bankd_pcsc_get_slot_name b bs = Some name" "card_available P b name reader h atr"
  shows "\<exists>w1 w2. bankd_do (InWorker i P E WaitTimeout) b = Some (set_worker i w1 b) \<and>
     bankd_do (InWorker i P E WaitIntr) b = Some (set_worker i w2 b) \<and>
     w_state w1 = BW_ST_CONN_CLIENT_MAPPED_CARD \<and> w_state w2 = BW_ST_CONN_CLIENT_MAPPED_CARD \<and>
     w_out w1 = w_out w @ [ScEstablish, ScConnect reader (bankd_share_mode b), WTx (atr_pdu (w_clslot w) atr)] \<and>
     w_out w2 = w_out w @ [ScEstablish, ScConnect reader (bankd_share_mode b)] \<and> w_timeout w2 = 0"
proof -
  define w2 where "w2 = worker_set_state (opened P b reader h atr (w\<lparr>w_slot := bs, w_reader_name := Some name\<rparr>))
      BW_ST_CONN_CLIENT_MAPPED_CARD"
  have looked: "worker_try_slotmap (pcsc_driver_ops P b) b w = Some (0, w2)"
    unfolding w2_def
    by (rule try_slotmap_available [OF bankd_invD(1) [OF bankd_reach_inv [OF assms(1)]] assms(9-11) assms(6-8)])
  have "bankd_do (InWorker i P E WaitIntr) b = Some (set_worker i w2 b)"
    using assms(4,5) looked by (simp add: worker_main_loop_def Let_def)
  moreover have "bankd_do (InWorker i P E WaitTimeout) b =
      Some (set_worker i (bw_emit (WTx (atr_pdu (w_clslot w) atr)) w2) b)"
    using assms(2-5) looked
    by (simp add: worker_main_loop_def worker_timeout_def send_atr_tx_ok w2_def opened_def take_buf_write)
  ultimately show ?thesis
    by (intro exI [of _ "bw_emit (WTx (atr_pdu (w_clslot w) atr)) w2"] exI [of _ w2]) (simp add: w2_def opened_def)
qed

theorem mapping_added_atr_witness:
  "\<exists>w1 w2. bankd_do (InWorker 0 ex_pcsc (ex_wenv PR_NOTHING) WaitTimeout) ex_early = Some (set_worker 0 w1 ex_early) \<and>
     bankd_do (InWorker 0 ex_pcsc (ex_wenv PR_NOTHING) WaitIntr) ex_early = Some (set_worker 0 w2 ex_early) \<and>
     last (w_out w1) = WTx (atr_pdu (ex_cs 23 0) [0x3b, 10]) \<and> last (w_out w2) = ScConnect ''R0'' (bankd_share_mode ex_early)"
proof -
  note r = ex_early_ok(2) [unfolded ex_ready_def]
  have "\<exists>w1 w2. bankd_do (InWorker 0 ex_pcsc (ex_wenv PR_NOTHING) WaitTimeout) ex_early = Some (set_worker 0 w1 ex_early) \<and>
     bankd_do (InWorker 0 ex_pcsc (ex_wenv PR_NOTHING) WaitIntr) ex_early = Some (set_worker 0 w2 ex_early) \<and>
     w_state w1 = BW_ST_CONN_CLIENT_MAPPED_CARD \<and> w_state w2 = BW_ST_CONN_CLIENT_MAPPED_CARD \<and>
     w_out w1 = w_out (b_workers ex_early ! 0) @ [ScEstablish, ScConnect ''R0'' (bankd_share_mode ex_early),
       WTx (atr_pdu (w_clslot (b_workers ex_early ! 0)) [0x3b, 10])] \<and>
     w_out w2 = w_out (b_workers ex_early ! 0) @ [ScEstablish, ScConnect ''R0'' (bankd_share_mode ex_early)] \<and>
     w_timeout w2 = 0"
    by (rule mapping_added_atr [where bs = "ex_bs 1 0", OF ex_early_ok(1) _ _ refl _ _ _ _ _ _ ex_card])
      (use r ex_early_ok(3) in \<open>simp_all add: ex_tx\<close>)
  then show ?thesis
    using ex_early_ok(3) by (elim exE conjE) (intro exI conjI, assumption+, simp_all)
qed

section \<open>Signals at a bad moment\<close>

text \<open>SIGMAPDEL is delivered asynchronously. When it arrives between the lookup of the mapping and
  \<open>worker_open_card\<close>, or after \<open>select\<close> has timed out and before the state is examined, an assertion
  fails and the daemon aborts. When it arrives while the driver opens the card, the worker
  forgets it: it ends up ready for TPDUs, with no bank slot.\<close>

theorem mapdel_race:
  assumes "w_state w = BW_ST_CONN_CLIENT_MAPPED" "w_reader_name w \<noteq> None"
  shows "worker_open_card D b (deliver SIGMAPDEL w) = None \<and> worker_timeout D E b (deliver SIGMAPDEL w) = None \<and>
     (\<exists>w'. worker_open_card (D\<lparr>op_open_card := (\<lambda>w. (0, deliver SIGMAPDEL w))\<rparr>) b w = Some (0, w') \<and>
        w_state w' = BW_ST_CONN_CLIENT_MAPPED_CARD \<and> w_slot w' = no_slot)"
  using assms by (auto simp: handle_sig_mapdel_def worker_open_card_def worker_timeout_def Let_def)

definition ex_worker :: bankd_worker where
  "ex_worker = \<lparr>w_num = 0, w_state = BW_ST_CONN_CLIENT_MAPPED, w_timeout = 10, w_slot = ex_bs 1 0, w_fd = 5,
     w_clslot = ex_cs 23 0, w_reader_name = Some ''R0'', w_hContext = 3, w_hCard = 10,
     w_atr = replicate MAX_ATR_SIZE 0, w_atr_len = 0, last_vccPresent = True, last_resetActive = False, w_out = []\<rparr>"

theorem mapdel_race_witness:
  "worker_open_card (pcsc_driver_ops ex_pcsc ex_bankd) ex_bankd (deliver SIGMAPDEL ex_worker) = None \<and>
   worker_timeout (pcsc_driver_ops ex_pcsc ex_bankd) (ex_wenv PR_NOTHING) ex_bankd (deliver SIGMAPDEL ex_worker) = None"
  using mapdel_race [of ex_worker "pcsc_driver_ops ex_pcsc ex_bankd" ex_bankd "ex_wenv PR_NOTHING"]
  by (simp add: ex_worker_def)

section \<open>Frames\<close>

text \<open>Reading one IPA message: a header that announces \<open>n\<close> bytes and a body of \<open>n\<close> bytes give exactly
  these bytes when they fit into the buffer, that is up to 65533 bytes; a longer body, which the
  16-bit length field allows, is written beyond the end of the buffer. A short header or body is
  refused.\<close>

theorem ipa_read_frame:
  assumes "length h \<le> 3" "length h = 3 \<Longrightarrow> length d \<le> ntohs (h ! 0) (h ! 1)"
  shows "blocking_ipa_read 65536 ([], Inr h) ([], Inr d) w =
     (if length h < 3 then Some (-2, h, w)
      else if length d > 65533 then None
      else if length d < ntohs (h ! 0) (h ! 1) then Some (-3, h @ d, w)
      else Some (int (length d), h @ d, w)) \<and> ntohs 0xff 0xff = 65535"
  using assms by (auto simp: blocking_ipa_read_def sizeof_ipaccess_head_def ntohs_def)

theorem ipa_read_frame_witness:
  "blocking_ipa_read 65536 ([], Inr [0, 2, 0xee]) ([], Inr [7, 9]) ex_worker = Some (2, [0, 2, 0xee, 7, 9], ex_worker) \<and>
   blocking_ipa_read 65536 ([], Inr [0xff, 0xff, 0xee]) ([], Inr (replicate 65535 0)) ex_worker = None"
  using ipa_read_frame [of "[0, 2, 0xee]" "[7, 9]" ex_worker]
    ipa_read_frame [of "[0xff, 0xff, 0xee]" "replicate 65535 0" ex_worker]
  by (simp add: ntohs_def)

end
