(* ===== verification/Bankd_Config.thy ===== *)
theory Bankd_Config
  imports Bankd_System
begin

text \<open>
  Configuration of remsim-bankd and the functions driven by it alone: the list of physical
  slots for the Ki proxy on the command line, the round robin over it, and the resets that a
  client's slot status causes.
\<close>

section \<open>The list of slots\<close>

text \<open>A list of ranges as a user writes it.\<close>

definition show_range :: "nat \<times> nat \<Rightarrow> string" where
  "show_range r = dec_digits (fst r) @ CHR ''-'' # dec_digits (snd r)"

fun show_ranges :: "(nat \<times> nat) list \<Rightarrow> string" where
  "show_ranges [] = []"
| "show_ranges [r] = show_range r"
| "show_ranges (r # rs) = show_range r @ CHR '','' # show_ranges rs"

definition range_ok :: "nat \<times> nat \<Rightarrow> bool" where
  "range_ok r \<longleftrightarrow> fst r \<le> snd r \<and> snd r \<le> 1023"

definition range_slots :: "nat \<times> nat \<Rightarrow> nat list" where
  "range_slots r = [fst r..<snd r + 1]"

lemma digit_not: "ch \<in> set (dec_digits n) \<Longrightarrow> ch \<noteq> CHR ''-'' \<and> ch \<noteq> CHR '',''"
  using dec_digits_digits [of ch n] by (auto simp: c_isdigit_def)

lemma atoi_dec:
  assumes "n < 2 ^ 31"
  shows "atoi (dec_digits n) = Some (int n)"
  using assms split_sign_digits [OF dec_digits_nonempty dec_digits_digits, of n]
  by (simp add: atoi_def digits_value_dec)

lemma split_on_sep: "d \<notin> set x \<Longrightarrow> split_on d (x @ d # r) = x # split_on d r"
  by (induction x) auto

lemma split_on_none: "d \<notin> set x \<Longrightarrow> split_on d x = [x]"
  by (induction x) auto

lemma show_range_sep: "CHR '','' \<notin> set (show_range r)" and show_range_nonempty: "show_range r \<noteq> []"
  using digit_not by (auto simp: show_range_def)

lemma strtok_ranges: "strtok_all (CHR '','') (show_ranges rs) = map show_range rs"
proof (induction rs rule: show_ranges.induct)
  case 1
  then show ?case by (simp add: strtok_all_def)
next
  case (2 r)
  then show ?case
    by (simp add: strtok_all_def split_on_none [OF show_range_sep] show_range_nonempty)
next
  case (3 r r' rs)
  then show ?case
    by (simp add: strtok_all_def split_on_sep [OF show_range_sep] show_range_nonempty)
qed

lemma dash_split_range: "dash_split (show_range r) = Some (dec_digits (fst r), dec_digits (snd r))"
proof -
  have tw: "takeWhile (\<lambda>c. c \<noteq> CHR ''-'') (dec_digits n @ CHR ''-'' # s) = dec_digits n"
    and dw: "dropWhile (\<lambda>c. c \<noteq> CHR ''-'') (dec_digits n @ CHR ''-'' # s) = CHR ''-'' # s" for n s
    using digit_not by (auto simp: takeWhile_append2 dropWhile_append2)
  show ?thesis
    by (simp add: dash_split_def show_range_def tw dw)
qed

lemma parse_ranges:
  assumes "\<And>r. r \<in> set rs \<Longrightarrow> range_ok r" "length (acc @ concat (map range_slots rs)) \<le> 1024"
  shows "parse_proxy_slots (map show_range rs) acc = SlotsOk (acc @ concat (map range_slots rs))"
  using assms
proof (induction rs arbitrary: acc)
  case (Cons r rs)
  have r: "fst r \<le> snd r" "snd r \<le> 1023"
    using Cons.prems(1) [of r] by (simp_all add: range_ok_def)
  then have at: "atoi (dec_digits (fst r)) = Some (int (fst r))" "atoi (dec_digits (snd r)) = Some (int (snd r))"
    by (simp_all add: atoi_dec)
  have len: "length acc + length (range_slots r) \<le> 1024" "length (range_slots r) \<ge> 1"
    using Cons.prems(2) r by (simp_all add: range_slots_def)
  then have t: "take (1024 - length acc) [fst r..<Suc (snd r)] = range_slots r"
    by (simp add: range_slots_def)
  have "parse_proxy_slots (map show_range (r # rs)) acc = parse_proxy_slots (map show_range rs) (acc @ range_slots r)"
    using len r by (simp add: dash_split_range at t del: upt_Suc)
  also have "\<dots> = SlotsOk ((acc @ range_slots r) @ concat (map range_slots rs))"
    by (rule Cons.IH) (use Cons.prems in simp_all)
  finally show ?case by simp
qed simp

lemma parse_step:
  assumes "parse_proxy_slots (t # toks) acc = SlotsOk slots" "length acc < 1024"
  obtains new where "parse_proxy_slots toks (acc @ new) = SlotsOk slots" "length (acc @ new) \<le> 1024"
    "\<forall>s \<in> set new. s \<le> 1023"
proof (cases "dash_split t")
  case None
  with assms that [of "[nat v]" for v] show ?thesis
    by (auto split: option.splits if_splits)
next
  case (Some ab)
  with assms obtain a b where "parse_proxy_slots toks (acc @ take (1024 - length acc) [nat a..<Suc (nat b)]) = SlotsOk slots"
    "b \<le> 1023"
    by (auto split: option.splits if_splits prod.splits simp del: upt_Suc)
  moreover from \<open>b \<le> 1023\<close> have "\<forall>s \<in> set (take (1024 - length acc) [nat a..<Suc (nat b)]). s \<le> 1023"
    by (auto dest!: in_set_takeD simp del: upt_Suc)
  ultimately show ?thesis
    using assms(2) by (intro that) (auto simp del: upt_Suc)
qed

lemma parse_bounds:
  "parse_proxy_slots toks acc = SlotsOk slots \<Longrightarrow> length acc \<le> 1024 \<Longrightarrow> \<forall>s \<in> set acc. s \<le> 1023 \<Longrightarrow>
   length slots \<le> 1024 \<and> (\<forall>s \<in> set slots. s \<le> 1023)"
proof (induction toks arbitrary: acc)
  case (Cons t toks)
  show ?case
  proof (cases "length acc \<ge> 1024")
    case True
    with Cons.prems show ?thesis by simp
  next
    case False
    obtain new where "parse_proxy_slots toks (acc @ new) = SlotsOk slots"
      "length (acc @ new) \<le> 1024" "\<forall>s \<in> set new. s \<le> 1023"
      using parse_step [OF Cons.prems(1)] False by auto
    with Cons.prems(3) show ?thesis
      by (intro Cons.IH [of "acc @ new"]) auto
  qed
qed simp

text \<open>The list of proxy slots on the command line is read back exactly: printing any list of valid
  ranges that is not longer than the 1024 entries of the array and parsing it gives the slots of
  the ranges in order. Whatever is given, an accepted list has at most 1024 entries, each a slot
  number up to 1023, so the array is never left.\<close>

theorem proxy_slots_roundtrip:
  "((\<forall>r \<in> set rs. range_ok r) \<longrightarrow> length (concat (map range_slots rs)) \<le> 1024 \<longrightarrow>
      parse_proxy_slots (strtok_all (CHR '','') (show_ranges rs)) [] = SlotsOk (concat (map range_slots rs))) \<and>
   (parse_proxy_slots (strtok_all (CHR '','') s) [] = SlotsOk slots \<longrightarrow>
      length slots \<le> 1024 \<and> (\<forall>x \<in> set slots. x \<le> 1023))"
  using parse_ranges [of rs "[]"] parse_bounds [of _ "[]"] by (auto simp: strtok_ranges)

theorem proxy_slots_roundtrip_witness:
  "parse_proxy_slots (strtok_all (CHR '','') (show_ranges [(1, 3), (20, 20)])) [] = SlotsOk [1, 2, 3, 20]"
  using proxy_slots_roundtrip [of "[(1, 3), (20, 20)]"] by (simp add: range_ok_def range_slots_def upt_rec)

section \<open>Round robin\<close>

text \<open>Successive selections.\<close>

fun ki_picks :: "nat \<Rightarrow> nat list \<Rightarrow> nat \<Rightarrow> nat \<Rightarrow> nat option list option" where
  "ki_picks ns pool 0 idx = Some []"
| "ki_picks ns pool (Suc k) idx =
     do { (s, idx') \<leftarrow> ki_select ns pool (length pool) idx; r \<leftarrow> ki_picks ns pool k idx'; Some (s # r) }"

lemma take_rotate_Suc:
  assumes "idx < length pool" "Suc k \<le> length pool"
  shows "take (Suc k) (rotate idx pool) = pool ! idx # take k (rotate ((idx + 1) mod length pool) pool)"
proof (rule nth_equalityI)
  fix j assume j: "j < length (take (Suc k) (rotate idx pool))"
  show "take (Suc k) (rotate idx pool) ! j = (pool ! idx # take k (rotate ((idx + 1) mod length pool) pool)) ! j"
  proof (cases j)
    case 0
    then show ?thesis using assms nth_rotate [of 0 pool idx] by fastforce
  next
    case (Suc i)
    then show ?thesis using assms j by (simp add: nth_rotate mod_add_left_eq)
  qed
qed (use assms in simp)

lemma ki_select_find:
  assumes "idx < length pool" "k \<le> length pool"
  shows "\<exists>idx'. ki_select ns pool k idx = Some (List.find (\<lambda>s. s < ns) (take k (rotate idx pool)), idx')"
  using assms
proof (induction k arbitrary: idx)
  case (Suc k)
  have lt: "(idx + 1) mod length pool < length pool"
    using Suc.prems by (intro mod_less_divisor) auto
  from Suc.IH [OF lt] Suc.prems take_rotate_Suc [OF Suc.prems] show ?case
    by (auto simp: Let_def)
qed simp

lemma ki_picks_valid:
  assumes "\<And>s. s \<in> set pool \<Longrightarrow> s < ns" "idx < length pool"
  shows "ki_picks ns pool k idx = Some (map (\<lambda>j. Some (pool ! ((idx + j) mod length pool))) [0..<k])"
  using assms(2)
proof (induction k arbitrary: idx)
  case (Suc k)
  define n where "n = length pool"
  obtain m where m: "length pool = Suc m"
    using Suc.prems by (cases "length pool") auto
  have sel: "ki_select ns pool (length pool) idx = Some (Some (pool ! idx), (idx + 1) mod length pool)"
    using Suc.prems assms(1) [of "pool ! idx"] by (simp add: m leD)
  have lt: "(idx + 1) mod length pool < length pool"
    using Suc.prems by (intro mod_less_divisor) auto
  have "map (\<lambda>j. Some (pool ! ((idx + j) mod n))) [0..<Suc k] =
      Some (pool ! idx) # map (\<lambda>j. Some (pool ! (((idx + 1) mod n + j) mod n))) [0..<k]"
    unfolding map_upt_Suc using Suc.prems by (simp add: n_def mod_add_left_eq)
  with Suc.IH [OF lt] sel show ?case
    by (simp add: n_def del: ki_select.simps upt_Suc)
qed simp

text \<open>The Ki proxy selects slots in turn: one request takes the first slot of the pool, counted
  cyclically from the saved index, that the bank has, and none only when the bank has none of
  them; and when it has all of them, as many consecutive requests as the pool has slots use every
  slot of the pool exactly once, in the order of the pool. The index stays inside the pool.\<close>

theorem ki_round_robin:
  assumes "idx < length pool"
  shows "(\<exists>idx'. ki_select ns pool (length pool) idx = Some (List.find (\<lambda>s. s < ns) (rotate idx pool), idx') \<and>
        idx' < length pool) \<and>
     ((\<forall>s \<in> set pool. s < ns) \<longrightarrow> ki_picks ns pool (length pool) idx = Some (map Some (rotate idx pool)))"
proof -
  obtain idx' where s: "ki_select ns pool (length pool) idx = Some (List.find (\<lambda>s. s < ns) (rotate idx pool), idx')"
    using ki_select_find [OF assms order_refl, of ns] by auto
  moreover have "idx' < length pool"
    using ki_select_ok [OF assms, of ns "length pool"] s by auto
  moreover have "map (\<lambda>j. Some (pool ! ((idx + j) mod length pool))) [0..<length pool] = map Some (rotate idx pool)"
    by (rule nth_equalityI) (simp_all add: nth_rotate)
  ultimately show ?thesis
    using ki_picks_valid [OF _ assms, of ns] by auto
qed

lemma ex_pool: "length [4, 5, 6::nat] = 3" "rotate 1 [4, 5, 6::nat] = [5, 6, 4]"
  by simp_all

theorem ki_round_robin_witness: "ki_picks 8 [4, 5, 6] 3 1 = Some [Some 5, Some 6, Some 4]"
proof -
  have "1 < length [4, 5, 6::nat]" "\<forall>s \<in> set [4, 5, 6]. s < (8::nat)" by simp_all
  then have "ki_picks 8 [4, 5, 6] (length [4, 5, 6::nat]) 1 = Some (map Some (rotate 1 [4, 5, 6]))"
    using ki_round_robin [of 1 "[4, 5, 6]" 8] by blast
  then show ?thesis
    unfolding ex_pool list.map .
qed

section \<open>Resets\<close>

text \<open>The level of a line after a sequence of indications: the last one that tells it, or the level
  before.\<close>

definition vcc_level :: "bool \<Rightarrow> SlotPhysStatus_t list \<Rightarrow> bool" where
  "vcc_level v ss = (case rev (List.map_filter sps_vccPresent ss) of [] \<Rightarrow> v | x # _ \<Rightarrow> x \<noteq> 0)"

definition rst_level :: "bool \<Rightarrow> SlotPhysStatus_t list \<Rightarrow> bool" where
  "rst_level r ss = (case rev ss of [] \<Rightarrow> r | s # _ \<Rightarrow> sps_resetActive s \<noteq> 0)"

text \<open>The reset that indication \<open>j\<close> stands for: a falling edge of the supply (\<open>True\<close>, cold), or a rising
  edge of the reset line while the supply is on or not told (\<open>False\<close>, warm).\<close>

definition reset_at :: "bool \<Rightarrow> bool \<Rightarrow> SlotPhysStatus_t list \<Rightarrow> nat \<Rightarrow> bool list" where
  "reset_at v r ss j =
     (if sps_vccPresent (ss ! j) = Some 0 then (if vcc_level v (take j ss) then [True] else [])
      else if sps_resetActive (ss ! j) \<noteq> 0 \<and> \<not> rst_level r (take j ss) then [False] else [])"

definition handle_statuses :: "bankd_driver_ops \<Rightarrow> bankd_worker \<Rightarrow> SlotPhysStatus_t list \<Rightarrow> bankd_worker" where
  "handle_statuses D w ss = foldl (\<lambda>w s. snd (worker_handle_clientSlotStatusInd D w s)) w ss"

lemma vcc_level_snoc: "vcc_level v (ss @ [s]) = (case sps_vccPresent s of None \<Rightarrow> vcc_level v ss | Some x \<Rightarrow> x \<noteq> 0)"
  by (simp add: vcc_level_def List.map_filter_def split: option.split)

lemma rst_level_snoc: "rst_level r (ss @ [s]) = (sps_resetActive s \<noteq> 0)"
  by (simp add: rst_level_def)

lemma reset_card_effects:
  "w_out (snd (pcsc_reset_card P b w c)) = w_out w @ [ScReconnect (w_hCard w) (bankd_share_mode b) c]"
  "w_hCard (snd (pcsc_reset_card P b w c)) = w_hCard w"
  "last_vccPresent (snd (pcsc_reset_card P b w c)) = last_vccPresent w"
  "last_resetActive (snd (pcsc_reset_card P b w c)) = last_resetActive w"
  by (simp_all add: pcsc_reset_card_def pcsc_get_atr_def Let_def split: prod.split)

lemma status_step:
  fixes P b w s defines "w' \<equiv> snd (worker_handle_clientSlotStatusInd (pcsc_driver_ops P b) w s)"
  shows "w_out w' = w_out w @ map (ScReconnect (w_hCard w) (bankd_share_mode b))
       (if sps_vccPresent s = Some 0 then (if last_vccPresent w then [True] else [])
        else if sps_resetActive s \<noteq> 0 \<and> \<not> last_resetActive w then [False] else [])"
    "w_hCard w' = w_hCard w" "last_resetActive w' = (sps_resetActive s \<noteq> 0)"
    "last_vccPresent w' = (case sps_vccPresent s of None \<Rightarrow> last_vccPresent w | Some x \<Rightarrow> x \<noteq> 0)"
  using reset_card_effects [of P b w True] reset_card_effects [of P b w False]
  by (auto simp: w'_def worker_handle_clientSlotStatusInd_def pcsc_driver_ops_def Let_def case_prod_beta split: option.split)

text \<open>C28. The resets that bankd performs on a card are exactly those of the modem's lines: for any
  sequence of status indications, the PC/SC reconnections are one cold reset for every falling
  edge of the supply and one warm reset for every rising edge of the reset line that does not come
  with the supply off, in order, where an indication that does not tell the supply leaves its level
  as it was, and whether or not a reset fails.\<close>

theorem reset_edges:
  "w_out (handle_statuses (pcsc_driver_ops P b) w ss) = w_out w @
     map (ScReconnect (w_hCard w) (bankd_share_mode b))
       (concat (map (reset_at (last_vccPresent w) (last_resetActive w) ss) [0..<length ss]))"
proof -
  define v r where "v = last_vccPresent w" and "r = last_resetActive w"
  have "w_out (handle_statuses (pcsc_driver_ops P b) w ss) = w_out w @
      map (ScReconnect (w_hCard w) (bankd_share_mode b)) (concat (map (reset_at v r ss) [0..<length ss])) \<and>
    w_hCard (handle_statuses (pcsc_driver_ops P b) w ss) = w_hCard w \<and>
    last_vccPresent (handle_statuses (pcsc_driver_ops P b) w ss) = vcc_level v ss \<and>
    last_resetActive (handle_statuses (pcsc_driver_ops P b) w ss) = rst_level r ss"
  proof (induction ss rule: rev_induct)
    case Nil
    then show ?case by (simp add: handle_statuses_def vcc_level_def rst_level_def v_def r_def List.map_filter_def)
  next
    case (snoc s ss)
    define w' where "w' = handle_statuses (pcsc_driver_ops P b) w ss"
    have step: "handle_statuses (pcsc_driver_ops P b) w (ss @ [s]) = snd (worker_handle_clientSlotStatusInd (pcsc_driver_ops P b) w' s)"
      by (simp add: handle_statuses_def w'_def)
    have pre: "map (reset_at v r (ss @ [s])) [0..<length ss] = map (reset_at v r ss) [0..<length ss]"
      by (simp add: reset_at_def nth_append)
    have new: "reset_at v r (ss @ [s]) (length ss) =
        (if sps_vccPresent s = Some 0 then (if vcc_level v ss then [True] else [])
         else if sps_resetActive s \<noteq> 0 \<and> \<not> rst_level r ss then [False] else [])"
      by (simp add: reset_at_def)
    show ?case
      unfolding step using status_step [of P b w' s] snoc.IH [folded w'_def]
      by (simp add: pre new vcc_level_snoc rst_level_snoc split: option.split)
  qed
  then show ?thesis by (simp add: v_def r_def)
qed

end
