(* ===== verification/Client.thy ===== *)
theory Client
  imports Srvc_Fsm C_Strings
begin

text \<open>
  remsim-client: the code that all client programs share, \<^verbatim>\<open>src/client/client.h\<close>,
  \<^verbatim>\<open>src/client/main_fsm.c\<close> and \<^verbatim>\<open>src/client/remsim_client.c\<close>. The record \<open>bankd_client\<close> holds
  the two connections (\<open>Srvc_Fsm\<close>), the state of the machine CLIENT_MAIN and the configuration;
  what the client asks of its frontend (the modem or card emulation) and the calls of the
  event script are appended to \<open>bc_out\<close>, in order.

  The machines call each other: a connection tells CLIENT_MAIN that it is up or down, and
  CLIENT_MAIN tells the connection to bankd to connect or to disconnect. A connection
  dispatches to its parent as it enters or leaves CONNECTED, so its own state at that moment is
  CONNECTED, and no handler of such an event touches the connection that sent it; the events
  recorded during a step of a connection are therefore delivered with that state, in order, at
  the end of the step (\<open>with_bankd\<close>, \<open>with_srv\<close>). The argument \<open>N\<close> of the functions of
  CLIENT_MAIN is the delivery of the events that a nested step of the connection causes, and
  \<open>main_notify\<close> bounds the nesting; \<open>Client_Inv\<close> shows that two levels are enough.

  A frontend is another part of the program (or, for SIMtrace, a library). What it adds to the
  environment of the event script is a field of \<open>client_env\<close>, as are \<open>inet_ntop\<close> and the version.
\<close>

section \<open>Data\<close>

record frontend_phys_status =
  reset_active :: int
  vcc_present :: int
  clk_active :: int
  card_present :: int
  voltage_mv :: u16
  fps_fi :: u8
  fps_di :: u8
  fps_wi :: u8
  fps_waiting_time :: u8

definition ATR_SIZE_MAX :: nat where
  "ATR_SIZE_MAX = 55"

record client_config =
  cfg_server_host :: string
  cfg_server_port :: int
  cfg_client_id :: int
  cfg_client_slot :: int
  cfg_gsmtap_host :: string
  keep_running :: bool
  event_script :: "string option"
  atr_data :: bytes
  atr_len :: nat
  atr_ignore_rspro :: bool
  usb_vendor_id :: int
  usb_product_id :: int
  usb_config_id :: int
  usb_if_num :: int
  usb_altsetting :: int
  usb_addr :: int
  usb_path :: "string option"
  presence_valid :: bool
  presence_pol :: bool

datatype main_fsm_state = MF_ST_INIT | MF_ST_UNCONFIGURED | MF_ST_WAIT_BANKD | MF_ST_OPERATIONAL

datatype main_fsm_event =
    MF_E_SRVC_CONNECTED | MF_E_SRVC_LOST | MF_E_SRVC_CONFIG_BANK | MF_E_SRVC_RESET_REQ
  | MF_E_BANKD_CONNECTED | MF_E_BANKD_LOST | MF_E_BANKD_TPDU | MF_E_BANKD_ATR | MF_E_BANKD_SLOT_STATUS
  | MF_E_MDM_STATUS_IND | MF_E_MDM_PTS_IND | MF_E_MDM_TPDU

fun mf_st_nr :: "main_fsm_state \<Rightarrow> nat" where
  "mf_st_nr MF_ST_INIT = 0"
| "mf_st_nr MF_ST_UNCONFIGURED = 1"
| "mf_st_nr MF_ST_WAIT_BANKD = 2"
| "mf_st_nr MF_ST_OPERATIONAL = 3"

fun mf_ev_nr :: "main_fsm_event \<Rightarrow> nat" where
  "mf_ev_nr MF_E_SRVC_CONNECTED = 0"
| "mf_ev_nr MF_E_SRVC_LOST = 1"
| "mf_ev_nr MF_E_SRVC_CONFIG_BANK = 2"
| "mf_ev_nr MF_E_SRVC_RESET_REQ = 3"
| "mf_ev_nr MF_E_BANKD_CONNECTED = 4"
| "mf_ev_nr MF_E_BANKD_LOST = 5"
| "mf_ev_nr MF_E_BANKD_TPDU = 6"
| "mf_ev_nr MF_E_BANKD_ATR = 7"
| "mf_ev_nr MF_E_BANKD_SLOT_STATUS = 8"
| "mf_ev_nr MF_E_MDM_STATUS_IND = 9"
| "mf_ev_nr MF_E_MDM_PTS_IND = 10"
| "mf_ev_nr MF_E_MDM_TPDU = 11"

definition mf_events :: "main_fsm_event list" where
  "mf_events =
     [MF_E_SRVC_CONNECTED, MF_E_SRVC_LOST, MF_E_SRVC_CONFIG_BANK, MF_E_SRVC_RESET_REQ, MF_E_BANKD_CONNECTED,
      MF_E_BANKD_LOST, MF_E_BANKD_TPDU, MF_E_BANKD_ATR, MF_E_BANKD_SLOT_STATUS, MF_E_MDM_STATUS_IND,
      MF_E_MDM_PTS_IND, MF_E_MDM_TPDU]"

text \<open>What \<open>data\<close> points to.\<close>

datatype mf_data = MfNull | MfPdu RsproPDU_t | MfStatus frontend_phys_status | MfPts bytes | MfTpdu bytes

datatype client_effect =
    FeCardInsert                  \<comment> \<open>frontend_request_card_insert\<close>
  | FeCardRemove                  \<comment> \<open>frontend_request_card_remove\<close>
  | FeSimRemote                   \<comment> \<open>frontend_request_sim_remote\<close>
  | FeSimLocal                    \<comment> \<open>frontend_request_sim_local\<close>
  | FeModemReset                  \<comment> \<open>frontend_request_modem_reset\<close>
  | FeCard2Modem bytes            \<comment> \<open>frontend_handle_card2modem\<close>
  | FeSetAtr bytes                \<comment> \<open>frontend_handle_set_atr\<close>
  | FeSlotStatus SlotPhysStatus_t \<comment> \<open>frontend_handle_slot_status\<close>
  | Script string "string list"   \<comment> \<open>osmo_system_nowait: command and environment\<close>

record bankd_client =
  srv_conn :: rspro_server_conn
  bankd_conn :: rspro_server_conn
  main_fi :: main_fsm_state
  bankd_slot :: bank_slot
  bc_cfg :: client_config
  last_status :: frontend_phys_status
  bc_out :: "client_effect list"

record client_env =
  ce_srvc :: srvc_env
  ce_inet_ntop :: "bool \<Rightarrow> bytes \<Rightarrow> string option"
  ce_version :: string
  ce_append_env :: "bankd_client \<Rightarrow> string list"

definition fe :: "client_effect \<Rightarrow> bankd_client \<Rightarrow> bankd_client" where
  "fe x bc = bc\<lparr>bc_out := bc_out bc @ [x]\<rparr>"

section \<open>Event script\<close>

text \<open>The conversions \<open>%u\<close> of an \<open>int\<close> and \<open>%lu\<close> of a \<open>long\<close>.\<close>

definition show_u :: "int \<Rightarrow> string" where
  "show_u i = dec_digits (nat (i mod 2 ^ 32))"

definition show_lu :: "int \<Rightarrow> string" where
  "show_lu i = dec_digits (nat (i mod 2 ^ 64))"

definition show_s :: "string option \<Rightarrow> string" where
  "show_s s = (case s of None \<Rightarrow> ''(null)'' | Some x \<Rightarrow> x)"

fun srvc_state_name :: "server_conn_fsm_state \<Rightarrow> string" where
  "srvc_state_name SRVC_ST_INIT = ''INIT''"
| "srvc_state_name SRVC_ST_ESTABLISHED = ''ESTABLISHED''"
| "srvc_state_name SRVC_ST_CONNECTED = ''CONNECTED''"
| "srvc_state_name SRVC_ST_REESTABLISH_DELAY = ''REESTABLISH_DELAY''"
| "srvc_state_name SRVC_ST_REESTABLISH = ''REESTABLISH''"

definition build_script_env :: "client_env \<Rightarrow> bankd_client \<Rightarrow> string \<Rightarrow> string list" where
  "build_script_env C bc cause =
     [''REMSIM_CLIENT_VERSION='' @ ce_version C,
      ''REMSIM_SERVER_ADDR='' @ show_s (server_host (srv_conn bc)) @ '':'' @ show_u (uint (server_port (srv_conn bc))),
      ''REMSIM_SERVER_STATE='' @ srvc_state_name (srvc_st (srv_conn bc)),
      ''REMSIM_BANKD_ADDR='' @ show_s (server_host (bankd_conn bc)) @ '':'' @ show_u (uint (server_port (bankd_conn bc))),
      ''REMSIM_BANKD_STATE='' @ srvc_state_name (srvc_st (bankd_conn bc))] @
     (case srvc_clslot (srv_conn bc) of
        None \<Rightarrow> []
      | Some cs \<Rightarrow> [''REMSIM_CLIENT_SLOT='' @ show_lu (cs_clientId cs) @ '':'' @ show_lu (cs_slotNr cs)]) @
     [''REMSIM_BANKD_SLOT='' @ show_u (uint (bank_id (bankd_slot bc))) @ '':'' @ show_u (uint (slot_nr (bankd_slot bc))),
      ''REMSIM_SIM_VCC='' @ show_u (vcc_present (last_status bc)),
      ''REMSIM_SIM_RST='' @ show_u (reset_active (last_status bc)),
      ''REMSIM_SIM_CLK='' @ show_u (clk_active (last_status bc)),
      ''REMSIM_CAUSE='' @ cause] @
     ce_append_env C bc"

definition call_script :: "client_env \<Rightarrow> string \<Rightarrow> bankd_client \<Rightarrow> bankd_client" where
  "call_script C cause bc =
     (case event_script (bc_cfg bc) of
        None \<Rightarrow> bc
      | Some script \<Rightarrow>
          if calloc_ok (ce_srvc C) then fe (Script (script @ '' '' @ cause) (build_script_env C bc cause)) bc else bc)"

section \<open>Steps of a connection\<close>

fun parent_events :: "srvc_effect list \<Rightarrow> nat list" where
  "parent_events [] = []"
| "parent_events (ParentEvent n # es) = n # parent_events es"
| "parent_events (_ # es) = parent_events es"

type_synonym notify = "nat \<Rightarrow> bankd_client \<Rightarrow> bankd_client option"

fun notify_all :: "notify \<Rightarrow> nat list \<Rightarrow> bankd_client \<Rightarrow> bankd_client option" where
  "notify_all N [] bc = Some bc"
| "notify_all N (e # es) bc = do { bc1 \<leftarrow> N e bc; notify_all N es bc1 }"

definition new_events :: "rspro_server_conn \<Rightarrow> rspro_server_conn \<Rightarrow> nat list" where
  "new_events s s' = parent_events (drop (length (srvc_out s)) (srvc_out s'))"

definition with_bankd ::
  "notify \<Rightarrow> (rspro_server_conn \<Rightarrow> (int \<times> rspro_server_conn) option) \<Rightarrow> bankd_client \<Rightarrow> (int \<times> bankd_client) option" where
  "with_bankd N f bc =
     do {
       (rc, s) \<leftarrow> f (bankd_conn bc);
       bc1 \<leftarrow> notify_all N (new_events (bankd_conn bc) s) (bc\<lparr>bankd_conn := s\<lparr>srvc_st := SRVC_ST_CONNECTED\<rparr>\<rparr>);
       Some (rc, bc1\<lparr>bankd_conn := (bankd_conn bc1)\<lparr>srvc_st := srvc_st s\<rparr>\<rparr>)
     }"

definition with_srv ::
  "notify \<Rightarrow> (rspro_server_conn \<Rightarrow> (int \<times> rspro_server_conn) option) \<Rightarrow> bankd_client \<Rightarrow> (int \<times> bankd_client) option" where
  "with_srv N f bc =
     do {
       (rc, s) \<leftarrow> f (srv_conn bc);
       bc1 \<leftarrow> notify_all N (new_events (srv_conn bc) s) (bc\<lparr>srv_conn := s\<lparr>srvc_st := SRVC_ST_CONNECTED\<rparr>\<rparr>);
       Some (rc, bc1\<lparr>srv_conn := (srv_conn bc1)\<lparr>srvc_st := srvc_st s\<rparr>\<rparr>)
     }"

section \<open>The machine CLIENT_MAIN\<close>

fun main_in_event_mask :: "main_fsm_state \<Rightarrow> u32" where
  "main_in_event_mask MF_ST_INIT = S (mf_ev_nr MF_E_SRVC_CONNECTED)"
| "main_in_event_mask MF_ST_UNCONFIGURED = S (mf_ev_nr MF_E_SRVC_CONFIG_BANK)"
| "main_in_event_mask MF_ST_WAIT_BANKD = S (mf_ev_nr MF_E_SRVC_CONFIG_BANK) OR S (mf_ev_nr MF_E_BANKD_CONNECTED)"
| "main_in_event_mask MF_ST_OPERATIONAL =
     S (mf_ev_nr MF_E_SRVC_CONFIG_BANK) OR S (mf_ev_nr MF_E_BANKD_LOST) OR S (mf_ev_nr MF_E_BANKD_TPDU) OR
     S (mf_ev_nr MF_E_BANKD_ATR) OR S (mf_ev_nr MF_E_BANKD_SLOT_STATUS) OR S (mf_ev_nr MF_E_MDM_STATUS_IND) OR
     S (mf_ev_nr MF_E_MDM_PTS_IND) OR S (mf_ev_nr MF_E_MDM_TPDU)"

fun main_out_state_mask :: "main_fsm_state \<Rightarrow> u32" where
  "main_out_state_mask MF_ST_INIT = S (mf_st_nr MF_ST_UNCONFIGURED)"
| "main_out_state_mask MF_ST_UNCONFIGURED = S (mf_st_nr MF_ST_INIT) OR S (mf_st_nr MF_ST_WAIT_BANKD)"
| "main_out_state_mask MF_ST_WAIT_BANKD =
     S (mf_st_nr MF_ST_INIT) OR S (mf_st_nr MF_ST_UNCONFIGURED) OR S (mf_st_nr MF_ST_OPERATIONAL)"
| "main_out_state_mask MF_ST_OPERATIONAL =
     S (mf_st_nr MF_ST_INIT) OR S (mf_st_nr MF_ST_UNCONFIGURED) OR S (mf_st_nr MF_ST_WAIT_BANKD)"

definition main_allstate_event_mask :: u32 where
  "main_allstate_event_mask = S (mf_ev_nr MF_E_SRVC_LOST) OR S (mf_ev_nr MF_E_SRVC_RESET_REQ)"

definition main_st_unconfigured_onenter :: "notify \<Rightarrow> client_env \<Rightarrow> bankd_client \<Rightarrow> bankd_client option" where
  "main_st_unconfigured_onenter N C bc =
     map_option snd (with_bankd N (srvc_dispatch (ce_srvc C) SRVC_E_DISCONNECT None) bc)"

definition main_st_operational_onenter :: "client_env \<Rightarrow> bankd_client \<Rightarrow> bankd_client" where
  "main_st_operational_onenter C bc =
     (let bc1 = call_script C ''request-sim-remote'' (fe FeSimRemote bc);
          bc2 = fe (FeSetAtr (take (atr_len (bc_cfg bc1)) (atr_data (bc_cfg bc1)))) bc1;
          bc3 = call_script C ''request-card-insert'' (fe FeCardInsert bc2)
      in call_script C ''request-modem-reset'' (fe FeModemReset bc3))"

definition main_st_operational_onleave :: "client_env \<Rightarrow> bankd_client \<Rightarrow> bankd_client" where
  "main_st_operational_onleave C bc =
     (let bc1 = call_script C ''request-card-remove'' (fe FeCardRemove bc);
          bc2 = call_script C ''request-sim-local'' (fe FeSimLocal bc1)
      in call_script C ''request-modem-reset'' (fe FeModemReset bc2))"

text \<open>\<open>osmo_fsm_inst_state_chg\<close> of CLIENT_MAIN.\<close>

definition main_state_chg :: "notify \<Rightarrow> client_env \<Rightarrow> main_fsm_state \<Rightarrow> bankd_client \<Rightarrow> bankd_client option" where
  "main_state_chg N C new bc =
     (if \<not> st_ok (ce_srvc C) (main_out_state_mask (main_fi bc)) (mf_st_nr new) then Some bc
      else let bc1 = (if main_fi bc = MF_ST_OPERATIONAL then main_st_operational_onleave C bc else bc);
               bc2 = bc1\<lparr>main_fi := new\<rparr>
           in case new of
                MF_ST_UNCONFIGURED \<Rightarrow> main_st_unconfigured_onenter N C bc2
              | MF_ST_OPERATIONAL \<Rightarrow> Some (main_st_operational_onenter C bc2)
              | _ \<Rightarrow> Some bc2)"

definition send_srv :: "notify \<Rightarrow> client_env \<Rightarrow> RsproPDU_t option \<Rightarrow> bankd_client \<Rightarrow> bankd_client option" where
  "send_srv N C pdu bc = map_option snd (with_srv N (server_conn_send_rspro (ce_srvc C) pdu) bc)"

definition send_bankd :: "notify \<Rightarrow> client_env \<Rightarrow> RsproPDU_t option \<Rightarrow> bankd_client \<Rightarrow> bankd_client option" where
  "send_bankd N C pdu bc = map_option snd (with_bankd N (server_conn_send_rspro (ce_srvc C) pdu) bc)"

text \<open>The case MF_E_SRVC_CONFIG_BANK of \<open>main_st_operational\<close>, shared by three states.\<close>

definition config_bank :: "notify \<Rightarrow> client_env \<Rightarrow> BankSlot_t \<Rightarrow> IpPort_t \<Rightarrow> bankd_client \<Rightarrow> bankd_client option" where
  "config_bank N C bankSlot bankd bc =
     do {
       let bc1 = bc\<lparr>bankd_conn := (bankd_conn bc)\<lparr>server_host := rspro_IpAddr2str (ce_inet_ntop C) (ipp_ip bankd),
                      server_port := word_of_int (ipp_port bankd)\<rparr>,
                    bankd_slot := rspro2bank_slot bankSlot\<rparr>;
       bc2 \<leftarrow> (if server_port (bankd_conn bc1) = 0 then main_state_chg N C MF_ST_UNCONFIGURED bc1
               else do {
                 bc' \<leftarrow> main_state_chg N C MF_ST_WAIT_BANKD bc1;
                 map_option snd (with_bankd N (srvc_dispatch (ce_srvc C) SRVC_E_ESTABLISH None) bc')
               });
       bc3 \<leftarrow> send_srv N C (rspro_gen_ConfigClientBankRes (calloc_ok (ce_srvc C)) ResultCode_ok) bc2;
       Some (call_script C ''event-config-bankd'' bc3)
     }"

text \<open>\<open>memcmp\<close> of the flags.\<close>

definition flags_equal :: "frontend_phys_status \<Rightarrow> frontend_phys_status \<Rightarrow> bool" where
  "flags_equal a b \<longleftrightarrow> reset_active a = reset_active b \<and> vcc_present a = vcc_present b \<and>
     clk_active a = clk_active b \<and> card_present a = card_present b"

definition mdm_status_ind :: "notify \<Rightarrow> client_env \<Rightarrow> frontend_phys_status \<Rightarrow> bankd_client \<Rightarrow> bankd_client option" where
  "mdm_status_ind N C pstatus bc =
     do {
       clslot \<leftarrow> srvc_clslot (srv_conn bc);
       bc1 \<leftarrow> send_bankd N C
         (rspro_gen_ClientSlotStatusInd (calloc_ok (ce_srvc C)) clslot (bank_slot2rspro (bankd_slot bc))
            (reset_active pstatus \<noteq> 0) (vcc_present pstatus) (clk_active pstatus) (card_present pstatus)) bc;
       let bc2 = (if flags_equal (last_status bc1) pstatus then call_script C ''event-modem-status'' bc1 else bc1);
       Some (bc2\<lparr>last_status := pstatus\<rparr>)
     }"

definition main_st_operational ::
  "notify \<Rightarrow> client_env \<Rightarrow> main_fsm_event \<Rightarrow> mf_data \<Rightarrow> bankd_client \<Rightarrow> bankd_client option" where
  "main_st_operational N C ev d bc =
     (case ev of
        MF_E_BANKD_LOST \<Rightarrow> main_state_chg N C MF_ST_WAIT_BANKD bc
      | MF_E_SRVC_CONFIG_BANK \<Rightarrow>
          (case d of
             MfPdu pdu \<Rightarrow> (case pdu_msg pdu of
                             configClientBankReq bankSlot bankd \<Rightarrow> config_bank N C bankSlot bankd bc
                           | _ \<Rightarrow> None)
           | _ \<Rightarrow> None)
      | MF_E_BANKD_TPDU \<Rightarrow>
          (case d of
             MfPdu pdu \<Rightarrow> (case pdu_msg pdu of
                             tpduCardToModem _ _ _ data \<Rightarrow> Some (fe (FeCard2Modem data) bc)
                           | _ \<Rightarrow> None)
           | _ \<Rightarrow> None)
      | MF_E_BANKD_ATR \<Rightarrow>
          (case d of
             MfPdu pdu \<Rightarrow> (case pdu_msg pdu of
                             setAtrReq _ atr \<Rightarrow>
                               send_bankd N C (rspro_gen_SetAtrRes (calloc_ok (ce_srvc C)) ResultCode_ok)
                                 (if atr_ignore_rspro (bc_cfg bc) then bc else fe (FeSetAtr atr) bc)
                           | _ \<Rightarrow> None)
           | _ \<Rightarrow> None)
      | MF_E_BANKD_SLOT_STATUS \<Rightarrow>
          (case d of
             MfPdu pdu \<Rightarrow> (case pdu_msg pdu of
                             bankSlotStatusInd _ _ sts \<Rightarrow> Some (fe (FeSlotStatus sts) bc)
                           | _ \<Rightarrow> None)
           | _ \<Rightarrow> None)
      | MF_E_MDM_STATUS_IND \<Rightarrow> (case d of MfStatus pstatus \<Rightarrow> mdm_status_ind N C pstatus bc | _ \<Rightarrow> None)
      | MF_E_MDM_PTS_IND \<Rightarrow> (case d of MfPts _ \<Rightarrow> Some bc | _ \<Rightarrow> None)
      | MF_E_MDM_TPDU \<Rightarrow>
          (case d of
             MfTpdu tpdu \<Rightarrow>
               do {
                 clslot \<leftarrow> srvc_clslot (srv_conn bc);
                 send_bankd N C (rspro_gen_TpduModem2Card (calloc_ok (ce_srvc C)) clslot
                   (bank_slot2rspro (bankd_slot bc)) tpdu) bc
               }
           | _ \<Rightarrow> None)
      | _ \<Rightarrow> None)"

definition main_st_init ::
  "notify \<Rightarrow> client_env \<Rightarrow> main_fsm_event \<Rightarrow> bankd_client \<Rightarrow> bankd_client option" where
  "main_st_init N C ev bc =
     (if ev = MF_E_SRVC_CONNECTED
      then map_option (call_script C ''event-server-connect'') (main_state_chg N C MF_ST_UNCONFIGURED bc)
      else None)"

definition main_st_unconfigured ::
  "notify \<Rightarrow> client_env \<Rightarrow> main_fsm_event \<Rightarrow> mf_data \<Rightarrow> bankd_client \<Rightarrow> bankd_client option" where
  "main_st_unconfigured N C ev d bc =
     (if ev = MF_E_SRVC_CONFIG_BANK then main_st_operational N C ev d bc else None)"

definition main_st_wait_bankd ::
  "notify \<Rightarrow> client_env \<Rightarrow> main_fsm_event \<Rightarrow> mf_data \<Rightarrow> bankd_client \<Rightarrow> bankd_client option" where
  "main_st_wait_bankd N C ev d bc =
     (if ev = MF_E_SRVC_CONFIG_BANK then main_st_operational N C ev d bc
      else if ev = MF_E_BANKD_CONNECTED
      then map_option (call_script C ''event-bankd-connect'') (main_state_chg N C MF_ST_OPERATIONAL bc)
      else None)"

definition main_allstate_action ::
  "notify \<Rightarrow> client_env \<Rightarrow> main_fsm_event \<Rightarrow> bankd_client \<Rightarrow> bankd_client option" where
  "main_allstate_action N C ev bc =
     (if ev = MF_E_SRVC_LOST then Some bc
      else if ev = MF_E_SRVC_RESET_REQ then main_state_chg N C MF_ST_UNCONFIGURED bc
      else None)"

definition main_action ::
  "notify \<Rightarrow> client_env \<Rightarrow> main_fsm_event \<Rightarrow> mf_data \<Rightarrow> bankd_client \<Rightarrow> bankd_client option" where
  "main_action N C ev d bc =
     (case main_fi bc of
        MF_ST_INIT \<Rightarrow> main_st_init N C ev bc
      | MF_ST_UNCONFIGURED \<Rightarrow> main_st_unconfigured N C ev d bc
      | MF_ST_WAIT_BANKD \<Rightarrow> main_st_wait_bankd N C ev d bc
      | MF_ST_OPERATIONAL \<Rightarrow> main_st_operational N C ev d bc)"

text \<open>\<open>osmo_fsm_inst_dispatch(bc->main_fi, ev, data)\<close>.\<close>

definition main_dispatch_with ::
  "notify \<Rightarrow> client_env \<Rightarrow> main_fsm_event \<Rightarrow> mf_data \<Rightarrow> bankd_client \<Rightarrow> (int \<times> bankd_client) option" where
  "main_dispatch_with N C ev d bc =
     (if ev_ok (ce_srvc C) main_allstate_event_mask (mf_ev_nr ev)
      then map_option (Pair 0) (main_allstate_action N C ev bc)
      else if \<not> ev_ok (ce_srvc C) (main_in_event_mask (main_fi bc)) (mf_ev_nr ev) then Some (-1, bc)
      else map_option (Pair 0) (main_action N C ev d bc))"

primrec main_notify :: "nat \<Rightarrow> client_env \<Rightarrow> notify" where
  "main_notify 0 C = (\<lambda>n bc. None)"
| "main_notify (Suc k) C =
     (\<lambda>n bc. if n < length mf_events
             then map_option snd (main_dispatch_with (main_notify k C) C (mf_events ! n) MfNull bc) else None)"

definition main_dispatch ::
  "client_env \<Rightarrow> main_fsm_event \<Rightarrow> mf_data \<Rightarrow> bankd_client \<Rightarrow> (int \<times> bankd_client) option" where
  "main_dispatch C = main_dispatch_with (main_notify 1 C) C"

section \<open>Messages from bankd and from the server\<close>

definition bankd_handle_rx :: "client_env \<Rightarrow> RsproPDU_t \<Rightarrow> bankd_client \<Rightarrow> (int \<times> bankd_client) option" where
  "bankd_handle_rx C pdu bc =
     (case pdu_msg pdu of
        connectClientRes identity result \<Rightarrow>
          if ci_type identity \<noteq> ComponentType_remsimBankd
          then map_option (\<lambda>(rc, bc'). (-1, bc'))
                 (with_bankd (main_notify 2 C) (srvc_dispatch (ce_srvc C) SRVC_E_DISCONNECT None) bc)
          else map_option (\<lambda>(rc, bc'). (0, bc'))
                 (with_bankd (main_notify 2 C) (srvc_dispatch (ce_srvc C) SRVC_E_CLIENT_CONN_RES (Some pdu))
                   (bc\<lparr>bankd_conn := (bankd_conn bc)\<lparr>peer_comp_id := rspro_comp_id_retrieve identity\<rparr>\<rparr>))
      | tpduCardToModem _ _ _ _ \<Rightarrow> main_dispatch C MF_E_BANKD_TPDU (MfPdu pdu) bc
      | setAtrReq _ _ \<Rightarrow> main_dispatch C MF_E_BANKD_ATR (MfPdu pdu) bc
      | bankSlotStatusInd _ _ _ \<Rightarrow> main_dispatch C MF_E_BANKD_SLOT_STATUS (MfPdu pdu) bc
      | _ \<Rightarrow> Some (-1, bc))"

definition srvc_handle_rx :: "client_env \<Rightarrow> RsproPDU_t \<Rightarrow> bankd_client \<Rightarrow> (int \<times> bankd_client) option" where
  "srvc_handle_rx C pdu bc =
     (case pdu_msg pdu of
        connectClientRes identity result \<Rightarrow>
          if ci_type identity \<noteq> ComponentType_remsimServer
          then map_option (\<lambda>(rc, bc'). (-1, bc'))
                 (with_srv (main_notify 2 C) (srvc_dispatch (ce_srvc C) SRVC_E_DISCONNECT None) bc)
          else map_option (\<lambda>(rc, bc'). (0, bc'))
                 (with_srv (main_notify 2 C) (srvc_dispatch (ce_srvc C) SRVC_E_CLIENT_CONN_RES (Some pdu))
                   (bc\<lparr>srv_conn := (srv_conn bc)\<lparr>peer_comp_id := rspro_comp_id_retrieve identity\<rparr>\<rparr>))
      | configClientIdReq clientSlot \<Rightarrow>
          map_option (Pair 0)
            (send_srv (main_notify 2 C) C (rspro_gen_ConfigClientIdRes (calloc_ok (ce_srvc C)) ResultCode_ok)
              (bc\<lparr>srv_conn := (srv_conn bc)\<lparr>srvc_clslot := Some clientSlot\<rparr>,
                  bankd_conn := (bankd_conn bc)\<lparr>srvc_clslot := Some clientSlot\<rparr>\<rparr>))
      | configClientBankReq _ _ \<Rightarrow>
          map_option (\<lambda>(rc, bc'). (0, bc')) (main_dispatch C MF_E_SRVC_CONFIG_BANK (MfPdu pdu) bc)
      | _ \<Rightarrow> Some (-1, bc))"

section \<open>Creation\<close>

definition client_config_init :: client_config where
  "client_config_init =
     \<lparr>cfg_server_host = ''127.0.0.1'', cfg_server_port = 9998, cfg_client_id = -1, cfg_client_slot = -1,
      cfg_gsmtap_host = ''127.0.0.1'', keep_running = False, event_script = None,
      atr_data = [0x3B, 0x00] @ replicate (ATR_SIZE_MAX - 2) 0, atr_len = 2, atr_ignore_rspro = False,
      usb_vendor_id = -1, usb_product_id = -1, usb_config_id = -1, usb_if_num = -1, usb_altsetting = 0,
      usb_addr = -1, usb_path = None, presence_valid = False, presence_pol = False\<rparr>"

definition set_clslot :: "int \<Rightarrow> int \<Rightarrow> rspro_server_conn \<Rightarrow> rspro_server_conn" where
  "set_clslot clid snr s =
     (let cs = (case srvc_clslot s of None \<Rightarrow> \<lparr>cs_clientId = 0, cs_slotNr = 0\<rparr> | Some cs \<Rightarrow> cs);
          cs1 = (if clid \<ge> 0 then cs\<lparr>cs_clientId := clid\<rparr> else cs);
          cs2 = (if snr \<ge> 0 then cs1\<lparr>cs_slotNr := snr\<rparr> else cs1)
      in s\<lparr>srvc_clslot := Some cs2\<rparr>)"

definition remsim_client_set_clslot :: "bankd_client \<Rightarrow> int \<Rightarrow> int \<Rightarrow> bankd_client" where
  "remsim_client_set_clslot bc clid snr =
     bc\<lparr>srv_conn := set_clslot clid snr (srv_conn bc),
        bankd_conn := set_clslot clid snr (bankd_conn bc)\<rparr>"

definition zero_conn :: rspro_server_conn where
  "zero_conn =
     \<lparr>srvc_conn = False, srvc_st = SRVC_ST_INIT, srvc_T = 0, srvc_timeout = 0, srvc_ka = False,
      reestablish_delay_idx = 0, reestablish_last_ms = 0,
      own_comp_id = zero_comp_id 0, peer_comp_id = zero_comp_id 0,
      srvc_clslot = None, server_host = None, server_port = 0,
      srvc_parent = False, parent_conn_evt = 0, parent_disc_evt = 0,
      srvc_bank_id = 0, srvc_num_slots = 0, srvc_out = []\<rparr>"

text \<open>\<open>talloc_zero\<close> of the client; \<open>main_fsm_alloc\<close> starts CLIENT_MAIN in its first state.\<close>

definition zero_client :: "client_config \<Rightarrow> bankd_client" where
  "zero_client cfg =
     \<lparr>srv_conn = zero_conn, bankd_conn = zero_conn, main_fi = MF_ST_INIT,
      bankd_slot = \<lparr>bank_id = 0, slot_nr = 0\<rparr>, bc_cfg = cfg,
      last_status = \<lparr>reset_active = 0, vcc_present = 0, clk_active = 0, card_present = 0, voltage_mv = 0,
                     fps_fi = 0, fps_di = 0, fps_wi = 0, fps_waiting_time = 0\<rparr>,
      bc_out = []\<rparr>"

definition client_comp_id :: "string \<Rightarrow> string \<Rightarrow> string \<Rightarrow> app_comp_id" where
  "client_comp_id name software version =
     (zero_comp_id ComponentType_remsimClient)
       \<lparr>ac_name := strlcpy_name name_buf name, ac_software := strlcpy_name name_buf software,
        ac_sw_version := strlcpy_name name_buf version\<rparr>"

definition remsim_client_create :: "string \<Rightarrow> string \<Rightarrow> string \<Rightarrow> client_config \<Rightarrow> bankd_client" where
  "remsim_client_create version name software cfg =
     (let bc = remsim_client_set_clslot (zero_client cfg) (cfg_client_id cfg) (cfg_client_slot cfg);
          cid = client_comp_id name software version;
          srvc = server_conn_fsm_alloc ((srv_conn bc)\<lparr>server_host := Some (cfg_server_host cfg),
                   server_port := word_of_int (cfg_server_port cfg), own_comp_id := cid\<rparr>);
          bankdc = server_conn_fsm_alloc ((bankd_conn bc)\<lparr>own_comp_id := cid\<rparr>)
      in bc\<lparr>srv_conn := srvc\<lparr>srvc_parent := True, parent_conn_evt := mf_ev_nr MF_E_SRVC_CONNECTED,
                parent_disc_evt := mf_ev_nr MF_E_SRVC_LOST\<rparr>,
            bankd_conn := bankdc\<lparr>srvc_parent := True, parent_conn_evt := mf_ev_nr MF_E_BANKD_CONNECTED,
                parent_disc_evt := mf_ev_nr MF_E_BANKD_LOST\<rparr>\<rparr>)"

section \<open>The running client\<close>

text \<open>What the select loop hands to the client: callbacks of a connection, a decoded message on
  one of them, and events of the frontend.\<close>

datatype conn_cb = Cb_connected | Cb_disconnected | Cb_ka_timeout | Cb_timer

fun conn_do :: "srvc_env \<Rightarrow> conn_cb \<Rightarrow> rspro_server_conn \<Rightarrow> (int \<times> rspro_server_conn) option" where
  "conn_do E Cb_connected s = map_option (Pair 0) (srvc_connect_cb E s)"
| "conn_do E Cb_disconnected s = map_option (Pair 0) (srvc_disconnect_cb E s)"
| "conn_do E Cb_ka_timeout s = map_option (Pair 0) (ipa_keepalive_timeout_cb E s)"
| "conn_do E Cb_timer s = map_option (Pair 0) (server_conn_fsm_timer_cb E s)"

datatype client_input =
    CStart
  | CSrvCb conn_cb
  | CBankdCb conn_cb
  | CSrvRx RsproPDU_t
  | CBankdRx RsproPDU_t
  | CModemStatus frontend_phys_status
  | CModemPts bytes
  | CModemTpdu bytes

fun client_do :: "client_env \<Rightarrow> client_input \<Rightarrow> bankd_client \<Rightarrow> (int \<times> bankd_client) option" where
  "client_do C CStart bc = with_srv (main_notify 2 C) (srvc_dispatch (ce_srvc C) SRVC_E_ESTABLISH None) bc"
| "client_do C (CSrvCb cb) bc = with_srv (main_notify 2 C) (conn_do (ce_srvc C) cb) bc"
| "client_do C (CBankdCb cb) bc = with_bankd (main_notify 2 C) (conn_do (ce_srvc C) cb) bc"
| "client_do C (CSrvRx pdu) bc = srvc_handle_rx C pdu bc"
| "client_do C (CBankdRx pdu) bc = bankd_handle_rx C pdu bc"
| "client_do C (CModemStatus s) bc = main_dispatch C MF_E_MDM_STATUS_IND (MfStatus s) bc"
| "client_do C (CModemPts b) bc = main_dispatch C MF_E_MDM_PTS_IND (MfPts b) bc"
| "client_do C (CModemTpdu b) bc = main_dispatch C MF_E_MDM_TPDU (MfTpdu b) bc"

end
