(* ===== verification/Client_Conn.thy ===== *)
theory Client_Conn
  imports Client
begin

text \<open>
  What CLIENT_MAIN relies on from a connection, as the locale \<open>conn_op\<close>: an operation of the
  connection returns, keeps the connection's invariant and configuration, and tells the parent
  machine exactly when it enters or leaves CONNECTED. Every operation of \<open>Srvc_Fsm\<close> that the
  client uses is an interpretation of it.
\<close>

section \<open>Steps of a connection as the parent sees them\<close>

lemma parent_events_append [simp]: "parent_events (xs @ ys) = parent_events xs @ parent_events ys"
  by (induction xs rule: parent_events.induct) simp_all

definition link_events :: "rspro_server_conn \<Rightarrow> server_conn_fsm_state \<Rightarrow> nat list" where
  "link_events s st =
     (if srvc_st s = SRVC_ST_CONNECTED \<and> st \<noteq> SRVC_ST_CONNECTED then [parent_disc_evt s]
      else if srvc_st s \<noteq> SRVC_ST_CONNECTED \<and> st = SRVC_ST_CONNECTED then [parent_conn_evt s] else [])"

definition same_conf :: "rspro_server_conn \<Rightarrow> rspro_server_conn \<Rightarrow> bool" where
  "same_conf s s' \<longleftrightarrow> srvc_parent s' = srvc_parent s \<and> parent_conn_evt s' = parent_conn_evt s \<and>
     parent_disc_evt s' = parent_disc_evt s \<and> srvc_clslot s' = srvc_clslot s \<and> own_comp_id s' = own_comp_id s \<and>
     server_host s' = server_host s \<and> server_port s' = server_port s"

definition conn_step :: "srvc_env \<Rightarrow> rspro_server_conn \<Rightarrow> rspro_server_conn \<Rightarrow> bool" where
  "conn_step E s s' \<longleftrightarrow> same_conf s s' \<and> env_ok E s' \<and>
     (\<exists>es. srvc_out s' = srvc_out s @ es \<and> (srvc_parent s \<longrightarrow> parent_events es = link_events s (srvc_st s')))"

lemma conn_stepI:
  assumes "same_conf s s'" "env_ok E s'" "srvc_out s' = srvc_out s @ es"
    "srvc_parent s \<Longrightarrow> parent_events es = link_events s (srvc_st s')"
  shows "conn_step E s s'"
  using assms by (auto simp: conn_step_def)

lemma new_events_step: "conn_step E s s' \<Longrightarrow> srvc_parent s \<Longrightarrow> new_events s s' = link_events s (srvc_st s')"
  by (auto simp: conn_step_def new_events_def)

lemma step_refl: "env_ok E s \<Longrightarrow> conn_step E s s"
  by (rule conn_stepI [where es = "[]"]) (auto simp: same_conf_def link_events_def)

lemma step_emit:
  "env_ok E s \<Longrightarrow> parent_events [x] = [] \<Longrightarrow> conn_step E s (emit x s)"
  by (rule conn_stepI [where es = "[x]"]) (auto simp: same_conf_def link_events_def)

text \<open>Fields that the parent does not see.\<close>

lemma step_hidden [simp]:
  "conn_step E (s\<lparr>reestablish_delay_idx := i\<rparr>) s' = conn_step E s s'"
  "conn_step E (s\<lparr>reestablish_last_ms := t\<rparr>) s' = conn_step E s s'"
  "conn_step E (s\<lparr>srvc_ka := b\<rparr>) s' = conn_step E s s'"
  "conn_step E (s\<lparr>srvc_conn := b\<rparr>) s' = conn_step E s s'"
  "conn_step E s (s'\<lparr>reestablish_delay_idx := i\<rparr>) = conn_step E s s'"
  "conn_step E s (s'\<lparr>srvc_ka := b\<rparr>) = conn_step E s s'"
  "conn_step E s (s'\<lparr>srvc_conn := b\<rparr>) = conn_step E s s'"
  by (simp_all add: conn_step_def same_conf_def link_events_def)

lemma step_trans_down:
  assumes "conn_step E s s1" "conn_step E s1 s2"
    and "srvc_st s1 = SRVC_ST_CONNECTED \<Longrightarrow> srvc_st s = SRVC_ST_CONNECTED"
    and "srvc_st s2 = SRVC_ST_CONNECTED \<Longrightarrow> srvc_st s1 = SRVC_ST_CONNECTED"
  shows "conn_step E s s2"
proof -
  obtain es1 es2 where "srvc_out s1 = srvc_out s @ es1" "srvc_out s2 = srvc_out s1 @ es2"
    "srvc_parent s \<Longrightarrow> parent_events es1 = link_events s (srvc_st s1)"
    "srvc_parent s1 \<Longrightarrow> parent_events es2 = link_events s1 (srvc_st s2)"
    using assms(1,2) by (auto simp: conn_step_def)
  with assms show ?thesis
    by (intro conn_stepI [where es = "es1 @ es2"]) (auto simp: conn_step_def same_conf_def link_events_def)
qed

section \<open>The operations\<close>

lemma send_step: "env_ok E s \<Longrightarrow> conn_step E s (snd (cli_conn_send_rspro E p s))"
  by (auto simp: cli_conn_send_rspro_def step_refl step_emit split: option.split)

text \<open>A state change that does not lead to CONNECTED: leaving CONNECTED is the only event, and
  the \<open>onenter\<close> functions of the other states report nothing.\<close>

definition quiet :: "srvc_env \<Rightarrow> rspro_server_conn \<Rightarrow> rspro_server_conn \<Rightarrow> bool" where
  "quiet E s s' \<longleftrightarrow> same_conf s s' \<and> env_ok E s' \<and> srvc_st s' = srvc_st s \<and>
     (\<exists>es. srvc_out s' = srvc_out s @ es \<and> parent_events es = [])"

lemma quiet_emit: "env_ok E s \<Longrightarrow> parent_events [x] = [] \<Longrightarrow> quiet E s (emit x s)"
  by (auto simp: quiet_def same_conf_def)

lemma quiet_onenter:
  assumes "env_ok E s" "srvc_onenter E new s = Some s'" "new \<noteq> SRVC_ST_CONNECTED"
  shows "quiet E s s'"
proof (cases new)
  case SRVC_ST_ESTABLISHED
  then show ?thesis
    using assms by (auto simp: srvc_st_established_onenter_def Let_def cli_conn_send_rspro_def quiet_def same_conf_def
        split: option.splits if_splits)
next
  case SRVC_ST_REESTABLISH_DELAY
  then show ?thesis
    using assms by (auto simp: srvc_st_reestablish_delay_onenter_def disconnect_cb_in_delay_def Let_def quiet_def same_conf_def
        split: if_splits)
next
  case SRVC_ST_REESTABLISH
  then show ?thesis
    using assms by (auto simp: srvc_st_reestablish_onenter_def Let_def quiet_def same_conf_def env_ok_def split: if_splits)
qed (use assms in \<open>auto simp: quiet_def same_conf_def\<close>)

lemma state_chg_step:
  assumes E: "env_ok E s" and chg: "srvc_state_chg E new ms T s = Some s'"
  shows "conn_step E s s'"
proof (cases "st_ok E (srvc_out_state_mask (srvc_st s)) (srvc_st_nr new)")
  case False
  with chg E show ?thesis by (simp add: srvc_state_chg_def step_refl)
next
  case True
  define s1 where "s1 = (srvc_onleave (srvc_st s) s)\<lparr>srvc_st := new, srvc_T := T, srvc_timeout := ms\<rparr>"
  have on: "srvc_onenter E new s1 = Some s'"
    using chg True by (simp add: srvc_state_chg_def s1_def)
  have E1: "env_ok E s1"
    using E by (simp add: s1_def env_ok_def)
  have s1: "same_conf s s1" "srvc_st s1 = new"
    by (auto simp: s1_def same_conf_def srvc_onleave_def srvc_st_connected_onleave_def)
  have out: "srvc_out s1 = srvc_out s @ (if srvc_st s = SRVC_ST_CONNECTED \<and> srvc_parent s then [ParentEvent (parent_disc_evt s)] else [])"
    by (simp add: s1_def srvc_onleave_def srvc_st_connected_onleave_def)
  show ?thesis
  proof (cases "new = SRVC_ST_CONNECTED")
    case False
    then obtain es where "same_conf s1 s'" "env_ok E s'" "srvc_st s' = new" "srvc_out s' = srvc_out s1 @ es" "parent_events es = []"
      using quiet_onenter [OF E1 on False] s1(2) by (auto simp: quiet_def)
    with s1 out False show ?thesis
      by (intro conn_stepI [where es = "drop (length (srvc_out s)) (srvc_out s1) @ es"])
        (auto simp: same_conf_def link_events_def)
  next
    case new: True
    then have "srvc_st s \<noteq> SRVC_ST_CONNECTED"
      using True by (auto simp: env_okD [OF E] bit_simps)
    with on E1 s1 out new show ?thesis
      by (intro conn_stepI [where es = "drop (length (srvc_out s)) (srvc_out s')"])
        (auto simp: srvc_st_connected_onenter_def same_conf_def link_events_def)
  qed
qed

lemma do_reestablish_step:
  assumes "env_ok E s" "srvc_do_reestablish E s = Some s'"
  shows "conn_step E s s'"
proof -
  define i where "i = reestablish_idx (now_ms E - reestablish_last_ms s) s"
  have "conn_step E (s\<lparr>reestablish_delay_idx := i\<rparr>) s'"
    by (rule state_chg_step) (use assms in \<open>auto simp: srvc_do_reestablish_def Let_def i_def\<close>)
  then show ?thesis by simp
qed

lemma dispatch_state_step:
  assumes E: "env_ok E s" and "srvc_dispatch_state E ev pdu s = Some (rc, s')"
  shows "conn_step E s s'"
  using assms(2) E
  by (cases "srvc_st s"; cases ev)
    (auto simp: srvc_dispatch_state_def step_refl step_emit send_step state_chg_step do_reestablish_step
      split: if_splits option.splits Option.bind_splits)

lemma tcp_down_not_up:
  assumes "env_ok E s" "srvc_dispatch_state E SRVC_E_TCP_DOWN pdu s = Some (rc, s')" "srvc_st s' = SRVC_ST_CONNECTED"
  shows "srvc_st s = SRVC_ST_CONNECTED"
  using assms
  by (cases "srvc_st s")
    (auto simp: srvc_dispatch_state_def srvc_do_reestablish_def srvc_state_chg_def Let_def srvc_st_reestablish_delay_onenter_def
      disconnect_cb_in_delay_def split: if_splits Option.bind_splits)

lemma disconnect_step:
  assumes E: "env_ok E s" and inv: "srvc_inv s" and "srvc_allstate_action E SRVC_E_DISCONNECT s = Some s'"
  shows "conn_step E s s' \<and> srvc_st s' = SRVC_ST_INIT"
proof -
  let ?s = "emit CliDestroy (s\<lparr>srvc_conn := False\<rparr>)"
  have em: "conn_step E s ?s"
    using step_emit [of E "s\<lparr>srvc_conn := False\<rparr>" CliDestroy] E by simp
  obtain s1 where s1: "(if srvc_conn s then if destroy_cb E then srvc_disconnect_cb E ?s else Some ?s else Some s) = Some s1"
    and chg: "srvc_state_chg E SRVC_ST_INIT 0 0 s1 = Some s'"
    using assms(3) by (auto simp: Let_def split: Option.bind_splits if_splits)
  have step1: "conn_step E s s1 \<and> (srvc_st s1 = SRVC_ST_CONNECTED \<longrightarrow> srvc_st s = SRVC_ST_CONNECTED)"
  proof (cases "srvc_conn s \<and> destroy_cb E")
    case True
    then obtain rc where d: "srvc_dispatch_state E SRVC_E_TCP_DOWN None (?s\<lparr>srvc_ka := False\<rparr>) = Some (rc, s1)"
      using s1 by (auto simp: srvc_disconnect_cb_def)
    have "conn_step E ?s s1"
      using dispatch_state_step [OF _ d] E by simp
    moreover have "srvc_st s1 = SRVC_ST_CONNECTED \<Longrightarrow> srvc_st s = SRVC_ST_CONNECTED"
      using tcp_down_not_up [OF _ d] E by simp
    ultimately show ?thesis
      using step_trans_down [OF em, of s1] by auto
  qed (use s1 E em step_refl in \<open>auto split: if_splits\<close>)
  have E1: "env_ok E s1"
    using step1 by (simp add: conn_step_def)
  have i: "reestablish_delay_idx s1 < REESTABLISH_DELAY_COUNT" "0 \<le> reestablish_last_ms s1"
    using s1 dispatch_TCP_DOWN [of E "?s\<lparr>srvc_ka := False\<rparr>" None] E srvc_invD [OF inv]
    by (auto simp: srvc_disconnect_cb_def split: if_splits)
  have "srvc_st s' = SRVC_ST_INIT"
    using state_chg_init_inv [OF E1 i] chg by auto
  with step_trans_down [OF conjunct1 [OF step1] state_chg_step [OF E1 chg]] step1 show ?thesis
    by auto
qed

lemma establish_step:
  assumes E: "env_ok E s" and inv: "srvc_inv s" and "srvc_allstate_action E SRVC_E_ESTABLISH s = Some s'"
  shows "conn_step E s s' \<and> srvc_st s' = SRVC_ST_REESTABLISH_DELAY"
proof -
  let ?s = "s\<lparr>reestablish_delay_idx := 0, reestablish_last_ms := 0\<rparr>"
  have E': "env_ok E ?s"
    using E by (simp add: env_ok_def)
  have d: "srvc_do_reestablish E ?s = Some s'"
    using assms(3) by simp
  have "srvc_st s' = SRVC_ST_REESTABLISH_DELAY"
    using do_reestablish_inv [OF E'] reestablish_in_delay_refused [OF E'] d
    by (cases "srvc_st s") auto
  with do_reestablish_step [OF E' d] show ?thesis by simp
qed

section \<open>The interface\<close>

locale conn_op =
  fixes op :: "srvc_env \<Rightarrow> rspro_server_conn \<Rightarrow> (int \<times> rspro_server_conn) option"
    and pre :: "srvc_env \<Rightarrow> rspro_server_conn \<Rightarrow> bool"
  assumes op_returns: "env_ok E s \<Longrightarrow> srvc_inv s \<Longrightarrow> pre E s \<Longrightarrow> \<exists>rc s'. op E s = Some (rc, s') \<and> srvc_inv s'"
    and op_step: "env_ok E s \<Longrightarrow> srvc_inv s \<Longrightarrow> op E s = Some (rc, s') \<Longrightarrow> conn_step E s s'"
begin

lemma op_ok:
  assumes "env_ok E s" "srvc_inv s" "pre E s"
  obtains rc s' where "op E s = Some (rc, s')" "srvc_inv s'" "same_conf s s'" "env_ok E s'"
    "srvc_parent s \<Longrightarrow> new_events s s' = link_events s (srvc_st s')"
  using op_returns [OF assms] op_step [OF assms(1,2)] new_events_step
  by (metis conn_step_def)

end

text \<open>An operation that does not connect: it is one that the client calls itself.\<close>

locale conn_down_op = conn_op +
  assumes not_up: "env_ok E s \<Longrightarrow> srvc_inv s \<Longrightarrow> op E s = Some (rc, s') \<Longrightarrow> srvc_st s' = SRVC_ST_CONNECTED \<Longrightarrow>
    srvc_st s = SRVC_ST_CONNECTED"

text \<open>An operation that does nothing to a connection that is not established: everything but
  ESTABLISH.\<close>

locale conn_idle_op = conn_op +
  assumes stays_init: "env_ok E s \<Longrightarrow> srvc_inv s \<Longrightarrow> pre E s \<Longrightarrow> op E s = Some (rc, s') \<Longrightarrow> srvc_st s = SRVC_ST_INIT \<Longrightarrow>
    srvc_st s' = SRVC_ST_INIT"

section \<open>Its implementations\<close>

lemma dispatch_disconnect:
  "env_ok E s \<Longrightarrow> srvc_dispatch E SRVC_E_DISCONNECT p s = map_option (Pair 0) (srvc_allstate_action E SRVC_E_DISCONNECT s)"
  by (simp add: srvc_dispatch_def srvc_allstate_event_mask_def env_okD bit_simps del: srvc_allstate_action.simps)

lemma dispatch_establish:
  "env_ok E s \<Longrightarrow> srvc_dispatch E SRVC_E_ESTABLISH p s = map_option (Pair 0) (srvc_allstate_action E SRVC_E_ESTABLISH s)"
  by (simp add: srvc_dispatch_def srvc_allstate_event_mask_def env_okD bit_simps del: srvc_allstate_action.simps)

lemma dispatch_other:
  "env_ok E s \<Longrightarrow> ev \<noteq> SRVC_E_ESTABLISH \<Longrightarrow> ev \<noteq> SRVC_E_DISCONNECT \<Longrightarrow> srvc_dispatch E ev p s = srvc_dispatch_state E ev p s"
  by (cases ev) (auto simp: srvc_dispatch_def srvc_allstate_event_mask_def env_okD bit_simps)

lemma disconnect_op:
  assumes "env_ok E s" "srvc_inv s" "srvc_dispatch E SRVC_E_DISCONNECT p s = Some (rc, s')"
  shows "conn_step E s s' \<and> srvc_st s' = SRVC_ST_INIT"
  using assms disconnect_step [OF assms(1,2)]
  by (auto simp: dispatch_disconnect simp del: srvc_allstate_action.simps)

lemma establish_op:
  assumes "env_ok E s" "srvc_inv s" "srvc_dispatch E SRVC_E_ESTABLISH p s = Some (rc, s')"
  shows "conn_step E s s' \<and> srvc_st s' = SRVC_ST_REESTABLISH_DELAY"
  using assms establish_step [OF assms(1,2)]
  by (auto simp: dispatch_establish simp del: srvc_allstate_action.simps)

interpretation disc: conn_down_op "\<lambda>E. srvc_dispatch E SRVC_E_DISCONNECT None" "\<lambda>_ _. True"
  by unfold_locales (use disconnect_op srvc_dispatch_inv in \<open>force+\<close>)

interpretation disc_idle: conn_idle_op "\<lambda>E. srvc_dispatch E SRVC_E_DISCONNECT None" "\<lambda>_ _. True"
  by unfold_locales (use disconnect_op in force)

interpretation est: conn_down_op "\<lambda>E. srvc_dispatch E SRVC_E_ESTABLISH None" "\<lambda>_ _. True"
  by unfold_locales (use establish_op srvc_dispatch_inv in \<open>force+\<close>)

lemma dispatch_state_init:
  "env_ok E s \<Longrightarrow> srvc_st s = SRVC_ST_INIT \<Longrightarrow> srvc_dispatch_state E ev p s = Some (-1, s)"
  by (simp add: srvc_dispatch_state_def env_okD)

interpretation conn_res: conn_idle_op "\<lambda>E. srvc_dispatch E SRVC_E_CLIENT_CONN_RES (Some pdu)"
  "\<lambda>_ _. rspro_get_result pdu \<noteq> None" for pdu
proof unfold_locales
  fix E s
  assume *: "env_ok E s" "srvc_inv s"
  show "\<exists>rc s'. srvc_dispatch E SRVC_E_CLIENT_CONN_RES (Some pdu) s = Some (rc, s') \<and> srvc_inv s'"
    if "rspro_get_result pdu \<noteq> None"
    using srvc_dispatch_inv [OF *, of SRVC_E_CLIENT_CONN_RES "Some pdu"] that by (simp add: ev_data_ok_def)
  fix rc s'
  assume **: "srvc_dispatch E SRVC_E_CLIENT_CONN_RES (Some pdu) s = Some (rc, s')"
  with * show "conn_step E s s'"
    by (auto simp: dispatch_other intro: dispatch_state_step)
  show "srvc_st s' = SRVC_ST_INIT" if "srvc_st s = SRVC_ST_INIT"
    using * ** that by (simp add: dispatch_other dispatch_state_init)
qed

text \<open>Sending changes no state.\<close>

lemma send_rspro_op:
  assumes "env_ok E s" "server_conn_send_rspro E p s = Some (rc, s')"
  shows "conn_step E s s' \<and> srvc_st s' = srvc_st s"
proof (cases p)
  case (Some pdu)
  then obtain rc' where d: "srvc_dispatch_state E SRVC_E_RSPRO_TX (Some pdu) s = Some (rc', s')"
    using assms by (auto simp: server_conn_send_rspro_def dispatch_other split: if_splits)
  have "srvc_st s' = srvc_st s"
    using d assms(1)
    by (cases "srvc_st s") (auto simp: srvc_dispatch_state_def env_okD [OF assms(1)] bit_simps)
  with dispatch_state_step [OF assms(1) d] show ?thesis by simp
qed (use assms in \<open>auto simp: server_conn_send_rspro_def step_refl\<close>)

interpretation send: conn_idle_op "\<lambda>E. server_conn_send_rspro E p" "\<lambda>_ _. True" for p
  by unfold_locales (use send_rspro_inv send_rspro_op in \<open>force+\<close>)

text \<open>The callbacks: the timer must be armed, and opening the stream must work (the program
  exits otherwise).\<close>

definition cb_ok :: "conn_cb \<Rightarrow> srvc_env \<Rightarrow> rspro_server_conn \<Rightarrow> bool" where
  "cb_ok cb E s \<longleftrightarrow> (cb = Cb_timer \<longrightarrow> srvc_T s \<noteq> 0 \<and> cli_create_ok E \<and> ka_alloc_ok E \<and> cli_open_ok E)"

lemma timer_step:
  assumes "env_ok E s" "server_conn_fsm_timer_cb E s = Some s'"
  shows "conn_step E s s'"
  using assms by (auto simp: server_conn_fsm_timer_cb.simps step_emit intro: state_chg_step do_reestablish_step split: if_splits)

lemma conn_do_step:
  assumes "env_ok E s" "conn_do E cb s = Some (rc, s')"
  shows "conn_step E s s'"
proof (cases cb)
  case Cb_disconnected
  then obtain rc' where "srvc_dispatch_state E SRVC_E_TCP_DOWN None (s\<lparr>srvc_ka := False\<rparr>) = Some (rc', s')"
    using assms by (auto simp: srvc_disconnect_cb_def)
  from dispatch_state_step [OF _ this] assms(1) show ?thesis by simp
qed (use assms in \<open>auto simp: srvc_connect_cb_def ipa_keepalive_timeout_cb_def simp del: server_conn_fsm_timer_cb.simps
       intro: dispatch_state_step timer_step\<close>)

lemma conn_do_returns:
  assumes "env_ok E s" "srvc_inv s" "cb_ok cb E s"
  shows "\<exists>rc s'. conn_do E cb s = Some (rc, s') \<and> srvc_inv s'"
proof (cases cb)
  case Cb_disconnected
  then show ?thesis
    using dispatch_state_inv [of E "s\<lparr>srvc_ka := False\<rparr>" SRVC_E_TCP_DOWN None] assms
    by (auto simp: srvc_disconnect_cb_def)
next
  case Cb_connected
  then show ?thesis
    using dispatch_state_inv [OF assms(1,2), of SRVC_E_TCP_UP None] by (auto simp: srvc_connect_cb_def)
next
  case Cb_ka_timeout
  then show ?thesis
    using dispatch_state_inv [OF assms(1,2), of SRVC_E_KA_TIMEOUT None] by (auto simp: ipa_keepalive_timeout_cb_def)
next
  case Cb_timer
  then show ?thesis
    using timer_inv [OF assms(1,2)] assms(3) by (auto simp: cb_ok_def simp del: server_conn_fsm_timer_cb.simps)
qed

lemma conn_do_init:
  assumes "env_ok E s" "srvc_inv s" "cb_ok cb E s" "conn_do E cb s = Some (rc, s')" "srvc_st s = SRVC_ST_INIT"
  shows "srvc_st s' = SRVC_ST_INIT"
  using assms
  by (cases cb) (auto simp: srvc_disconnect_cb_def srvc_connect_cb_def ipa_keepalive_timeout_cb_def dispatch_state_init
      cb_ok_def srvc_inv_def simp del: server_conn_fsm_timer_cb.simps)

interpretation cb: conn_idle_op "\<lambda>E. conn_do E c" "cb_ok c" for c
  by unfold_locales (use conn_do_returns conn_do_step conn_do_init in blast)+

end
