(* ===== verification/Client_Inv.thy ===== *)
theory Client_Inv
  imports Client_Conn
begin

text \<open>
  The invariant of a running remsim-client and the proof that every input keeps it: CLIENT_MAIN
  is OPERATIONAL exactly while the connection to bankd is CONNECTED, and before the client is
  configured that connection is idle. Two levels of nested dispatches are always enough, and
  more give the same result.
\<close>

declare main_notify.simps [simp del]

section \<open>Frame\<close>

lemma fe_sel [simp]:
  "srv_conn (fe x bc) = srv_conn bc" "bankd_conn (fe x bc) = bankd_conn bc" "main_fi (fe x bc) = main_fi bc"
  "bankd_slot (fe x bc) = bankd_slot bc" "bc_cfg (fe x bc) = bc_cfg bc" "last_status (fe x bc) = last_status bc"
  "bc_out (fe x bc) = bc_out bc @ [x]"
  by (simp_all add: fe_def)

lemma call_script_sel [simp]:
  "srv_conn (call_script C c bc) = srv_conn bc" "bankd_conn (call_script C c bc) = bankd_conn bc"
  "main_fi (call_script C c bc) = main_fi bc" "bankd_slot (call_script C c bc) = bankd_slot bc"
  "bc_cfg (call_script C c bc) = bc_cfg bc" "last_status (call_script C c bc) = last_status bc"
  by (simp_all add: call_script_def split: option.split)

lemma operational_onenter_sel [simp]:
  "srv_conn (main_st_operational_onenter C bc) = srv_conn bc"
  "bankd_conn (main_st_operational_onenter C bc) = bankd_conn bc"
  "main_fi (main_st_operational_onenter C bc) = main_fi bc"
  "bankd_slot (main_st_operational_onenter C bc) = bankd_slot bc"
  "bc_cfg (main_st_operational_onenter C bc) = bc_cfg bc"
  by (simp_all add: main_st_operational_onenter_def Let_def)

lemma operational_onleave_sel [simp]:
  "srv_conn (main_st_operational_onleave C bc) = srv_conn bc"
  "bankd_conn (main_st_operational_onleave C bc) = bankd_conn bc"
  "main_fi (main_st_operational_onleave C bc) = main_fi bc"
  "bankd_slot (main_st_operational_onleave C bc) = bankd_slot bc"
  "bc_cfg (main_st_operational_onleave C bc) = bc_cfg bc"
  by (simp_all add: main_st_operational_onleave_def Let_def)

text \<open>What the frontend sees of the effects.\<close>

fun is_script :: "client_effect \<Rightarrow> bool" where
  "is_script (Script _ _) = True"
| "is_script _ = False"

definition frontend :: "bankd_client \<Rightarrow> client_effect list" where
  "frontend bc = filter (\<lambda>x. \<not> is_script x) (bc_out bc)"

lemma frontend_simps [simp]:
  "frontend (fe x bc) = frontend bc @ (if is_script x then [] else [x])" "frontend (call_script C c bc) = frontend bc"
  "frontend (bc\<lparr>main_fi := m\<rparr>) = frontend bc" "frontend (bc\<lparr>srv_conn := s\<rparr>) = frontend bc"
  "frontend (bc\<lparr>bankd_conn := s\<rparr>) = frontend bc" "frontend (bc\<lparr>bankd_slot := sl\<rparr>) = frontend bc"
  by (simp_all add: frontend_def call_script_def split: option.split)

definition insert_effects :: "client_config \<Rightarrow> client_effect list" where
  "insert_effects cfg = [FeSimRemote, FeSetAtr (take (atr_len cfg) (atr_data cfg)), FeCardInsert, FeModemReset]"

definition remove_effects :: "client_effect list" where
  "remove_effects = [FeCardRemove, FeSimLocal, FeModemReset]"

lemma operational_frontend [simp]:
  "frontend (main_st_operational_onenter C bc) = frontend bc @ insert_effects (bc_cfg bc)"
  "frontend (main_st_operational_onleave C bc) = frontend bc @ remove_effects"
  by (simp_all add: main_st_operational_onenter_def main_st_operational_onleave_def Let_def insert_effects_def remove_effects_def)

text \<open>What the modem has after these effects: the remote SIM selected, the card inserted.\<close>

fun view_step :: "bool \<times> bool \<Rightarrow> client_effect \<Rightarrow> bool \<times> bool" where
  "view_step (remote, inserted) FeSimRemote = (True, inserted)"
| "view_step (remote, inserted) FeSimLocal = (False, inserted)"
| "view_step (remote, inserted) FeCardInsert = (remote, True)"
| "view_step (remote, inserted) FeCardRemove = (remote, False)"
| "view_step v _ = v"

definition modem_view :: "bankd_client \<Rightarrow> bool \<times> bool" where
  "modem_view bc = foldl view_step (False, False) (bc_out bc)"

lemma modem_view_simps [simp]:
  "modem_view (fe x bc) = view_step (modem_view bc) x" "modem_view (call_script C c bc) = modem_view bc"
  "modem_view (bc\<lparr>main_fi := m\<rparr>) = modem_view bc" "modem_view (bc\<lparr>srv_conn := s\<rparr>) = modem_view bc"
  "modem_view (bc\<lparr>bankd_conn := s\<rparr>) = modem_view bc" "modem_view (bc\<lparr>bankd_slot := sl\<rparr>) = modem_view bc"
  "modem_view (bc\<lparr>last_status := ls\<rparr>) = modem_view bc"
  by (simp_all add: modem_view_def call_script_def split: option.split)

lemma operational_view [simp]:
  "modem_view (main_st_operational_onenter C bc) = (True, True)"
  "modem_view (main_st_operational_onleave C bc) = (False, False)"
  by (cases "modem_view bc"; simp add: main_st_operational_onenter_def main_st_operational_onleave_def Let_def)+

section \<open>Invariant\<close>

text \<open>The connections as \<open>remsim_client_create\<close> sets them up.\<close>

definition conns_ok :: "bankd_client \<Rightarrow> bool" where
  "conns_ok bc \<longleftrightarrow> srvc_inv (srv_conn bc) \<and> srvc_inv (bankd_conn bc) \<and>
     srvc_parent (srv_conn bc) \<and> parent_conn_evt (srv_conn bc) = mf_ev_nr MF_E_SRVC_CONNECTED \<and>
     parent_disc_evt (srv_conn bc) = mf_ev_nr MF_E_SRVC_LOST \<and>
     srvc_parent (bankd_conn bc) \<and> parent_conn_evt (bankd_conn bc) = mf_ev_nr MF_E_BANKD_CONNECTED \<and>
     parent_disc_evt (bankd_conn bc) = mf_ev_nr MF_E_BANKD_LOST \<and>
     ac_type (own_comp_id (bankd_conn bc)) = ComponentType_remsimClient \<and>
     srvc_clslot (srv_conn bc) \<noteq> None \<and> srvc_clslot (bankd_conn bc) = srvc_clslot (srv_conn bc)"

definition main_link :: "main_fsm_state \<Rightarrow> server_conn_fsm_state \<Rightarrow> bool" where
  "main_link m st \<longleftrightarrow> (m = MF_ST_OPERATIONAL \<longleftrightarrow> st = SRVC_ST_CONNECTED) \<and>
     (m = MF_ST_INIT \<or> m = MF_ST_UNCONFIGURED \<longrightarrow> st = SRVC_ST_INIT)"

definition client_inv :: "bankd_client \<Rightarrow> bool" where
  "client_inv bc \<longleftrightarrow> conns_ok bc \<and> main_link (main_fi bc) (srvc_st (bankd_conn bc)) \<and>
     modem_view bc = (main_fi bc = MF_ST_OPERATIONAL, main_fi bc = MF_ST_OPERATIONAL)"

definition client_env_ok :: "client_env \<Rightarrow> bankd_client \<Rightarrow> bool" where
  "client_env_ok C bc \<longleftrightarrow> env_ok (ce_srvc C) (srv_conn bc) \<and> env_ok (ce_srvc C) (bankd_conn bc)"

lemma client_env_okD:
  assumes "client_env_ok C bc"
  shows "ev_ok (ce_srvc C) m n = bit m n" "st_ok (ce_srvc C) m n = bit m n"
  using assms env_okD by (auto simp: client_env_ok_def)

definition documented :: "client_env \<Rightarrow> bool" where
  "documented C \<longleftrightarrow> fsm_documented (ev_ok (ce_srvc C)) (st_ok (ce_srvc C))"

lemma documentedD: "documented C \<Longrightarrow> ev_ok (ce_srvc C) m n = bit m n" "documented C \<Longrightarrow> st_ok (ce_srvc C) m n = bit m n"
  by (simp_all add: documented_def fsm_documented_def)

lemma client_env_ok_documented: "client_env_ok C bc \<Longrightarrow> documented C"
  by (simp add: client_env_ok_def env_ok_def documented_def)

text \<open>What a step needs and what it gives.\<close>

definition fine :: "client_env \<Rightarrow> bankd_client \<Rightarrow> bool" where
  "fine C bc \<longleftrightarrow> client_inv bc \<and> client_env_ok C bc"

definition returns_fine :: "client_env \<Rightarrow> bankd_client option \<Rightarrow> bool" where
  "returns_fine C r \<longleftrightarrow> (\<exists>bc'. r = Some bc' \<and> fine C bc')"

lemma returns_fineI: "r = Some bc' \<Longrightarrow> fine C bc' \<Longrightarrow> returns_fine C r"
  by (simp add: returns_fine_def)

lemma fine_out [simp]: "fine C (bc\<lparr>last_status := ls\<rparr>) = fine C bc"
  "fine C (bc\<lparr>bankd_slot := sl\<rparr>) = fine C bc" "fine C (call_script C' c bc) = fine C bc"
  by (simp_all add: fine_def client_inv_def conns_ok_def client_env_ok_def)

lemma fine_fe [simp]: "view_step (modem_view bc) x = modem_view bc \<Longrightarrow> fine C (fe x bc) = fine C bc"
  by (simp add: fine_def client_inv_def conns_ok_def client_env_ok_def)

section \<open>Events of the connection to bankd\<close>

lemma dispatch_bankd_event_refused:
  assumes "client_env_ok C bc" "main_fi bc \<noteq> MF_ST_OPERATIONAL"
  shows "main_notify (Suc k) C (mf_ev_nr MF_E_BANKD_LOST) bc = Some bc"
  using assms
  by (cases "main_fi bc") (simp_all add: main_notify.simps mf_events_def main_dispatch_with_def main_allstate_event_mask_def
      client_env_okD [OF assms(1)] bit_simps)

lemma dispatch_bankd_lost:
  assumes "client_env_ok C bc" "main_fi bc = MF_ST_OPERATIONAL"
  shows "main_notify (Suc k) C (mf_ev_nr MF_E_BANKD_LOST) bc =
     Some ((main_st_operational_onleave C bc)\<lparr>main_fi := MF_ST_WAIT_BANKD\<rparr>)"
  using assms
  by (simp add: main_notify.simps mf_events_def main_dispatch_with_def main_allstate_event_mask_def main_action_def main_st_operational_def
      main_state_chg_def client_env_okD [OF assms(1)] bit_simps)

lemma dispatch_bankd_connected:
  assumes "documented C" "main_fi bc = MF_ST_WAIT_BANKD"
  shows "main_notify (Suc k) C (mf_ev_nr MF_E_BANKD_CONNECTED) bc =
     Some (call_script C ''event-bankd-connect'' (main_st_operational_onenter C (bc\<lparr>main_fi := MF_ST_OPERATIONAL\<rparr>)))"
  using assms
  by (simp add: main_notify.simps mf_events_def main_dispatch_with_def main_allstate_event_mask_def main_action_def main_st_wait_bankd_def
      main_state_chg_def documentedD [OF assms(1)] bit_simps)

lemma restore_st [simp]: "s\<lparr>srvc_st := a, srvc_st := srvc_st s\<rparr> = (s :: rspro_server_conn)"
  by simp

lemma env_ok_st [simp]: "env_ok E (s\<lparr>srvc_st := st\<rparr>) = env_ok E s"
  by (simp add: env_ok_def)

lemma conns_okD_bankd:
  "conns_ok bc \<Longrightarrow> srvc_inv (bankd_conn bc)" "conns_ok bc \<Longrightarrow> srvc_parent (bankd_conn bc)"
  "client_env_ok C bc \<Longrightarrow> env_ok (ce_srvc C) (bankd_conn bc)"
  by (simp_all add: conns_ok_def client_env_ok_def)

lemma conns_ok_bankd_upd:
  "conns_ok bc \<Longrightarrow> same_conf (bankd_conn bc) s \<Longrightarrow> srvc_inv s \<Longrightarrow> conns_ok (bc\<lparr>bankd_conn := s\<rparr>)"
  by (simp add: conns_ok_def same_conf_def)

context conn_down_op
begin

lemma nested_bankd:
  assumes "conns_ok bc" "client_env_ok C bc" "main_fi bc \<noteq> MF_ST_OPERATIONAL" "pre (ce_srvc C) (bankd_conn bc)"
  obtains rc s where "op (ce_srvc C) (bankd_conn bc) = Some (rc, s)"
    "with_bankd (main_notify (Suc k) C) (op (ce_srvc C)) bc = Some (rc, bc\<lparr>bankd_conn := s\<rparr>)"
    "conns_ok (bc\<lparr>bankd_conn := s\<rparr>)" "client_env_ok C (bc\<lparr>bankd_conn := s\<rparr>)"
proof -
  note b = conns_okD_bankd(1,2) [OF assms(1)] conns_okD_bankd(3) [OF assms(2)]
  obtain rc s where s: "op (ce_srvc C) (bankd_conn bc) = Some (rc, s)" "srvc_inv s" "same_conf (bankd_conn bc) s"
    "env_ok (ce_srvc C) s" "new_events (bankd_conn bc) s = link_events (bankd_conn bc) (srvc_st s)"
    using op_ok [OF b(3,1) assms(4)] b(2) by metis
  have e: "client_env_ok C (bc\<lparr>bankd_conn := s\<lparr>srvc_st := SRVC_ST_CONNECTED\<rparr>\<rparr>)"
    using assms(2) s(4) by (simp add: client_env_ok_def)
  have d: "parent_disc_evt (bankd_conn bc) = mf_ev_nr MF_E_BANKD_LOST"
    using assms(1) by (simp add: conns_ok_def)
  have "with_bankd (main_notify (Suc k) C) (op (ce_srvc C)) bc = Some (rc, bc\<lparr>bankd_conn := s\<rparr>)"
    using s(1,5) not_up [OF b(3,1) s(1)] dispatch_bankd_event_refused [OF e, of k] assms(3) d
    by (auto simp: with_bankd_def link_events_def)
  with s assms that show ?thesis
    by (auto simp: conns_ok_bankd_upd client_env_ok_def)
qed

end

context conn_idle_op
begin

text \<open>An operation on the connection to bankd, with what it makes CLIENT_MAIN do.\<close>

lemma bankd_op_fine:
  assumes "fine C bc" "pre (ce_srvc C) (bankd_conn bc)"
  shows "returns_fine C (map_option snd (with_bankd (main_notify (Suc k) C) (op (ce_srvc C)) bc))"
proof -
  have inv: "conns_ok bc" "client_env_ok C bc" "main_link (main_fi bc) (srvc_st (bankd_conn bc))"
    "modem_view bc = (main_fi bc = MF_ST_OPERATIONAL, main_fi bc = MF_ST_OPERATIONAL)"
    using assms(1) by (auto simp: fine_def client_inv_def)
  note b = conns_okD_bankd(1,2) [OF inv(1)] conns_okD_bankd(3) [OF inv(2)]
  obtain rc s where s: "op (ce_srvc C) (bankd_conn bc) = Some (rc, s)" "srvc_inv s" "same_conf (bankd_conn bc) s"
    "env_ok (ce_srvc C) s" "new_events (bankd_conn bc) s = link_events (bankd_conn bc) (srvc_st s)"
    using op_ok [OF b(3,1) assms(2)] b(2) by metis
  let ?bc = "bc\<lparr>bankd_conn := s\<lparr>srvc_st := SRVC_ST_CONNECTED\<rparr>\<rparr>"
  have e: "client_env_ok C ?bc"
    using inv(2) s(4) by (simp add: client_env_ok_def)
  have init: "srvc_st (bankd_conn bc) = SRVC_ST_INIT \<Longrightarrow> srvc_st s = SRVC_ST_INIT"
    using stays_init [OF b(3,1) assms(2) s(1)] .
  have evts: "parent_conn_evt (bankd_conn bc) = mf_ev_nr MF_E_BANKD_CONNECTED" "parent_disc_evt (bankd_conn bc) = mf_ev_nr MF_E_BANKD_LOST"
    using inv(1) by (simp_all add: conns_ok_def)
  have ok: "conns_ok (bc\<lparr>bankd_conn := s\<rparr>)"
    by (rule conns_ok_bankd_upd [OF inv(1) s(3,2)])
  consider (lost) "main_fi bc = MF_ST_OPERATIONAL" "srvc_st (bankd_conn bc) = SRVC_ST_CONNECTED" "srvc_st s \<noteq> SRVC_ST_CONNECTED"
    | (up) "main_fi bc = MF_ST_WAIT_BANKD" "srvc_st (bankd_conn bc) \<noteq> SRVC_ST_CONNECTED" "srvc_st s = SRVC_ST_CONNECTED"
    | (same) "srvc_st (bankd_conn bc) = SRVC_ST_CONNECTED \<longleftrightarrow> srvc_st s = SRVC_ST_CONNECTED"
    using inv(3) init by (cases "main_fi bc") (auto simp: main_link_def)
  then show ?thesis
  proof cases
    case lost
    with s(1,5) evts dispatch_bankd_lost [OF e, of k] ok inv(2) s(4) show ?thesis
      by (auto simp: returns_fine_def with_bankd_def link_events_def fine_def client_inv_def main_link_def client_env_ok_def conns_ok_def)
  next
    case up
    then have idem: "s\<lparr>srvc_st := SRVC_ST_CONNECTED\<rparr> = s" by simp
    from up s(1,5) evts dispatch_bankd_connected [OF client_env_ok_documented [OF e], of _ k] ok inv(2) s(4) show ?thesis
      by (auto simp: idem returns_fine_def with_bankd_def link_events_def fine_def client_inv_def main_link_def client_env_ok_def conns_ok_def)
  next
    case same
    with s(1,5) ok inv(2-4) s(4) init show ?thesis
      by (auto simp: returns_fine_def with_bankd_def link_events_def fine_def client_inv_def main_link_def client_env_ok_def)
  qed
qed

end

section \<open>CLIENT_MAIN\<close>

lemma to_unconfigured:
  assumes "fine C bc"
  shows "\<exists>bc'. main_state_chg (main_notify (Suc k) C) C MF_ST_UNCONFIGURED bc = Some bc' \<and> fine C bc' \<and> srv_conn bc' = srv_conn bc"
proof (cases "main_fi bc = MF_ST_UNCONFIGURED")
  case True
  then show ?thesis
    using assms client_env_okD by (auto simp: main_state_chg_def fine_def bit_simps)
next
  case False
  have inv: "conns_ok bc" "client_env_ok C bc"
    "modem_view bc = (main_fi bc = MF_ST_OPERATIONAL, main_fi bc = MF_ST_OPERATIONAL)"
    using assms by (auto simp: fine_def client_inv_def)
  define bc2 where "bc2 = (if main_fi bc = MF_ST_OPERATIONAL then main_st_operational_onleave C bc else bc)\<lparr>main_fi := MF_ST_UNCONFIGURED\<rparr>"
  have bc2: "conns_ok bc2" "client_env_ok C bc2" "main_fi bc2 = MF_ST_UNCONFIGURED" "srv_conn bc2 = srv_conn bc" "bankd_conn bc2 = bankd_conn bc"
    "modem_view bc2 = (False, False)"
    using inv by (auto simp: bc2_def conns_ok_def client_env_ok_def)
  obtain rc s where s: "srvc_dispatch (ce_srvc C) SRVC_E_DISCONNECT None (bankd_conn bc2) = Some (rc, s)"
    "with_bankd (main_notify (Suc k) C) (srvc_dispatch (ce_srvc C) SRVC_E_DISCONNECT None) bc2 = Some (rc, bc2\<lparr>bankd_conn := s\<rparr>)"
    "conns_ok (bc2\<lparr>bankd_conn := s\<rparr>)" "client_env_ok C (bc2\<lparr>bankd_conn := s\<rparr>)"
    using disc.nested_bankd [OF bc2(1,2), of k] bc2(3) by auto
  have "srvc_st s = SRVC_ST_INIT"
    using disconnect_op [OF _ _ s(1)] bc2(1,2) conns_okD_bankd by blast
  moreover have "main_state_chg (main_notify (Suc k) C) C MF_ST_UNCONFIGURED bc = Some (bc2\<lparr>bankd_conn := s\<rparr>)"
    using False s(2) client_env_okD [OF inv(2)]
    by (cases "main_fi bc") (simp_all add: main_state_chg_def main_st_unconfigured_onenter_def bc2_def bit_simps)
  ultimately show ?thesis
    using s(3,4) bc2(3,4,6) by (auto simp: fine_def client_inv_def main_link_def)
qed

lemma to_wait_bankd:
  assumes "client_env_ok C bc" "main_fi bc \<noteq> MF_ST_INIT"
  shows "\<exists>bc'. main_state_chg N C MF_ST_WAIT_BANKD bc = Some bc' \<and> main_fi bc' = MF_ST_WAIT_BANKD \<and>
     srv_conn bc' = srv_conn bc \<and> bankd_conn bc' = bankd_conn bc \<and> bankd_slot bc' = bankd_slot bc \<and> bc_cfg bc' = bc_cfg bc \<and>
     (modem_view bc = (main_fi bc = MF_ST_OPERATIONAL, main_fi bc = MF_ST_OPERATIONAL) \<longrightarrow> modem_view bc' = (False, False)) \<and>
     frontend bc' = frontend bc @ (if main_fi bc = MF_ST_OPERATIONAL then remove_effects else [])"
  using assms(2)
  by (cases "main_fi bc") (simp_all add: main_state_chg_def client_env_okD [OF assms(1)] bit_simps)

lemma srvc_inv_conf [simp]:
  "srvc_inv (s\<lparr>server_host := h\<rparr>) = srvc_inv s" "srvc_inv (s\<lparr>server_port := p\<rparr>) = srvc_inv s"
  "srvc_inv (s\<lparr>peer_comp_id := i\<rparr>) = srvc_inv s" "srvc_inv (s\<lparr>srvc_clslot := c\<rparr>) = srvc_inv s"
  by (cases "srvc_st s"; simp add: srvc_inv_def)+

lemma env_ok_conf [simp]:
  "env_ok E (s\<lparr>server_host := h\<rparr>) = env_ok E s" "env_ok E (s\<lparr>server_port := p\<rparr>) = env_ok E s"
  "env_ok E (s\<lparr>peer_comp_id := i\<rparr>) = env_ok E s" "env_ok E (s\<lparr>srvc_clslot := c\<rparr>) = env_ok E s"
  by (simp_all add: env_ok_def)

lemma send_srv_fine:
  assumes "fine C bc"
  shows "\<exists>s. send_srv N C p bc = Some (bc\<lparr>srv_conn := s\<rparr>) \<and> fine C (bc\<lparr>srv_conn := s\<rparr>)"
proof -
  have *: "env_ok (ce_srvc C) (srv_conn bc)" "srvc_inv (srv_conn bc)" "srvc_parent (srv_conn bc)"
    using assms by (auto simp: fine_def client_inv_def conns_ok_def client_env_ok_def)
  obtain rc s where s: "server_conn_send_rspro (ce_srvc C) p (srv_conn bc) = Some (rc, s)" "srvc_inv s" "same_conf (srv_conn bc) s"
    "env_ok (ce_srvc C) s" "new_events (srv_conn bc) s = link_events (srv_conn bc) (srvc_st s)"
    using send.op_ok [OF *(1,2), of p] *(3) by auto
  have "srvc_st s = srvc_st (srv_conn bc)"
    using send_rspro_op [OF *(1) s(1)] by simp
  then have "send_srv N C p bc = Some (bc\<lparr>srv_conn := s\<rparr>)"
    using s(1,5) by (simp add: send_srv_def with_srv_def link_events_def)
  with assms s show ?thesis
    by (auto simp: fine_def client_inv_def conns_ok_def client_env_ok_def same_conf_def)
qed

lemma send_bankd_exact:
  assumes "fine C bc"
  shows "\<exists>rc s. server_conn_send_rspro (ce_srvc C) p (bankd_conn bc) = Some (rc, s) \<and>
     send_bankd N C p bc = Some (bc\<lparr>bankd_conn := s\<rparr>) \<and> fine C (bc\<lparr>bankd_conn := s\<rparr>)"
proof -
  have *: "env_ok (ce_srvc C) (bankd_conn bc)" "srvc_inv (bankd_conn bc)" "srvc_parent (bankd_conn bc)"
    using assms by (auto simp: fine_def client_inv_def conns_ok_def client_env_ok_def)
  obtain rc s where s: "server_conn_send_rspro (ce_srvc C) p (bankd_conn bc) = Some (rc, s)" "srvc_inv s" "same_conf (bankd_conn bc) s"
    "env_ok (ce_srvc C) s" "new_events (bankd_conn bc) s = link_events (bankd_conn bc) (srvc_st s)"
    using send.op_ok [OF *(1,2), of p] *(3) by auto
  have "srvc_st s = srvc_st (bankd_conn bc)"
    using send_rspro_op [OF *(1) s(1)] by simp
  then have "send_bankd N C p bc = Some (bc\<lparr>bankd_conn := s\<rparr>)" "fine C (bc\<lparr>bankd_conn := s\<rparr>)"
    using s assms by (auto simp: send_bankd_def with_bankd_def link_events_def fine_def client_inv_def conns_ok_def
        client_env_ok_def same_conf_def)
  with s(1) show ?thesis by blast
qed

lemma send_bankd_fine:
  assumes "fine C bc"
  shows "\<exists>s. send_bankd N C p bc = Some (bc\<lparr>bankd_conn := s\<rparr>) \<and> fine C (bc\<lparr>bankd_conn := s\<rparr>)"
  using send_bankd_exact [OF assms, of p N] by blast

text \<open>A port that is not 0 makes the client wait for the new bankd.\<close>

lemma config_bank_exact:
  assumes "fine C bc" "main_fi bc \<noteq> MF_ST_INIT" and port: "(word_of_int (ipp_port ipp) :: u16) \<noteq> 0"
  shows "\<exists>bc'. config_bank (main_notify (Suc k) C) C bs ipp bc = Some bc' \<and> fine C bc' \<and>
     main_fi bc' = MF_ST_WAIT_BANKD \<and> srvc_st (bankd_conn bc') = SRVC_ST_REESTABLISH_DELAY \<and>
     server_host (bankd_conn bc') = rspro_IpAddr2str (ce_inet_ntop C) (ipp_ip ipp) \<and>
     server_port (bankd_conn bc') = word_of_int (ipp_port ipp) \<and> srvc_clslot (bankd_conn bc') = srvc_clslot (bankd_conn bc) \<and>
     own_comp_id (bankd_conn bc') = own_comp_id (bankd_conn bc) \<and>
     bankd_slot bc' = rspro2bank_slot bs \<and> bc_cfg bc' = bc_cfg bc \<and>
     frontend bc' = frontend bc @ (if main_fi bc = MF_ST_OPERATIONAL then remove_effects else [])"
proof -
  define N where "N = main_notify (Suc k) C"
  define bc1 where "bc1 = bc\<lparr>bankd_conn := (bankd_conn bc)\<lparr>server_host := rspro_IpAddr2str (ce_inet_ntop C) (ipp_ip ipp),
      server_port := word_of_int (ipp_port ipp)\<rparr>, bankd_slot := rspro2bank_slot bs\<rparr>"
  have e1: "client_env_ok C bc1" "conns_ok bc1"
    "modem_view bc1 = (main_fi bc1 = MF_ST_OPERATIONAL, main_fi bc1 = MF_ST_OPERATIONAL)"
    using assms(1) by (simp_all add: bc1_def fine_def client_inv_def conns_ok_def client_env_ok_def)
  obtain bc' where bc': "main_state_chg N C MF_ST_WAIT_BANKD bc1 = Some bc'"
    "main_fi bc' = MF_ST_WAIT_BANKD" "srv_conn bc' = srv_conn bc1" "bankd_conn bc' = bankd_conn bc1"
    "bankd_slot bc' = bankd_slot bc1" "bc_cfg bc' = bc_cfg bc1" "modem_view bc' = (False, False)"
    "frontend bc' = frontend bc1 @ (if main_fi bc1 = MF_ST_OPERATIONAL then remove_effects else [])"
    using to_wait_bankd [OF e1(1), of N] assms(2) e1(3) by (auto simp: bc1_def)
  have e': "client_env_ok C bc'" "conns_ok bc'"
    using e1(1,2) bc'(3,4) by (simp_all add: client_env_ok_def conns_ok_def)
  obtain rc s where s: "srvc_dispatch (ce_srvc C) SRVC_E_ESTABLISH None (bankd_conn bc') = Some (rc, s)"
    "with_bankd N (srvc_dispatch (ce_srvc C) SRVC_E_ESTABLISH None) bc' = Some (rc, bc'\<lparr>bankd_conn := s\<rparr>)"
    "conns_ok (bc'\<lparr>bankd_conn := s\<rparr>)" "client_env_ok C (bc'\<lparr>bankd_conn := s\<rparr>)"
    using est.nested_bankd [OF e'(2,1), of k] bc'(2) by (auto simp: N_def)
  have st: "srvc_st s = SRVC_ST_REESTABLISH_DELAY" "same_conf (bankd_conn bc') s"
    using establish_op [OF _ _ s(1)] e' conns_okD_bankd by (auto simp: conn_step_def)
  have "fine C (bc'\<lparr>bankd_conn := s\<rparr>)"
    using s st bc' by (simp add: fine_def client_inv_def main_link_def)
  then obtain s' where "send_srv N C (rspro_gen_ConfigClientBankRes (calloc_ok (ce_srvc C)) ResultCode_ok) (bc'\<lparr>bankd_conn := s\<rparr>) =
      Some (bc'\<lparr>bankd_conn := s, srv_conn := s'\<rparr>)" "fine C (bc'\<lparr>bankd_conn := s, srv_conn := s'\<rparr>)"
    using send_srv_fine by blast
  with s(2) st bc' port show ?thesis
    by (auto simp: config_bank_def Let_def N_def bc1_def same_conf_def)
qed

lemma config_bank_fine:
  assumes "fine C bc" "main_fi bc \<noteq> MF_ST_INIT"
  shows "returns_fine C (config_bank (main_notify (Suc k) C) C bs ipp bc)"
proof (cases "(word_of_int (ipp_port ipp) :: u16) = 0")
  case False
  with config_bank_exact [OF assms, of ipp k bs] show ?thesis
    by (auto simp: returns_fine_def)
next
  case True
  define bc1 where "bc1 = bc\<lparr>bankd_conn := (bankd_conn bc)\<lparr>server_host := rspro_IpAddr2str (ce_inet_ntop C) (ipp_ip ipp),
      server_port := 0\<rparr>, bankd_slot := rspro2bank_slot bs\<rparr>"
  have "fine C bc1"
    using assms(1) by (simp add: bc1_def fine_def client_inv_def conns_ok_def client_env_ok_def)
  then obtain bc2 where bc2: "main_state_chg (main_notify (Suc k) C) C MF_ST_UNCONFIGURED bc1 = Some bc2" "fine C bc2"
    using to_unconfigured by blast
  obtain s where "send_srv (main_notify (Suc k) C) C (rspro_gen_ConfigClientBankRes (calloc_ok (ce_srvc C)) ResultCode_ok) bc2 =
      Some (bc2\<lparr>srv_conn := s\<rparr>)" "fine C (bc2\<lparr>srv_conn := s\<rparr>)"
    using send_srv_fine [OF bc2(2)] by blast
  with True bc2(1) show ?thesis
    by (simp add: config_bank_def Let_def bc1_def returns_fine_def)
qed

text \<open>The events that frontend and messages cause, with the data they come with.\<close>

definition data_ok :: "main_fsm_event \<Rightarrow> mf_data \<Rightarrow> bool" where
  "data_ok ev d \<longleftrightarrow>
     (case ev of
        MF_E_SRVC_CONFIG_BANK \<Rightarrow> \<exists>pdu bs ipp. d = MfPdu pdu \<and> pdu_msg pdu = configClientBankReq bs ipp
      | MF_E_BANKD_TPDU \<Rightarrow> \<exists>pdu b c f t. d = MfPdu pdu \<and> pdu_msg pdu = tpduCardToModem b c f t
      | MF_E_BANKD_ATR \<Rightarrow> \<exists>pdu c a. d = MfPdu pdu \<and> pdu_msg pdu = setAtrReq c a
      | MF_E_BANKD_SLOT_STATUS \<Rightarrow> \<exists>pdu b c x. d = MfPdu pdu \<and> pdu_msg pdu = bankSlotStatusInd b c x
      | MF_E_MDM_STATUS_IND \<Rightarrow> \<exists>x. d = MfStatus x
      | MF_E_MDM_PTS_IND \<Rightarrow> \<exists>b. d = MfPts b
      | MF_E_MDM_TPDU \<Rightarrow> \<exists>b. d = MfTpdu b
      | _ \<Rightarrow> False)"

lemma fine_clslot: "fine C bc \<Longrightarrow> \<exists>cs. srvc_clslot (srv_conn bc) = Some cs"
  by (auto simp: fine_def client_inv_def conns_ok_def)

lemma mdm_status_fine:
  assumes "fine C bc"
  shows "returns_fine C (mdm_status_ind N C st bc)"
proof -
  obtain cs where cs: "srvc_clslot (srv_conn bc) = Some cs"
    using fine_clslot [OF assms] by auto
  define p where "p = rspro_gen_ClientSlotStatusInd (calloc_ok (ce_srvc C)) cs (bank_slot2rspro (bankd_slot bc))
    (reset_active st \<noteq> 0) (vcc_present st) (clk_active st) (card_present st)"
  obtain s where "send_bankd N C p bc = Some (bc\<lparr>bankd_conn := s\<rparr>)" "fine C (bc\<lparr>bankd_conn := s\<rparr>)"
    using send_bankd_fine [OF assms, of N p] by auto
  with cs show ?thesis
    by (simp add: mdm_status_ind_def returns_fine_def Let_def p_def)
qed

lemma set_atr_fine: "fine C bc \<Longrightarrow> returns_fine C (send_bankd N C p (if i then bc else fe (FeSetAtr a) bc))"
  using send_bankd_fine [of C bc N p] send_bankd_fine [of C "fe (FeSetAtr a) bc" N p] by (auto simp: returns_fine_def)

lemma mdm_tpdu_fine:
  assumes "fine C bc"
  shows "returns_fine C (do { clslot \<leftarrow> srvc_clslot (srv_conn bc); send_bankd N C (f clslot) bc })"
proof -
  obtain cs where "srvc_clslot (srv_conn bc) = Some cs"
    using fine_clslot [OF assms] by auto
  with send_bankd_fine [OF assms, of N "f cs"] show ?thesis
    by (auto simp: returns_fine_def)
qed

lemma operational_fine:
  assumes "fine C bc" "data_ok ev d" "main_fi bc \<noteq> MF_ST_INIT"
  shows "returns_fine C (main_st_operational (main_notify (Suc k) C) C ev d bc)"
  using assms(2) config_bank_fine [OF assms(1,3), of k] set_atr_fine [OF assms(1)] mdm_status_fine [OF assms(1)]
    mdm_tpdu_fine [OF assms(1)] assms(1)
  by (cases ev) (auto simp: main_st_operational_def data_ok_def returns_fineI [OF refl])

lemma main_dispatch_fine:
  assumes "fine C bc" "data_ok ev d"
  shows "returns_fine C (map_option snd (main_dispatch_with (main_notify (Suc k) C) C ev d bc))"
proof -
  have e: "client_env_ok C bc"
    using assms(1) by (simp add: fine_def)
  have na: "\<not> bit main_allstate_event_mask (mf_ev_nr ev)"
    using assms(2) by (cases ev) (auto simp: data_ok_def main_allstate_event_mask_def bit_simps)
  show ?thesis
  proof (cases "bit (main_in_event_mask (main_fi bc)) (mf_ev_nr ev)")
    case False
    with na assms(1) show ?thesis
      by (simp add: main_dispatch_with_def client_env_okD [OF e] returns_fineI [OF refl])
  next
    case True
    have "main_fi bc \<noteq> MF_ST_INIT"
      using True assms(2) by (cases ev) (auto simp: data_ok_def)
    moreover have "main_fi bc \<noteq> MF_ST_OPERATIONAL \<Longrightarrow> ev = MF_E_SRVC_CONFIG_BANK"
      using True assms(2) by (cases "main_fi bc"; cases ev) (auto simp: data_ok_def bit_simps)
    ultimately have "main_action (main_notify (Suc k) C) C ev d bc = main_st_operational (main_notify (Suc k) C) C ev d bc"
      by (cases "main_fi bc") (simp_all add: main_action_def main_st_unconfigured_def main_st_wait_bankd_def)
    with True na operational_fine [OF assms \<open>main_fi bc \<noteq> MF_ST_INIT\<close>, of k] show ?thesis
      by (auto simp: main_dispatch_with_def client_env_okD [OF e] option.map_comp comp_def option.map_ident)
  qed
qed

section \<open>Events of the connection to the server\<close>

lemma dispatch_srvc_lost:
  assumes "client_env_ok C bc"
  shows "main_notify (Suc k) C (mf_ev_nr MF_E_SRVC_LOST) bc = Some bc"
  by (simp add: main_notify.simps mf_events_def main_dispatch_with_def main_allstate_event_mask_def main_allstate_action_def
      client_env_okD [OF assms] bit_simps)

lemma dispatch_srvc_connected:
  assumes "fine C bc"
  shows "\<exists>bc'. main_notify (Suc (Suc k)) C (mf_ev_nr MF_E_SRVC_CONNECTED) bc = Some bc' \<and> fine C bc' \<and> srv_conn bc' = srv_conn bc"
proof -
  have e: "client_env_ok C bc"
    using assms by (simp add: fine_def)
  obtain bc' where "main_state_chg (main_notify (Suc k) C) C MF_ST_UNCONFIGURED bc = Some bc'" "fine C bc'" "srv_conn bc' = srv_conn bc"
    using to_unconfigured [OF assms, of k] by auto
  with assms show ?thesis
    by (cases "main_fi bc")
      (simp_all add: main_notify.simps(2) [of "Suc k"] mf_events_def main_dispatch_with_def main_allstate_event_mask_def main_action_def main_st_init_def
        client_env_okD [OF e] bit_simps)
qed

lemma fine_srv_upd:
  "fine C bc \<Longrightarrow> same_conf (srv_conn bc) s \<Longrightarrow> srvc_inv s \<Longrightarrow> env_ok (ce_srvc C) s \<Longrightarrow> fine C (bc\<lparr>srv_conn := s\<rparr>)"
  by (auto simp: fine_def client_inv_def conns_ok_def client_env_ok_def same_conf_def)

context conn_op
begin

lemma srv_op_fine:
  assumes "fine C bc" "pre (ce_srvc C) (srv_conn bc)"
  shows "returns_fine C (map_option snd (with_srv (main_notify (Suc (Suc k)) C) (op (ce_srvc C)) bc))"
proof -
  have b: "env_ok (ce_srvc C) (srv_conn bc)" "srvc_inv (srv_conn bc)" "srvc_parent (srv_conn bc)"
    "parent_conn_evt (srv_conn bc) = mf_ev_nr MF_E_SRVC_CONNECTED" "parent_disc_evt (srv_conn bc) = mf_ev_nr MF_E_SRVC_LOST"
    using assms(1) by (auto simp: fine_def client_inv_def conns_ok_def client_env_ok_def)
  obtain rc s where s: "op (ce_srvc C) (srv_conn bc) = Some (rc, s)" "srvc_inv s" "same_conf (srv_conn bc) s"
    "env_ok (ce_srvc C) s" "new_events (srv_conn bc) s = link_events (srv_conn bc) (srvc_st s)"
    using op_ok [OF b(1,2) assms(2)] b(3) by metis
  have f: "fine C (bc\<lparr>srv_conn := s\<rparr>)"
    using assms(1) s by (intro fine_srv_upd)
  have e: "client_env_ok C (bc\<lparr>srv_conn := s\<lparr>srvc_st := SRVC_ST_CONNECTED\<rparr>\<rparr>)"
    using f by (simp add: fine_def client_env_ok_def)
  show ?thesis
  proof (cases "srvc_st (srv_conn bc) \<noteq> SRVC_ST_CONNECTED \<and> srvc_st s = SRVC_ST_CONNECTED")
    case True
    then have idem: "s\<lparr>srvc_st := SRVC_ST_CONNECTED\<rparr> = s" by simp
    obtain bc' where bc': "main_notify (Suc (Suc k)) C (mf_ev_nr MF_E_SRVC_CONNECTED) (bc\<lparr>srv_conn := s\<rparr>) = Some bc'" "fine C bc'"
      "srv_conn bc' = s"
      using dispatch_srvc_connected [OF f, of k] by auto
    then have idem': "bc'\<lparr>srv_conn := s\<rparr> = bc'" by simp
    from True s(1,5) b(4) bc' show ?thesis
      by (simp add: idem idem' with_srv_def link_events_def returns_fine_def)
  next
    case False
    with s b(5) dispatch_srvc_lost [OF e, of "Suc k"] f show ?thesis
      by (auto simp: with_srv_def link_events_def returns_fine_def)
  qed
qed

end

section \<open>Inputs\<close>

lemma snd_fine:
  "returns_fine C (map_option snd r) \<Longrightarrow> \<exists>rc bc'. r = Some (rc, bc') \<and> fine C bc'"
  by (auto simp: returns_fine_def)

lemma fine_bankd_peer: "fine C bc \<Longrightarrow> fine C (bc\<lparr>bankd_conn := (bankd_conn bc)\<lparr>peer_comp_id := i\<rparr>\<rparr>)"
  by (simp add: fine_def client_inv_def conns_ok_def client_env_ok_def)

lemma fine_srv_peer: "fine C bc \<Longrightarrow> fine C (bc\<lparr>srv_conn := (srv_conn bc)\<lparr>peer_comp_id := i\<rparr>\<rparr>)"
  by (simp add: fine_def client_inv_def conns_ok_def client_env_ok_def)

lemma fine_clslots:
  "fine C bc \<Longrightarrow> fine C (bc\<lparr>srv_conn := (srv_conn bc)\<lparr>srvc_clslot := Some cs\<rparr>, bankd_conn := (bankd_conn bc)\<lparr>srvc_clslot := Some cs\<rparr>\<rparr>)"
  by (simp add: fine_def client_inv_def conns_ok_def client_env_ok_def)

lemma get_result_connectClientRes: "pdu_msg pdu = connectClientRes i r \<Longrightarrow> rspro_get_result pdu \<noteq> None"
  by (simp add: rspro_get_result_def)

lemma main_dispatch_ok:
  assumes "fine C bc" "data_ok ev d"
  shows "\<exists>rc bc'. main_dispatch C ev d bc = Some (rc, bc') \<and> fine C bc'"
  using snd_fine [OF main_dispatch_fine [OF assms, of 0]] by (simp add: main_dispatch_def)

lemma bankd_handle_rx_fine:
  assumes "fine C bc"
  shows "\<exists>rc bc'. bankd_handle_rx C pdu bc = Some (rc, bc') \<and> fine C bc'"
proof (cases "pdu_msg pdu")
  case (connectClientRes i r)
  note disc = snd_fine [OF disc_idle.bankd_op_fine [OF assms TrueI, of 1]]
  note res = snd_fine [OF conn_res.bankd_op_fine [OF fine_bankd_peer [OF assms, of "rspro_comp_id_retrieve i"] get_result_connectClientRes [OF connectClientRes], where k = 1]]
  show ?thesis
    using disc res connectClientRes
    by (auto simp: bankd_handle_rx_def numeral_2_eq_2 split: prod.splits)
qed (use assms main_dispatch_ok [OF assms] in \<open>auto simp: bankd_handle_rx_def data_ok_def\<close>)

lemma srvc_handle_rx_fine:
  assumes "fine C bc"
  shows "\<exists>rc bc'. srvc_handle_rx C pdu bc = Some (rc, bc') \<and> fine C bc'"
proof (cases "pdu_msg pdu")
  case (connectClientRes i r)
  note disc = snd_fine [OF disc.srv_op_fine [OF assms TrueI, of 0]]
  note res = snd_fine [OF conn_res.srv_op_fine [OF fine_srv_peer [OF assms, of "rspro_comp_id_retrieve i"] get_result_connectClientRes [OF connectClientRes], where k = 0]]
  show ?thesis
    using disc res connectClientRes
    by (auto simp: srvc_handle_rx_def numeral_2_eq_2 split: prod.splits)
next
  case (configClientIdReq cs)
  obtain s where "send_srv (main_notify 2 C) C (rspro_gen_ConfigClientIdRes (calloc_ok (ce_srvc C)) ResultCode_ok)
      (bc\<lparr>srv_conn := (srv_conn bc)\<lparr>srvc_clslot := Some cs\<rparr>, bankd_conn := (bankd_conn bc)\<lparr>srvc_clslot := Some cs\<rparr>\<rparr>) = Some s" "fine C s"
    using send_srv_fine [OF fine_clslots [OF assms]] by blast
  with configClientIdReq show ?thesis by (simp add: srvc_handle_rx_def)
next
  case (configClientBankReq b p)
  then have "data_ok MF_E_SRVC_CONFIG_BANK (MfPdu pdu)" by (simp add: data_ok_def)
  from main_dispatch_ok [OF assms this] configClientBankReq show ?thesis
    by (auto simp: srvc_handle_rx_def)
qed (use assms in \<open>auto simp: srvc_handle_rx_def\<close>)

text \<open>A timer fires only when it is armed.\<close>

fun client_input_ok :: "client_env \<Rightarrow> client_input \<Rightarrow> bankd_client \<Rightarrow> bool" where
  "client_input_ok C (CSrvCb c) bc = cb_ok c (ce_srvc C) (srv_conn bc)"
| "client_input_ok C (CBankdCb c) bc = cb_ok c (ce_srvc C) (bankd_conn bc)"
| "client_input_ok C _ bc = True"

lemma client_do_fine:
  assumes "fine C bc" "client_input_ok C inp bc"
  shows "\<exists>rc bc'. client_do C inp bc = Some (rc, bc') \<and> fine C bc'"
proof (cases inp)
  case CStart
  then show ?thesis
    using snd_fine [OF est.srv_op_fine [OF assms(1) TrueI, of 0]] by (simp add: numeral_2_eq_2)
next
  case (CSrvCb c)
  then show ?thesis
    using snd_fine [OF cb.srv_op_fine [OF assms(1), of c 0]] assms(2) by (simp add: numeral_2_eq_2)
next
  case (CBankdCb c)
  then show ?thesis
    using snd_fine [OF cb.bankd_op_fine [OF assms(1), of c 1]] assms(2) by (simp add: numeral_2_eq_2)
qed (use assms bankd_handle_rx_fine srvc_handle_rx_fine main_dispatch_ok [OF assms(1)] in \<open>auto simp: data_ok_def\<close>)

inductive client_reach :: "bankd_client \<Rightarrow> bool" where
  created: "client_reach (remsim_client_create version name software cfg)"
| input: "client_reach bc \<Longrightarrow> client_env_ok C bc \<Longrightarrow> client_input_ok C inp bc \<Longrightarrow> client_do C inp bc = Some (rc, bc') \<Longrightarrow>
     client_reach bc'"

lemma create_inv: "client_inv (remsim_client_create version name software cfg)"
  by (simp add: client_inv_def conns_ok_def main_link_def remsim_client_create_def Let_def server_conn_fsm_alloc_def
      remsim_client_set_clslot_def set_clslot_def zero_client_def zero_conn_def srvc_inv_def client_comp_id_def zero_comp_id_def modem_view_def)

lemma client_reach_inv: "client_reach bc \<Longrightarrow> client_inv bc"
proof (induction rule: client_reach.induct)
  case (input bc C inp rc bc')
  then show ?case
    using client_do_fine [of C bc inp] by (auto simp: fine_def)
qed (rule create_inv)

end
