(* ===== verification/Client_Props.thy ===== *)
theory Client_Props
  imports Client_Inv
begin

text \<open>
  Properties of remsim-client: its invariant, the bound on nested dispatches, the way from a
  configuration message to the card in the modem, and the calls of the event script for the
  modem's status.
\<close>

section \<open>An example\<close>

definition ex_cenv :: "int \<Rightarrow> client_env" where
  "ex_cenv t = \<lparr>ce_srvc = ex_env t, ce_inet_ntop = (\<lambda>_ _. Some ''10.0.0.1''), ce_version = ''1'', ce_append_env = (\<lambda>_. [])\<rparr>"

definition ex_client :: bankd_client where
  "ex_client = remsim_client_create ''1'' ''host'' ''remsim-client'' (client_config_init\<lparr>cfg_client_id := 23, cfg_client_slot := 0\<rparr>)"

definition ex_res :: "int \<Rightarrow> RsproPDU_t" where
  "ex_res t = \<lparr>pdu_version = 2, pdu_tag = 2342, pdu_msg = connectClientRes (fill_comp_id (zero_comp_id t)) ResultCode_ok\<rparr>"

definition ex_config :: "int \<Rightarrow> RsproPDU_t" where
  "ex_config port = \<lparr>pdu_version = 2, pdu_tag = 0,
     pdu_msg = configClientBankReq \<lparr>bs_bankId = 1, bs_slotNr = 0\<rparr> \<lparr>ipp_ip = ipv4 [10, 0, 0, 1], ipp_port = port\<rparr>\<rparr>"

text \<open>Inputs at given times, with or without memory for what is allocated.\<close>

definition ex_cenv_mem :: "bool \<Rightarrow> int \<Rightarrow> client_env" where
  "ex_cenv_mem a t = (ex_cenv t)\<lparr>ce_srvc := (ex_env t)\<lparr>calloc_ok := a\<rparr>\<rparr>"

fun ex_crun :: "bool \<Rightarrow> (int \<times> client_input) list \<Rightarrow> bankd_client \<Rightarrow> bankd_client option" where
  "ex_crun a [] bc = Some bc"
| "ex_crun a ((t, inp) # xs) bc =
     (if 0 \<le> t \<and> reestablish_last_ms (srv_conn bc) \<le> t \<and> reestablish_last_ms (bankd_conn bc) \<le> t \<and>
         client_input_ok (ex_cenv_mem a t) inp bc
      then case client_do (ex_cenv_mem a t) inp bc of None \<Rightarrow> None | Some (rc, bc') \<Rightarrow> ex_crun a xs bc'
      else None)"

lemma ex_cenv_mem_ok:
  "client_env_ok (ex_cenv_mem a t) bc \<longleftrightarrow> 0 \<le> t \<and> reestablish_last_ms (srv_conn bc) \<le> t \<and> reestablish_last_ms (bankd_conn bc) \<le> t"
  by (auto simp: client_env_ok_def ex_cenv_mem_def ex_cenv_def env_ok_def ex_env_def fsm_documented_def)

lemma ex_cenv_ok:
  "client_env_ok (ex_cenv t) bc \<longleftrightarrow> 0 \<le> t \<and> reestablish_last_ms (srv_conn bc) \<le> t \<and> reestablish_last_ms (bankd_conn bc) \<le> t"
  by (auto simp: client_env_ok_def ex_cenv_def env_ok_def ex_env_def fsm_documented_def)

lemma ex_cenv_sel [simp]: "ce_srvc (ex_cenv t) = ex_env t" "ce_inet_ntop (ex_cenv t) f b = Some ''10.0.0.1''"
  by (simp_all add: ex_cenv_def)

lemma ex_crun_reach: "client_reach bc \<Longrightarrow> ex_crun a xs bc = Some bc' \<Longrightarrow> client_reach bc'"
proof (induction a xs bc rule: ex_crun.induct)
  case (2 a t inp xs bc)
  from "2.prems"(2) obtain rc bc1 where "client_env_ok (ex_cenv_mem a t) bc" "client_input_ok (ex_cenv_mem a t) inp bc"
    "client_do (ex_cenv_mem a t) inp bc = Some (rc, bc1)" "ex_crun a xs bc1 = Some bc'"
    by (auto simp: ex_cenv_mem_ok split: if_splits option.splits prod.splits)
  with "2.prems"(1) "2.IH" show ?case
    by (metis (no_types, lifting) client_reach.input ex_cenv_mem_ok)
qed simp

definition ex_start_inputs :: "(int \<times> client_input) list" where
  "ex_start_inputs =
     [(1, CStart), (2, CSrvCb Cb_timer), (3, CSrvCb Cb_connected), (4, CSrvRx (ex_res ComponentType_remsimServer))]"

definition ex_config_inputs :: "(int \<times> client_input) list" where
  "ex_config_inputs =
     [(5, CSrvRx (ex_config 9999)), (6, CBankdCb Cb_timer), (7, CBankdCb Cb_connected),
      (8, CBankdRx (ex_res ComponentType_remsimBankd))]"

definition ex_started :: bankd_client where
  "ex_started = the (ex_crun True ex_start_inputs ex_client)"

definition ex_operational :: bankd_client where
  "ex_operational = the (ex_crun True ex_config_inputs ex_started)"

lemma ex_client_reach: "client_reach ex_client"
  unfolding ex_client_def by (rule client_reach.created)

lemma ex_started_sel:
  "ex_crun True ex_start_inputs ex_client \<noteq> None" "main_fi ex_started = MF_ST_UNCONFIGURED"
  "srvc_st (srv_conn ex_started) = SRVC_ST_CONNECTED"
  "reestablish_last_ms (srv_conn ex_started) = 2" "reestablish_last_ms (bankd_conn ex_started) = 0"
  by code_simp+

lemma ex_started_reach: "client_reach ex_started"
  using ex_crun_reach [OF ex_client_reach, of True ex_start_inputs] ex_started_sel(1) by (auto simp: ex_started_def)

lemma ex_operational_sel:
  "ex_crun True ex_config_inputs ex_started \<noteq> None" "main_fi ex_operational = MF_ST_OPERATIONAL"
  "reestablish_last_ms (srv_conn ex_operational) = 2" "reestablish_last_ms (bankd_conn ex_operational) = 6"
  "bankd_slot ex_operational = \<lparr>bank_id = 1, slot_nr = 0\<rparr>"
  "srvc_clslot (srv_conn ex_operational) = Some \<lparr>cs_clientId = 23, cs_slotNr = 0\<rparr>"
  "event_script (bc_cfg ex_operational) = None"
  by code_simp+

lemma ex_operational_reach: "client_reach ex_operational"
  using ex_crun_reach [OF ex_started_reach, of True ex_config_inputs] ex_operational_sel(1) by (auto simp: ex_operational_def)

section \<open>Integrity\<close>



section \<open>Nesting\<close>

definition extends :: "notify \<Rightarrow> notify \<Rightarrow> bool" where
  "extends N N' \<longleftrightarrow> (\<forall>n bc r. N n bc = Some r \<longrightarrow> N' n bc = Some r)"

lemma extends_notify_all: "extends N N' \<Longrightarrow> notify_all N es bc = Some r \<Longrightarrow> notify_all N' es bc = Some r"
  by (induction es arbitrary: bc) (auto simp: extends_def split: Option.bind_splits)

lemma extends_with_bankd:
  assumes "extends N N'" "with_bankd N f bc = Some r"
  shows "with_bankd N' f bc = Some r"
  using assms(2) extends_notify_all [OF assms(1)] by (fastforce simp: with_bankd_def split: Option.bind_splits)

lemma extends_with_srv:
  assumes "extends N N'" "with_srv N f bc = Some r"
  shows "with_srv N' f bc = Some r"
  using assms(2) extends_notify_all [OF assms(1)] by (fastforce simp: with_srv_def split: Option.bind_splits)

lemma extends_send:
  assumes "extends N N'"
  shows "send_srv N C p bc = Some r \<Longrightarrow> send_srv N' C p bc = Some r"
    "send_bankd N C p bc = Some r \<Longrightarrow> send_bankd N' C p bc = Some r"
  using extends_with_srv [OF assms] extends_with_bankd [OF assms]
  by (fastforce simp: send_srv_def send_bankd_def)+

lemma extends_state_chg:
  assumes "extends N N'" "main_state_chg N C new bc = Some r"
  shows "main_state_chg N' C new bc = Some r"
  using assms(2) extends_with_bankd [OF assms(1)]
  by (fastforce simp: main_state_chg_def main_st_unconfigured_onenter_def Let_def split: if_splits main_fsm_state.splits)

lemma extends_config_bank:
  assumes "extends N N'" "config_bank N C bs ipp bc = Some r"
  shows "config_bank N' C bs ipp bc = Some r"
  using assms(2) extends_with_bankd [OF assms(1)] extends_send [OF assms(1)] extends_state_chg [OF assms(1)]
  by (fastforce simp: config_bank_def Let_def split: if_splits Option.bind_splits)

lemma extends_operational:
  assumes "extends N N'" "main_st_operational N C ev d bc = Some r"
  shows "main_st_operational N' C ev d bc = Some r"
  using assms(2) extends_send [OF assms(1)] extends_state_chg [OF assms(1)] extends_config_bank [OF assms(1)]
  by (cases ev) (auto simp: main_st_operational_def mdm_status_ind_def Let_def
      split: mf_data.splits RsproPDUchoice_t.splits Option.bind_splits)

lemma extends_dispatch:
  assumes "extends N N'" "main_dispatch_with N C ev d bc = Some r"
  shows "main_dispatch_with N' C ev d bc = Some r"
  using assms(2) extends_operational [OF assms(1)] extends_state_chg [OF assms(1)]
  by (auto simp: main_dispatch_with_def main_action_def main_allstate_action_def main_st_init_def main_st_unconfigured_def
      main_st_wait_bankd_def split: if_splits main_fsm_state.splits)

lemma extends_main_notify: "extends (main_notify k C) (main_notify (Suc k) C)"
proof (induction k)
  case (Suc k)
  then show ?case
    using extends_dispatch [OF Suc] by (fastforce simp: extends_def main_notify.simps(2) split: if_splits)
qed (simp add: extends_def main_notify.simps)

lemma extends_main_notify_le: "j \<le> k \<Longrightarrow> extends (main_notify j C) (main_notify k C)"
proof (induction k)
  case (Suc k)
  then show ?case
    using extends_main_notify [of k C] by (auto simp: extends_def le_Suc_eq)
qed (simp add: extends_def)

text \<open>The machines that dispatch events to each other do not call each other forever: an event of
  a connection, and what CLIENT_MAIN does because of it, is finished after at most two nested
  dispatches to CLIENT_MAIN, and an event of the frontend or a message after one. Allowing for
  more changes nothing.\<close>

theorem client_nesting:
  assumes "client_reach bc" "client_env_ok C bc" "2 \<le> k"
    and "cb_ok cb (ce_srvc C) (srv_conn bc)" "cb_ok cb' (ce_srvc C) (bankd_conn bc)" "data_ok ev d"
  shows "\<exists>r1 r2 r3.
     with_srv (main_notify k C) (conn_do (ce_srvc C) cb) bc = Some r1 \<and> client_do C (CSrvCb cb) bc = Some r1 \<and>
     with_bankd (main_notify k C) (conn_do (ce_srvc C) cb') bc = Some r2 \<and> client_do C (CBankdCb cb') bc = Some r2 \<and>
     main_dispatch_with (main_notify k C) C ev d bc = Some r3 \<and> main_dispatch C ev d bc = Some r3"
proof -
  have f: "fine C bc"
    using client_reach_inv [OF assms(1)] assms(2) by (simp add: fine_def)
  have ext: "extends (main_notify 2 C) (main_notify k C)" "extends (main_notify 1 C) (main_notify k C)"
    using extends_main_notify_le assms(3) by auto
  obtain r1 r2 where "client_do C (CSrvCb cb) bc = Some r1" "client_do C (CBankdCb cb') bc = Some r2"
    using client_do_fine [OF f, of "CSrvCb cb"] client_do_fine [OF f, of "CBankdCb cb'"] assms(4,5) by auto
  moreover obtain r3 where "main_dispatch C ev d bc = Some r3"
    using main_dispatch_ok [OF f assms(6)] by auto
  ultimately show ?thesis
    using extends_with_srv [OF ext(1)] extends_with_bankd [OF ext(1)] extends_dispatch [OF ext(2)]
    by (simp add: main_dispatch_def)
qed

theorem client_nesting_witness:
  "\<exists>r. with_bankd (main_notify 7 (ex_cenv 9)) (conn_do (ex_env 9) Cb_disconnected) ex_operational = Some r \<and>
     client_do (ex_cenv 9) (CBankdCb Cb_disconnected) ex_operational = Some r"
  using client_nesting [OF ex_operational_reach, of "ex_cenv 9" 7 Cb_disconnected Cb_disconnected MF_E_MDM_PTS_IND "MfPts []"]
    ex_operational_sel by (auto simp: ex_cenv_ok cb_ok_def data_ok_def)

section \<open>From the configuration to the card\<close>

text \<open>Nothing that the code asks of the libraries fails.\<close>

definition client_lib_ok :: "client_env \<Rightarrow> bool" where
  "client_lib_ok C \<longleftrightarrow> documented C \<and> calloc_ok (ce_srvc C) \<and> (\<forall>p. enc_ok (ce_srvc C) p) \<and>
     cli_create_ok (ce_srvc C) \<and> ka_alloc_ok (ce_srvc C) \<and> cli_open_ok (ce_srvc C)"

lemma client_lib_okD:
  assumes "client_lib_ok C"
  shows "documented C" "fsm_documented (ev_ok (ce_srvc C)) (st_ok (ce_srvc C))" "calloc_ok (ce_srvc C)" "\<forall>p. enc_ok (ce_srvc C) p"
    "cli_create_ok (ce_srvc C)" "ka_alloc_ok (ce_srvc C)" "cli_open_ok (ce_srvc C)"
  using assms by (simp_all add: client_lib_ok_def documented_def)

lemma with_bankd_silent:
  assumes "f (bankd_conn bc) = Some (rc, s)" "srvc_out s = srvc_out (bankd_conn bc) @ es" "parent_events es = []"
  shows "with_bankd N f bc = Some (rc, bc\<lparr>bankd_conn := s\<rparr>)"
  using assms by (simp add: with_bankd_def new_events_def)

definition connect_request :: "rspro_server_conn \<Rightarrow> RsproPDU_t" where
  "connect_request s = \<lparr>pdu_version = 2, pdu_tag = 0, pdu_msg = connectClientReq (fill_comp_id (own_comp_id s)) (srvc_clslot s)\<rparr>"

text \<open>The connection to bankd, from the armed delay timer to the answer of bankd.\<close>

lemma bankd_comes_up:
  assumes wait: "main_fi bc = MF_ST_WAIT_BANKD" and conns: "conns_ok bc"
    and st: "srvc_st (bankd_conn bc) = SRVC_ST_REESTABLISH_DELAY" and lib: "client_lib_ok C2" "client_lib_ok C3" "client_lib_ok C4"
    and res: "pdu_msg res = connectClientRes ident ResultCode_ok" "ci_type ident = ComponentType_remsimBankd"
  defines "s \<equiv> bankd_conn bc"
  shows "\<exists>bc2 bc3 bc4. client_do C2 (CBankdCb Cb_timer) bc = Some (0, bc2) \<and>
     client_do C3 (CBankdCb Cb_connected) bc2 = Some (0, bc3) \<and> client_do C4 (CBankdRx res) bc3 = Some (0, bc4) \<and>
     main_fi bc4 = MF_ST_OPERATIONAL \<and> srvc_st (bankd_conn bc4) = SRVC_ST_CONNECTED \<and> bankd_slot bc4 = bankd_slot bc \<and>
     peer_comp_id (bankd_conn bc4) = rspro_comp_id_retrieve ident \<and>
     srvc_out (bankd_conn bc4) = srvc_out s @ [CliOpen (server_host s) (server_port s), KaStart, TxRspro (connect_request s),
       ParentEvent (mf_ev_nr MF_E_BANKD_CONNECTED)] \<and>
     frontend bc4 = frontend bc @ insert_effects (bc_cfg bc)"
proof -
  have T: "srvc_T s = 3" "srvc_parent s" "parent_conn_evt s = mf_ev_nr MF_E_BANKD_CONNECTED" "ac_type (own_comp_id s) = ComponentType_remsimClient"
    using conns st by (simp_all add: conns_ok_def srvc_inv_def s_def)
  define s2 where "s2 = s\<lparr>srvc_conn := True, srvc_st := SRVC_ST_REESTABLISH, srvc_T := 2, srvc_timeout := 10000,
      srvc_ka := True, reestablish_last_ms := now_ms (ce_srvc C2), srvc_out := srvc_out s @ [CliOpen (server_host s) (server_port s)]\<rparr>"
  have 2: "client_do C2 (CBankdCb Cb_timer) bc = Some (0, bc\<lparr>bankd_conn := s2\<rparr>)"
    using reopen_step [OF client_lib_okD(2) [OF lib(1)] _ T(1) client_lib_okD(5-7) [OF lib(1)]] st
    by (simp add: s_def [symmetric] s2_def with_bankd_silent [where es = "[CliOpen (server_host s) (server_port s)]"])
  define s3 where "s3 = s2\<lparr>srvc_st := SRVC_ST_ESTABLISHED, srvc_T := 1, srvc_timeout := 10000,
      srvc_out := srvc_out s2 @ [KaStart, TxRspro (connect_request s)]\<rparr>"
  have "srvc_connect_cb (ce_srvc C3) s2 = Some s3"
    unfolding s3_def
    by (rule connect_step [OF client_lib_okD(2) [OF lib(2)] _ client_lib_okD(3,4) [OF lib(2)]])
      (simp_all add: s2_def T(4) rspro_gen_ConnectClientReq_def mk_pdu_def connect_request_def)
  then have 3: "client_do C3 (CBankdCb Cb_connected) (bc\<lparr>bankd_conn := s2\<rparr>) = Some (0, bc\<lparr>bankd_conn := s3\<rparr>)"
    by (simp add: with_bankd_silent [where es = "[KaStart, TxRspro (connect_request s)]"] s3_def)
  define p where "p = s3\<lparr>peer_comp_id := rspro_comp_id_retrieve ident\<rparr>"
  define s4 where "s4 = p\<lparr>srvc_st := SRVC_ST_CONNECTED, srvc_T := 0, srvc_timeout := 0,
      srvc_out := srvc_out p @ [ParentEvent (parent_conn_evt p)]\<rparr>"
  have disp: "srvc_dispatch (ce_srvc C4) SRVC_E_CLIENT_CONN_RES (Some res) p = Some (0, s4)"
    unfolding s4_def using res(1)
    by (intro accept_step [OF client_lib_okD(2) [OF lib(3)]]) (simp_all add: p_def s3_def s2_def T(2) rspro_get_result_def)
  have idem: "s4\<lparr>srvc_st := SRVC_ST_CONNECTED\<rparr> = s4" and pc: "parent_conn_evt p = mf_ev_nr MF_E_BANKD_CONNECTED"
    and out: "new_events p s4 = [mf_ev_nr MF_E_BANKD_CONNECTED]"
    by (simp_all add: s4_def new_events_def p_def s3_def s2_def T(3))
  define bc4 where "bc4 = call_script C4 ''event-bankd-connect'' (main_st_operational_onenter C4 (bc\<lparr>bankd_conn := s4, main_fi := MF_ST_OPERATIONAL\<rparr>))"
  have N: "main_notify 2 C4 (mf_ev_nr MF_E_BANKD_CONNECTED) (bc\<lparr>bankd_conn := s4\<rparr>) = Some bc4"
    using dispatch_bankd_connected [OF client_lib_okD(1) [OF lib(3)], of "bc\<lparr>bankd_conn := s4\<rparr>" 1] wait
    by (simp add: numeral_2_eq_2 bc4_def)
  have "bc4\<lparr>bankd_conn := (bankd_conn bc4)\<lparr>srvc_st := srvc_st s4\<rparr>\<rparr> = bc4"
    by (simp add: bc4_def s4_def)
  then have 4: "client_do C4 (CBankdRx res) (bc\<lparr>bankd_conn := s3\<rparr>) = Some (0, bc4)"
    using disp N out idem res by (simp add: bankd_handle_rx_def with_bankd_def p_def [symmetric])
  have "srvc_out s4 = srvc_out s @ [CliOpen (server_host s) (server_port s), KaStart, TxRspro (connect_request s),
      ParentEvent (mf_ev_nr MF_E_BANKD_CONNECTED)]" "srvc_st s4 = SRVC_ST_CONNECTED"
      "peer_comp_id s4 = rspro_comp_id_retrieve ident"
    using pc by (simp_all add: s4_def p_def s3_def s2_def)
  then have "main_fi bc4 = MF_ST_OPERATIONAL" "bankd_conn bc4 = s4" "bankd_slot bc4 = bankd_slot bc"
    "frontend bc4 = frontend bc @ insert_effects (bc_cfg bc)"
    by (simp_all add: bc4_def)
  then show ?thesis
    using 2 3 4 \<open>srvc_out s4 = _\<close> \<open>srvc_st s4 = _\<close> \<open>peer_comp_id s4 = _\<close> by fastforce
qed

text \<open>C24. A ConfigClientBankReq with a port brings the card to the modem, from any state in which the
  client has been connected to the server: if another bankd was in use, the modem is first given
  its local SIM back and reset; then the client waits, and when the delay timer expires, the TCP
  connection is made and the new bankd accepts it, the client has opened a connection to
  exactly the address and port of the message, has identified itself on it with its client slot, and
  has asked the frontend to select the remote SIM, to set the ATR, to insert the card and to
  reset the modem, in this order, and is OPERATIONAL for the bank slot of the message.\<close>

theorem client_becomes_operational:
  assumes "client_reach bc" "client_env_ok C bc" "main_fi bc \<noteq> MF_ST_INIT"
    and "pdu_msg pdu = configClientBankReq bs ipp" "(word_of_int (ipp_port ipp) :: u16) \<noteq> 0"
    and "client_lib_ok C2" "client_lib_ok C3" "client_lib_ok C4"
    and "pdu_msg res = connectClientRes ident ResultCode_ok" "ci_type ident = ComponentType_remsimBankd"
  shows "\<exists>bc1 bc2 bc3 bc4. client_do C (CSrvRx pdu) bc = Some (0, bc1) \<and> main_fi bc1 = MF_ST_WAIT_BANKD \<and>
     frontend bc1 = frontend bc @ (if main_fi bc = MF_ST_OPERATIONAL then remove_effects else []) \<and>
     client_do C2 (CBankdCb Cb_timer) bc1 = Some (0, bc2) \<and> client_do C3 (CBankdCb Cb_connected) bc2 = Some (0, bc3) \<and>
     client_do C4 (CBankdRx res) bc3 = Some (0, bc4) \<and>
     main_fi bc4 = MF_ST_OPERATIONAL \<and> srvc_st (bankd_conn bc4) = SRVC_ST_CONNECTED \<and> bankd_slot bc4 = rspro2bank_slot bs \<and>
     srvc_out (bankd_conn bc4) = srvc_out (bankd_conn bc1) @
       [CliOpen (rspro_IpAddr2str (ce_inet_ntop C) (ipp_ip ipp)) (word_of_int (ipp_port ipp)), KaStart,
        TxRspro (connect_request (bankd_conn bc)), ParentEvent (mf_ev_nr MF_E_BANKD_CONNECTED)] \<and>
     frontend bc4 = frontend bc1 @ insert_effects (bc_cfg bc)"
proof -
  have f: "fine C bc"
    using client_reach_inv [OF assms(1)] assms(2) by (simp add: fine_def)
  obtain bc1 where cfg: "config_bank (main_notify 1 C) C bs ipp bc = Some bc1"
    and bc1: "fine C bc1" "main_fi bc1 = MF_ST_WAIT_BANKD" "srvc_st (bankd_conn bc1) = SRVC_ST_REESTABLISH_DELAY"
      "server_host (bankd_conn bc1) = rspro_IpAddr2str (ce_inet_ntop C) (ipp_ip ipp)"
      "server_port (bankd_conn bc1) = word_of_int (ipp_port ipp)" "srvc_clslot (bankd_conn bc1) = srvc_clslot (bankd_conn bc)"
      "own_comp_id (bankd_conn bc1) = own_comp_id (bankd_conn bc)" "bankd_slot bc1 = rspro2bank_slot bs" "bc_cfg bc1 = bc_cfg bc"
      "frontend bc1 = frontend bc @ (if main_fi bc = MF_ST_OPERATIONAL then remove_effects else [])"
    using config_bank_exact [OF f assms(3,5), of 0 bs] by auto
  have "bit (main_in_event_mask (main_fi bc)) 2"
    using assms(3) by (cases "main_fi bc") (simp_all add: bit_simps)
  moreover have "main_action (main_notify 1 C) C MF_E_SRVC_CONFIG_BANK (MfPdu pdu) bc = Some bc1"
    using assms(3,4) cfg
    by (cases "main_fi bc") (simp_all add: main_action_def main_st_unconfigured_def main_st_wait_bankd_def main_st_operational_def)
  ultimately have 1: "client_do C (CSrvRx pdu) bc = Some (0, bc1)"
    using assms(4)
    by (simp add: srvc_handle_rx_def main_dispatch_def main_dispatch_with_def main_allstate_event_mask_def
        client_env_okD [OF assms(2)] bit_simps)
  have conns: "conns_ok bc1"
    using bc1(1) by (simp add: fine_def client_inv_def)
  have "connect_request (bankd_conn bc1) = connect_request (bankd_conn bc)"
    using bc1 by (simp add: connect_request_def)
  then show ?thesis
    using bankd_comes_up [OF bc1(2) conns bc1(3) assms(6-10)] 1 bc1 by auto
qed

lemma ex_lib_ok: "client_lib_ok (ex_cenv t)"
  by (simp add: client_lib_ok_def documented_def ex_env_def fsm_documented_def)

theorem client_becomes_operational_witness:
  "\<exists>bc1 bc2 bc3 bc4. client_do (ex_cenv 9) (CSrvRx (ex_config 9998)) ex_operational = Some (0, bc1) \<and>
     frontend bc1 = frontend ex_operational @ [FeCardRemove, FeSimLocal, FeModemReset] \<and>
     client_do (ex_cenv 10) (CBankdCb Cb_timer) bc1 = Some (0, bc2) \<and>
     client_do (ex_cenv 11) (CBankdCb Cb_connected) bc2 = Some (0, bc3) \<and>
     client_do (ex_cenv 12) (CBankdRx (ex_res ComponentType_remsimBankd)) bc3 = Some (0, bc4) \<and>
     main_fi bc4 = MF_ST_OPERATIONAL"
proof -
  have "ci_type (fill_comp_id (zero_comp_id ComponentType_remsimBankd)) = ComponentType_remsimBankd"
    by (simp add: fill_comp_id_def zero_comp_id_def)
  then show ?thesis
    using client_becomes_operational [OF ex_operational_reach, of "ex_cenv 9" "ex_config 9998" _ _ "ex_cenv 10" "ex_cenv 11" "ex_cenv 12"
        "ex_res ComponentType_remsimBankd"] ex_operational_sel
    by (fastforce simp: ex_cenv_ok ex_lib_ok ex_config_def ex_res_def remove_effects_def)
qed

section \<open>Status of the modem\<close>

lemma send_bankd_connected:
  assumes "documented C" "srvc_st (bankd_conn bc) = SRVC_ST_CONNECTED" "enc_ok (ce_srvc C) p"
  shows "send_bankd N C (Some p) bc = Some (bc\<lparr>bankd_conn := emit (TxRspro p) (bankd_conn bc)\<rparr>)"
proof -
  have "server_conn_send_rspro (ce_srvc C) (Some p) (bankd_conn bc) = Some (0, emit (TxRspro p) (bankd_conn bc))"
    using assms(2,3)
    by (simp add: server_conn_send_rspro_def srvc_dispatch_def srvc_allstate_event_mask_def srvc_dispatch_state_def
        documentedD [OF assms(1)] bit_simps cli_conn_send_rspro_def)
  then show ?thesis
    by (simp add: send_bankd_def with_bankd_silent [where es = "[TxRspro p]"])
qed

text \<open>A status of the modem is forwarded to bankd with the client slot and the bank slot in use and
  is remembered. The event script is called for it only when all four flags are the same as
  in the status before, and not when one of them has changed.\<close>

theorem modem_status_script:
  assumes "client_reach bc" "client_env_ok C bc" "client_lib_ok C" "main_fi bc = MF_ST_OPERATIONAL" "event_script (bc_cfg bc) = Some sc"
    and "srvc_clslot (srv_conn bc) = Some cs"
  shows "\<exists>bc'. client_do C (CModemStatus st) bc = Some (0, bc') \<and> last_status bc' = st \<and>
     srvc_out (bankd_conn bc') = srvc_out (bankd_conn bc) @ [TxRspro \<lparr>pdu_version = 2, pdu_tag = 0,
       pdu_msg = clientSlotStatusInd cs (bank_slot2rspro (bankd_slot bc))
         (phys_status (reset_active st \<noteq> 0) (vcc_present st) (clk_active st) (card_present st))\<rparr>] \<and>
     (if flags_equal (last_status bc) st
      then \<exists>env. bc_out bc' = bc_out bc @ [Script (sc @ '' event-modem-status'') env] else bc_out bc' = bc_out bc)"
proof -
  have st: "srvc_st (bankd_conn bc) = SRVC_ST_CONNECTED"
    using client_reach_inv [OF assms(1)] assms(4) by (simp add: client_inv_def main_link_def)
  note lib = client_lib_okD [OF assms(3)]
  show ?thesis
    using assms(4,5,6) send_bankd_connected [OF lib(1) st] lib(3,4)
    by (simp add: main_dispatch_def main_dispatch_with_def main_allstate_event_mask_def main_action_def main_st_operational_def
        documentedD [OF lib(1)] bit_simps mdm_status_ind_def rspro_gen_ClientSlotStatusInd_def mk_pdu_def Let_def call_script_def)
qed

text \<open>The same example with a script.\<close>

definition ex_scripted :: bankd_client where
  "ex_scripted = the (ex_crun False (ex_start_inputs @ ex_config_inputs)
     (remsim_client_create ''1'' ''host'' ''remsim-client'' (client_config_init\<lparr>event_script := Some ''sh''\<rparr>)))"

lemma ex_scripted_sel:
  "ex_crun False (ex_start_inputs @ ex_config_inputs)
     (remsim_client_create ''1'' ''host'' ''remsim-client'' (client_config_init\<lparr>event_script := Some ''sh''\<rparr>)) \<noteq> None"
  "main_fi ex_scripted = MF_ST_OPERATIONAL" "event_script (bc_cfg ex_scripted) = Some ''sh''"
  "srvc_clslot (srv_conn ex_scripted) = Some \<lparr>cs_clientId = 0, cs_slotNr = 0\<rparr>"
  "reestablish_last_ms (srv_conn ex_scripted) \<le> 9" "reestablish_last_ms (bankd_conn ex_scripted) \<le> 9"
  "reset_active (last_status ex_scripted) = 0"
  by code_simp+

lemma ex_scripted_reach: "client_reach ex_scripted"
  using ex_crun_reach [OF client_reach.created] ex_scripted_sel(1) unfolding ex_scripted_def by force

theorem modem_status_script_witness:
  "\<exists>bc'. client_do (ex_cenv 9) (CModemStatus ((last_status ex_scripted)\<lparr>reset_active := 1\<rparr>)) ex_scripted = Some (0, bc') \<and>
     bc_out bc' = bc_out ex_scripted"
  using modem_status_script [OF ex_scripted_reach, of "ex_cenv 9" _ _ "(last_status ex_scripted)\<lparr>reset_active := 1\<rparr>"] ex_scripted_sel
  by (auto simp: ex_cenv_ok ex_lib_ok flags_equal_def)

end
