(* ===== verification/Ber_Tlv.thy ===== *)
theory Ber_Tlv
  imports Prelude
begin

text \<open>
  Tags and lengths of the ASN.1 basic encoding: \<^verbatim>\<open>src/rspro/ber_tlv_tag.c\<close> and
  \<^verbatim>\<open>src/rspro/ber_tlv_length.c\<close>. A \<open>ber_tlv_tag_t\<close> holds the tag number times four plus the
  class; a \<open>ber_tlv_len_t\<close> is a signed 64-bit integer in which -1 is the indefinite length. The
  accumulators of the two parsers are numbers here, and the range checks of the code, which are
  written out, are what keeps them inside their C types (\<open>ber_fetch_tag_range\<close>,
  \<open>ber_fetch_length_range\<close>).

  The functions that fetch return -1 for broken data, 0 for "want more" and otherwise the number
  of octets used, with the result in an output argument: the type \<open>fetch\<close>.
\<close>

datatype 'a fetch = FFail | FMore | FGot 'a nat

section \<open>Tags\<close>

abbreviation BER_TAG_CLASS :: "nat \<Rightarrow> nat" where "BER_TAG_CLASS tag \<equiv> tag mod 4"
abbreviation BER_TAG_VALUE :: "nat \<Rightarrow> nat" where "BER_TAG_VALUE tag \<equiv> tag div 4"

definition BER_TLV_CONSTRUCTED :: "bytes \<Rightarrow> bool" where
  "BER_TLV_CONSTRUCTED p = (unat (p ! 0) div 32 mod 2 = 1)"

fun fetch_tag_loop :: "nat \<Rightarrow> nat \<Rightarrow> nat \<Rightarrow> bytes \<Rightarrow> nat fetch" where
  "fetch_tag_loop val tclass skipped [] = FMore"
| "fetch_tag_loop val tclass skipped (oct # ptr) =
     (if 128 \<le> unat oct then
        let val' = val * 128 + unat oct mod 128
        in if val' div 2 ^ 23 \<noteq> 0 then FFail
           else fetch_tag_loop val' tclass (skipped + 1) ptr
      else FGot ((val * 128 + unat oct) * 4 + tclass) skipped)"

fun ber_fetch_tag :: "bytes \<Rightarrow> nat fetch" where
  "ber_fetch_tag [] = FMore"
| "ber_fetch_tag (b # ptr) =
     (let tclass = unat b div 64; val = unat b mod 32
      in if val \<noteq> 31 then FGot (val * 4 + tclass) 1
         else fetch_tag_loop 0 tclass 2 ptr)"

text \<open>The loop that counts the octets needed for a value, \<open>s\<close> bits at a time up to \<open>lim\<close>.\<close>

function required_loop :: "nat \<Rightarrow> nat \<Rightarrow> nat \<Rightarrow> nat \<Rightarrow> nat \<Rightarrow> nat" where
  "required_loop s lim v i required_size =
     (if 0 < s \<and> i < lim \<and> v div 2 ^ i \<noteq> 0
      then required_loop s lim v (i + s) (required_size + 1)
      else required_size)"
  by pat_completeness auto
termination by (relation "measure (\<lambda>(s, lim, v, i, r). lim - i)") auto

declare required_loop.simps [simp del]

fun tag_fill :: "nat \<Rightarrow> nat \<Rightarrow> bytes" where
  "tag_fill 0 tval = [word_of_nat (tval mod 128)]"
| "tag_fill (Suc k) tval = word_of_nat (128 + tval div 2 ^ (7 * Suc k) mod 128) # tag_fill k tval"

text \<open>\<open>ber_tlv_tag_serialize\<close>: the number of octets required, and what is written into a buffer
  of \<open>bsize\<close> octets.\<close>

definition ber_tlv_tag_serialize :: "nat \<Rightarrow> nat \<Rightarrow> nat \<times> bytes" where
  "ber_tlv_tag_serialize tag bsize =
     (let tclass = BER_TAG_CLASS tag; tval = BER_TAG_VALUE tag
      in if tval \<le> 30 then (1, if bsize = 0 then [] else [word_of_nat (tclass * 64 + tval)])
         else let first = (if bsize = 0 then [] else [word_of_nat (tclass * 64 + 31)]);
                  required_size = required_loop 7 32 tval 7 1
              in if bsize - 1 < required_size then (required_size + 1, first)
                 else (required_size + 1, first @ tag_fill (required_size - 1) tval))"

section \<open>Lengths\<close>

fun fetch_length_loop :: "nat \<Rightarrow> int \<Rightarrow> nat \<Rightarrow> bytes \<Rightarrow> int fetch" where
  "fetch_length_loop 0 len skipped buf = (if 2 ^ 63 \<le> len + 1024 then FFail else FGot len skipped)"
| "fetch_length_loop (Suc oct) len skipped [] = FMore"
| "fetch_length_loop (Suc oct) len skipped (b # buf) =
     (let len' = len * 256 + uint b
      in if 2 ^ 63 \<le> len' \<or> (len' div 2 ^ 56 \<noteq> 0 \<and> 0 < oct) then FFail
         else fetch_length_loop oct len' (skipped + 1) buf)"

fun ber_fetch_length :: "bool \<Rightarrow> bytes \<Rightarrow> int fetch" where
  "ber_fetch_length constr [] = FMore"
| "ber_fetch_length constr (b # buf) =
     (if unat b < 128 then FGot (uint b) 1
      else if constr \<and> unat b = 128 then FGot (-1) 1
      else if unat b = 255 then FFail
      else fetch_length_loop (unat b mod 128) 0 1 buf)"

fun length_fill :: "nat \<Rightarrow> nat \<Rightarrow> bytes" where
  "length_fill 0 len = []"
| "length_fill (Suc k) len = word_of_nat (len div 2 ^ (8 * k) mod 256) # length_fill k len"

definition der_tlv_length_serialize :: "nat \<Rightarrow> nat \<Rightarrow> nat \<times> bytes" where
  "der_tlv_length_serialize len bsize =
     (if len \<le> 127 then (1, if bsize = 0 then [] else [word_of_nat len])
      else let required_size = required_loop 8 64 len 8 1
           in if bsize \<le> required_size then (required_size + 1, [])
              else (required_size + 1,
                    word_of_nat (128 + required_size) # length_fill required_size len))"

section \<open>What the parsers return\<close>

lemma fetch_tag_loop_bounds:
  "fetch_tag_loop v c k p = FGot t n \<Longrightarrow> k \<le> n \<and> n < k + length p"
  by (induction v c k p rule: fetch_tag_loop.induct) (fastforce split: if_splits simp: Let_def)+

lemma ber_fetch_tag_bounds: "ber_fetch_tag p = FGot t n \<Longrightarrow> 1 \<le> n \<and> n \<le> length p"
  by (cases p) (auto simp: Let_def split: if_splits dest: fetch_tag_loop_bounds)

lemma fetch_length_loop_bounds:
  "fetch_length_loop m l k p = FGot t n \<Longrightarrow> n = k + m \<and> m \<le> length p"
  by (induction m l k p rule: fetch_length_loop.induct) (auto split: if_splits simp: Let_def)

lemma ber_fetch_length_bounds: "ber_fetch_length c p = FGot l n \<Longrightarrow> 1 \<le> n \<and> n \<le> length p"
  by (cases p) (auto split: if_splits dest: fetch_length_loop_bounds)

lemma fetch_tag_loop_range:
  "fetch_tag_loop v c k p = FGot t n \<Longrightarrow> v < 2 ^ 23 \<Longrightarrow> c < 4 \<Longrightarrow> t < 2 ^ 32"
proof (induction v c k p rule: fetch_tag_loop.induct)
  case (2 v c k b p)
  then show ?case
    by (auto simp: Let_def div_eq_0_iff split: if_splits)
qed simp

lemma unat_u8_less: "unat (b :: u8) < 256"
  using unsigned_less [of b] by simp

lemma uint_u8_less: "uint (b :: u8) < 256"
  using uint_bounded [of b] by simp

lemma unat_u8_of_nat: "n < 256 \<Longrightarrow> unat (word_of_nat n :: u8) = n"
  by (simp add: unat_of_nat)

lemma ber_fetch_tag_range: "ber_fetch_tag p = FGot t n \<Longrightarrow> t < 2 ^ 32"
proof (cases p)
  case (Cons b q)
  assume "ber_fetch_tag p = FGot t n"
  moreover have "unat b div 64 < 4" using unat_u8_less [of b] by linarith
  ultimately show ?thesis
    using Cons fetch_tag_loop_range [of 0 "unat b div 64" 2 q t n]
    by (auto simp: Let_def split: if_splits)
qed simp

lemma fetch_length_loop_range:
  "fetch_length_loop m l k p = FGot t n \<Longrightarrow> 0 \<le> l \<Longrightarrow> 0 \<le> t \<and> t + 1024 < 2 ^ 63"
  by (induction m l k p rule: fetch_length_loop.induct) (auto split: if_splits simp: Let_def)

lemma ber_fetch_length_range:
  "ber_fetch_length c p = FGot l n \<Longrightarrow> l = -1 \<and> c \<or> 0 \<le> l \<and> l + 1024 < 2 ^ 63"
proof (cases p)
  case (Cons b q)
  assume "ber_fetch_length c p = FGot l n"
  then show ?thesis
    using Cons fetch_length_loop_range [of "unat b mod 128" 0 1 q l n] uint_u8_less [of b]
    by (auto split: if_splits)
qed simp

section \<open>Skipping a value\<close>

text \<open>\<open>ber_skip_length\<close>. The codec context limits the C stack to a number of bytes, of which
  every nested call uses its frame: \<open>stk\<close> is the number of nested codec calls that still fit.\<close>

function ber_skip_length :: "nat \<Rightarrow> bool \<Rightarrow> bytes \<Rightarrow> unit fetch"
  and ber_skip_loop :: "nat \<Rightarrow> nat \<Rightarrow> bytes \<Rightarrow> unit fetch" where
  "ber_skip_length stk constr ptr =
     (if stk = 0 then FFail
      else case ber_fetch_length constr ptr of
        FFail \<Rightarrow> FFail
      | FMore \<Rightarrow> FMore
      | FGot vlen ll \<Rightarrow>
          if 0 \<le> vlen then
            (if length ptr < ll + nat vlen then FMore else FGot () (ll + nat vlen))
          else ber_skip_loop stk ll (drop ll ptr))"
| "ber_skip_loop stk skip ptr =
     (case ber_fetch_tag ptr of
        FFail \<Rightarrow> FFail
      | FMore \<Rightarrow> FMore
      | FGot tag tgl \<Rightarrow>
          (case ber_skip_length (stk - 1) (BER_TLV_CONSTRUCTED ptr) (drop tgl ptr) of
             FFail \<Rightarrow> FFail
           | FMore \<Rightarrow> FMore
           | FGot _ ll \<Rightarrow>
               if ptr ! 0 = 0 \<and> ptr ! 1 = 0 then FGot () (skip + tgl + ll)
               else ber_skip_loop stk (skip + tgl + ll) (drop (tgl + ll) ptr)))"
  by pat_completeness auto
termination
  by (relation "measures [\<lambda>x. case x of Inl (s, c, p) \<Rightarrow> length p | Inr (s, k, p) \<Rightarrow> length p,
                          \<lambda>x. case x of Inl _ \<Rightarrow> 1 | Inr _ \<Rightarrow> (0::nat)]")
     (auto dest!: ber_fetch_tag_bounds)

declare ber_skip_length.simps [simp del] ber_skip_loop.simps [simp del]

lemma ber_skip_bounds:
  "ber_skip_length stk c p = FGot u n \<Longrightarrow> 1 \<le> n \<and> n \<le> length p"
  "ber_skip_loop stk k p = FGot u n \<Longrightarrow> k < n \<and> n \<le> k + length p"
proof (induction stk c p and stk k p arbitrary: n and n rule: ber_skip_length_ber_skip_loop.induct)
  case (1 stk c p)
  show ?case
  proof (cases "ber_fetch_length c p")
    case (FGot vlen ll)
    then have b: "1 \<le> ll \<and> ll \<le> length p" by (rule ber_fetch_length_bounds)
    have s: "stk \<noteq> 0" using "1.prems" by (auto simp: ber_skip_length.simps [of stk] split: if_splits)
    show ?thesis
    proof (cases "0 \<le> vlen")
      case True
      then show ?thesis
        using "1.prems" FGot b by (auto simp: ber_skip_length.simps [of stk] split: if_splits)
    next
      case False
      then have "ber_skip_loop stk ll (drop ll p) = FGot u n"
        using "1.prems" FGot s by (simp add: ber_skip_length.simps [of stk])
      then show ?thesis using "1.IH" [OF s FGot False] b by fastforce
    qed
  qed (use "1.prems" in \<open>auto simp: ber_skip_length.simps [of stk] split: if_splits\<close>)
next
  case (2 stk k p)
  obtain t tgl where t: "ber_fetch_tag p = FGot t tgl"
    using "2.prems" by (auto simp: ber_skip_loop.simps [of stk] split: fetch.splits)
  obtain ll where l: "ber_skip_length (stk - 1) (BER_TLV_CONSTRUCTED p) (drop tgl p) = FGot u ll"
    using "2.prems" t by (auto simp: ber_skip_loop.simps [of stk] split: fetch.splits)
  have b: "1 \<le> tgl" "tgl \<le> length p" "1 \<le> ll" "ll \<le> length p - tgl"
    using ber_fetch_tag_bounds [OF t] "2.IH"(1) [OF t l] by auto
  have "ber_skip_loop stk k p =
      (if p ! 0 = 0 \<and> p ! 1 = 0 then FGot () (k + tgl + ll)
       else ber_skip_loop stk (k + tgl + ll) (drop (tgl + ll) p))"
    by (subst ber_skip_loop.simps) (simp only: t l fetch.case)
  with "2.prems" consider "n = k + tgl + ll"
    | "\<not> (p ! 0 = 0 \<and> p ! 1 = 0)" "ber_skip_loop stk (k + tgl + ll) (drop (tgl + ll) p) = FGot u n"
    by (auto split: if_splits)
  then show ?case
    by cases (use b "2.IH"(2) [OF t l] in fastforce)+
qed

section \<open>Round trips\<close>

lemma required_loop_ge: "r \<le> required_loop s lim v i r"
  by (induction s lim v i r rule: required_loop.induct) (subst required_loop.simps, auto)

text \<open>The count is enough for the value, and minimal.\<close>

lemma required_loop_enough:
  "required_loop s lim v (s * r) r = n \<Longrightarrow> 0 < s \<Longrightarrow> v < 2 ^ lim \<Longrightarrow> v < 2 ^ (s * n)"
proof (induction s lim v "s * r" r rule: required_loop.induct)
  case (1 s lim v r)
  show ?case
  proof (cases "s * r < lim \<and> v div 2 ^ (s * r) \<noteq> 0")
    case True
    then have "required_loop s lim v (s * (r + 1)) (r + 1) = n"
      using "1.prems" by (simp add: required_loop.simps [of s lim v "s * r"] add.commute)
    then show ?thesis using "1.hyps" True "1.prems" by (simp add: algebra_simps)
  next
    case False
    then have n: "n = r" using "1.prems" by (auto simp: required_loop.simps [of s lim v "s * r"])
    have "v < 2 ^ (s * r)" if "lim \<le> s * r"
      using "1.prems"(3) that by (meson less_le_trans one_le_numeral power_increasing)
    then show ?thesis using False n by (auto simp: div_eq_0_iff not_less)
  qed
qed

lemma required_loop_le:
  "0 < s \<Longrightarrow> s * r < lim + s \<Longrightarrow> s * required_loop s lim v (s * r) r < lim + s"
proof (induction s lim v "s * r" r rule: required_loop.induct)
  case (1 s lim v r)
  then show ?case
    by (subst required_loop.simps) (auto simp: algebra_simps)
qed

lemma fetch_tag_fill:
  "tval < 2 ^ 30 \<Longrightarrow>
   fetch_tag_loop (tval div 2 ^ (7 * (k + 1))) c n (tag_fill k tval @ rest) =
     FGot (tval * 4 + c) (n + k)"
proof (induction k arbitrary: n)
  case 0
  have "tval div 128 * 128 + tval mod 128 = tval" by simp
  moreover have "\<not> 128 \<le> tval mod 128" by (simp add: not_le)
  ultimately show ?case by (simp add: unat_of_nat)
next
  case (Suc k)
  define d where "d = tval div 2 ^ (7 * Suc k)"
  have d: "tval div 2 ^ (7 * (Suc k + 1)) = d div 128"
    unfolding d_def by (simp add: div_mult2_eq [symmetric] power_add mult.commute)
  have u: "unat (word_of_nat (128 + d mod 128) :: u8) = 128 + d mod 128"
  proof -
    have "128 + d mod 128 < 256" using mod_less_divisor [of 128 d] by linarith
    then show ?thesis by (rule unat_u8_of_nat)
  qed
  have m: "(128 + d mod 128) mod 128 = d mod 128" by simp
  have s: "d < 2 ^ 23"
  proof -
    have "d \<le> tval div 2 ^ 7" unfolding d_def
      by (rule div_le_mono2) (auto intro: power_increasing [of 7 _ "2::nat", simplified])
    then show ?thesis using Suc.prems by (simp add: less_mult_imp_div_less)
  qed
  have "fetch_tag_loop d c (n + 1) (tag_fill k tval @ rest) = FGot (tval * 4 + c) (n + 1 + k)"
    using Suc.IH [of "n + 1"] Suc.prems unfolding d_def by simp
  moreover have "tag_fill (Suc k) tval = word_of_nat (128 + d mod 128) # tag_fill k tval"
    by (simp add: d_def)
  ultimately show ?case
    unfolding d using u m s by (simp add: Let_def del: of_nat_add tag_fill.simps)
qed

text \<open>The first octet carries the class, the constructed bit and the small tag numbers.\<close>

lemma first_octet:
  assumes "c < 4" "v < 32" "k \<in> {0, 32}"
  shows "unat (word_of_nat (c * 64 + v) OR word_of_nat k :: u8) = c * 64 + k + v"
proof -
  let ?w = "word_of_nat (c * 64 + v) :: u8"
  have w: "unat ?w = c * 64 + v" using assms by (intro unat_u8_of_nat) simp
  have "\<not> bit ?w 5"
  proof -
    have "(c * 64 + v) div 32 = 2 * c" using assms by simp
    then have "\<not> bit (unat ?w) 5" by (simp add: w bit_iff_odd del: of_nat_add)
    then show ?thesis by (simp add: bit_unsigned_iff del: of_nat_add)
  qed
  moreover have "bit (32 :: u8) n \<Longrightarrow> n = 5" for n
    using bit_exp_iff [where 'a = u8, of 5 n] by simp
  ultimately have "?w OR 32 = ?w + 32"
    by (intro disjunctive_add [symmetric]) blast
  moreover have "unat (?w + 32) = c * 64 + v + 32"
  proof -
    have "?w + 32 = word_of_nat (c * 64 + v + 32)" by simp
    then show ?thesis using assms by (simp only:) (rule unat_u8_of_nat, simp)
  qed
  ultimately show ?thesis using assms w by (auto simp del: of_nat_add)
qed

lemma first_octet_parts:
  assumes "v < 32" "k \<in> {0, 32 :: nat}"
  shows "(c * 64 + k + v) mod 32 = v" "(c * 64 + k + v) div 64 = c"
    "(c * 64 + k + v) div 32 mod 2 = k div 32"
proof -
  have e: "c * 64 + k + v = v + 32 * (2 * c + k div 32)" using assms by auto
  have d: "(v + 32 * (2 * c + k div 32)) div 32 = 2 * c + k div 32"
    using assms(1) by simp
  show "(c * 64 + k + v) mod 32 = v" unfolding e using assms(1) by (simp only: mod_mult_self2 mod_less)
  have "(v + 32 * (2 * c + k div 32)) div (32 * 2) = (2 * c + k div 32) div 2"
    by (simp only: div_mult2_eq d)
  then show "(c * 64 + k + v) div 64 = c" unfolding e using assms(2) by auto
  show "(c * 64 + k + v) div 32 mod 2 = k div 32" unfolding e d using assms(2) by auto
qed

text \<open>Every tag is read back from its encoding, whatever the constructed bit says.\<close>

lemma ber_fetch_tag_serialize:
  assumes tag: "tag < 2 ^ 32" and ser: "ber_tlv_tag_serialize tag bsize = (n, ts)" and "6 \<le> bsize"
    and constr: "k \<in> {0, 32}"
  shows "ber_fetch_tag ((hd ts OR word_of_nat k) # tl ts @ rest) = FGot tag n"
    and "length ts = n \<and> 1 \<le> n \<and> n \<le> 6"
proof -
  let ?c = "tag mod 4" and ?v = "tag div 4"
  have v: "?v < 2 ^ 30" and c: "?c < 4" using tag by auto
  have "ber_fetch_tag ((hd ts OR word_of_nat k) # tl ts @ rest) = FGot tag n
      \<and> length ts = n \<and> 1 \<le> n \<and> n \<le> 6"
  proof (cases "?v \<le> 30")
    case True
    then have "n = 1" "ts = [word_of_nat (?c * 64 + ?v)]"
      using ser \<open>6 \<le> bsize\<close> by (auto simp: ber_tlv_tag_serialize_def)
    moreover note first_octet_parts [of ?v k ?c]
    ultimately show ?thesis
      using True constr first_octet [OF c, of ?v k]
      by (simp add: Let_def del: of_nat_add)
  next
    case False
    define r where "r = required_loop 7 32 ?v 7 1"
    have r: "1 \<le> r" "r \<le> 5" "?v < 2 ^ (7 * r)"
      using required_loop_ge [of 1 7 32 ?v 7] required_loop_le [of 7 1 32 ?v]
        required_loop_enough [of 7 32 ?v 1 r] v by (auto simp: r_def)
    have ts: "n = r + 1" "ts = word_of_nat (?c * 64 + 31) # tag_fill (r - 1) ?v"
      using ser False r(2) \<open>6 \<le> bsize\<close> unfolding ber_tlv_tag_serialize_def Let_def r_def [symmetric]
      by (auto simp del: of_nat_add split: if_splits)
    have len: "length (tag_fill j x) = j + 1" for j x by (induction j) auto
    have "?v div 2 ^ (7 * (r - 1 + 1)) = 0" using r by simp
    then have f: "fetch_tag_loop 0 ?c 2 (tag_fill (r - 1) ?v @ rest) = FGot tag (r + 1)"
      using fetch_tag_fill [OF v, of "r - 1" ?c 2 rest] r by simp
    note first_octet_parts [of 31 k ?c]
    then show ?thesis
      using first_octet [OF c, of 31 k] constr ts f len r by (simp add: Let_def del: of_nat_add)
  qed
  then show "ber_fetch_tag ((hd ts OR word_of_nat k) # tl ts @ rest) = FGot tag n"
    and "length ts = n \<and> 1 \<le> n \<and> n \<le> 6" by auto
qed

lemma fetch_length_fill:
  "len < 2 ^ 63 - 1024 \<Longrightarrow>
   fetch_length_loop k (int (len div 2 ^ (8 * k))) n (length_fill k len @ rest) =
     FGot (int len) (n + k)"
proof (induction k arbitrary: n)
  case (Suc k)
  define d where "d = len div 2 ^ (8 * k)"
  have d: "len div 2 ^ (8 * Suc k) = d div 256"
    unfolding d_def by (simp add: div_mult2_eq [symmetric] power_add mult.commute)
  have u: "uint (word_of_nat (d mod 256) :: u8) = int (d mod 256)"
    by (metis mod_less_divisor unat_u8_of_nat uint_nat zero_less_numeral)
  have e: "int (d div 256) * 256 + int (d mod 256) = int d"
    by (metis div_mult_mod_eq of_nat_add of_nat_mult of_nat_numeral)
  have "d \<le> len" unfolding d_def by (rule div_le_dividend)
  moreover have "d < 2 ^ 56" if "0 < k"
  proof -
    have "d \<le> len div 2 ^ 8" unfolding d_def
      using that by (intro div_le_mono2) (auto intro: power_increasing [of 8 _ "2::nat", simplified])
    then show ?thesis using Suc.prems by (simp add: less_mult_imp_div_less)
  qed
  ultimately have c: "\<not> (2 ^ 63 \<le> int d \<or> (int d div 2 ^ 56 \<noteq> 0 \<and> 0 < k))"
    using Suc.prems by (auto simp: div_eq_0_iff)
  have "length_fill (Suc k) len = word_of_nat (d mod 256) # length_fill k len"
    by (simp add: d_def)
  then show ?case
    using Suc.IH [of "n + 1"] Suc.prems c unfolding d d_def [symmetric]
    by (simp add: Let_def u e del: length_fill.simps of_nat_mod)
qed simp

text \<open>Every length below the limit the parser accepts is read back from its encoding.\<close>

lemma ber_fetch_length_serialize:
  assumes len: "len < 2 ^ 63 - 1024" and ser: "der_tlv_length_serialize len bsize = (n, ls)"
    and "9 \<le> bsize"
  shows "ber_fetch_length constr (ls @ rest) = FGot (int len) n" and "length ls = n \<and> 1 \<le> n \<and> n \<le> 9"
proof -
  have "ber_fetch_length constr (ls @ rest) = FGot (int len) n \<and> length ls = n \<and> 1 \<le> n \<and> n \<le> 9"
  proof (cases "len \<le> 127")
    case True
    then have u: "unat (word_of_nat len :: u8) = len" by (intro unat_u8_of_nat) simp
    then have "uint (word_of_nat len :: u8) = int len" by (metis uint_nat)
    then show ?thesis
      using ser \<open>9 \<le> bsize\<close> True u by (auto simp: der_tlv_length_serialize_def)
  next
    case False
    define r where "r = required_loop 8 64 len 8 1"
    have r: "1 \<le> r" "r \<le> 8" "len < 2 ^ (8 * r)"
      using required_loop_ge [of 1 8 64 len 8] required_loop_le [of 8 1 64 len]
        required_loop_enough [of 8 64 len 1 r] len by (auto simp: r_def)
    have ls: "n = r + 1" "ls = word_of_nat (128 + r) # length_fill r len"
      using ser False r(2) \<open>9 \<le> bsize\<close> unfolding der_tlv_length_serialize_def Let_def r_def [symmetric]
      by (auto simp del: of_nat_add split: if_splits)
    have u: "unat (word_of_nat (128 + r) :: u8) = 128 + r" using r by (intro unat_u8_of_nat) simp
    have l: "length (length_fill j x) = j" for j x by (induction j) auto
    have "fetch_length_loop r 0 1 (length_fill r len @ rest) = FGot (int len) (r + 1)"
      using fetch_length_fill [OF len, of r 1 rest] r by simp
    then show ?thesis using ls u r l by (simp del: of_nat_add)
  qed
  then show "ber_fetch_length constr (ls @ rest) = FGot (int len) n" and "length ls = n \<and> 1 \<le> n \<and> n \<le> 9"
    by auto
qed

end
