(* ===== verification/Ber_Codec.thy ===== *)
theory Ber_Codec
  imports Ber_Tlv
begin

text \<open>
  The parts of the ASN.1 runtime every type shares: the tags and lengths in front of a value,
  written by \<^verbatim>\<open>src/rspro/der_encoder.c\<close> and checked by \<^verbatim>\<open>src/rspro/ber_decoder.c\<close>.

  An encoder is called with or without a callback (the code computes the size of a structure with a
  first call that has none). The callback of \<open>der_encode_to_buffer\<close> is the state of its buffer:
  the octets left and the octets written so far. An encoder returns the size it counted and the
  buffer afterwards; \<open>None\<close> is its result -1.

  A decoder returns \<open>RC_OK\<close>, \<open>RC_WMORE\<close> or \<open>RC_FAIL\<close> with the octets consumed. It is
  called once on a whole message with a fresh structure, so the restart contexts that the code keeps
  between calls are at their initial values.
\<close>

section \<open>Writing tags\<close>

type_synonym sink = "(nat \<times> bytes) option"

fun encode_to_buffer_cb :: "bytes \<Rightarrow> nat \<times> bytes \<Rightarrow> (nat \<times> bytes) option" where
  "encode_to_buffer_cb b (left, out) = (if left < length b then None else Some (left - length b, out @ b))"

definition call_cb :: "bytes \<Rightarrow> sink \<Rightarrow> sink option" where
  "call_cb b k = (case k of None \<Rightarrow> Some None | Some s \<Rightarrow> map_option Some (encode_to_buffer_cb b s))"

definition set_constructed :: "bytes \<Rightarrow> bytes" where
  "set_constructed b = (hd b OR 32) # tl b"

definition der_write_TL :: "nat \<Rightarrow> nat \<Rightarrow> bool \<Rightarrow> sink \<Rightarrow> (nat \<times> sink) option" where
  "der_write_TL tag len constructed cb =
     (let buf_size = (case cb of None \<Rightarrow> 0 | Some _ \<Rightarrow> 32);
          (tsize, tbuf) = ber_tlv_tag_serialize tag buf_size
      in if 32 < tsize then None
         else let (lsize, lbuf) = der_tlv_length_serialize len (buf_size - tsize)
              in if 32 < tsize + lsize then None
                 else let buf = tbuf @ lbuf
                      in do {
                        cb' \<leftarrow> call_cb (if constructed \<and> cb \<noteq> None then set_constructed buf else buf) cb;
                        Some (tsize + lsize, cb')
                      })"

text \<open>The sizes of the nested TLVs, from right to left: for every tag the length to write after it,
  and the overall length.\<close>

fun tag_lens :: "nat list \<Rightarrow> nat \<Rightarrow> (nat list \<times> nat) option" where
  "tag_lens [] struct_length = Some ([], struct_length)"
| "tag_lens (t # ts) struct_length =
     do {
       (lens, overall_length) \<leftarrow> tag_lens ts struct_length;
       (n, _) \<leftarrow> der_write_TL t overall_length False None;
       Some (overall_length # lens, overall_length + n)
     }"

fun write_TLs :: "(nat \<times> nat) list \<Rightarrow> bool \<Rightarrow> sink \<Rightarrow> sink option" where
  "write_TLs [] last_tag_form cb = Some cb"
| "write_TLs ((t, len) # tls) last_tag_form cb =
     do {
       (_, cb') \<leftarrow> der_write_TL t len (last_tag_form \<or> tls \<noteq> []) cb;
       write_TLs tls last_tag_form cb'
     }"

definition all_write_tags :: "nat list \<Rightarrow> int \<Rightarrow> nat \<Rightarrow> nat list" where
  "all_write_tags tags tag_mode tag =
     (if tag_mode \<noteq> 0 then tag # (if tag_mode = -1 then drop 1 tags else tags) else tags)"

definition der_write_tags :: "nat list \<Rightarrow> nat \<Rightarrow> int \<Rightarrow> bool \<Rightarrow> nat \<Rightarrow> sink \<Rightarrow> (nat \<times> sink) option" where
  "der_write_tags sd_tags struct_length tag_mode last_tag_form tag cb =
     (let tags = all_write_tags sd_tags tag_mode tag
      in if tags = [] then Some (0, cb)
         else do {
           (lens, overall_length) \<leftarrow> tag_lens tags struct_length;
           if cb = None then Some (overall_length - struct_length, None)
           else do {
             cb' \<leftarrow> write_TLs (zip tags lens) last_tag_form cb;
             Some (overall_length - struct_length, cb')
           }
         })"

section \<open>Checking tags\<close>

datatype 'v dec = RC_OK nat 'v | RC_WMORE nat | RC_FAIL nat

text \<open>The chain of tags and lengths. An expected tag \<open>None\<close> is the one at which the code
  "doesn't expect the tag to match". \<open>limit_len\<close> is -1 as long as no definite length was seen.\<close>

primrec check_tags_loop ::
  "nat option list \<Rightarrow> int \<Rightarrow> nat \<Rightarrow> bytes \<Rightarrow> int \<Rightarrow> nat \<Rightarrow> int \<Rightarrow> bool \<Rightarrow> (int \<times> bool) dec" where
  "check_tags_loop [] last_tag_form consumed ptr limit_len expect_00 tlv_len tlv_constr =
     RC_OK consumed (if 0 < expect_00 then - int expect_00 else tlv_len, tlv_constr)"
| "check_tags_loop (e # es) last_tag_form consumed ptr limit_len expect_00 prev_len prev_constr =
     (case ber_fetch_tag ptr of
        FFail \<Rightarrow> RC_FAIL consumed
      | FMore \<Rightarrow> RC_WMORE consumed
      | FGot tlv_tag tag_len \<Rightarrow>
          let tlv_constr = BER_TLV_CONSTRUCTED ptr
          in if e \<noteq> None \<and> e \<noteq> Some tlv_tag then RC_FAIL consumed
             else if es \<noteq> [] \<and> \<not> tlv_constr then RC_FAIL consumed
             else if es = [] \<and> last_tag_form \<noteq> -1 \<and> last_tag_form \<noteq> (if tlv_constr then 1 else 0)
             then RC_FAIL consumed
             else (case ber_fetch_length tlv_constr (drop tag_len ptr) of
                 FFail \<Rightarrow> RC_FAIL consumed
               | FMore \<Rightarrow> RC_WMORE consumed
               | FGot tlv_len len_len \<Rightarrow>
                   let tl_len = tag_len + len_len
                   in if tlv_len = -1 then
                        (if limit_len = -1 then
                           check_tags_loop es last_tag_form (consumed + tl_len) (drop tl_len ptr)
                             limit_len (expect_00 + 1) tlv_len tlv_constr
                         else RC_FAIL consumed)
                      else if 0 < expect_00 then RC_FAIL consumed
                      else if limit_len = -1 \<and> 2 ^ 63 \<le> tlv_len + int tl_len then RC_FAIL consumed
                      else if limit_len \<noteq> -1 \<and> limit_len \<noteq> tlv_len + int tl_len then RC_FAIL consumed
                      else check_tags_loop es last_tag_form (consumed + tl_len)
                             (take (nat tlv_len) (drop tl_len ptr)) tlv_len expect_00 tlv_len tlv_constr))"

declare check_tags_loop.simps(2) [simp del]

text \<open>The case of a type without tags whose outermost tag isn't known in advance.\<close>

definition check_tags_any :: "bytes \<Rightarrow> (int \<times> bool) dec" where
  "check_tags_any ptr =
     (case ber_fetch_tag ptr of
        FFail \<Rightarrow> RC_FAIL 0
      | FMore \<Rightarrow> RC_WMORE 0
      | FGot _ tag_len \<Rightarrow>
          let tlv_constr = BER_TLV_CONSTRUCTED ptr
          in (case ber_fetch_length tlv_constr (drop tag_len ptr) of
                FFail \<Rightarrow> RC_FAIL 0
              | FMore \<Rightarrow> RC_WMORE 0
              | FGot tlv_len len_len \<Rightarrow> RC_OK (tag_len + len_len) (tlv_len, tlv_constr)))"

fun no_ctx :: "'v dec \<Rightarrow> 'v dec" where
  "no_ctx (RC_OK n v) = RC_OK n v"
| "no_ctx (RC_WMORE _) = RC_WMORE 0"
| "no_ctx (RC_FAIL _) = RC_FAIL 0"

text \<open>\<open>ber_check_tags\<close>: on success the length of the value (minus the number of end-of-contents
  octets for an indefinite one) and the form of the last tag. \<open>None\<close> is its failed assertion.\<close>

definition ber_check_tags :: "nat \<Rightarrow> nat list \<Rightarrow> bool \<Rightarrow> bytes \<Rightarrow> int \<Rightarrow> int \<Rightarrow> (int \<times> bool) dec option" where
  "ber_check_tags stk tags opt_ctx ptr tag_mode last_tag_form =
     map_option (if opt_ctx then id else no_ctx)
       (if stk = 0 then Some (RC_FAIL 0)
        else if tag_mode = 0 \<and> tags = [] then Some (check_tags_any ptr)
        else if tag_mode \<noteq> 1 \<and> tags = [] then None
        else let es = (if tag_mode = 0 then map Some tags
                       else if tag_mode = 1 then None # map Some tags
                       else None # map Some (tl tags))
             in Some (check_tags_loop es last_tag_form 0 ptr (-1) 0 (-1) False))"

section \<open>What is written\<close>

text \<open>An encoder \<open>f\<close> that produces the octets \<open>bs\<close>: it counts them right without a callback, and
  with one writes exactly them if they fit and fails if they do not.\<close>

definition encodes :: "(sink \<Rightarrow> (nat \<times> sink) option) \<Rightarrow> bytes \<Rightarrow> bool" where
  "encodes f bs \<longleftrightarrow> f None = Some (length bs, None) \<and>
     (\<forall>left out. f (Some (left, out)) =
        (if length bs \<le> left then Some (length bs, Some (left - length bs, out @ bs)) else None))"

lemma encodesD:
  assumes "encodes f bs"
  shows "f None = Some (length bs, None)"
    and "f (Some (left, out)) =
        (if length bs \<le> left then Some (length bs, Some (left - length bs, out @ bs)) else None)"
  using assms by (auto simp: encodes_def)

definition TL_bytes :: "nat \<Rightarrow> nat \<Rightarrow> bool \<Rightarrow> bytes" where
  "TL_bytes tag len constructed =
     (let b = snd (ber_tlv_tag_serialize tag 32) @ snd (der_tlv_length_serialize len 26)
      in if constructed then set_constructed b else b)"

fun TLs_bytes :: "nat list \<Rightarrow> nat \<Rightarrow> bool \<Rightarrow> bytes" where
  "TLs_bytes [] struct_length c = []"
| "TLs_bytes (t # ts) struct_length c =
     (let inner = TLs_bytes ts struct_length c
      in TL_bytes t (length inner + struct_length) (c \<or> ts \<noteq> []) @ inner)"

lemma serialize_size:
  "fst (ber_tlv_tag_serialize tag a) = fst (ber_tlv_tag_serialize tag b)"
  "fst (der_tlv_length_serialize len a) = fst (der_tlv_length_serialize len b)"
  by (auto simp: ber_tlv_tag_serialize_def der_tlv_length_serialize_def Let_def)

lemma tag_serialize_length:
  "tag < 2 ^ 32 \<Longrightarrow> length (snd (ber_tlv_tag_serialize tag 32)) = fst (ber_tlv_tag_serialize tag 32)
     \<and> 1 \<le> fst (ber_tlv_tag_serialize tag 32) \<and> fst (ber_tlv_tag_serialize tag 32) \<le> 6"
  using ber_fetch_tag_serialize(2) [of tag 32 "fst (ber_tlv_tag_serialize tag 32)" "snd (ber_tlv_tag_serialize tag 32)" 0]
  by simp

lemma length_serialize_length:
  "len < 2 ^ 63 - 1024 \<Longrightarrow> 9 \<le> bsize \<Longrightarrow>
     length (snd (der_tlv_length_serialize len bsize)) = fst (der_tlv_length_serialize len bsize)
     \<and> 1 \<le> fst (der_tlv_length_serialize len bsize) \<and> fst (der_tlv_length_serialize len bsize) \<le> 9"
  using ber_fetch_length_serialize(2) [of len bsize] by (metis prod.collapse)

lemma length_serialize_room:
  assumes "len < 2 ^ 63 - 1024" "9 \<le> bsize"
  shows "der_tlv_length_serialize len bsize = der_tlv_length_serialize len 26"
proof -
  have "required_loop 8 64 len 8 1 \<le> 8" if "\<not> len \<le> 127"
    using length_serialize_length [OF assms] that
    by (auto simp: der_tlv_length_serialize_def Let_def split: if_splits)
  then show ?thesis using assms(2)
    by (cases "len \<le> 127") (auto simp: der_tlv_length_serialize_def Let_def)
qed

lemma TL_bytes_length:
  assumes "tag < 2 ^ 32" "len < 2 ^ 63 - 1024"
  shows "length (TL_bytes tag len c) =
      fst (ber_tlv_tag_serialize tag 32) + fst (der_tlv_length_serialize len 26)"
  using tag_serialize_length [OF assms(1)] length_serialize_length [OF assms(2), of 26]
  by (auto simp: TL_bytes_def Let_def set_constructed_def)

lemma der_write_TL_encodes:
  assumes tag: "tag < 2 ^ 32" and len: "len < 2 ^ 63 - 1024"
  shows "encodes (der_write_TL tag len c) (TL_bytes tag len c)"
proof -
  obtain ts tb where t: "ber_tlv_tag_serialize tag 32 = (ts, tb)" by force
  obtain ls lb where l: "der_tlv_length_serialize len 26 = (ls, lb)" by force
  have ts: "length tb = ts" "1 \<le> ts" "ts \<le> 6" and ls: "length lb = ls" "ls \<le> 9"
    using tag_serialize_length [OF tag] length_serialize_length [OF len, of 26] t l by auto
  have r: "der_tlv_length_serialize len (32 - ts) = (ls, lb)"
    using length_serialize_room [OF len, of "32 - ts"] ts l by simp
  obtain b0 where t0: "ber_tlv_tag_serialize tag 0 = (ts, b0)"
    using serialize_size(1) [of tag 0 32] t by (metis fst_conv prod.collapse)
  obtain l0 where l0: "der_tlv_length_serialize len 0 = (ls, l0)"
    using serialize_size(2) [of len 0 26] l by (metis fst_conv prod.collapse)
  have "length (TL_bytes tag len c) = ts + ls" using TL_bytes_length [OF tag len] t l by simp
  moreover have "(if c then set_constructed (tb @ lb) else tb @ lb) = TL_bytes tag len c"
    by (simp add: TL_bytes_def t l)
  ultimately show ?thesis
    using ts ls by (auto simp: encodes_def der_write_TL_def t0 l0 t r call_cb_def Let_def)
qed

lemma TL_bytes_bounds:
  assumes "tag < 2 ^ 32" "len < 2 ^ 63 - 1024"
  shows "2 \<le> length (TL_bytes tag len c) \<and> length (TL_bytes tag len c) \<le> 15"
  using tag_serialize_length [OF assms(1)] length_serialize_length [OF assms(2), of 26]
    TL_bytes_length [OF assms] by auto

lemma TLs_bytes_length_form: "length (TLs_bytes ts n c) = length (TLs_bytes ts n False)"
proof -
  have s: "snd (ber_tlv_tag_serialize t 32) \<noteq> []" for t
    by (simp add: ber_tlv_tag_serialize_def Let_def)
  then have "length (TL_bytes t n a) = length (TL_bytes t n b)" for t n a b
    by (auto simp: TL_bytes_def Let_def set_constructed_def)
  then show ?thesis by (induction ts) (auto simp: Let_def)
qed

definition tags_ok :: "nat list \<Rightarrow> bool" where
  "tags_ok ts \<longleftrightarrow> (\<forall>t \<in> set ts. t < 2 ^ 32)"

lemma TLs_bytes_le:
  "tags_ok ts \<Longrightarrow> n + 15 * length ts < 2 ^ 63 - 1024 \<Longrightarrow> length (TLs_bytes ts n c) \<le> 15 * length ts"
proof (induction ts)
  case (Cons t ts)
  then have "length (TLs_bytes ts n c) \<le> 15 * length ts" by (simp add: tags_ok_def)
  moreover from this Cons.prems
  have "length (TL_bytes t (length (TLs_bytes ts n c) + n) (c \<or> ts \<noteq> [])) \<le> 15"
    by (intro TL_bytes_bounds [THEN conjunct2]) (auto simp: tags_ok_def)
  ultimately show ?case by (simp add: Let_def)
qed simp

lemma tag_lens_write:
  assumes "tags_ok ts" "n + 15 * length ts < 2 ^ 63 - 1024"
  shows "\<exists>lens. tag_lens ts n = Some (lens, length (TLs_bytes ts n c) + n) \<and>
    (\<forall>left out. write_TLs (zip ts lens) c (Some (left, out)) =
       (if length (TLs_bytes ts n c) \<le> left
        then Some (Some (left - length (TLs_bytes ts n c), out @ TLs_bytes ts n c)) else None))"
  using assms
proof (induction ts)
  case (Cons t ts)
  define L where "L = length (TLs_bytes ts n c) + n"
  define h where "h = TL_bytes t L (c \<or> ts \<noteq> [])"
  have ok: "tags_ok ts" "t < 2 ^ 32" "n + 15 * length ts < 2 ^ 63 - 1024"
    using Cons.prems by (auto simp: tags_ok_def)
  have L: "L < 2 ^ 63 - 1024"
    using TLs_bytes_le [OF ok(1,3), of c] Cons.prems unfolding L_def by simp
  obtain lens where l: "tag_lens ts n = Some (lens, L)" and
    w: "\<And>left out. write_TLs (zip ts lens) c (Some (left, out)) =
       (if length (TLs_bytes ts n c) \<le> left
        then Some (Some (left - length (TLs_bytes ts n c), out @ TLs_bytes ts n c)) else None)"
    using Cons.IH ok unfolding L_def by blast
  have len: "length lens = length ts"
    using l by (induction ts arbitrary: lens L) (auto split: bind_splits option.splits)
  have "length (TL_bytes t L False) = length h"
    using TL_bytes_length [OF ok(2) L] by (simp add: h_def)
  then have e0: "der_write_TL t L False None = Some (length h, None)"
    using encodesD(1) [OF der_write_TL_encodes [OF ok(2) L, of False]] by simp
  note e1 = encodesD(2) [OF der_write_TL_encodes [OF ok(2) L, of "c \<or> ts \<noteq> []"], folded h_def]
  have z: "lens = [] \<longleftrightarrow> ts = []" using len by auto
  have T: "TLs_bytes (t # ts) n c = h @ TLs_bytes ts n c" by (simp add: h_def L_def Let_def)
  show ?case
    unfolding T using l e0
  proof (intro exI [of _ "L # lens"] conjI allI)
    show "tag_lens (t # ts) n = Some (L # lens, length (h @ TLs_bytes ts n c) + n)"
      using l e0 by (simp add: L_def)
  qed (auto simp: e1 w z)
qed simp

lemma der_write_tags_encodes:
  assumes "tags_ok tags" "tag < 2 ^ 32" "n + 15 * (length tags + 1) < 2 ^ 63 - 1024"
  shows "encodes (der_write_tags tags n tag_mode c tag) (TLs_bytes (all_write_tags tags tag_mode tag) n c)"
proof -
  let ?ts = "all_write_tags tags tag_mode tag"
  have ok: "tags_ok ?ts" "n + 15 * length ?ts < 2 ^ 63 - 1024"
    using assms by (auto simp: all_write_tags_def tags_ok_def dest: in_set_dropD)
  from tag_lens_write [OF ok, of c] show ?thesis
    by (auto simp: encodes_def der_write_tags_def Let_def)
qed

section \<open>What is read back\<close>

lemma TL_bytes_fetch:
  assumes tag: "tag < 2 ^ 32" and len: "len < 2 ^ 63 - 1024"
  shows "\<exists>a b. ber_fetch_tag (TL_bytes tag len c @ r) = FGot tag a \<and>
     ber_fetch_length d (drop a (TL_bytes tag len c @ r)) = FGot (int len) b \<and>
     length (TL_bytes tag len c) = a + b \<and> BER_TLV_CONSTRUCTED (TL_bytes tag len c @ r) = c"
proof -
  obtain n ts where t: "ber_tlv_tag_serialize tag 32 = (n, ts)" by force
  obtain m ls where l: "der_tlv_length_serialize len 26 = (m, ls)" by force
  define k where "k = (if c then 32 else 0 :: nat)"
  note T = ber_fetch_tag_serialize [OF tag t, of k]
  have k: "k \<in> {0, 32}" by (simp add: k_def)
  have ts: "length ts = n" "1 \<le> n" using T(2) k by auto
  then obtain b bs where bs: "ts = b # bs" by (cases ts) auto
  have h: "TL_bytes tag len c = (hd ts OR word_of_nat k) # tl ts @ ls"
    using bs by (simp add: TL_bytes_def t l k_def set_constructed_def)
  have "drop n (TL_bytes tag len c @ r) = ls @ r" using ts bs h by auto
  moreover have "b = word_of_nat (tag mod 4 * 64 + (if tag div 4 \<le> 30 then tag div 4 else 31))"
    using t bs by (auto simp: ber_tlv_tag_serialize_def Let_def split: if_splits)
  then have "unat (hd ts OR word_of_nat k) =
      tag mod 4 * 64 + k + (if tag div 4 \<le> 30 then tag div 4 else 31)"
    using first_octet [of "tag mod 4" "if tag div 4 \<le> 30 then tag div 4 else 31" k] k bs
    by (simp del: of_nat_add)
  then have "BER_TLV_CONSTRUCTED (TL_bytes tag len c @ r) = c"
    using h first_octet_parts(3) [of "if tag div 4 \<le> 30 then tag div 4 else 31" k "tag mod 4"] k
    by (auto simp: BER_TLV_CONSTRUCTED_def k_def)
  ultimately show ?thesis
    using T(1) [of "ls @ r"] k h ts bs ber_fetch_length_serialize(1) [OF len l, of d r]
      ber_fetch_length_serialize(2) [OF len l]
    by (intro exI [of _ n] exI [of _ m]) auto
qed

lemma check_tags_TL:
  assumes tag: "tag < 2 ^ 32" and len: "n < 2 ^ 63 - 2048" and stk: "0 < stk"
    and tags: "tag_mode = 0 \<and> tags = [tag] \<or> tag_mode = -1 \<and> length tags = 1 \<or> tag_mode = 1 \<and> tags = []"
    and form: "last_tag_form = -1 \<or> last_tag_form = (if c then 1 else 0)"
  shows "ber_check_tags stk tags ctx (TL_bytes tag n c @ r) tag_mode last_tag_form =
    Some (RC_OK (length (TL_bytes tag n c)) (int n, c))"
proof -
  have n: "n < 2 ^ 63 - 1024" using len by simp
  obtain a b where f: "ber_fetch_tag (TL_bytes tag n c @ r) = FGot tag a"
      "ber_fetch_length c (drop a (TL_bytes tag n c @ r)) = FGot (int n) b"
      "length (TL_bytes tag n c) = a + b" "BER_TLV_CONSTRUCTED (TL_bytes tag n c @ r) = c"
    using TL_bytes_fetch [OF tag n, of c r c] by blast
  have "a + b \<le> 15" using TL_bytes_bounds [OF tag n, of c] f(3) by simp
  then have o: "\<not> 2 ^ 63 \<le> int n + int (a + b)" using len by simp
  obtain e where e: "e = None \<or> e = Some tag"
    "(if tag_mode = 0 then map Some tags else if tag_mode = 1 then None # map Some tags
      else None # map Some (tl tags)) = [e]" and "\<not> (tag_mode = 0 \<and> tags = [])"
      "\<not> (tag_mode \<noteq> 1 \<and> tags = [])"
    using tags by (cases tags) auto
  moreover have "check_tags_loop [e] last_tag_form 0 (TL_bytes tag n c @ r) (-1) 0 (-1) False =
      RC_OK (a + b) (int n, c)"
    using e(1) form o f by (auto simp: check_tags_loop.simps(2) Let_def)
  ultimately show ?thesis
    using stk f(3) by (auto simp: ber_check_tags_def Let_def)
qed

section \<open>How much is consumed\<close>

fun dec_consumed :: "'v dec \<Rightarrow> nat" where
  "dec_consumed (RC_OK n v) = n"
| "dec_consumed (RC_WMORE n) = n"
| "dec_consumed (RC_FAIL n) = n"

lemma consumed_no_ctx: "dec_consumed (no_ctx d) \<le> dec_consumed d"
  by (cases d) auto

lemma consumed_if:
  "dec_consumed x \<le> n \<Longrightarrow> dec_consumed y \<le> n \<Longrightarrow> dec_consumed (if b then x else y) \<le> n"
  by simp

lemma check_tags_loop_consumed:
  "dec_consumed (check_tags_loop es ltf c p lim x pl pc) \<le> c + length p"
proof (induction es arbitrary: c p lim x pl pc)
  case (Cons e es)
  show ?case
  proof (cases "ber_fetch_tag p")
    case (FGot t a)
    note a = ber_fetch_tag_bounds [OF FGot]
    show ?thesis
    proof (cases "ber_fetch_length (BER_TLV_CONSTRUCTED p) (drop a p)")
      case L: (FGot l b)
      note b = ber_fetch_length_bounds [OF L]
      note I1 = Cons.IH [of "c + (a + b)" "drop (a + b) p" lim "x + 1" l "BER_TLV_CONSTRUCTED p"]
      note I2 = Cons.IH [of "c + (a + b)" "take (nat l) (drop (a + b) p)" l x l "BER_TLV_CONSTRUCTED p"]
      have "dec_consumed (check_tags_loop es ltf (c + (a + b)) (drop (a + b) p) lim (x + 1) l
            (BER_TLV_CONSTRUCTED p)) \<le> c + length p"
        and "dec_consumed (check_tags_loop es ltf (c + (a + b)) (take (nat l) (drop (a + b) p)) l x l
            (BER_TLV_CONSTRUCTED p)) \<le> c + length p"
        using I1 I2 a b by auto
      then show ?thesis unfolding check_tags_loop.simps FGot L fetch.case Let_def
        by (intro consumed_if) simp_all
    next
      case L: FFail
      show ?thesis unfolding check_tags_loop.simps FGot L fetch.case Let_def
        by (intro consumed_if) simp_all
    next
      case L: FMore
      show ?thesis unfolding check_tags_loop.simps FGot L fetch.case Let_def
        by (intro consumed_if) simp_all
    qed
  qed (simp_all add: check_tags_loop.simps(2))
qed simp

lemma check_tags_consumed:
  assumes "ber_check_tags stk tags ctx p tag_mode ltf = Some d"
  shows "dec_consumed d \<le> length p"
proof -
  have any: "dec_consumed (check_tags_any p) \<le> length p"
    by (auto simp: check_tags_any_def Let_def split: fetch.splits
             dest!: ber_fetch_tag_bounds ber_fetch_length_bounds)
  note loop = check_tags_loop_consumed [of _ ltf 0 p "-1" 0 "-1" False, simplified]
  obtain d' where d': "d = (if ctx then id else no_ctx) d'" "dec_consumed d' \<le> length p"
  proof (cases "stk = 0")
    case True
    then show ?thesis using assms that [of "RC_FAIL 0"] by (auto simp: ber_check_tags_def)
  qed (use assms any loop in \<open>auto simp: ber_check_tags_def Let_def split: if_splits\<close>)
  then show ?thesis using consumed_no_ctx [of d'] by (auto split: if_splits)
qed

end
