(* ===== verification/Asn_Prim.thy ===== *)
theory Asn_Prim
  imports Ber_Codec
begin

text \<open>
  The primitive types of the ASN.1 runtime that RSPRO uses: INTEGER and ENUMERATED as C \<open>long\<close>
  (\<^verbatim>\<open>NativeInteger.c\<close> on top of \<^verbatim>\<open>INTEGER.c\<close> and \<^verbatim>\<open>asn_codecs_prim.c\<close>), \<^verbatim>\<open>BOOLEAN.c\<close>, and the
  octet strings of \<^verbatim>\<open>OCTET_STRING.c\<close>, whose decoder takes the primitive form and the constructed
  one with its stack of expectations. No RSPRO type is an unsigned native integer, a BIT STRING or
  an ANY, so those variants are left out; in every RSPRO type \<open>all_tags\<close> is \<open>tags\<close>.
  Memory allocation succeeds.
\<close>

section \<open>INTEGER\<close>

text \<open>The loop that skips the insignificant leading octets.\<close>

fun skip_leading :: "bytes \<Rightarrow> bytes" where
  "skip_leading (b # c # r) =
     (if b = 0 \<and> unat c < 128 \<or> b = 255 \<and> 128 \<le> unat c then skip_leading (c # r) else b # c # r)"
| "skip_leading bs = bs"

fun long_of_bytes :: "bytes \<Rightarrow> int" where
  "long_of_bytes [] = 0"
| "long_of_bytes (b # bs) =
     foldl (\<lambda>l c. l * 256 + uint c) (if 128 \<le> unat b then -1 else 0) (b # bs)"

definition asn_INTEGER2long :: "bytes \<Rightarrow> int option" where
  "asn_INTEGER2long buf =
     (let b = (if 8 < length buf then skip_leading buf else buf)
      in if 8 < length b then None else Some (long_of_bytes b))"

definition NativeInteger_decode_ber :: "nat \<Rightarrow> nat list \<Rightarrow> bytes \<Rightarrow> int \<Rightarrow> int dec option" where
  "NativeInteger_decode_ber stk tags buf tag_mode =
     do {
       rval \<leftarrow> ber_check_tags (stk - 1) tags False buf tag_mode 0;
       case rval of
         RC_FAIL n \<Rightarrow> Some (RC_FAIL n)
       | RC_WMORE n \<Rightarrow> Some (RC_WMORE n)
       | RC_OK n (len, _) \<Rightarrow>
           if int (length buf - n) < len then Some (RC_WMORE 0)
           else (case asn_INTEGER2long (take (nat len) (drop n buf)) of
               None \<Rightarrow> Some (RC_FAIL 0)
             | Some l \<Rightarrow> Some (RC_OK (n + nat len) l))
     }"

definition der_encode_primitive :: "nat list \<Rightarrow> bytes \<Rightarrow> int \<Rightarrow> nat \<Rightarrow> sink \<Rightarrow> (nat \<times> sink) option" where
  "der_encode_primitive tags buf tag_mode tag cb =
     do {
       (n, cb1) \<leftarrow> der_write_tags tags (length buf) tag_mode False tag cb;
       cb2 \<leftarrow> call_cb buf cb1;
       Some (n + length buf, cb2)
     }"

definition INTEGER_encode_der :: "nat list \<Rightarrow> bytes \<Rightarrow> int \<Rightarrow> nat \<Rightarrow> sink \<Rightarrow> (nat \<times> sink) option" where
  "INTEGER_encode_der tags buf tag_mode tag cb = der_encode_primitive tags (skip_leading buf) tag_mode tag cb"

definition native_bytes :: "int \<Rightarrow> bytes" where
  "native_bytes native = map (\<lambda>i. word_of_int (native div 2 ^ (8 * i))) (rev [0..<8])"

definition NativeInteger_encode_der :: "nat list \<Rightarrow> int \<Rightarrow> int \<Rightarrow> nat \<Rightarrow> sink \<Rightarrow> (nat \<times> sink) option" where
  "NativeInteger_encode_der tags native tag_mode tag cb =
     INTEGER_encode_der tags (native_bytes native) tag_mode tag cb"

section \<open>BOOLEAN\<close>

text \<open>The value is the first octet that is not zero.\<close>

fun bool_octets :: "bytes \<Rightarrow> int" where
  "bool_octets [] = 0"
| "bool_octets (b # bs) = (if b \<noteq> 0 then uint b else bool_octets bs)"

definition BOOLEAN_decode_ber :: "nat \<Rightarrow> nat list \<Rightarrow> bytes \<Rightarrow> int \<Rightarrow> int dec option" where
  "BOOLEAN_decode_ber stk tags buf tag_mode =
     do {
       rval \<leftarrow> ber_check_tags (stk - 1) tags False buf tag_mode 0;
       case rval of
         RC_FAIL n \<Rightarrow> Some (RC_FAIL n)
       | RC_WMORE n \<Rightarrow> Some (RC_WMORE n)
       | RC_OK n (len, _) \<Rightarrow>
           if int (length buf - n) < len then Some (RC_WMORE 0)
           else Some (RC_OK (n + nat len) (bool_octets (take (nat len) (drop n buf))))
     }"

definition BOOLEAN_encode_der :: "nat list \<Rightarrow> int \<Rightarrow> int \<Rightarrow> nat \<Rightarrow> sink \<Rightarrow> (nat \<times> sink) option" where
  "BOOLEAN_encode_der tags st tag_mode tag cb =
     do {
       (n, cb1) \<leftarrow> der_write_tags tags 1 tag_mode False tag cb;
       cb2 \<leftarrow> call_cb [if st \<noteq> 0 then 255 else 0] cb1;
       Some (n + 1, cb2)
     }"

section \<open>OCTET STRING\<close>

text \<open>\<open>APPEND\<close>: the string with its allocated size. The sizes are \<open>int\<close>s of the C structure, so a
  value with bit 31 set is negative there and refused.\<close>

function round_alloc :: "nat \<Rightarrow> nat \<Rightarrow> nat" where
  "round_alloc ns es =
     (let ns' = (if ns = 0 then 16 else ns * 2) in if ns' \<le> es then round_alloc ns' es else ns')"
  by pat_completeness auto
termination by (relation "measure (\<lambda>(ns, es). Suc es - ns)") auto

declare round_alloc.simps [simp del]

definition neg_int :: "nat \<Rightarrow> bool" where
  "neg_int n \<longleftrightarrow> 2 ^ 31 \<le> n mod 2 ^ 32"

definition os_append :: "bytes \<Rightarrow> bytes \<times> nat \<Rightarrow> (bytes \<times> nat) option" where
  "os_append b st =
     (case st of (buf, ns) \<Rightarrow>
        let es = length buf + length b
        in if neg_int es then None
           else if ns \<le> es then
             let ns' = round_alloc ns es in if neg_int ns' then None else Some (buf @ b, ns')
           else Some (buf @ b, ns))"

text \<open>The stack of expectations of the constructed form, the current element first. The elements
  are reused by the code after they were left; what it keeps of them is their depth, which is the
  position in the list.\<close>

record stack_el =
  el_left :: int
  el_got :: nat
  el_want_nulls :: bool

definition os_expected_tag :: "nat list \<Rightarrow> nat \<Rightarrow> nat \<Rightarrow> nat" where
  "os_expected_tag all_tags depth tlv_tag =
     (if depth = 0 then tlv_tag
      else if depth - 1 < length all_tags then all_tags ! (depth - 1)
      else if all_tags \<noteq> [] then last all_tags
      else tlv_tag)"

text \<open>\<open>Left\<close>: what the current element may still read of the buffer.\<close>

definition os_left :: "stack_el list \<Rightarrow> bytes \<Rightarrow> bytes" where
  "os_left stck ptr = (case stck of [] \<Rightarrow> ptr | sel # _ \<Rightarrow> if el_left sel < 0 then ptr else take (nat (el_left sel)) ptr)"

lemma os_left_length: "length (os_left stck ptr) \<le> length ptr"
  by (auto simp: os_left_def split: list.splits)

lemma os_fetch_room:
  assumes "ber_fetch_tag (os_left stck ptr) = FGot t a" "ber_fetch_length c (drop a (os_left stck ptr)) = FGot l b"
  shows "2 \<le> a + b \<and> a + b \<le> length ptr"
  using ber_fetch_tag_bounds [OF assms(1)] ber_fetch_length_bounds [OF assms(2)] os_left_length [of stck ptr]
  by auto

text \<open>Leaving a finished element: what it got is taken from its parent.\<close>

definition os_leave :: "stack_el \<Rightarrow> stack_el \<Rightarrow> stack_el option" where
  "os_leave sel prev =
     (if el_left prev \<noteq> -1 \<and> el_left prev < int (el_got sel) then None
      else Some (prev\<lparr>el_left := (if el_left prev \<noteq> -1 then el_left prev - int (el_got sel) else -1),
                      el_got := el_got prev + el_got sel\<rparr>))"

text \<open>Entering the element whose tag and length (\<open>tlvl\<close> octets) were just read.\<close>

definition os_enter :: "stack_el list \<Rightarrow> nat \<Rightarrow> int \<Rightarrow> stack_el option" where
  "os_enter stck tlvl tlv_len =
     (case stck of
        prev # _ \<Rightarrow>
          if el_left prev \<noteq> -1 then
            if el_left prev < int tlvl + (if tlv_len = -1 then 0 else tlv_len) then None
            else Some \<lparr>el_left = (if tlv_len = -1 then el_left prev - int tlvl else tlv_len),
                       el_got = tlvl, el_want_nulls = (tlv_len = -1)\<rparr>
          else Some \<lparr>el_left = tlv_len, el_got = tlvl, el_want_nulls = (tlv_len = -1)\<rparr>
      | [] \<Rightarrow> Some \<lparr>el_left = tlv_len, el_got = tlvl, el_want_nulls = (tlv_len = -1)\<rparr>)"

text \<open>Phases 1 and 2 of the constructed form: one round either returns or leaves the stack, the
  buffer, the octets consumed and the string for the next one. A result \<open>None\<close> is the failed
  assertion that a primitive element has a definite length.\<close>

type_synonym os_state = "stack_el list \<times> bytes \<times> nat \<times> (bytes \<times> nat)"

datatype os_round = OsRet "bytes dec option" | OsNext os_state

text \<open>Phase 2: the octets of the primitive element just entered.\<close>

definition os_phase2 :: "stack_el \<Rightarrow> os_state \<Rightarrow> os_round" where
  "os_phase2 sel s =
     (case s of (stck, ptr, csm, st) \<Rightarrow>
        if el_left sel < 0 then OsRet None
        else let len = min (length ptr) (nat (el_left sel))
             in (case (if len = 0 then Some st else os_append (take len ptr) st) of
                 None \<Rightarrow> OsRet (Some (RC_FAIL csm))
               | Some st' \<Rightarrow>
                   if int len < el_left sel then OsRet (Some (RC_WMORE (csm + len)))
                   else OsNext (sel\<lparr>el_left := 0, el_got := el_got sel + len\<rparr> # stck,
                                drop len ptr, csm + len, st')))"

text \<open>The next tag and length of the current element.\<close>

definition os_element :: "nat list \<Rightarrow> os_state \<Rightarrow> os_round" where
  "os_element all_tags s =
     (case s of (stck, ptr, csm, st) \<Rightarrow>
        (case ber_fetch_tag (os_left stck ptr) of
           FFail \<Rightarrow> OsRet (Some (RC_FAIL csm))
         | FMore \<Rightarrow> OsRet (Some (RC_WMORE csm))
         | FGot tlv_tag tgl \<Rightarrow>
             let tlv_constr = BER_TLV_CONSTRUCTED ptr
             in (case ber_fetch_length tlv_constr (drop tgl (os_left stck ptr)) of
                 FFail \<Rightarrow> OsRet (Some (RC_FAIL csm))
               | FMore \<Rightarrow> OsRet (Some (RC_WMORE csm))
               | FGot tlv_len ll \<Rightarrow>
                   if stck \<noteq> [] \<and> el_want_nulls (hd stck) \<and> ptr ! 0 = 0 \<and> ptr ! 1 = 0 then
                     OsNext ((hd stck)\<lparr>el_got := el_got (hd stck) + 2, el_want_nulls := False, el_left := 0\<rparr> # tl stck,
                             drop 2 ptr, csm + 2, st)
                   else if tlv_tag \<noteq> os_expected_tag all_tags (length stck) tlv_tag then OsRet (Some (RC_FAIL csm))
                   else if 2 ^ 63 \<le> tlv_len + int (tgl + ll) then OsRet (Some (RC_FAIL csm))
                   else (case os_enter stck (tgl + ll) tlv_len of
                       None \<Rightarrow> OsRet (Some (RC_FAIL csm))
                     | Some sel \<Rightarrow>
                         if tlv_constr then OsNext (sel # stck, drop (tgl + ll) ptr, csm + (tgl + ll), st)
                         else os_phase2 sel (stck, drop (tgl + ll) ptr, csm + (tgl + ll), st)))))"

definition os_round :: "nat list \<Rightarrow> os_state \<Rightarrow> os_round" where
  "os_round all_tags s =
     (case s of
        (sel # rest, ptr, csm, st) \<Rightarrow>
          if el_left sel \<le> 0 \<and> \<not> el_want_nulls sel then
            (case rest of
               [] \<Rightarrow> OsRet (Some (RC_OK csm (fst st)))
             | prev # rest' \<Rightarrow>
                 (case os_leave sel prev of
                    None \<Rightarrow> OsRet (Some (RC_FAIL csm))
                  | Some prev' \<Rightarrow> OsNext (prev' # rest', ptr, csm, st)))
          else os_element all_tags s
      | _ \<Rightarrow> os_element all_tags s)"

text \<open>A round returns a count within the buffer, or goes on with a shorter buffer or stack.\<close>

definition os_round_ok :: "os_state \<Rightarrow> os_round \<Rightarrow> bool" where
  "os_round_ok s r \<longleftrightarrow>
     (case s of (stck, ptr, csm, st) \<Rightarrow>
        (case r of
           OsRet d \<Rightarrow> (case d of None \<Rightarrow> True | Some d' \<Rightarrow> dec_consumed d' \<le> csm + length ptr)
         | OsNext (stck', ptr', csm', st') \<Rightarrow>
             csm' + length ptr' = csm + length ptr \<and>
             2 * length ptr' + length stck' < 2 * length ptr + length stck))"

lemma os_phase2_ok:
  assumes "2 \<le> n" "n \<le> length ptr"
  shows "os_round_ok (stck, ptr, csm, st) (os_phase2 sel (stck, drop n ptr, csm + n, st))"
  using assms by (auto simp: os_round_ok_def os_phase2_def Let_def split: option.splits if_splits)

lemma os_element_ok: "os_round_ok (stck, ptr, csm, st) (os_element all_tags (stck, ptr, csm, st))"
proof (cases "ber_fetch_tag (os_left stck ptr)")
  case T: (FGot t a)
  show ?thesis
  proof (cases "ber_fetch_length (BER_TLV_CONSTRUCTED ptr) (drop a (os_left stck ptr))")
    case L: (FGot l b)
    note r = os_fetch_room [OF T L]
    have n: "os_round_ok (stck, ptr, csm, st) (OsNext (x # (if stck = [] then [] else tl stck), drop 2 ptr, csm + 2, st))" for x
      using r by (cases stck) (auto simp: os_round_ok_def)
    have e: "os_round_ok (stck, ptr, csm, st) (OsNext (x # stck, drop (a + b) ptr, csm + (a + b), st))" for x
      using r by (auto simp: os_round_ok_def)
    have f: "os_round_ok (stck, ptr, csm, st) (OsRet (Some (RC_FAIL csm)))" by (simp add: os_round_ok_def)
    show ?thesis
      using n e f os_phase2_ok [of "a + b" ptr stck csm st] r
      by (auto simp: os_element_def T L Let_def split: option.splits)
  qed (auto simp: os_element_def T os_round_ok_def)
qed (auto simp: os_element_def os_round_ok_def)

lemma os_round_ok: "os_round_ok s (os_round all_tags s)"
proof -
  obtain stck ptr csm st where s: "s = (stck, ptr, csm, st)" by (cases s)
  show ?thesis
  proof (cases stck)
    case (Cons sel rest)
    then show ?thesis
      using os_element_ok [of stck ptr csm st all_tags]
      by (auto simp: s os_round_def os_round_ok_def split: list.splits option.splits)
  qed (use os_element_ok [of stck ptr csm st all_tags] in \<open>simp add: s os_round_def\<close>)
qed

function os_phase1 :: "nat list \<Rightarrow> os_state \<Rightarrow> bytes dec option" where
  "os_phase1 all_tags s =
     (case os_round all_tags s of OsRet d \<Rightarrow> d | OsNext s' \<Rightarrow> os_phase1 all_tags s')"
  by pat_completeness auto
termination
proof (relation "measure (\<lambda>(a, stck, ptr, c, st). 2 * length ptr + length stck)", goal_cases)
  case (2 all_tags s s')
  then show ?case using os_round_ok [of s all_tags] by (cases s; cases s') (auto simp: os_round_ok_def)
qed simp

declare os_phase1.simps [simp del]

lemma os_phase1_consumed:
  "os_phase1 all_tags s = Some d \<Longrightarrow> dec_consumed d \<le> fst (snd (snd s)) + length (fst (snd s))"
proof (induction all_tags s rule: os_phase1.induct)
  case (1 all_tags s)
  then show ?case
    using os_round_ok [of s all_tags]
    by (fastforce simp: os_phase1.simps [of all_tags s] os_round_ok_def split: os_round.splits prod.splits)
qed

definition OCTET_STRING_decode_ber :: "nat \<Rightarrow> nat list \<Rightarrow> bytes \<Rightarrow> int \<Rightarrow> bytes dec option" where
  "OCTET_STRING_decode_ber stk tags buf tag_mode =
     do {
       rval \<leftarrow> ber_check_tags (stk - 1) tags True buf tag_mode (-1);
       case rval of
         RC_FAIL n \<Rightarrow> Some (RC_FAIL n)
       | RC_WMORE n \<Rightarrow> Some (RC_WMORE n)
       | RC_OK n (left, tlv_constr) \<Rightarrow>
           if tlv_constr then os_phase1 tags ([], buf, 0, ([], 0))
           else if left < 0 then None
           else let p = drop n buf
                in if int (length p) < left then
                     if p = [] then Some (RC_WMORE n)
                     else (case os_append p ([], 0) of
                         None \<Rightarrow> Some (RC_FAIL n)
                       | Some _ \<Rightarrow> Some (RC_WMORE (n + length p)))
                   else (case os_append (take (nat left) p) ([], 0) of
                       None \<Rightarrow> Some (RC_FAIL n)
                     | Some st \<Rightarrow> Some (RC_OK (n + nat left) (fst st)))
     }"

definition OCTET_STRING_encode_der :: "nat list \<Rightarrow> bytes \<Rightarrow> int \<Rightarrow> nat \<Rightarrow> sink \<Rightarrow> (nat \<times> sink) option" where
  "OCTET_STRING_encode_der tags st tag_mode tag cb =
     do {
       (n, cb1) \<leftarrow> der_write_tags tags (length st) tag_mode False tag cb;
       cb2 \<leftarrow> call_cb st cb1;
       Some (n + length st, cb2)
     }"

section \<open>Integers\<close>

lemma skip_leading_value:
  "long_of_bytes (skip_leading bs) = long_of_bytes bs"
  by (induction bs rule: skip_leading.induct) auto

lemma skip_leading_length: "length (skip_leading bs) \<le> length bs"
  by (induction bs rule: skip_leading.induct) auto

lemma native_bytes_length [simp]: "length (native_bytes v) = 8"
  by (simp add: native_bytes_def)

lemma uint_u8_of_int: "uint (word_of_int i :: u8) = i mod 256"
  by (simp add: uint_word_of_int take_bit_eq_mod)

lemma native_bytes_fold:
  "foldl (\<lambda>l c. l * 256 + uint (c :: u8)) (v div 2 ^ (8 * n))
     (map (\<lambda>i. word_of_int (v div 2 ^ (8 * i))) (rev [0..<n])) = v"
proof (induction n)
  case (Suc n)
  have "v div 2 ^ (8 * Suc n) = v div 2 ^ (8 * n) div 256"
    by (simp add: zdiv_zmult2_eq [symmetric] power_add mult.commute)
  then have "v div 2 ^ (8 * Suc n) * 256 + v div 2 ^ (8 * n) mod 256 = v div 2 ^ (8 * n)"
    by (simp add: mult.commute)
  then show ?case using Suc by (simp add: uint_u8_of_int)
qed simp

lemma native_bytes_value:
  assumes "- (2 ^ 63) \<le> v" "v < 2 ^ 63"
  shows "long_of_bytes (native_bytes v) = v"
proof -
  define d where "d = v div 2 ^ 56"
  have "d \<le> (2 ^ 63 - 1) div 2 ^ 56" unfolding d_def using assms by (intro zdiv_mono1) auto
  moreover have "- (2 ^ 63) div 2 ^ 56 \<le> d" unfolding d_def using assms by (intro zdiv_mono1) auto
  ultimately have d: "- 128 \<le> d" "d < 128" by simp_all
  have sg: "(if 128 \<le> unat (word_of_int d :: u8) then -1 else 0) * 256 + d mod 256 = d"
  proof -
    have u: "unat (word_of_int d :: u8) = nat (d mod 256)"
      by (simp add: unat_eq_nat_uint uint_u8_of_int)
    have "d mod 256 = (if d < 0 then d + 256 else d)"
      using d mod_pos_pos_trivial [of "d + 256" 256] by auto
    then show ?thesis using d u by auto
  qed
  have "native_bytes v = word_of_int d # map (\<lambda>i. word_of_int (v div 2 ^ (8 * i))) (rev [0..<7])"
    using upt_Suc [of 0 7] by (simp add: native_bytes_def d_def del: upt_Suc)
  then show ?thesis
    using native_bytes_fold [of v 7] sg by (simp add: uint_u8_of_int d_def)
qed

lemma asn_INTEGER2long_native:
  assumes "- (2 ^ 63) \<le> v" "v < 2 ^ 63"
  shows "asn_INTEGER2long (skip_leading (native_bytes v)) = Some v"
  using skip_leading_length [of "native_bytes v"] native_bytes_value [OF assms]
  by (simp add: asn_INTEGER2long_def Let_def skip_leading_value not_less)

section \<open>Composition of encoders\<close>

lemma encodes_call:
  assumes "encodes f a"
  shows "encodes (\<lambda>cb. do { (n, cb1) \<leftarrow> f cb; cb2 \<leftarrow> call_cb b cb1; Some (n + length b, cb2) }) (a @ b)"
  using encodesD [OF assms] by (auto simp: encodes_def call_cb_def)

lemma encodes_append:
  assumes "encodes f a" "encodes g b"
  shows "encodes (\<lambda>cb. do { (n, cb1) \<leftarrow> f cb; (m, cb2) \<leftarrow> g cb1; Some (n + m, cb2) }) (a @ b)"
  using encodesD [OF assms(1)] encodesD [OF assms(2)] by (auto simp: encodes_def)

section \<open>Codecs of the primitive types\<close>

text \<open>The tag in front of a value of a type with one tag, which an IMPLICIT tag replaces.\<close>

definition eff_tag :: "nat list \<Rightarrow> int \<Rightarrow> nat \<Rightarrow> nat" where
  "eff_tag tags tag_mode tag = (if tag_mode = 0 then hd tags else tag)"

definition one_tag :: "nat list \<Rightarrow> int \<Rightarrow> bool" where
  "one_tag tags tag_mode \<longleftrightarrow> length tags = 1 \<and> (tag_mode = 0 \<or> tag_mode = -1)"

lemma one_tag_TLs:
  "one_tag tags tag_mode \<Longrightarrow>
     TLs_bytes (all_write_tags tags tag_mode tag) n c = TL_bytes (eff_tag tags tag_mode tag) n c"
  by (cases tags) (auto simp: one_tag_def all_write_tags_def eff_tag_def)

lemma one_tag_write:
  assumes "one_tag tags tag_mode" "tags_ok tags" "tag < 2 ^ 32" "n < 2 ^ 32"
  shows "encodes (der_write_tags tags n tag_mode c tag) (TL_bytes (eff_tag tags tag_mode tag) n c)"
  using der_write_tags_encodes [of tags tag n tag_mode c] assms
  by (simp add: one_tag_TLs) (auto simp: one_tag_def)

lemma one_tag_check:
  assumes "one_tag tags tag_mode" "tags_ok tags" "tag < 2 ^ 32" "n < 2 ^ 32" "0 < stk"
    and "last_tag_form = -1 \<or> last_tag_form = (if c then 1 else 0)"
  shows "ber_check_tags stk tags ctx (TL_bytes (eff_tag tags tag_mode tag) n c @ r) tag_mode last_tag_form =
    Some (RC_OK (length (TL_bytes (eff_tag tags tag_mode tag) n c)) (int n, c))"
proof (rule check_tags_TL)
  show "eff_tag tags tag_mode tag < 2 ^ 32"
    using assms by (cases tags) (auto simp: eff_tag_def one_tag_def tags_ok_def)
  show "tag_mode = 0 \<and> tags = [eff_tag tags tag_mode tag] \<or> tag_mode = -1 \<and> length tags = 1 \<or>
      tag_mode = 1 \<and> tags = []"
    using assms(1) by (cases tags) (auto simp: eff_tag_def one_tag_def)
qed (use assms in auto)

lemma NativeInteger_codec:
  assumes t: "one_tag tags tag_mode" "tags_ok tags" "tag < 2 ^ 32" and stk: "2 \<le> stk"
    and v: "- (2 ^ 63) \<le> v" "v < 2 ^ 63"
    and bs: "bs = TL_bytes (eff_tag tags tag_mode tag) (length (skip_leading (native_bytes v))) False
       @ skip_leading (native_bytes v)"
  shows "encodes (NativeInteger_encode_der tags v tag_mode tag) bs"
    and "NativeInteger_decode_ber stk tags (bs @ rest) tag_mode = Some (RC_OK (length bs) v)"
proof -
  let ?b = "skip_leading (native_bytes v)"
  have l: "length ?b < 2 ^ 32" using skip_leading_length [of "native_bytes v"] by simp
  note w = one_tag_write [OF t l, of False]
  show "encodes (NativeInteger_encode_der tags v tag_mode tag) bs"
    using encodes_call [OF w, of ?b] bs
    unfolding NativeInteger_encode_der_def INTEGER_encode_der_def der_encode_primitive_def by simp
  have "0 < stk - 1" using stk by simp
  from one_tag_check [OF t l this, of 0 False False "?b @ rest"]
  show "NativeInteger_decode_ber stk tags (bs @ rest) tag_mode = Some (RC_OK (length bs) v)"
    unfolding NativeInteger_decode_ber_def bs by (simp add: asn_INTEGER2long_native [OF v])
qed

lemma BOOLEAN_codec:
  assumes t: "one_tag tags tag_mode" "tags_ok tags" "tag < 2 ^ 32" and stk: "2 \<le> stk"
    and bs: "bs = TL_bytes (eff_tag tags tag_mode tag) 1 False @ [if v \<noteq> 0 then 255 else 0]"
  shows "encodes (BOOLEAN_encode_der tags v tag_mode tag) bs"
    and "BOOLEAN_decode_ber stk tags (bs @ rest) tag_mode =
      Some (RC_OK (length bs) (if v \<noteq> 0 then 255 else 0))"
proof -
  note w = one_tag_write [OF t, of 1 False, simplified]
  show "encodes (BOOLEAN_encode_der tags v tag_mode tag) bs"
    using encodes_call [OF w, of "[if v \<noteq> 0 then 255 else 0]"] bs
    unfolding BOOLEAN_encode_der_def by simp
  have "0 < stk - 1" using stk by simp
  from one_tag_check [OF t _ this, of 1 0 False False "[if v \<noteq> 0 then 255 else 0] @ rest"]
  show "BOOLEAN_decode_ber stk tags (bs @ rest) tag_mode =
      Some (RC_OK (length bs) (if v \<noteq> 0 then 255 else 0))"
    unfolding BOOLEAN_decode_ber_def bs by simp
qed

lemma round_alloc_le: "round_alloc ns es \<le> max 16 (2 * max ns es)"
proof (induction ns es rule: round_alloc.induct)
  case (1 ns es)
  define m where "m = (if ns = 0 then 16 else ns * 2)"
  have e: "round_alloc ns es = (if m \<le> es then round_alloc m es else m)"
    by (simp add: round_alloc.simps [of ns] m_def Let_def)
  show ?case
  proof (cases "m \<le> es")
    case True
    then show ?thesis using "1.IH" [of m] e by (simp add: m_def)
  next
    case False
    then show ?thesis using e by (auto simp: m_def)
  qed
qed

lemma os_append_fresh:
  assumes "length b < 2 ^ 30"
  shows "\<exists>ns. os_append b ([], 0) = Some (b, ns)"
proof -
  have "round_alloc 0 (length b) < 2 ^ 31" using round_alloc_le [of 0 "length b"] assms by simp
  then show ?thesis using assms by (simp add: os_append_def neg_int_def Let_def)
qed

lemma OCTET_STRING_codec:
  assumes t: "one_tag tags tag_mode" "tags_ok tags" "tag < 2 ^ 32" and stk: "2 \<le> stk"
    and v: "length v < 2 ^ 30"
    and bs: "bs = TL_bytes (eff_tag tags tag_mode tag) (length v) False @ v"
  shows "encodes (OCTET_STRING_encode_der tags v tag_mode tag) bs"
    and "OCTET_STRING_decode_ber stk tags (bs @ rest) tag_mode = Some (RC_OK (length bs) v)"
proof -
  have l: "length v < 2 ^ 32" using v by simp
  note w = one_tag_write [OF t l, of False]
  show "encodes (OCTET_STRING_encode_der tags v tag_mode tag) bs"
    using encodes_call [OF w, of v] bs unfolding OCTET_STRING_encode_der_def by simp
  have "0 < stk - 1" using stk by simp
  from one_tag_check [OF t l this, of "-1" False True "v @ rest"] os_append_fresh [OF v]
  show "OCTET_STRING_decode_ber stk tags (bs @ rest) tag_mode = Some (RC_OK (length bs) v)"
    unfolding OCTET_STRING_decode_ber_def bs by auto
qed

section \<open>How much is consumed\<close>

lemma NativeInteger_consumed:
  assumes "NativeInteger_decode_ber stk tags buf tag_mode = Some d"
  shows "dec_consumed d \<le> length buf"
  using assms check_tags_consumed
  by (fastforce simp: NativeInteger_decode_ber_def split: bind_splits dec.splits if_splits option.splits prod.splits)

lemma BOOLEAN_consumed:
  assumes "BOOLEAN_decode_ber stk tags buf tag_mode = Some d"
  shows "dec_consumed d \<le> length buf"
  using assms check_tags_consumed
  by (fastforce simp: BOOLEAN_decode_ber_def split: bind_splits dec.splits if_splits option.splits prod.splits)

lemma OCTET_STRING_consumed:
  assumes "OCTET_STRING_decode_ber stk tags buf tag_mode = Some d"
  shows "dec_consumed d \<le> length buf"
  using assms check_tags_consumed os_phase1_consumed [of tags "([], buf, 0, [], 0)" d]
  by (fastforce simp: OCTET_STRING_decode_ber_def Let_def
       split: bind_splits dec.splits if_splits option.splits prod.splits)

end
