(* ===== verification/Asn_Constr.thy ===== *)
theory Asn_Constr
  imports Asn_Prim
begin

text \<open>
  The constructed types of the ASN.1 runtime, \<^verbatim>\<open>constr_SEQUENCE.c\<close> and \<^verbatim>\<open>constr_CHOICE.c\<close>, and
  the type descriptors that drive them. A descriptor is a value of \<open>asn_type\<close>; the descriptor's
  function pointers are the case distinctions of \<open>ber_decoder\<close> and \<open>der_encoder\<close>, which hand the
  codecs of the members to the codec of the structure. A decoded structure is an \<open>asn_val\<close>: in a
  SEQUENCE, \<open>None\<close> is the NULL of a member kept by pointer; in a CHOICE, \<open>None\<close> is
  \<open>present = 0\<close> (nothing) and otherwise the position of the alternative with its value.
\<close>

section \<open>Descriptors and values\<close>

record asn_TYPE_tag2member =
  el_tag :: nat
  el_no :: nat
  toff_first :: int
  toff_last :: int

record asn_SEQUENCE_specifics =
  seq_tag2el :: "asn_TYPE_tag2member list"
  ext_after :: int
  ext_before :: int

record asn_CHOICE_specifics =
  ch_tag2el :: "asn_TYPE_tag2member list"
  ext_start :: int

datatype 'a asn_member =
  Member (mb_flags: nat) (mb_optional: nat) (mb_tag: nat) (mb_tag_mode: int) (mb_type: 'a) (mb_name: string)

datatype asn_type =
    TNativeInteger "nat list"
  | TBoolean "nat list"
  | TOctetString "nat list"
  | TSequence "nat list" "asn_type asn_member list" asn_SEQUENCE_specifics
  | TChoice "nat list" "asn_type asn_member list" asn_CHOICE_specifics

datatype asn_val =
    VLong int
  | VBool int
  | VOctets bytes
  | VSeq "asn_val option list"
  | VChoice "(nat \<times> asn_val) option"

abbreviation (input) ATF_NOFLAGS :: nat where "ATF_NOFLAGS \<equiv> 0"
abbreviation (input) ATF_POINTER :: nat where "ATF_POINTER \<equiv> 1"

definition mb_pointer :: "'a asn_member \<Rightarrow> bool" where
  "mb_pointer m = (mb_flags m mod 2 = 1)"

definition mb_open :: "'a asn_member \<Rightarrow> bool" where
  "mb_open m = (mb_flags m div 2 mod 2 = 1)"

text \<open>The tag -1 of a member without a tag of its own.\<close>

definition no_tag :: nat where "no_tag = 2 ^ 32 - 1"

type_synonym decoder = "nat \<Rightarrow> bytes \<Rightarrow> int \<Rightarrow> asn_val dec option"
type_synonym encoder = "asn_val \<Rightarrow> int \<Rightarrow> nat \<Rightarrow> sink \<Rightarrow> (nat \<times> sink) option"

text \<open>A structure fresh from \<open>CALLOC\<close>.\<close>

definition member_zero :: "asn_val asn_member \<Rightarrow> asn_val option" where
  "member_zero m = (if mb_pointer m then None else Some (mb_type m))"

primrec asn_zero :: "asn_type \<Rightarrow> asn_val" where
  "asn_zero (TNativeInteger tags) = VLong 0"
| "asn_zero (TBoolean tags) = VBool 0"
| "asn_zero (TOctetString tags) = VOctets []"
| "asn_zero (TSequence tags ms sp) = VSeq (map member_zero (map (map_asn_member asn_zero) ms))"
| "asn_zero (TChoice tags ms sp) = VChoice None"

section \<open>Searching a member by its tag\<close>

text \<open>The binary search of the C library over \<open>xs\<close> between \<open>l\<close> and \<open>u\<close>; \<open>cmp\<close> compares the key
  with an element.\<close>

function bsearch :: "('a \<Rightarrow> int) \<Rightarrow> 'a list \<Rightarrow> nat \<Rightarrow> nat \<Rightarrow> nat option" where
  "bsearch cmp xs l u =
     (if l < u then
        let idx = (l + u) div 2; c = cmp (xs ! idx)
        in if c < 0 then bsearch cmp xs l idx
           else if 0 < c then bsearch cmp xs (idx + 1) u
           else Some idx
      else None)"
  by pat_completeness auto
termination by (relation "measure (\<lambda>(cmp, xs, l, u). u - l)") auto

declare bsearch.simps [simp del]

definition tag_cmp :: "nat \<Rightarrow> nat \<Rightarrow> int" where
  "tag_cmp a b =
     (if BER_TAG_CLASS a = BER_TAG_CLASS b then
        if BER_TAG_VALUE a = BER_TAG_VALUE b then 0
        else if BER_TAG_VALUE a < BER_TAG_VALUE b then -1 else 1
      else if BER_TAG_CLASS a < BER_TAG_CLASS b then -1 else 1)"

definition search4tag :: "nat \<Rightarrow> asn_TYPE_tag2member \<Rightarrow> int" where
  "search4tag tlv_tag b = tag_cmp tlv_tag (el_tag b)"

definition t2e_cmp :: "nat \<Rightarrow> nat \<Rightarrow> asn_TYPE_tag2member \<Rightarrow> int" where
  "t2e_cmp tlv_tag edx b =
     (if tag_cmp tlv_tag (el_tag b) = 0 then (if el_no b < edx then 1 else 0)
      else tag_cmp tlv_tag (el_tag b))"

text \<open>The linear search over the current member and the optional ones behind it: the member found,
  nothing, or \<open>Inr\<close> when the code breaks off to resort to the binary search.\<close>

fun linear_search :: "nat \<Rightarrow> 'a asn_member list \<Rightarrow> nat \<Rightarrow> nat option + unit" where
  "linear_search tlv_tag [] n = Inl None"
| "linear_search tlv_tag (m # ms) n =
     (if tlv_tag = mb_tag m then Inl (Some n)
      else if mb_open m then Inl (Some n)
      else if mb_tag m = no_tag then Inr ()
      else linear_search tlv_tag ms (n + 1))"

definition best_match :: "asn_TYPE_tag2member list \<Rightarrow> nat \<Rightarrow> nat \<Rightarrow> nat \<Rightarrow> nat option" where
  "best_match t2m i edx edx_max =
     (let f = nat (int i + toff_first (t2m ! i)); l = nat (int i + toff_last (t2m ! i));
          cand = filter (\<lambda>e. edx \<le> el_no e)
                   (takeWhile (\<lambda>e. el_no e \<le> edx_max) (map (nth t2m) [f..<l + 1]))
      in if cand = [] then None else Some (el_no (last cand)))"

definition find_member :: "'a asn_member list \<Rightarrow> asn_SEQUENCE_specifics \<Rightarrow> nat \<Rightarrow> nat \<Rightarrow> nat option" where
  "find_member elements specs edx tlv_tag =
     (let opt = mb_optional (elements ! edx);
          cap = length elements < edx + opt + 1;
          far = \<not> cap \<and> 8 < opt + 1;
          opt_edx_end = (if cap then length elements else if far then edx + 8 else edx + opt + 1)
      in (case linear_search tlv_tag (take (opt_edx_end - edx) (drop edx elements)) edx of
            Inl (Some n) \<Rightarrow> Some n
          | r \<Rightarrow>
              if far \<or> r = Inr () then
                (case bsearch (t2e_cmp tlv_tag edx) (seq_tag2el specs) 0 (length (seq_tag2el specs)) of
                   None \<Rightarrow> None
                 | Some i \<Rightarrow> best_match (seq_tag2el specs) i edx (edx + opt))
              else None))"

section \<open>The bounds of a structure\<close>

text \<open>\<open>LEFT\<close>, \<open>SIZE_VIOLATION\<close> and \<open>ADVANCE\<close>; \<open>left\<close> is negative in a structure of indefinite
  length.\<close>

definition LEFT :: "int \<Rightarrow> bytes \<Rightarrow> bytes" where
  "LEFT left ptr = (if left < 0 then ptr else take (nat left) ptr)"

definition SIZE_VIOLATION :: "int \<Rightarrow> bytes \<Rightarrow> bool" where
  "SIZE_VIOLATION left ptr = (0 \<le> left \<and> nat left \<le> length ptr)"

definition advance_left :: "nat \<Rightarrow> int \<Rightarrow> int" where
  "advance_left n left = (if 0 \<le> left then left - int n else left)"

definition want_more :: "int \<Rightarrow> bytes \<Rightarrow> nat \<Rightarrow> 'v dec" where
  "want_more left ptr csm = (if SIZE_VIOLATION left ptr then RC_FAIL csm else RC_WMORE csm)"

definition IN_EXTENSION_GROUP :: "asn_SEQUENCE_specifics \<Rightarrow> nat \<Rightarrow> bool" where
  "IN_EXTENSION_GROUP specs memb_idx \<longleftrightarrow> ext_after specs < int memb_idx \<and> int memb_idx < ext_before specs"

section \<open>SEQUENCE\<close>

type_synonym seq_state = "nat \<times> bytes \<times> int \<times> nat \<times> asn_val option list"

datatype seq_round = SeqRet "asn_val dec option" | SeqNext seq_state | SeqTail seq_state

definition seq_end_ok :: "'a asn_member list \<Rightarrow> asn_SEQUENCE_specifics \<Rightarrow> nat \<Rightarrow> bool" where
  "seq_end_ok elements specs edx \<longleftrightarrow>
     edx + mb_optional (elements ! edx) = length elements \<or>
     (IN_EXTENSION_GROUP specs edx \<and> int (length elements) < ext_before specs)"

text \<open>Microphase 2: the decoder of member \<open>n\<close>.\<close>

definition seq_microphase2 :: "nat \<Rightarrow> decoder asn_member list \<Rightarrow> nat \<Rightarrow> seq_state \<Rightarrow> seq_round" where
  "seq_microphase2 stk elements n s =
     (case s of (edx, ptr, left, csm, acc) \<Rightarrow>
        (case mb_type (elements ! n) (stk - 1) (LEFT left ptr) (mb_tag_mode (elements ! n)) of
           None \<Rightarrow> SeqRet None
         | Some (RC_OK k v) \<Rightarrow>
             SeqNext (n + 1, drop k ptr, advance_left k left, csm + k, acc[n := Some v])
         | Some (RC_WMORE k) \<Rightarrow>
             SeqRet (Some (if SIZE_VIOLATION left ptr then RC_FAIL csm else RC_WMORE (csm + k)))
         | Some (RC_FAIL _) \<Rightarrow> SeqRet (Some (RC_FAIL csm))))"

text \<open>A tag that no member has: an extension to skip, or an error.\<close>

definition seq_unknown_tag ::
  "nat \<Rightarrow> 'a asn_member list \<Rightarrow> asn_SEQUENCE_specifics \<Rightarrow> nat \<Rightarrow> seq_state \<Rightarrow> seq_round" where
  "seq_unknown_tag stk elements specs tag_len s =
     (case s of (edx, ptr, left, csm, acc) \<Rightarrow>
        let edx' = edx + mb_optional (elements ! edx)
        in if \<not> IN_EXTENSION_GROUP specs edx' then SeqRet (Some (RC_FAIL csm))
           else (case ber_skip_length (stk - 1) (BER_TLV_CONSTRUCTED ptr) (drop tag_len (LEFT left ptr)) of
               FFail \<Rightarrow> SeqRet (Some (RC_FAIL csm))
             | FMore \<Rightarrow> SeqRet (Some (want_more left ptr csm))
             | FGot _ skip \<Rightarrow>
                 SeqNext (edx', drop (skip + tag_len) ptr, advance_left (skip + tag_len) left,
                          csm + (skip + tag_len), acc)))"

text \<open>One round of the loop over the members.\<close>

definition seq_round ::
  "nat \<Rightarrow> decoder asn_member list \<Rightarrow> asn_SEQUENCE_specifics \<Rightarrow> seq_state \<Rightarrow> seq_round" where
  "seq_round stk elements specs s =
     (case s of (edx, ptr, left, csm, acc) \<Rightarrow>
        if length elements \<le> edx then SeqTail s
        else if left = 0 \<and> seq_end_ok elements specs edx then SeqRet (Some (RC_OK csm (VSeq acc)))
        else (case ber_fetch_tag (LEFT left ptr) of
            FFail \<Rightarrow> SeqRet (Some (RC_FAIL csm))
          | FMore \<Rightarrow> SeqRet (Some (want_more left ptr csm))
          | FGot tlv_tag tag_len \<Rightarrow>
              if left < 0 \<and> ptr ! 0 = 0 \<and> length (LEFT left ptr) < 2 then
                SeqRet (Some (want_more left ptr csm))
              else if left < 0 \<and> ptr ! 0 = 0 \<and> ptr ! 1 = 0 \<and> seq_end_ok elements specs edx then SeqTail s
              else (case find_member elements specs edx tlv_tag of
                  Some n \<Rightarrow> seq_microphase2 stk elements n s
                | None \<Rightarrow> seq_unknown_tag stk elements specs tag_len s)))"

lemma linear_search_ge: "linear_search t ms n = Inl (Some k) \<Longrightarrow> n \<le> k"
  by (induction t ms n rule: linear_search.induct) (fastforce split: if_splits)+

lemma best_match_ge: "best_match t2m i edx m = Some k \<Longrightarrow> edx \<le> k"
proof -
  assume a: "best_match t2m i edx m = Some k"
  define c where "c = filter (\<lambda>e. edx \<le> el_no e) (takeWhile (\<lambda>e. el_no e \<le> m)
    (map (nth t2m) [nat (int i + toff_first (t2m ! i))..<nat (int i + toff_last (t2m ! i)) + 1]))"
  have "c \<noteq> []" "k = el_no (last c)"
    using a unfolding best_match_def Let_def c_def [symmetric] by (auto split: if_splits)
  moreover from this have "last c \<in> set c" by simp
  ultimately show ?thesis by (auto simp: c_def)
qed

lemma find_member_ge: "find_member ms sp edx t = Some n \<Longrightarrow> edx \<le> n"
  by (auto simp: find_member_def Let_def split: sum.splits option.splits if_splits
           dest: linear_search_ge best_match_ge)

lemma LEFT_length: "length (LEFT left ptr) \<le> length ptr"
  by (simp add: LEFT_def)

lemma seq_round_next:
  assumes "seq_round stk elements specs (edx, ptr, left, csm, acc) = SeqNext (edx', ptr', left', csm', acc')"
  shows "edx < length elements \<and> length ptr' + (length elements - edx') < length ptr + (length elements - edx)"
proof -
  have e: "edx < length elements" using assms by (auto simp: seq_round_def not_le [symmetric] split: if_splits)
  obtain t a where t: "ber_fetch_tag (LEFT left ptr) = FGot t a"
    using assms e by (auto simp: seq_round_def split: if_splits fetch.splits)
  have a: "1 \<le> a" "a \<le> length ptr" using ber_fetch_tag_bounds [OF t] LEFT_length [of left ptr] by auto
  show ?thesis
  proof (cases "find_member elements specs edx t")
    case None
    then show ?thesis using assms e t a
      by (auto simp: seq_round_def seq_unknown_tag_def Let_def split: if_splits fetch.splits)
  next
    case (Some n)
    then have "edx \<le> n" by (rule find_member_ge)
    then show ?thesis using assms e t a Some
      by (auto simp: seq_round_def seq_microphase2_def split: if_splits option.splits dec.splits)
  qed
qed

text \<open>Phases 3 and 4: everything until the end of the SEQUENCE.\<close>

function seq_tail :: "nat \<Rightarrow> nat \<Rightarrow> asn_SEQUENCE_specifics \<Rightarrow> bool \<Rightarrow> bytes \<Rightarrow> int \<Rightarrow> nat \<Rightarrow> asn_val \<Rightarrow> asn_val dec" where
  "seq_tail stk elements_count specs phase4 ptr left csm v =
     (if left = 0 then RC_OK csm v
      else (case ber_fetch_tag (LEFT left ptr) of
          FFail \<Rightarrow> RC_FAIL csm
        | FMore \<Rightarrow> want_more left ptr csm
        | FGot tlv_tag tgl \<Rightarrow>
            if left < 0 \<and> ptr ! 0 = 0 \<and> length (LEFT left ptr) < 2 then want_more left ptr csm
            else if left < 0 \<and> ptr ! 0 = 0 \<and> ptr ! 1 = 0 then
              seq_tail stk elements_count specs True (drop 2 ptr) (left + 1) (csm + 2) v
            else if \<not> IN_EXTENSION_GROUP specs elements_count \<or> phase4 then RC_FAIL csm
            else (case ber_skip_length (stk - 1) (BER_TLV_CONSTRUCTED ptr) (drop tgl (LEFT left ptr)) of
                FFail \<Rightarrow> RC_FAIL csm
              | FMore \<Rightarrow> want_more left ptr csm
              | FGot _ ll \<Rightarrow>
                  seq_tail stk elements_count specs phase4 (drop (tgl + ll) ptr)
                    (advance_left (tgl + ll) left) (csm + (tgl + ll)) v)))"
  by pat_completeness auto
termination
proof (relation "measure (\<lambda>(stk, n, sp, ph, ptr, left, csm, v). length ptr)", goal_cases)
  case (2 stk n sp ph ptr left csm v t a)
  then show ?case using ber_fetch_tag_bounds [OF 2(2)] LEFT_length [of left ptr] by auto
next
  case (3 stk n sp ph ptr left csm v t a u ll)
  then show ?case using ber_fetch_tag_bounds [OF 3(2)] LEFT_length [of left ptr] by auto
qed simp

declare seq_tail.simps [simp del]

function seq_phase1 ::
  "nat \<Rightarrow> decoder asn_member list \<Rightarrow> asn_SEQUENCE_specifics \<Rightarrow> seq_state \<Rightarrow> asn_val dec option" where
  "seq_phase1 stk elements specs s =
     (case seq_round stk elements specs s of
        SeqRet d \<Rightarrow> d
      | SeqNext s' \<Rightarrow> seq_phase1 stk elements specs s'
      | SeqTail (_, ptr, left, csm, acc) \<Rightarrow>
          Some (seq_tail stk (length elements) specs False ptr left csm (VSeq acc)))"
  by pat_completeness auto
termination
proof (relation "measure (\<lambda>(stk, ms, sp, edx, ptr, left, csm, acc). length ptr + (length ms - edx))", goal_cases)
  case (2 stk ms sp s s')
  then show ?case
    using seq_round_next [of stk ms sp] by (cases s; cases s') fastforce
qed simp

declare seq_phase1.simps [simp del]

definition SEQUENCE_decode_ber ::
  "nat list \<Rightarrow> decoder asn_member list \<Rightarrow> asn_SEQUENCE_specifics \<Rightarrow> asn_val option list \<Rightarrow> decoder" where
  "SEQUENCE_decode_ber tags elements specs st stk ptr tag_mode =
     do {
       rval \<leftarrow> ber_check_tags (stk - 1) tags True ptr tag_mode 1;
       case rval of
         RC_FAIL n \<Rightarrow> Some (RC_FAIL n)
       | RC_WMORE n \<Rightarrow> Some (RC_WMORE n)
       | RC_OK n (left, _) \<Rightarrow> seq_phase1 stk elements specs (0, drop n ptr, left, n, st)
     }"

fun seq_estimate :: "encoder asn_member list \<Rightarrow> asn_val option list \<Rightarrow> nat \<Rightarrow> nat option" where
  "seq_estimate [] [] computed_size = Some computed_size"
| "seq_estimate (elm # elms) (None # vs) computed_size =
     (if mb_pointer elm \<and> mb_optional elm \<noteq> 0 then seq_estimate elms vs computed_size else None)"
| "seq_estimate (elm # elms) (Some v # vs) computed_size =
     do {
       (n, _) \<leftarrow> mb_type elm v (mb_tag_mode elm) (mb_tag elm) None;
       seq_estimate elms vs (computed_size + n)
     }"
| "seq_estimate _ _ _ = None"

fun seq_emit :: "encoder asn_member list \<Rightarrow> asn_val option list \<Rightarrow> int \<Rightarrow> sink \<Rightarrow> (int \<times> sink) option" where
  "seq_emit (elm # elms) (None # vs) computed_size cb = seq_emit elms vs computed_size cb"
| "seq_emit (elm # elms) (Some v # vs) computed_size cb =
     do {
       (n, cb') \<leftarrow> mb_type elm v (mb_tag_mode elm) (mb_tag elm) cb;
       seq_emit elms vs (computed_size - int n) cb'
     }"
| "seq_emit _ _ computed_size cb = Some (computed_size, cb)"

definition SEQUENCE_encode_der :: "nat list \<Rightarrow> encoder asn_member list \<Rightarrow> encoder" where
  "SEQUENCE_encode_der tags elements sptr tag_mode tag cb =
     (case sptr of
        VSeq vs \<Rightarrow>
          do {
            computed_size \<leftarrow> seq_estimate elements vs 0;
            (ret, cb1) \<leftarrow> der_write_tags tags computed_size tag_mode True tag cb;
            if cb = None then Some (computed_size + ret, None)
            else do {
              (rest, cb2) \<leftarrow> seq_emit elements vs (int computed_size) cb1;
              if rest \<noteq> 0 then None else Some (computed_size + ret, cb2)
            }
          }
      | _ \<Rightarrow> None)"

section \<open>CHOICE\<close>

text \<open>The end-of-contents octets behind a tagged CHOICE of indefinite length. The loop of the code
  goes round without having read anything when it sees a zero octet that is not followed by
  another one; \<open>None\<close> is the loop that does not end.\<close>

partial_function (option) choice_eoc :: "bytes \<Rightarrow> int \<Rightarrow> nat \<Rightarrow> unit dec option" where
  "choice_eoc ptr left csm =
     (if left < 0 then
        (case ber_fetch_tag (LEFT left ptr) of
           FFail \<Rightarrow> Some (RC_FAIL csm)
         | FMore \<Rightarrow> Some (want_more left ptr csm)
         | FGot _ _ \<Rightarrow>
             if ptr ! 0 = 0 then
               if length (LEFT left ptr) < 2 then Some (want_more left ptr csm)
               else if ptr ! 1 = 0 then choice_eoc (drop 2 ptr) (left + 1) (csm + 2)
               else choice_eoc ptr left csm
             else Some (RC_FAIL csm))
      else Some (RC_OK csm ()))"

declare choice_eoc.simps [code]

text \<open>Phase 3, behind the alternative.\<close>

definition choice_phase3 :: "bool \<Rightarrow> bytes \<Rightarrow> int \<Rightarrow> nat \<Rightarrow> asn_val \<Rightarrow> asn_val dec option" where
  "choice_phase3 tagged ptr left csm v =
     (if 0 < left then Some (RC_FAIL csm)
      else if left = -1 \<and> \<not> tagged then Some (RC_OK csm v)
      else map_option (map_dec (\<lambda>_. v)) (choice_eoc ptr left csm))"

text \<open>Phases 1 and 2: the alternative is found by its tag and decoded; the tag of an extension is
  skipped, and the structure stays as it was allocated.\<close>

definition choice_phase1 ::
  "nat \<Rightarrow> decoder asn_member list \<Rightarrow> asn_CHOICE_specifics \<Rightarrow> bool \<Rightarrow> bytes \<Rightarrow> int \<Rightarrow> nat \<Rightarrow> asn_val dec option" where
  "choice_phase1 stk elements specs tagged ptr left csm =
     (case ber_fetch_tag (LEFT left ptr) of
        FFail \<Rightarrow> Some (RC_FAIL csm)
      | FMore \<Rightarrow> Some (want_more left ptr csm)
      | FGot tlv_tag tag_len \<Rightarrow>
          (case bsearch (search4tag tlv_tag) (ch_tag2el specs) 0 (length (ch_tag2el specs)) of
             Some i \<Rightarrow>
               let n = el_no (ch_tag2el specs ! i)
               in (case mb_type (elements ! n) (stk - 1) (LEFT left ptr) (mb_tag_mode (elements ! n)) of
                     None \<Rightarrow> None
                   | Some (RC_OK k v) \<Rightarrow>
                       choice_phase3 tagged (drop k ptr) (advance_left k left) (csm + k) (VChoice (Some (n, v)))
                   | Some (RC_WMORE k) \<Rightarrow>
                       Some (if SIZE_VIOLATION left ptr then RC_FAIL csm else RC_WMORE (csm + k))
                   | Some (RC_FAIL _) \<Rightarrow> Some (RC_FAIL csm))
           | None \<Rightarrow>
               if ext_start specs = -1 then Some (RC_FAIL csm)
               else (case ber_skip_length (stk - 1) (BER_TLV_CONSTRUCTED ptr) (drop tag_len (LEFT left ptr)) of
                   FFail \<Rightarrow> Some (RC_FAIL csm)
                 | FMore \<Rightarrow> Some (want_more left ptr csm)
                 | FGot _ skip \<Rightarrow> Some (RC_OK (csm + (skip + tag_len)) (VChoice None)))))"

definition CHOICE_decode_ber ::
  "nat list \<Rightarrow> decoder asn_member list \<Rightarrow> asn_CHOICE_specifics \<Rightarrow> decoder" where
  "CHOICE_decode_ber tags elements specs stk ptr tag_mode =
     (if tag_mode \<noteq> 0 \<or> tags \<noteq> [] then
        do {
          rval \<leftarrow> ber_check_tags (stk - 1) tags True ptr tag_mode (-1);
          case rval of
            RC_FAIL n \<Rightarrow> Some (RC_FAIL n)
          | RC_WMORE n \<Rightarrow> Some (RC_WMORE n)
          | RC_OK n (left, _) \<Rightarrow> choice_phase1 stk elements specs True (drop n ptr) left n
        }
      else choice_phase1 stk elements specs False ptr (-1) 0)"

definition CHOICE_encode_der :: "nat list \<Rightarrow> encoder asn_member list \<Rightarrow> encoder" where
  "CHOICE_encode_der tags elements sptr tag_mode tag cb =
     (case sptr of
        VChoice None \<Rightarrow> if elements = [] then Some (0, cb) else None
      | VChoice (Some (n, v)) \<Rightarrow>
          if length elements \<le> n then None
          else let elm = elements ! n
               in do {
                 (computed_size, cb1) \<leftarrow>
                   (if tag_mode = 1 \<or> tags \<noteq> [] then
                      do {
                        (encoded, _) \<leftarrow> mb_type elm v (mb_tag_mode elm) (mb_tag elm) None;
                        der_write_tags tags encoded tag_mode True tag cb
                      }
                    else Some (0, cb));
                 (encoded, cb2) \<leftarrow> mb_type elm v (mb_tag_mode elm) (mb_tag elm) cb1;
                 Some (encoded + computed_size, cb2)
               }
      | _ \<Rightarrow> None)"

section \<open>The codecs of a descriptor\<close>

primrec ber_decoder :: "asn_type \<Rightarrow> decoder" where
  "ber_decoder (TNativeInteger tags) =
     (\<lambda>stk ptr tm. map_option (map_dec VLong) (NativeInteger_decode_ber stk tags ptr tm))"
| "ber_decoder (TBoolean tags) =
     (\<lambda>stk ptr tm. map_option (map_dec VBool) (BOOLEAN_decode_ber stk tags ptr tm))"
| "ber_decoder (TOctetString tags) =
     (\<lambda>stk ptr tm. map_option (map_dec VOctets) (OCTET_STRING_decode_ber stk tags ptr tm))"
| "ber_decoder (TSequence tags ms sp) =
     SEQUENCE_decode_ber tags (map (map_asn_member ber_decoder) ms) sp
       (map (\<lambda>m. member_zero (map_asn_member asn_zero m)) ms)"
| "ber_decoder (TChoice tags ms sp) =
     CHOICE_decode_ber tags (map (map_asn_member ber_decoder) ms) sp"

primrec der_encoder :: "asn_type \<Rightarrow> encoder" where
  "der_encoder (TNativeInteger tags) =
     (\<lambda>v tm tag cb. case v of VLong i \<Rightarrow> NativeInteger_encode_der tags i tm tag cb | _ \<Rightarrow> None)"
| "der_encoder (TBoolean tags) =
     (\<lambda>v tm tag cb. case v of VBool i \<Rightarrow> BOOLEAN_encode_der tags i tm tag cb | _ \<Rightarrow> None)"
| "der_encoder (TOctetString tags) =
     (\<lambda>v tm tag cb. case v of VOctets b \<Rightarrow> OCTET_STRING_encode_der tags b tm tag cb | _ \<Rightarrow> None)"
| "der_encoder (TSequence tags ms sp) = SEQUENCE_encode_der tags (map (map_asn_member der_encoder) ms)"
| "der_encoder (TChoice tags ms sp) = CHOICE_encode_der tags (map (map_asn_member der_encoder) ms)"

text \<open>\<open>ber_decode\<close> with no context given: the default stack limit leaves room for \<open>stack_max\<close>
  nested calls.\<close>

definition ber_decode :: "nat \<Rightarrow> asn_type \<Rightarrow> bytes \<Rightarrow> asn_val dec option" where
  "ber_decode stack_max td ptr = ber_decoder td stack_max ptr 0"

text \<open>\<open>der_encode_to_buffer\<close>: the outer \<open>None\<close> is its failed assertion, the inner one the result -1.\<close>

definition der_encode_to_buffer :: "asn_type \<Rightarrow> asn_val \<Rightarrow> nat \<Rightarrow> bytes option option" where
  "der_encode_to_buffer td v buffer_size =
     (case der_encoder td v 0 0 (Some (buffer_size, [])) of
        Some (encoded, Some (left, out)) \<Rightarrow>
          if encoded \<noteq> buffer_size - left then None else Some (Some out)
      | _ \<Rightarrow> Some None)"

section \<open>The decoder stays inside its buffer\<close>

lemma want_more_consumed [simp]: "dec_consumed (want_more left ptr csm) = csm"
  by (simp add: want_more_def)

lemma map_dec_consumed [simp]: "dec_consumed (map_dec f d) = dec_consumed d"
  by (cases d) auto

definition in_bounds :: "decoder \<Rightarrow> bool" where
  "in_bounds f \<longleftrightarrow> (\<forall>stk ptr tm d. f stk ptr tm = Some d \<longrightarrow> dec_consumed d \<le> length ptr)"

lemma seq_tail_consumed:
  "dec_consumed (seq_tail stk n specs ph ptr left csm v) \<le> csm + length ptr"
proof (induction stk n specs ph ptr left csm v rule: seq_tail.induct)
  case (1 stk n specs ph ptr left csm v)
  show ?case
  proof (cases "left = 0")
    case False
    show ?thesis
    proof (cases "ber_fetch_tag (LEFT left ptr)")
      case T: (FGot t a)
      have a: "1 \<le> a" "a \<le> length (LEFT left ptr)" "length (LEFT left ptr) \<le> length ptr"
        using ber_fetch_tag_bounds [OF T] LEFT_length by auto
      have e: "dec_consumed (seq_tail stk n specs True (drop 2 ptr) (left + 1) (csm + 2) v) \<le> csm + length ptr"
        if "left < 0" "ptr ! 0 = 0" "\<not> length (LEFT left ptr) < 2" "ptr ! 1 = 0"
        using "1.IH"(1) [OF False T] that a by simp
      have s: "dec_consumed (seq_tail stk n specs ph (drop (a + b) ptr) (advance_left (a + b) left) (csm + (a + b)) v)
          \<le> csm + length ptr"
        if "\<not> (left < 0 \<and> ptr ! 0 = 0 \<and> length (LEFT left ptr) < 2)" "\<not> (left < 0 \<and> ptr ! 0 = 0 \<and> ptr ! 1 = 0)"
          "\<not> (\<not> IN_EXTENSION_GROUP specs n \<or> ph)"
          "ber_skip_length (stk - 1) (BER_TLV_CONSTRUCTED ptr) (drop a (LEFT left ptr)) = FGot u b" for u b
        using "1.IH"(2) [OF False T that] ber_skip_bounds(1) [OF that(4)] a by auto
      show ?thesis
        using e s by (auto simp: seq_tail.simps [of stk n] False T split: fetch.splits)
    qed (auto simp: seq_tail.simps [of stk n] False)
  qed (simp add: seq_tail.simps)
qed

lemma in_boundsD: "in_bounds f \<Longrightarrow> f stk (LEFT left ptr) tm = Some d \<Longrightarrow> dec_consumed d \<le> length ptr"
  using LEFT_length [of left ptr] unfolding in_bounds_def by (meson order_trans)

definition seq_round_ok :: "seq_state \<Rightarrow> seq_round \<Rightarrow> bool" where
  "seq_round_ok s r \<longleftrightarrow>
     (case s of (edx, ptr, left, csm, acc) \<Rightarrow>
        (case r of
           SeqRet (Some d) \<Rightarrow> dec_consumed d \<le> csm + length ptr
         | SeqNext (edx', ptr', left', csm', acc') \<Rightarrow> csm' + length ptr' = csm + length ptr
         | SeqTail s' \<Rightarrow> s' = s
         | _ \<Rightarrow> True))"

lemma seq_round_ok:
  assumes "\<And>n. n < length elements \<Longrightarrow> in_bounds (mb_type (elements ! n))"
    and "\<And>n t. find_member elements specs edx t = Some n \<Longrightarrow> edx < length elements \<Longrightarrow> n < length elements"
  shows "seq_round_ok (edx, ptr, left, csm, acc) (seq_round stk elements specs (edx, ptr, left, csm, acc))"
proof (cases "ber_fetch_tag (LEFT left ptr)")
  case T: (FGot t a)
  have a: "1 \<le> a" "a \<le> length (LEFT left ptr)" "length (LEFT left ptr) \<le> length ptr"
    using ber_fetch_tag_bounds [OF T] LEFT_length by auto
  have m: "seq_round_ok (edx, ptr, left, csm, acc) (seq_microphase2 stk elements n (edx, ptr, left, csm, acc))"
    if "n < length elements" for n
    using in_boundsD [OF assms(1) [OF that], of "stk - 1" left ptr "mb_tag_mode (elements ! n)"]
    by (fastforce simp: seq_round_ok_def seq_microphase2_def split: option.splits dec.splits)
  have u: "seq_round_ok (edx, ptr, left, csm, acc) (seq_unknown_tag stk elements specs a (edx, ptr, left, csm, acc))"
    using a ber_skip_bounds(1) [of "stk - 1" "BER_TLV_CONSTRUCTED ptr" "drop a (LEFT left ptr)"]
    by (fastforce simp: seq_round_ok_def seq_unknown_tag_def Let_def split: fetch.splits)
  have r: "seq_round_ok (edx, ptr, left, csm, acc) (SeqRet (Some (RC_OK csm v)))"
      "seq_round_ok (edx, ptr, left, csm, acc) (SeqRet (Some (want_more left ptr csm)))"
      "seq_round_ok (edx, ptr, left, csm, acc) (SeqTail (edx, ptr, left, csm, acc))" for v
    by (auto simp: seq_round_ok_def)
  show ?thesis
    using m u r assms(2) [of t] by (auto simp: seq_round_def T split: option.splits)
qed (auto simp: seq_round_def seq_round_ok_def)

text \<open>A search finds members only: the descriptor's tag map points into its members.\<close>

definition map_in_range :: "'a asn_member list \<Rightarrow> asn_TYPE_tag2member list \<Rightarrow> bool" where
  "map_in_range ms t2m \<longleftrightarrow>
     (\<forall>i \<in> set [0..<length t2m]. el_no (t2m ! i) < length ms \<and> int i + toff_last (t2m ! i) < int (length t2m))"

lemma bsearch_range: "bsearch cmp xs l u = Some i \<Longrightarrow> l \<le> i \<and> i < u"
  by (induction cmp xs l u rule: bsearch.induct)
     (subst (asm) (2) bsearch.simps, fastforce simp: Let_def split: if_splits)

lemma linear_search_range: "linear_search t ms n = Inl (Some k) \<Longrightarrow> k < n + length ms"
  by (induction t ms n rule: linear_search.induct) (fastforce split: if_splits)+

lemma best_match_range:
  assumes "best_match t2m i edx m = Some k" "map_in_range ms t2m" "i < length t2m"
  shows "k < length ms"
proof -
  let ?js = "[nat (int i + toff_first (t2m ! i))..<nat (int i + toff_last (t2m ! i)) + 1]"
  define c where "c = filter (\<lambda>e. edx \<le> el_no e) (takeWhile (\<lambda>e. el_no e \<le> m) (map (nth t2m) ?js))"
  have "c \<noteq> []" "k = el_no (last c)"
    using assms(1) unfolding best_match_def Let_def c_def [symmetric] by (auto split: if_splits)
  then have "last c \<in> set c" by simp
  moreover have "set (filter P (takeWhile Q xs)) \<subseteq> set xs" for P Q and xs :: "asn_TYPE_tag2member list"
    by (auto dest: set_takeWhileD)
  ultimately have l: "last c \<in> set (map (nth t2m) ?js)" unfolding c_def by blast
  have j: "j < length t2m" if "j \<in> set ?js" for j
  proof -
    have "int i + toff_last (t2m ! i) < int (length t2m)"
      using assms(2,3) by (simp add: map_in_range_def)
    then have "nat (int i + toff_last (t2m ! i)) < length t2m"
      using assms(3) by (cases "int i + toff_last (t2m ! i) < 0") (auto simp: nat_less_iff)
    moreover have "j \<le> nat (int i + toff_last (t2m ! i))" using that by auto
    ultimately show ?thesis by (rule le_less_trans [rotated])
  qed
  from l obtain i' where "i' \<in> set ?js" "last c = t2m ! i'" by auto
  then show ?thesis using j [of i'] assms(2) \<open>k = el_no (last c)\<close> by (simp add: map_in_range_def)
qed

lemma find_member_range:
  assumes f: "find_member ms sp edx t = Some n" and m: "map_in_range ms (seq_tag2el sp)" and e: "edx < length ms"
  shows "n < length ms"
proof -
  let ?opt = "mb_optional (ms ! edx)"
  define e' where "e' = (if length ms < edx + ?opt + 1 then length ms
      else if 8 < ?opt + 1 then edx + 8 else edx + ?opt + 1)"
  consider "linear_search t (take (e' - edx) (drop edx ms)) edx = Inl (Some n)"
    | i where "bsearch (t2e_cmp t edx) (seq_tag2el sp) 0 (length (seq_tag2el sp)) = Some i"
        "best_match (seq_tag2el sp) i edx (edx + ?opt) = Some n"
    using f unfolding find_member_def Let_def e'_def
    by (auto split: sum.splits option.splits if_splits)
  then show ?thesis
  proof cases
    case 1
    then show ?thesis using linear_search_range [OF 1] e by (simp add: min_def split: if_splits)
  next
    case 2
    then have "i < length (seq_tag2el sp)" using bsearch_range by blast
    then show ?thesis using best_match_range [OF 2(2) m] by blast
  qed
qed

lemma seq_phase1_consumed:
  assumes "\<And>n. n < length ms \<Longrightarrow> in_bounds (mb_type (ms ! n))" and "map_in_range ms (seq_tag2el sp)"
  shows "seq_phase1 stk ms sp s = Some d \<Longrightarrow> dec_consumed d \<le> fst (snd (snd (snd s))) + length (fst (snd s))"
  using assms
proof (induction stk ms sp s rule: seq_phase1.induct)
  case (1 stk ms sp s)
  obtain edx ptr left csm acc where s: "s = (edx, ptr, left, csm, acc)" by (cases s)
  have ok: "seq_round_ok s (seq_round stk ms sp s)"
    unfolding s by (rule seq_round_ok) (use 1 find_member_range in blast)+
  show ?case
  proof (cases "seq_round stk ms sp s")
    case (SeqRet d')
    then show ?thesis using "1.prems"(1) ok s by (auto simp: seq_phase1.simps [of stk] seq_round_ok_def)
  next
    case (SeqNext s')
    then have "seq_phase1 stk ms sp s' = Some d" using "1.prems"(1) by (simp add: seq_phase1.simps [of stk ms sp s])
    then show ?thesis using "1.IH" [OF SeqNext _ "1.prems"(2,3)] ok s SeqNext
      by (cases s') (auto simp: seq_round_ok_def)
  next
    case (SeqTail s')
    then show ?thesis
      using "1.prems"(1) ok s seq_tail_consumed [of stk "length ms" sp False ptr left csm "VSeq acc"]
      by (auto simp: seq_phase1.simps [of stk] seq_round_ok_def)
  qed
qed

lemma SEQUENCE_in_bounds:
  assumes "\<And>n. n < length ms \<Longrightarrow> in_bounds (mb_type (ms ! n))" and "map_in_range ms (seq_tag2el sp)"
  shows "in_bounds (SEQUENCE_decode_ber tags ms sp st)"
  unfolding in_bounds_def
proof (intro allI impI)
  fix stk ptr tm d
  assume "SEQUENCE_decode_ber tags ms sp st stk ptr tm = Some d"
  then obtain r where r: "ber_check_tags (stk - 1) tags True ptr tm 1 = Some r"
    and d: "(case r of RC_FAIL n \<Rightarrow> Some (RC_FAIL n) | RC_WMORE n \<Rightarrow> Some (RC_WMORE n)
       | RC_OK n (left, _) \<Rightarrow> seq_phase1 stk ms sp (0, drop n ptr, left, n, st)) = Some d"
    by (auto simp: SEQUENCE_decode_ber_def split: bind_splits)
  show "dec_consumed d \<le> length ptr"
    using check_tags_consumed [OF r] d seq_phase1_consumed [OF assms]
    by (cases r) fastforce+
qed

lemma choice_eoc_consumed:
  assumes "choice_eoc ptr left csm = Some d"
  shows "dec_consumed d \<le> csm + length ptr"
proof (rule choice_eoc.raw_induct [where P = "\<lambda>ptr left csm d. dec_consumed d \<le> csm + length ptr",
        OF _ assms], goal_cases)
  case (1 f ptr left csm d)
  from 1(2) 1(1) [of "drop 2 ptr" "left + 1" "csm + 2" d] 1(1) [of ptr left csm d]
  show ?case by (auto simp: LEFT_def split: if_splits fetch.splits)
qed

text \<open>The loop that does not end.\<close>

lemma choice_eoc_stuck:
  assumes "left < 0" "ptr ! 0 = 0" "ptr ! 1 \<noteq> 0" "2 \<le> length ptr"
  shows "choice_eoc ptr left csm = None"
proof -
  have "\<not> (left < 0 \<and> ptr ! 0 = 0 \<and> ptr ! 1 \<noteq> 0 \<and> 2 \<le> length ptr)"
    if "choice_eoc ptr left csm = Some d" for d
  proof (rule choice_eoc.raw_induct [where P = "\<lambda>ptr left csm d.
        \<not> (left < 0 \<and> ptr ! 0 = 0 \<and> ptr ! 1 \<noteq> 0 \<and> 2 \<le> length ptr)", OF _ that], goal_cases)
    case (1 f ptr left csm d)
    have "ber_fetch_tag (0 # p) = FGot 0 1" for p by simp
    with 1(2) 1(1) [of ptr left csm d]
    show ?case by (cases ptr) (auto simp: LEFT_def split: if_splits)
  qed
  then show ?thesis using assms by fastforce
qed

lemma choice_phase3_consumed:
  "choice_phase3 tagged ptr left csm v = Some d \<Longrightarrow> dec_consumed d \<le> csm + length ptr"
  by (auto simp: choice_phase3_def split: if_splits dest: choice_eoc_consumed)

lemma choice_phase1_consumed:
  assumes "\<And>n. n < length ms \<Longrightarrow> in_bounds (mb_type (ms ! n))" and r: "map_in_range ms (ch_tag2el sp)"
    and d: "choice_phase1 stk ms sp tagged ptr left csm = Some d"
  shows "dec_consumed d \<le> csm + length ptr"
proof (cases "ber_fetch_tag (LEFT left ptr)")
  case T: (FGot t a)
  have a: "1 \<le> a" "a \<le> length (LEFT left ptr)" "length (LEFT left ptr) \<le> length ptr"
    using ber_fetch_tag_bounds [OF T] LEFT_length by auto
  show ?thesis
  proof (cases "bsearch (search4tag t) (ch_tag2el sp) 0 (length (ch_tag2el sp))")
    case None
    then show ?thesis
      using d a ber_skip_bounds(1) [of "stk - 1" "BER_TLV_CONSTRUCTED ptr" "drop a (LEFT left ptr)"]
      by (fastforce simp: choice_phase1_def T split: fetch.splits if_splits)
  next
    case (Some i)
    define n where "n = el_no (ch_tag2el sp ! i)"
    have "n < length ms" using bsearch_range [OF Some] r by (simp add: n_def map_in_range_def)
    note b = in_boundsD [OF assms(1) [OF this], of "stk - 1" left ptr "mb_tag_mode (ms ! n)"]
    show ?thesis
    proof (cases "mb_type (ms ! n) (stk - 1) (LEFT left ptr) (mb_tag_mode (ms ! n))")
      case None
      then show ?thesis using d by (simp add: choice_phase1_def T Some n_def [symmetric])
    next
      case M: (Some e)
      then show ?thesis
        using d b [OF M] choice_phase3_consumed [of tagged "drop k ptr" _ "csm + k" _ d for k]
        by (cases e) (fastforce simp: choice_phase1_def T Some n_def [symmetric])+
    qed
  qed
qed (use d in \<open>auto simp: choice_phase1_def\<close>)

lemma CHOICE_in_bounds:
  assumes "\<And>n. n < length ms \<Longrightarrow> in_bounds (mb_type (ms ! n))" and "map_in_range ms (ch_tag2el sp)"
  shows "in_bounds (CHOICE_decode_ber tags ms sp)"
  unfolding in_bounds_def
proof (intro allI impI)
  fix stk ptr tm d
  assume c: "CHOICE_decode_ber tags ms sp stk ptr tm = Some d"
  show "dec_consumed d \<le> length ptr"
  proof (cases "tm \<noteq> 0 \<or> tags \<noteq> []")
    case True
    then obtain r where r: "ber_check_tags (stk - 1) tags True ptr tm (-1) = Some r"
      and d: "(case r of RC_FAIL n \<Rightarrow> Some (RC_FAIL n) | RC_WMORE n \<Rightarrow> Some (RC_WMORE n)
         | RC_OK n (left, _) \<Rightarrow> choice_phase1 stk ms sp True (drop n ptr) left n) = Some d"
      using c by (auto simp: CHOICE_decode_ber_def split: bind_splits)
    show ?thesis
      using check_tags_consumed [OF r] d choice_phase1_consumed [OF assms]
      by (cases r) fastforce+
  next
    case False
    then show ?thesis using c choice_phase1_consumed [OF assms, of stk False ptr "-1" 0 d]
      by (simp add: CHOICE_decode_ber_def)
  qed
qed

text \<open>The tag maps of a descriptor and of the descriptors below it.\<close>

primrec maps_ok :: "asn_type \<Rightarrow> bool" where
  "maps_ok (TNativeInteger tags) = True"
| "maps_ok (TBoolean tags) = True"
| "maps_ok (TOctetString tags) = True"
| "maps_ok (TSequence tags ms sp) =
     (map_in_range ms (seq_tag2el sp) \<and> list_all (\<lambda>m. mb_type m) (map (map_asn_member maps_ok) ms))"
| "maps_ok (TChoice tags ms sp) =
     (map_in_range ms (ch_tag2el sp) \<and> list_all (\<lambda>m. mb_type m) (map (map_asn_member maps_ok) ms))"

lemma map_in_range_map [simp]: "map_in_range (map f ms) t2m = map_in_range ms t2m"
  by (simp add: map_in_range_def)

lemma mb_type_map [simp]: "mb_type (map_asn_member f m) = f (mb_type m)"
  by (cases m) simp

lemma ber_decoder_in_bounds: "maps_ok t \<Longrightarrow> in_bounds (ber_decoder t)"
proof (induction t)
  case (TSequence tags ms sp)
  have "mb_type m \<in> set_asn_member m" for m :: "asn_type asn_member" by (cases m) simp
  with TSequence show ?case
    by (auto simp: list_all_iff intro!: SEQUENCE_in_bounds) (meson nth_mem)
next
  case (TChoice tags ms sp)
  have "mb_type m \<in> set_asn_member m" for m :: "asn_type asn_member" by (cases m) simp
  with TChoice show ?case
    by (auto simp: list_all_iff intro!: CHOICE_in_bounds) (meson nth_mem)
qed (auto simp: in_bounds_def NativeInteger_consumed BOOLEAN_consumed OCTET_STRING_consumed)

end
