(* ===== verification/Asn_Roundtrip.thy ===== *)
theory Asn_Roundtrip
  imports Asn_Constr
begin

text \<open>
  Every value of a well-formed descriptor is read back from its encoding. \<open>asn_bytes\<close> is the
  encoding as a function of the value alone, without buffers and without the two passes of the
  code; the encoders of the runtime produce it (\<open>der_encoder_encodes\<close>) and its decoders read it
  back (\<open>ber_decoder_reads\<close>). What a descriptor must satisfy for this, \<open>asn_wf\<close>, is a finite
  check: its tags are tags, the run lengths of its optional members are right, and from every
  position the search for a tag finds the member that starts with it.
\<close>

section \<open>The encoding of a value\<close>

fun members_bytes :: "(asn_val \<Rightarrow> int \<Rightarrow> nat \<Rightarrow> bytes option) asn_member list \<Rightarrow> asn_val option list \<Rightarrow> bytes option" where
  "members_bytes [] [] = Some []"
| "members_bytes (m # ms) (None # vs) =
     (if mb_pointer m \<and> mb_optional m \<noteq> 0 then members_bytes ms vs else None)"
| "members_bytes (m # ms) (Some v # vs) =
     do {
       b \<leftarrow> mb_type m v (mb_tag_mode m) (mb_tag m);
       bs \<leftarrow> members_bytes ms vs;
       Some (b @ bs)
     }"
| "members_bytes _ _ = None"

definition tlv :: "nat \<Rightarrow> bool \<Rightarrow> bytes \<Rightarrow> bytes" where
  "tlv tag c b = TL_bytes tag (length b) c @ b"

primrec asn_bytes :: "asn_type \<Rightarrow> asn_val \<Rightarrow> int \<Rightarrow> nat \<Rightarrow> bytes option" where
  "asn_bytes (TNativeInteger tags) = (\<lambda>v tm tag. case v of
       VLong i \<Rightarrow> Some (tlv (eff_tag tags tm tag) False (skip_leading (native_bytes i))) | _ \<Rightarrow> None)"
| "asn_bytes (TBoolean tags) = (\<lambda>v tm tag. case v of
       VBool i \<Rightarrow> Some (tlv (eff_tag tags tm tag) False [if i \<noteq> 0 then 255 else 0]) | _ \<Rightarrow> None)"
| "asn_bytes (TOctetString tags) = (\<lambda>v tm tag. case v of
       VOctets b \<Rightarrow> Some (tlv (eff_tag tags tm tag) False b) | _ \<Rightarrow> None)"
| "asn_bytes (TSequence tags ms sp) = (\<lambda>v tm tag. case v of
       VSeq vs \<Rightarrow> map_option (tlv (eff_tag tags tm tag) True)
                    (members_bytes (map (map_asn_member asn_bytes) ms) vs) | _ \<Rightarrow> None)"
| "asn_bytes (TChoice tags ms sp) = (\<lambda>v tm tag. case v of
       VChoice (Some (n, x)) \<Rightarrow>
         if length ms \<le> n then None
         else map_option (if tm = 1 then tlv tag True else id)
           (mb_type (map (map_asn_member asn_bytes) ms ! n) x (mb_tag_mode (ms ! n)) (mb_tag (ms ! n)))
     | _ \<Rightarrow> None)"

text \<open>The values of a descriptor, and what is left of a value on the wire: a BOOLEAN is 0 or 255.\<close>

primrec asn_fits :: "asn_type \<Rightarrow> asn_val \<Rightarrow> bool" where
  "asn_fits (TNativeInteger tags) = (\<lambda>v. case v of VLong i \<Rightarrow> - (2 ^ 63) \<le> i \<and> i < 2 ^ 63 | _ \<Rightarrow> False)"
| "asn_fits (TBoolean tags) = (\<lambda>v. case v of VBool i \<Rightarrow> True | _ \<Rightarrow> False)"
| "asn_fits (TOctetString tags) = (\<lambda>v. case v of VOctets b \<Rightarrow> True | _ \<Rightarrow> False)"
| "asn_fits (TSequence tags ms sp) = (\<lambda>v. case v of
       VSeq vs \<Rightarrow> list_all2 (\<lambda>m x. case x of None \<Rightarrow> mb_pointer m \<and> mb_optional m \<noteq> 0 | Some y \<Rightarrow> mb_type m y)
                    (map (map_asn_member asn_fits) ms) vs | _ \<Rightarrow> False)"
| "asn_fits (TChoice tags ms sp) = (\<lambda>v. case v of
       VChoice (Some (n, x)) \<Rightarrow> n < length ms \<and> mb_type (map (map_asn_member asn_fits) ms ! n) x | _ \<Rightarrow> False)"

primrec asn_norm :: "asn_val \<Rightarrow> asn_val" where
  "asn_norm (VLong i) = VLong i"
| "asn_norm (VBool i) = VBool (if i \<noteq> 0 then 255 else 0)"
| "asn_norm (VOctets b) = VOctets b"
| "asn_norm (VSeq vs) = VSeq (map (map_option asn_norm) vs)"
| "asn_norm (VChoice c) = VChoice (map_option (map_prod id asn_norm) c)"

section \<open>Well-formed descriptors\<close>

text \<open>The tags an encoding can start with.\<close>

primrec first_tags :: "asn_type \<Rightarrow> int \<Rightarrow> nat \<Rightarrow> nat list" where
  "first_tags (TNativeInteger tags) = (\<lambda>tm tag. [eff_tag tags tm tag])"
| "first_tags (TBoolean tags) = (\<lambda>tm tag. [eff_tag tags tm tag])"
| "first_tags (TOctetString tags) = (\<lambda>tm tag. [eff_tag tags tm tag])"
| "first_tags (TSequence tags ms sp) = (\<lambda>tm tag. [eff_tag tags tm tag])"
| "first_tags (TChoice tags ms sp) = (\<lambda>tm tag.
     if tm \<noteq> 0 then [tag]
     else concat (map (\<lambda>m. mb_type m (mb_tag_mode m) (mb_tag m)) (map (map_asn_member first_tags) ms)))"

fun mode_ok :: "asn_type \<Rightarrow> int \<Rightarrow> bool" where
  "mode_ok (TChoice tags ms sp) tm = (tags = [] \<and> (tm = 0 \<or> tm = 1))"
| "mode_ok (TNativeInteger tags) tm = one_tag tags tm"
| "mode_ok (TBoolean tags) tm = one_tag tags tm"
| "mode_ok (TOctetString tags) tm = one_tag tags tm"
| "mode_ok (TSequence tags ms sp) tm = one_tag tags tm"

definition member_ok :: "asn_type asn_member \<Rightarrow> bool" where
  "member_ok m \<longleftrightarrow> mb_tag m < 2 ^ 32 \<and> mode_ok (mb_type m) (mb_tag_mode m) \<and> \<not> mb_open m \<and>
     mb_pointer m = (mb_optional m \<noteq> 0)"

definition opt_runs_ok :: "'a asn_member list \<Rightarrow> bool" where
  "opt_runs_ok ms \<longleftrightarrow>
     list_all (\<lambda>i. i + mb_optional (ms ! i) \<le> length ms \<and>
        (i + mb_optional (ms ! i) < length ms \<longrightarrow> mb_optional (ms ! (i + mb_optional (ms ! i))) = 0))
       [0..<length ms]"

definition member_first_tags :: "asn_type asn_member \<Rightarrow> nat list" where
  "member_first_tags m = first_tags (mb_type m) (mb_tag_mode m) (mb_tag m)"

definition search_ok :: "asn_type asn_member list \<Rightarrow> asn_SEQUENCE_specifics \<Rightarrow> bool" where
  "search_ok ms sp \<longleftrightarrow>
     list_all (\<lambda>edx.
       list_all (\<lambda>n. list_all (\<lambda>t. find_member ms sp edx t = Some n) (member_first_tags (ms ! n)))
         [edx..<min (length ms) (edx + mb_optional (ms ! edx) + 1)])
       [0..<length ms]"

definition choice_search_ok :: "asn_type asn_member list \<Rightarrow> asn_CHOICE_specifics \<Rightarrow> bool" where
  "choice_search_ok ms sp \<longleftrightarrow>
     list_all (\<lambda>n. list_all (\<lambda>t.
        (case bsearch (search4tag t) (ch_tag2el sp) 0 (length (ch_tag2el sp)) of
           None \<Rightarrow> False | Some i \<Rightarrow> el_no (ch_tag2el sp ! i) = n)) (member_first_tags (ms ! n)))
       [0..<length ms]"

primrec asn_wf :: "asn_type \<Rightarrow> bool" where
  "asn_wf (TNativeInteger tags) = tags_ok tags"
| "asn_wf (TBoolean tags) = tags_ok tags"
| "asn_wf (TOctetString tags) = tags_ok tags"
| "asn_wf (TSequence tags ms sp) =
     (tags_ok tags \<and> list_all member_ok ms \<and> opt_runs_ok ms \<and> search_ok ms sp \<and>
      list_all mb_type (map (map_asn_member asn_wf) ms))"
| "asn_wf (TChoice tags ms sp) =
     (list_all member_ok ms \<and> choice_search_ok ms sp \<and> list_all mb_type (map (map_asn_member asn_wf) ms))"

text \<open>The nested calls a decoder makes.\<close>

primrec asn_depth :: "asn_type \<Rightarrow> nat" where
  "asn_depth (TNativeInteger tags) = 2"
| "asn_depth (TBoolean tags) = 2"
| "asn_depth (TOctetString tags) = 2"
| "asn_depth (TSequence tags ms sp) = Suc (foldr max (map mb_type (map (map_asn_member asn_depth) ms)) 1)"
| "asn_depth (TChoice tags ms sp) = Suc (foldr max (map mb_type (map (map_asn_member asn_depth) ms)) 1)"

lemma foldr_max_ge: "x \<in> set xs \<Longrightarrow> x \<le> foldr max xs (n :: nat)"
  by (induction xs) auto

lemma foldr_max_init: "n \<le> foldr max xs (n :: nat)"
  by (induction xs) auto

lemma member_map [simp]:
  "mb_tag (map_asn_member f m) = mb_tag m" "mb_tag_mode (map_asn_member f m) = mb_tag_mode m"
  "mb_optional (map_asn_member f m) = mb_optional m" "mb_flags (map_asn_member f m) = mb_flags m"
  "mb_pointer (map_asn_member f m) = mb_pointer m" "mb_open (map_asn_member f m) = mb_open m"
  by (cases m, simp add: mb_pointer_def mb_open_def)+

lemma linear_search_map: "linear_search t (map (map_asn_member f) ms) n = linear_search t ms n"
  by (induction t ms n rule: linear_search.induct) auto

lemma find_member_map:
  "edx < length ms \<Longrightarrow> find_member (map (map_asn_member f) ms) sp edx t = find_member ms sp edx t"
  by (simp only: find_member_def Let_def drop_map take_map linear_search_map length_map nth_map member_map)

lemma opt_runs_okD:
  "opt_runs_ok ms \<Longrightarrow> i < length ms \<Longrightarrow> i + mb_optional (ms ! i) \<le> length ms"
  by (auto simp: opt_runs_ok_def list_all_iff)

section \<open>The members of a SEQUENCE\<close>

text \<open>The parts of an encoding: for every member nothing, or its octets and the value they decode
  to.\<close>

type_synonym seq_parts = "(bytes \<times> asn_val) option list"

definition parts_bytes :: "seq_parts \<Rightarrow> bytes" where
  "parts_bytes ps = concat (map (\<lambda>p. case p of None \<Rightarrow> [] | Some (b, _) \<Rightarrow> b) ps)"

text \<open>A part is readable when the decoder of its member takes it off the buffer, and the search
  for its tag finds the member from every position it can be reached from.\<close>

definition part_ok :: "nat \<Rightarrow> decoder asn_member list \<Rightarrow> asn_SEQUENCE_specifics \<Rightarrow> nat \<Rightarrow> bytes \<times> asn_val \<Rightarrow> bool" where
  "part_ok stk ms sp n p \<longleftrightarrow> (case p of (b, v) \<Rightarrow>
     (\<forall>r. mb_type (ms ! n) (stk - 1) (b @ r) (mb_tag_mode (ms ! n)) = Some (RC_OK (length b) v) \<and>
        (\<exists>t k. ber_fetch_tag (b @ r) = FGot t k \<and>
           (\<forall>edx \<le> n. n \<le> edx + mb_optional (ms ! edx) \<longrightarrow> find_member ms sp edx t = Some n))))"

lemma part_okD:
  assumes "part_ok stk ms sp n (b, v)" "edx \<le> n" "n \<le> edx + mb_optional (ms ! edx)"
  shows "mb_type (ms ! n) (stk - 1) (b @ r) (mb_tag_mode (ms ! n)) = Some (RC_OK (length b) v)"
    and "\<exists>t k. ber_fetch_tag (b @ r) = FGot t k \<and> find_member ms sp edx t = Some n"
  using assms unfolding part_ok_def by blast+

lemma parts_bytes_Nil [simp]: "parts_bytes [] = []"
  by (simp add: parts_bytes_def)

lemma parts_bytes_None [simp]: "parts_bytes (None # ps) = parts_bytes ps"
  by (simp add: parts_bytes_def)

lemma parts_bytes_Some [simp]: "parts_bytes (Some (b, v) # ps) = b @ parts_bytes ps"
  by (simp add: parts_bytes_def)

text \<open>The next part that is there, if any.\<close>

lemma next_part:
  assumes "edx \<le> length ps"
  shows "(\<forall>j. edx \<le> j \<longrightarrow> j < length ps \<longrightarrow> ps ! j = None) \<and> parts_bytes (drop edx ps) = [] \<or>
    (\<exists>n b v. edx \<le> n \<and> n < length ps \<and> ps ! n = Some (b, v) \<and> (\<forall>j. edx \<le> j \<longrightarrow> j < n \<longrightarrow> ps ! j = None) \<and>
       parts_bytes (drop edx ps) = b @ parts_bytes (drop (n + 1) ps))"
  using assms
proof (induction "length ps - edx" arbitrary: edx)
  case (Suc k)
  then have e: "edx < length ps" by simp
  have d: "drop edx ps = ps ! edx # drop (edx + 1) ps" using e by (simp add: Cons_nth_drop_Suc)
  show ?case
  proof (cases "ps ! edx")
    case None
    have j: "ps ! j = None" if "\<And>i. edx + 1 \<le> i \<Longrightarrow> i < m \<Longrightarrow> ps ! i = None" "edx \<le> j" "j < m" for j m
      using that None by (cases "j = edx") auto
    consider "\<forall>j. edx + 1 \<le> j \<longrightarrow> j < length ps \<longrightarrow> ps ! j = None" "parts_bytes (drop (edx + 1) ps) = []"
      | n b v where "edx + 1 \<le> n" "n < length ps" "ps ! n = Some (b, v)"
          "\<forall>j. edx + 1 \<le> j \<longrightarrow> j < n \<longrightarrow> ps ! j = None"
          "parts_bytes (drop (edx + 1) ps) = b @ parts_bytes (drop (n + 1) ps)"
      using Suc.hyps(1) [of "edx + 1"] Suc.hyps(2) e by force
    then show ?thesis
    proof cases
      case 1
      then show ?thesis using j d None by auto
    next
      case 2
      then show ?thesis using j [of n] d None
        by (intro disjI2 exI [of _ n] exI [of _ b] exI [of _ v]) auto
    qed
  next
    case (Some p)
    then show ?thesis using e d by (cases p) force
  qed
qed simp

text \<open>From member \<open>edx\<close> on, with exactly the octets of the parts left in the frame.\<close>

lemma seq_phase1_reads:
  assumes ok: "\<And>n p. n < length ps \<Longrightarrow> ps ! n = Some p \<Longrightarrow> part_ok stk ms sp n p"
    and opt: "\<And>n. n < length ps \<Longrightarrow> ps ! n = None \<Longrightarrow> mb_optional (ms ! n) \<noteq> 0"
    and runs: "opt_runs_ok ms" and len: "length ms = length ps"
  shows "edx \<le> length ps \<Longrightarrow> length acc = length ps \<Longrightarrow>
    (\<And>n. n < edx \<Longrightarrow> acc ! n = map_option snd (ps ! n)) \<Longrightarrow>
    (\<And>n. n < length ps \<Longrightarrow> ps ! n = None \<Longrightarrow> acc ! n = None) \<Longrightarrow>
    seq_phase1 stk ms sp (edx, parts_bytes (drop edx ps) @ rest, int (length (parts_bytes (drop edx ps))), csm, acc)
      = Some (RC_OK (csm + length (parts_bytes (drop edx ps))) (VSeq (map (map_option snd) ps)))"
proof (induction "length ps - edx" arbitrary: edx csm acc rule: less_induct)
  case less
  have run: "n \<le> edx + mb_optional (ms ! edx)"
    if "edx < length ps" "edx \<le> n" "n \<le> length ps" "\<forall>j. edx \<le> j \<longrightarrow> j < n \<longrightarrow> ps ! j = None" for n
  proof (rule ccontr)
    assume "\<not> n \<le> edx + mb_optional (ms ! edx)"
    then have "mb_optional (ms ! (edx + mb_optional (ms ! edx))) = 0"
      using runs that len by (auto simp: opt_runs_ok_def list_all_iff)
    then show False using opt [of "edx + mb_optional (ms ! edx)"] that \<open>\<not> n \<le> _\<close> by auto
  qed
  from next_part [OF less.prems(1)] consider
      (absent) "\<forall>j. edx \<le> j \<longrightarrow> j < length ps \<longrightarrow> ps ! j = None" "parts_bytes (drop edx ps) = []"
    | (there) n b v where "edx \<le> n" "n < length ps" "ps ! n = Some (b, v)"
        "\<forall>j. edx \<le> j \<longrightarrow> j < n \<longrightarrow> ps ! j = None"
        "parts_bytes (drop edx ps) = b @ parts_bytes (drop (n + 1) ps)"
    by blast
  then show ?case
  proof cases
    case absent
    have acc: "acc = map (map_option snd) ps"
    proof (rule nth_equalityI)
      show "acc ! i = map (map_option snd) ps ! i" if "i < length acc" for i
        using that less.prems(2-4) absent by (cases "i < edx") auto
    qed (use less.prems in simp)
    show ?thesis
    proof (cases "edx < length ps")
      case True
      have "edx + mb_optional (ms ! edx) = length ms"
        using run [OF True, of "length ps"] absent True opt_runs_okD [OF runs, of edx] len by auto
      then show ?thesis using True absent acc len
        by (subst seq_phase1.simps) (simp add: seq_round_def seq_end_ok_def)
    next
      case False
      then show ?thesis using absent acc len
        by (subst seq_phase1.simps) (simp add: seq_round_def seq_tail.simps)
    qed
  next
    case there
    define r where "r = parts_bytes (drop (n + 1) ps)"
    define L where "L = int (length (b @ r))"
    have e: "edx < length ps" "edx < length ms" using there len by auto
    have "n \<le> edx + mb_optional (ms ! edx)"
      using run [OF e(1) there(1) _ there(4)] there(2) by simp
    note P = part_okD [OF ok [OF there(2,3)] there(1) this]
    obtain t k where t: "ber_fetch_tag (b @ r) = FGot t k" "find_member ms sp edx t = Some n"
      using P(2) by blast
    note d = P(1) [of r]
    have l: "LEFT L (b @ r @ rest) = b @ r" by (simp add: LEFT_def L_def)
    have "b @ r \<noteq> []" using t(1) by (metis ber_fetch_tag.simps(1) fetch.distinct(5))
    then have L: "L \<noteq> 0" "\<not> L < 0" unfolding L_def by (simp_all del: length_append append_is_Nil_conv)
    have "seq_round stk ms sp (edx, b @ r @ rest, L, csm, acc) =
        SeqNext (n + 1, r @ rest, int (length r), csm + length b, acc[n := Some v])"
      using e L by (simp add: seq_round_def l t seq_microphase2_def d advance_left_def del: One_nat_def) (simp add: L_def)
    moreover have "seq_phase1 stk ms sp (n + 1, r @ rest, int (length r), csm + length b, acc[n := Some v]) =
        Some (RC_OK (csm + length b + length r) (VSeq (map (map_option snd) ps)))"
      unfolding r_def
    proof (rule less.hyps)
      show "(acc[n := Some v]) ! i = map_option snd (ps ! i)" if "i < n + 1" for i
        using that less.prems(2-4) there by (cases "i = n"; cases "i < edx") auto
    qed (use there less.prems in \<open>auto simp: nth_list_update\<close>)
    ultimately show ?thesis
      unfolding there(5) by (simp add: seq_phase1.simps [of stk ms sp "(edx, _)"] r_def L_def add.assoc)
  qed
qed

section \<open>The encoders produce the encoding\<close>

lemma members_bytes_length:
  "members_bytes ms vs = Some bs \<Longrightarrow> n < length ms \<Longrightarrow> vs ! n = Some v \<Longrightarrow>
     \<exists>b. mb_type (ms ! n) v (mb_tag_mode (ms ! n)) (mb_tag (ms ! n)) = Some b \<and> length b \<le> length bs"
proof (induction ms vs arbitrary: n bs rule: members_bytes.induct)
  case (2 m ms vs)
  then show ?case by (cases n) (auto split: if_splits)
next
  case (3 m ms v' vs)
  then show ?case by (cases n) (fastforce split: bind_splits)+
qed auto

lemma seq_encodes:
  assumes "members_bytes bms vs = Some bs"
    and "list_all2 (\<lambda>bm em. mb_tag_mode em = mb_tag_mode bm \<and> mb_tag em = mb_tag bm \<and>
        mb_pointer em = mb_pointer bm \<and> mb_optional em = mb_optional bm) bms ems"
    and "\<And>n v b. n < length bms \<Longrightarrow> vs ! n = Some v \<Longrightarrow>
        mb_type (bms ! n) v (mb_tag_mode (bms ! n)) (mb_tag (bms ! n)) = Some b \<Longrightarrow>
        encodes (mb_type (ems ! n) v (mb_tag_mode (bms ! n)) (mb_tag (bms ! n))) b"
  shows "seq_estimate ems vs k = Some (k + length bs) \<and>
    seq_emit ems vs i (Some (left, out)) =
      (if length bs \<le> left then Some (i - int (length bs), Some (left - length bs, out @ bs)) else None)"
  using assms
proof (induction bms vs arbitrary: bs ems k i left out rule: members_bytes.induct)
  case (2 m ms vs)
  then obtain e es where e: "ems = e # es" by (cases ems) auto
  have "encodes (mb_type (es ! n) v (mb_tag_mode (ms ! n)) (mb_tag (ms ! n))) b"
    if "n < length ms" "vs ! n = Some v" "mb_type (ms ! n) v (mb_tag_mode (ms ! n)) (mb_tag (ms ! n)) = Some b" for n v b
    using "2.prems"(3) [of "Suc n" v b] that e by simp
  then show ?case using "2.IH" [of bs es k i left out] "2.prems" e by (auto split: if_splits)
next
  case (3 m ms v vs)
  then obtain e es where e: "ems = e # es" by (cases ems) auto
  from "3.prems"(1) obtain b bs' where b: "mb_type m v (mb_tag_mode m) (mb_tag m) = Some b"
      "members_bytes ms vs = Some bs'" "bs = b @ bs'" by (auto split: bind_splits)
  have m: "mb_tag_mode e = mb_tag_mode m" "mb_tag e = mb_tag m" using "3.prems"(2) e by auto
  note E = encodesD [OF "3.prems"(3) [of 0 v b], simplified, OF b(1), unfolded e, simplified]
  have r: "encodes (mb_type (es ! n) v' (mb_tag_mode (ms ! n)) (mb_tag (ms ! n))) b'"
    if "n < length ms" "vs ! n = Some v'" "mb_type (ms ! n) v' (mb_tag_mode (ms ! n)) (mb_tag (ms ! n)) = Some b'" for n v' b'
    using "3.prems"(3) [of "Suc n" v' b'] that e by simp
  have I: "seq_estimate es vs k' = Some (k' + length bs') \<and>
      seq_emit es vs i' (Some (left', out')) =
      (if length bs' \<le> left' then Some (i' - int (length bs'), Some (left' - length bs', out' @ bs')) else None)"
    for k' i' left' out'
    by (rule "3.IH" [OF b(1,2)]) (use "3.prems"(2) e r in auto)
  show ?case using E I b e m by (auto simp: add.assoc)
qed auto

lemma mb_type_in_set: "mb_type m \<in> set_asn_member m"
  by (cases m) simp

lemma der_encoder_encodes:
  "asn_wf t \<Longrightarrow> mode_ok t tm \<Longrightarrow> tag < 2 ^ 32 \<Longrightarrow> asn_fits t v \<Longrightarrow> asn_bytes t v tm tag = Some bs \<Longrightarrow>
   length bs < 2 ^ 30 \<Longrightarrow> encodes (der_encoder t v tm tag) bs"
proof (induction t arbitrary: v tm tag bs)
  case (TNativeInteger tags)
  then show ?case
    using NativeInteger_codec(1) [of tags tm tag 2] by (auto simp: tlv_def split: asn_val.splits)
next
  case (TBoolean tags)
  then show ?case using BOOLEAN_codec(1) [of tags tm tag 2] by (auto simp: tlv_def split: asn_val.splits)
next
  case (TOctetString tags)
  then show ?case
    using OCTET_STRING_codec(1) [of tags tm tag 2] by (auto simp: tlv_def split: asn_val.splits)
next
  case (TSequence tags ms sp)
  obtain vs b where v: "v = VSeq vs" "members_bytes (map (map_asn_member asn_bytes) ms) vs = Some b"
      "bs = tlv (eff_tag tags tm tag) True b"
    using TSequence.prems by (auto split: asn_val.splits)
  have len: "length b < 2 ^ 30" using TSequence.prems v by (simp add: tlv_def)
  have m: "encodes (mb_type (map (map_asn_member der_encoder) ms ! n) x (mb_tag_mode (map (map_asn_member asn_bytes) ms ! n))
        (mb_tag (map (map_asn_member asn_bytes) ms ! n))) c"
    if n: "n < length (map (map_asn_member asn_bytes) ms)" "vs ! n = Some x"
      "mb_type (map (map_asn_member asn_bytes) ms ! n) x (mb_tag_mode (map (map_asn_member asn_bytes) ms ! n))
        (mb_tag (map (map_asn_member asn_bytes) ms ! n)) = Some c" for n x c
  proof -
    have "length c \<le> length b" using members_bytes_length [OF v(2) n(1,2)] n(3) by auto
    moreover have "member_ok (ms ! n)" "asn_wf (mb_type (ms ! n))" "asn_fits (mb_type (ms ! n)) x"
      using TSequence.prems n v(1) by (auto simp: list_all_length list_all2_conv_all_nth)
    ultimately show ?thesis
      using TSequence.IH [OF _ mb_type_in_set, of "ms ! n"] n len by (auto simp: member_ok_def)
  qed
  have se: "seq_estimate (map (map_asn_member der_encoder) ms) vs k = Some (k + length b) \<and>
      seq_emit (map (map_asn_member der_encoder) ms) vs i (Some (left, out)) =
      (if length b \<le> left then Some (i - int (length b), Some (left - length b, out @ b)) else None)" for k i left out
    by (rule seq_encodes [OF v(2)]) (use m in \<open>auto simp: list_all2_conv_all_nth\<close>)
  have w: "encodes (der_write_tags tags (length b) tm True tag) (TL_bytes (eff_tag tags tm tag) (length b) True)"
    using TSequence.prems len by (intro one_tag_write) auto
  show ?case
    using encodesD [OF w] se
    by (auto simp: encodes_def SEQUENCE_encode_der_def v tlv_def)
next
  case (TChoice tags ms sp)
  obtain n x b where v: "v = VChoice (Some (n, x))" "n < length ms"
      "asn_bytes (mb_type (ms ! n)) x (mb_tag_mode (ms ! n)) (mb_tag (ms ! n)) = Some b"
      "bs = (if tm = 1 then tlv tag True b else b)"
    using TChoice.prems by (auto split: asn_val.splits option.splits if_splits)
  have len: "length b < 2 ^ 30" using TChoice.prems v by (auto simp: tlv_def split: if_splits)
  have "member_ok (ms ! n)" "asn_wf (mb_type (ms ! n))" "asn_fits (mb_type (ms ! n)) x"
    using TChoice.prems v by (auto simp: list_all_length)
  then have e: "encodes (der_encoder (mb_type (ms ! n)) x (mb_tag_mode (ms ! n)) (mb_tag (ms ! n))) b"
    using TChoice.IH [OF nth_mem [OF v(2)] mb_type_in_set] v(3) len by (simp add: member_ok_def)
  have w: "encodes (der_write_tags [] (length b) 1 True tag) (TL_bytes tag (length b) True)"
    using der_write_tags_encodes [of "[]" tag "length b" 1 True] TChoice.prems len
    by (simp add: tags_ok_def all_write_tags_def)
  have t: "tags = []" "tm = 0 \<or> tm = 1" using TChoice.prems by auto
  show ?case
    using encodesD [OF e] encodesD [OF w] t v
    by (auto simp: encodes_def CHOICE_encode_der_def tlv_def)
qed

section \<open>The decoders read it back\<close>

definition seq_parts :: "asn_type asn_member list \<Rightarrow> asn_val option list \<Rightarrow> seq_parts" where
  "seq_parts ms vs = map2 (\<lambda>m x. map_option (\<lambda>y.
     (the (asn_bytes (mb_type m) y (mb_tag_mode m) (mb_tag m)), asn_norm y)) x) ms vs"

lemma seq_parts_bytes:
  "members_bytes (map (map_asn_member asn_bytes) ms) vs = Some b \<Longrightarrow>
     parts_bytes (seq_parts ms vs) = b \<and> length vs = length ms"
proof (induction ms arbitrary: vs b)
  case Nil
  then show ?case by (cases vs) (auto simp: seq_parts_def)
next
  case (Cons m ms)
  then obtain x xs where vs: "vs = x # xs" by (cases vs) auto
  show ?case
    using Cons.prems Cons.IH [of xs] unfolding vs
    by (cases x) (auto simp: seq_parts_def split: if_splits bind_splits)
qed

lemma tlv_fetch:
  assumes "tag < 2 ^ 32" "length (tlv tag c b) < 2 ^ 30"
  shows "\<exists>k. ber_fetch_tag (tlv tag c b @ rest) = FGot tag k"
  using TL_bytes_fetch [OF assms(1), of "length b" c "b @ rest" c] assms(2) by (auto simp: tlv_def)

lemma eff_tag_less: "one_tag tags tm \<Longrightarrow> tags_ok tags \<Longrightarrow> tag < 2 ^ 32 \<Longrightarrow> eff_tag tags tm tag < 2 ^ 32"
  by (cases tags) (auto simp: eff_tag_def one_tag_def tags_ok_def)

text \<open>The encoding starts with one of the first tags of the descriptor.\<close>

lemma asn_bytes_first_tag:
  "asn_wf t \<Longrightarrow> mode_ok t tm \<Longrightarrow> tag < 2 ^ 32 \<Longrightarrow> asn_bytes t v tm tag = Some bs \<Longrightarrow> length bs < 2 ^ 30 \<Longrightarrow>
     \<exists>ft k. ft \<in> set (first_tags t tm tag) \<and> ber_fetch_tag (bs @ rest) = FGot ft k"
proof (induction t arbitrary: v tm tag bs)
  case (TChoice tags ms sp)
  obtain n x b where v: "v = VChoice (Some (n, x))" "n < length ms"
      "asn_bytes (mb_type (ms ! n)) x (mb_tag_mode (ms ! n)) (mb_tag (ms ! n)) = Some b"
      "bs = (if tm = 1 then tlv tag True b else b)"
    using TChoice.prems by (auto split: asn_val.splits option.splits if_splits)
  show ?case
  proof (cases "tm = 1")
    case True
    then show ?thesis using tlv_fetch [OF TChoice.prems(3), of True b rest] TChoice.prems(5) v(4) by auto
  next
    case False
    have m: "member_ok (ms ! n)" "asn_wf (mb_type (ms ! n))"
      using TChoice.prems v by (auto simp: list_all_length)
    then obtain ft k where f: "ft \<in> set (first_tags (mb_type (ms ! n)) (mb_tag_mode (ms ! n)) (mb_tag (ms ! n)))"
        "ber_fetch_tag (b @ rest) = FGot ft k"
      using TChoice.IH [OF nth_mem [OF v(2)] mb_type_in_set m(2) _ _ v(3)] TChoice.prems(5) v(4) False
      by (auto simp: member_ok_def)
    moreover have "tm = 0" using TChoice.prems(2) False by simp
    ultimately show ?thesis using v False nth_mem [OF v(2)] by auto
  qed
qed (auto dest!: eff_tag_less split: asn_val.splits intro!: tlv_fetch)

lemma seq_part_ok:
  assumes wf: "asn_wf (TSequence tags ms sp)" and n: "n < length ms"
    and b: "asn_bytes (mb_type (ms ! n)) y (mb_tag_mode (ms ! n)) (mb_tag (ms ! n)) = Some c" "length c < 2 ^ 30"
    and d: "\<And>rest. ber_decoder (mb_type (ms ! n)) (stk - 1) (c @ rest) (mb_tag_mode (ms ! n)) =
       Some (RC_OK (length c) w)"
  shows "part_ok stk (map (map_asn_member ber_decoder) ms) sp n (c, w)"
proof -
  have m: "member_ok (ms ! n)" "asn_wf (mb_type (ms ! n))" using wf n by (auto simp: list_all_length)
  have f: "find_member ms sp edx t = Some n"
    if "edx \<le> n" "n \<le> edx + mb_optional (ms ! edx)" "t \<in> set (member_first_tags (ms ! n))" for edx t
  proof -
    have "edx \<in> set [0..<length ms]" "n \<in> set [edx..<min (length ms) (edx + mb_optional (ms ! edx) + 1)]"
      using that n by auto
    then show ?thesis using wf that(3) unfolding asn_wf.simps search_ok_def list_all_iff by blast
  qed
  have "\<exists>t k. ber_fetch_tag (c @ r) = FGot t k \<and> (\<forall>edx \<le> n. n \<le> edx + mb_optional (ms ! edx) \<longrightarrow>
      find_member (map (map_asn_member ber_decoder) ms) sp edx t = Some n)" for r
    using asn_bytes_first_tag [OF m(2) _ _ b, of r] m(1) f n
    by (fastforce simp: member_ok_def member_first_tags_def find_member_map)
  then show ?thesis using d n by (simp add: part_ok_def)
qed

lemma SEQUENCE_reads_parts:
  assumes wf: "asn_wf (TSequence tags ms sp)" and mode: "one_tag tags tm" and tag: "tag < 2 ^ 32" and stk: "2 \<le> stk"
    and ps: "length ps = length ms" "length (parts_bytes ps) < 2 ^ 30"
    and ok: "\<And>n q. n < length ms \<Longrightarrow> ps ! n = Some q \<Longrightarrow> part_ok stk (map (map_asn_member ber_decoder) ms) sp n q"
    and opt: "\<And>n. n < length ms \<Longrightarrow> ps ! n = None \<Longrightarrow> mb_optional (ms ! n) \<noteq> 0 \<and> mb_pointer (ms ! n)"
  shows "ber_decoder (TSequence tags ms sp) stk (tlv (eff_tag tags tm tag) True (parts_bytes ps) @ rest) tm =
    Some (RC_OK (length (tlv (eff_tag tags tm tag) True (parts_bytes ps))) (VSeq (map (map_option snd) ps)))"
proof -
  let ?ms = "map (map_asn_member ber_decoder) ms" and ?b = "parts_bytes ps"
  let ?acc = "map (\<lambda>m. member_zero (map_asn_member asn_zero m)) ms"
  have "seq_phase1 stk ?ms sp (0, parts_bytes (drop 0 ps) @ rest, int (length (parts_bytes (drop 0 ps))),
      length (TL_bytes (eff_tag tags tm tag) (length ?b) True), ?acc) =
    Some (RC_OK (length (TL_bytes (eff_tag tags tm tag) (length ?b) True) + length (parts_bytes (drop 0 ps)))
      (VSeq (map (map_option snd) ps)))"
    using ok opt wf ps by (intro seq_phase1_reads) (auto simp: opt_runs_ok_def list_all_iff member_zero_def)
  moreover have "ber_check_tags (stk - 1) tags True (TL_bytes (eff_tag tags tm tag) (length ?b) True @ ?b @ rest) tm 1 =
      Some (RC_OK (length (TL_bytes (eff_tag tags tm tag) (length ?b) True)) (int (length ?b), True))"
    using wf mode tag ps stk by (intro one_tag_check) auto
  ultimately show ?thesis by (simp add: SEQUENCE_decode_ber_def tlv_def)
qed

lemma SEQUENCE_reads:
  assumes wf: "asn_wf (TSequence tags ms sp)" and mode: "one_tag tags tm" and tag: "tag < 2 ^ 32"
    and fits: "asn_fits (TSequence tags ms sp) (VSeq vs)"
    and b: "members_bytes (map (map_asn_member asn_bytes) ms) vs = Some b" and len: "length b < 2 ^ 30"
    and stk: "2 \<le> stk"
    and d: "\<And>n y c rest. n < length ms \<Longrightarrow> vs ! n = Some y \<Longrightarrow>
       asn_bytes (mb_type (ms ! n)) y (mb_tag_mode (ms ! n)) (mb_tag (ms ! n)) = Some c \<Longrightarrow> length c < 2 ^ 30 \<Longrightarrow>
       ber_decoder (mb_type (ms ! n)) (stk - 1) (c @ rest) (mb_tag_mode (ms ! n)) = Some (RC_OK (length c) (asn_norm y))"
  shows "ber_decoder (TSequence tags ms sp) stk (tlv (eff_tag tags tm tag) True b @ rest) tm =
    Some (RC_OK (length (tlv (eff_tag tags tm tag) True b)) (asn_norm (VSeq vs)))"
proof -
  let ?ms = "map (map_asn_member ber_decoder) ms" and ?ps = "seq_parts ms vs"
  have p: "parts_bytes ?ps = b" "length vs = length ms" "length ?ps = length ms"
    using seq_parts_bytes [OF b] by (auto simp: seq_parts_def)
  have nth: "?ps ! n = map_option (\<lambda>y. (the (asn_bytes (mb_type (ms ! n)) y (mb_tag_mode (ms ! n)) (mb_tag (ms ! n))),
      asn_norm y)) (vs ! n)" if "n < length ms" for n
    using that p(2) by (simp add: seq_parts_def)
  have opt: "mb_optional (ms ! n) \<noteq> 0 \<and> mb_pointer (ms ! n)" if n: "n < length ms" "?ps ! n = None" for n
  proof -
    have "vs ! n = None" using nth [OF n(1)] n(2) by simp
    then show ?thesis using fits n(1) by (auto simp: list_all2_conv_all_nth)
  qed
  have ok: "part_ok stk ?ms sp n q" if n: "n < length ms" and q: "?ps ! n = Some q" for n q
  proof -
    obtain y where y: "vs ! n = Some y" using nth [OF n] q by (cases "vs ! n") auto
    obtain c where c: "asn_bytes (mb_type (ms ! n)) y (mb_tag_mode (ms ! n)) (mb_tag (ms ! n)) = Some c" "length c \<le> length b"
      using members_bytes_length [OF b _ y] n by auto
    then show ?thesis using seq_part_ok [OF wf n c(1) _ d [OF n y c(1)]] nth [OF n] q y len by auto
  qed
  have "map (map_option snd) ?ps = map (map_option asn_norm) vs"
    using p nth by (intro nth_equalityI) (auto simp: option.map_comp comp_def)
  moreover have "ber_decoder (TSequence tags ms sp) stk (tlv (eff_tag tags tm tag) True (parts_bytes ?ps) @ rest) tm =
      Some (RC_OK (length (tlv (eff_tag tags tm tag) True (parts_bytes ?ps))) (VSeq (map (map_option snd) ?ps)))"
    by (rule SEQUENCE_reads_parts [OF wf mode tag stk p(3)]) (use p(1) len ok opt in blast)+
  ultimately show ?thesis unfolding p(1) by simp
qed

lemma choice_phase1_reads:
  assumes wf: "asn_wf (TChoice [] ms sp)" and n: "n < length ms"
    and b: "asn_bytes (mb_type (ms ! n)) x (mb_tag_mode (ms ! n)) (mb_tag (ms ! n)) = Some b" "length b < 2 ^ 30"
    and d: "\<And>rest. ber_decoder (mb_type (ms ! n)) (stk - 1) (b @ rest) (mb_tag_mode (ms ! n)) =
       Some (RC_OK (length b) w)"
    and L: "LEFT left (b @ rest) = b @ r"
  shows "choice_phase1 stk (map (map_asn_member ber_decoder) ms) sp tagged (b @ rest) left csm =
      choice_phase3 tagged rest (advance_left (length b) left) (csm + length b) (VChoice (Some (n, w)))"
proof -
  have m: "member_ok (ms ! n)" "asn_wf (mb_type (ms ! n))" using wf n by (auto simp: list_all_length)
  obtain ft k where ft: "ft \<in> set (member_first_tags (ms ! n))" "ber_fetch_tag (b @ r) = FGot ft k"
    using asn_bytes_first_tag [OF m(2) _ _ b, of r] m(1) by (auto simp: member_ok_def member_first_tags_def)
  moreover have "n \<in> set [0..<length ms]" using n by simp
  ultimately obtain i where "bsearch (search4tag ft) (ch_tag2el sp) 0 (length (ch_tag2el sp)) = Some i"
      "el_no (ch_tag2el sp ! i) = n"
    using wf unfolding asn_wf.simps choice_search_ok_def list_all_iff by (fastforce split: option.splits)
  then show ?thesis using L ft d n by (simp add: choice_phase1_def Let_def)
qed

lemma CHOICE_reads:
  assumes wf: "asn_wf (TChoice [] ms sp)" and mode: "tm = 0 \<or> tm = 1" and tag: "tag < 2 ^ 32"
    and n: "n < length ms"
    and b: "asn_bytes (mb_type (ms ! n)) x (mb_tag_mode (ms ! n)) (mb_tag (ms ! n)) = Some b" "length b < 2 ^ 30"
    and stk: "2 \<le> stk"
    and d: "\<And>rest. ber_decoder (mb_type (ms ! n)) (stk - 1) (b @ rest) (mb_tag_mode (ms ! n)) =
       Some (RC_OK (length b) w)"
    and bs: "bs = (if tm = 1 then tlv tag True b else b)"
  shows "ber_decoder (TChoice [] ms sp) stk (bs @ rest) tm = Some (RC_OK (length bs) (VChoice (Some (n, w))))"
proof -
  note step = choice_phase1_reads [OF wf n b d]
  show ?thesis
  proof (cases "tm = 1")
    case True
    have "ber_check_tags (stk - 1) [] True (TL_bytes tag (length b) True @ b @ rest) 1 (-1) =
        Some (RC_OK (length (TL_bytes tag (length b) True)) (int (length b), True))"
      using tag b(2) stk by (intro check_tags_TL) auto
    moreover have "LEFT (int (length b)) (b @ rest) = b @ []" by (simp add: LEFT_def)
    note step [OF this]
    ultimately show ?thesis using True bs
      by (simp add: CHOICE_decode_ber_def tlv_def choice_phase3_def advance_left_def choice_eoc.simps)
  next
    case False
    then have tm: "tm = 0" using mode by simp
    have "LEFT (-1) (b @ rest) = b @ rest" by (simp add: LEFT_def)
    note step [OF this, of _ 0]
    then show ?thesis using tm bs by (simp add: CHOICE_decode_ber_def choice_phase3_def advance_left_def)
  qed
qed

text \<open>An alternative that the descriptor does not have, in a CHOICE that can be extended: it is
  skipped, and no alternative is selected.\<close>

lemma bsearch_none: "(\<And>i. i < length xs \<Longrightarrow> cmp (xs ! i) \<noteq> 0) \<Longrightarrow> u \<le> length xs \<Longrightarrow> bsearch cmp xs l u = None"
proof (induction cmp xs l u rule: bsearch.induct)
  case (1 cmp xs l u)
  show ?case
  proof (cases "l < u")
    case True
    then have "(l + u) div 2 < length xs" using 1(4) by linarith
    then have "cmp (xs ! ((l + u) div 2)) \<noteq> 0" by (rule 1(3))
    then show ?thesis using 1 True by (subst bsearch.simps) (auto simp: Let_def)
  qed (subst bsearch.simps, simp)
qed

lemma tag_cmp_eq: "tag_cmp a b = 0 \<longleftrightarrow> a = b"
proof -
  have "a = b" if "a div 4 = b div 4" "a mod 4 = b mod 4" using that by (metis div_mult_mod_eq)
  then show ?thesis by (auto simp: tag_cmp_def)
qed

lemma search4tag_none: "t \<notin> el_tag ` set t2m \<Longrightarrow> bsearch (search4tag t) t2m 0 (length t2m) = None"
  by (rule bsearch_none) (auto simp: search4tag_def tag_cmp_eq)

lemma CHOICE_skips:
  assumes sp: "ext_start sp \<noteq> -1" "u \<notin> el_tag ` set (ch_tag2el sp)" and tag: "tag < 2 ^ 32" "u < 2 ^ 32"
    and len: "length (tlv u c b) < 2 ^ 30" and stk: "2 \<le> stk" and bs: "bs = tlv tag True (tlv u c b)"
  shows "ber_decoder (TChoice [] ms sp) stk (bs @ rest) 1 = Some (RC_OK (length bs) (VChoice None))"
proof -
  let ?v = "tlv u c b"
  have "ber_check_tags (stk - 1) [] True (TL_bytes tag (length ?v) True @ ?v @ rest) 1 (-1) =
      Some (RC_OK (length (TL_bytes tag (length ?v) True)) (int (length ?v), True))"
    using tag len stk by (intro check_tags_TL) auto
  moreover have "LEFT (int (length ?v)) (?v @ rest) = ?v" by (simp add: LEFT_def)
  moreover obtain k l where k: "ber_fetch_tag ?v = FGot u k" "ber_fetch_length c (drop k ?v) = FGot (int (length b)) l"
      "length (TL_bytes u (length b) c) = k + l" "BER_TLV_CONSTRUCTED ?v = c"
    using TL_bytes_fetch [OF tag(2), of "length b" c b c] len by (auto simp: tlv_def)
  moreover have "BER_TLV_CONSTRUCTED (?v @ rest) = c"
    using k ber_fetch_tag_bounds [OF k(1)] by (cases ?v) (auto simp: BER_TLV_CONSTRUCTED_def)
  moreover have "ber_skip_length (stk - 1) c (drop k ?v) = FGot () (l + length b)"
    using k stk by (subst ber_skip_length.simps) (auto simp: tlv_def)
  ultimately show ?thesis
    using search4tag_none [OF sp(2)] sp(1) bs
    by (simp add: CHOICE_decode_ber_def choice_phase1_def tlv_def)
qed

lemma asn_depth_ge: "2 \<le> asn_depth t"
  using foldr_max_init [of 1] by (cases t) auto

lemma asn_depth_member:
  assumes "n < length ms" "Suc (foldr max (map mb_type (map (map_asn_member asn_depth) ms)) 1) \<le> stk"
  shows "asn_depth (mb_type (ms ! n)) \<le> stk - 1"
  using foldr_max_ge [of "asn_depth (mb_type (ms ! n))" "map mb_type (map (map_asn_member asn_depth) ms)" 1]
    assms by fastforce

lemma ber_decoder_reads:
  "asn_wf t \<Longrightarrow> mode_ok t tm \<Longrightarrow> tag < 2 ^ 32 \<Longrightarrow> asn_fits t v \<Longrightarrow> asn_bytes t v tm tag = Some bs \<Longrightarrow>
   length bs < 2 ^ 30 \<Longrightarrow> asn_depth t \<le> stk \<Longrightarrow>
   ber_decoder t stk (bs @ rest) tm = Some (RC_OK (length bs) (asn_norm v))"
proof (induction t arbitrary: v tm tag bs stk rest)
  case (TNativeInteger tags)
  then show ?case
    using NativeInteger_codec(2) [of tags tm tag stk _ bs rest] by (auto simp: tlv_def split: asn_val.splits)
next
  case (TBoolean tags)
  then show ?case
    using BOOLEAN_codec(2) [of tags tm tag stk bs _ rest] by (auto simp: tlv_def split: asn_val.splits)
next
  case (TOctetString tags)
  then show ?case
    using OCTET_STRING_codec(2) [of tags tm tag stk _ bs rest] by (auto simp: tlv_def split: asn_val.splits)
next
  case (TSequence tags ms sp)
  obtain vs b where v: "v = VSeq vs" "members_bytes (map (map_asn_member asn_bytes) ms) vs = Some b"
      "bs = tlv (eff_tag tags tm tag) True b"
    using TSequence.prems(5) by (auto split: asn_val.splits)
  have len: "length b < 2 ^ 30" using TSequence.prems(6) v(3) by (simp add: tlv_def)
  show ?case unfolding v(1,3)
  proof (rule SEQUENCE_reads [OF TSequence.prems(1) _ TSequence.prems(3) _ v(2) len])
    show "one_tag tags tm" "asn_fits (TSequence tags ms sp) (VSeq vs)" using TSequence.prems v(1) by auto
    show "2 \<le> stk" using TSequence.prems(7) asn_depth_ge le_trans by blast
    fix n y c rest
    assume n: "n < length ms" "vs ! n = Some y"
      "asn_bytes (mb_type (ms ! n)) y (mb_tag_mode (ms ! n)) (mb_tag (ms ! n)) = Some c" "length c < 2 ^ 30"
    have m: "member_ok (ms ! n)" "asn_wf (mb_type (ms ! n))" "asn_fits (mb_type (ms ! n)) y"
      using TSequence.prems n v(1) by (auto simp: list_all_length list_all2_conv_all_nth)
    have "asn_depth (mb_type (ms ! n)) \<le> stk - 1"
      by (rule asn_depth_member [OF n(1)]) (use TSequence.prems(7) in simp)
    then show "ber_decoder (mb_type (ms ! n)) (stk - 1) (c @ rest) (mb_tag_mode (ms ! n)) =
        Some (RC_OK (length c) (asn_norm y))"
      using TSequence.IH [OF nth_mem [OF n(1)] mb_type_in_set m(2) _ _ m(3) n(3,4)] m(1) by (simp add: member_ok_def)
  qed
next
  case (TChoice tags ms sp)
  obtain n x b where v: "v = VChoice (Some (n, x))" "n < length ms"
      "asn_bytes (mb_type (ms ! n)) x (mb_tag_mode (ms ! n)) (mb_tag (ms ! n)) = Some b"
      "bs = (if tm = 1 then tlv tag True b else b)"
    using TChoice.prems(5) by (auto split: asn_val.splits option.splits if_splits)
  have len: "length b < 2 ^ 30" using TChoice.prems(6) v(4) by (auto simp: tlv_def split: if_splits)
  have t: "tags = []" "tm = 0 \<or> tm = 1" using TChoice.prems(2) by auto
  have m: "member_ok (ms ! n)" "asn_wf (mb_type (ms ! n))" "asn_fits (mb_type (ms ! n)) x"
    using TChoice.prems v by (auto simp: list_all_length)
  have d: "ber_decoder (mb_type (ms ! n)) (stk - 1) (b @ rest) (mb_tag_mode (ms ! n)) =
      Some (RC_OK (length b) (asn_norm x))" for rest
  proof -
    have "asn_depth (mb_type (ms ! n)) \<le> stk - 1"
      by (rule asn_depth_member [OF v(2)]) (use TChoice.prems(7) in simp)
    then show ?thesis
      using TChoice.IH [OF nth_mem [OF v(2)] mb_type_in_set m(2) _ _ m(3) v(3) len] m(1) by (simp add: member_ok_def)
  qed
  have "2 \<le> stk" using TChoice.prems(7) asn_depth_ge le_trans by blast
  then show ?case
    using CHOICE_reads [OF _ t(2) TChoice.prems(3) v(2,3) len _ d v(4)] TChoice.prems(1) t v(1) by simp
qed

text \<open>An alternative behind a tag of indefinite length, followed by a zero octet and another one
  that is not zero: the decoder does not return.\<close>

lemma CHOICE_stuck:
  assumes wf: "asn_wf (TChoice [] ms sp)" and fits: "asn_fits (TChoice [] ms sp) v"
    and b: "asn_bytes (TChoice [] ms sp) v 0 tag = Some b" "length b < 2 ^ 30"
    and stk: "asn_depth (TChoice [] ms sp) \<le> stk" and y: "y \<noteq> 0"
    and tags: "ber_check_tags (stk - 1) [] True (h @ b @ 0 # y # rest) 1 (-1) = Some (RC_OK (length h) (-1, True))"
  shows "ber_decoder (TChoice [] ms sp) stk (h @ b @ 0 # y # rest) 1 = None"
proof -
  obtain n x where n: "n < length ms" and a: "asn_fits (mb_type (ms ! n)) x"
      "asn_bytes (mb_type (ms ! n)) x (mb_tag_mode (ms ! n)) (mb_tag (ms ! n)) = Some b"
    using fits b by (auto split: asn_val.splits option.splits)
  have "member_ok (ms ! n)" "asn_wf (mb_type (ms ! n))" using wf n by (auto simp: list_all_length)
  moreover have "asn_depth (mb_type (ms ! n)) \<le> stk - 1" by (rule asn_depth_member [OF n]) (use stk in simp)
  ultimately have d: "ber_decoder (mb_type (ms ! n)) (stk - 1) (b @ r) (mb_tag_mode (ms ! n)) =
      Some (RC_OK (length b) (asn_norm x))" for r
    using a b(2) by (auto simp: member_ok_def intro: ber_decoder_reads)
  have "LEFT (-1) (b @ 0 # y # rest) = b @ 0 # y # rest" by (simp add: LEFT_def)
  from choice_phase1_reads [OF wf n a(2) b(2) d this] tags y show ?thesis
    by (simp add: CHOICE_decode_ber_def choice_phase3_def advance_left_def choice_eoc_stuck)
qed

text \<open>A SEQUENCE of indefinite length, one member at a time.\<close>

lemma seq_phase1_indefinite:
  assumes "edx < length ms" "part_ok stk ms sp edx (b, v)" "left < 0" "(b @ r) ! 0 \<noteq> 0"
  shows "seq_phase1 stk ms sp (edx, b @ r, left, csm, acc) =
    seq_phase1 stk ms sp (edx + 1, r, left, csm + length b, acc[edx := Some v])"
proof -
  obtain t k where "ber_fetch_tag (b @ r) = FGot t k" "find_member ms sp edx t = Some edx"
    using part_okD(2) [OF assms(2), of edx r] by auto
  then have "seq_round stk ms sp (edx, b @ r, left, csm, acc) =
      SeqNext (edx + 1, r, left, csm + length b, acc[edx := Some v])"
    using assms part_okD(1) [OF assms(2), of edx r]
    by (simp add: seq_round_def seq_microphase2_def LEFT_def advance_left_def)
  then show ?thesis by (subst seq_phase1.simps) simp
qed

lemma seq_phase1_stuck:
  assumes "edx < length ms" "ber_fetch_tag ptr = FGot t k" "find_member ms sp edx t = Some edx" "left < 0" "ptr ! 0 \<noteq> 0"
    "mb_type (ms ! edx) (stk - 1) ptr (mb_tag_mode (ms ! edx)) = None"
  shows "seq_phase1 stk ms sp (edx, ptr, left, csm, acc) = None"
  using assms by (subst seq_phase1.simps) (simp add: seq_round_def seq_microphase2_def LEFT_def)

text \<open>Every value of the descriptor has an encoding.\<close>

lemma members_bytes_total:
  "list_all2 (\<lambda>m x. case x of None \<Rightarrow> mb_pointer m \<and> mb_optional m \<noteq> 0
      | Some y \<Rightarrow> mb_type m y (mb_tag_mode m) (mb_tag m) \<noteq> None) ms vs \<Longrightarrow>
   \<exists>b. members_bytes ms vs = Some b"
proof (induction rule: list_all2_induct)
  case (Cons m ms x vs)
  then show ?case by (cases x) auto
qed simp

lemma asn_bytes_total: "asn_fits t v \<Longrightarrow> \<exists>bs. asn_bytes t v tm tag = Some bs"
proof (induction t arbitrary: v tm tag)
  case (TSequence tags ms sp)
  then obtain vs where v: "v = VSeq vs" by (auto split: asn_val.splits)
  have "\<exists>b. members_bytes (map (map_asn_member asn_bytes) ms) vs = Some b"
  proof (rule members_bytes_total, unfold list_all2_conv_all_nth, intro conjI allI impI)
    show l: "length (map (map_asn_member asn_bytes) ms) = length vs"
      using TSequence.prems v by (auto simp: list_all2_conv_all_nth)
    fix i assume i: "i < length (map (map_asn_member asn_bytes) ms)"
    have "case vs ! i of None \<Rightarrow> mb_pointer (ms ! i) \<and> mb_optional (ms ! i) \<noteq> 0 | Some y \<Rightarrow> asn_fits (mb_type (ms ! i)) y"
      using TSequence.prems v i by (auto simp: list_all2_conv_all_nth split: option.splits)
    then show "case vs ! i of None \<Rightarrow> mb_pointer (map (map_asn_member asn_bytes) ms ! i) \<and>
          mb_optional (map (map_asn_member asn_bytes) ms ! i) \<noteq> 0
        | Some y \<Rightarrow> mb_type (map (map_asn_member asn_bytes) ms ! i) y (mb_tag_mode (map (map_asn_member asn_bytes) ms ! i))
          (mb_tag (map (map_asn_member asn_bytes) ms ! i)) \<noteq> None"
      using TSequence.IH [OF nth_mem mb_type_in_set, of i] i by (auto split: option.splits)
  qed
  then show ?case using v by auto
next
  case (TChoice tags ms sp)
  then obtain n x where v: "v = VChoice (Some (n, x))" "n < length ms" "asn_fits (mb_type (ms ! n)) x"
    by (auto split: asn_val.splits option.splits)
  then show ?case using TChoice.IH [OF nth_mem [OF v(2)] mb_type_in_set v(3)] by fastforce
qed (auto split: asn_val.splits)

end
