(* ===== verification/Rspro_Asn.thy ===== *)
theory Rspro_Asn
  imports Asn_Roundtrip Rspro_Types
begin

text \<open>
  The RSPRO protocol on the wire: the type descriptors that asn1c generated from
  \<^verbatim>\<open>asn1/RSPRO.asn\<close> into \<^verbatim>\<open>src/rspro\<close>, one definition per file with its members, tags, tag map and
  extension bounds; the two functions of \<^verbatim>\<open>src/rspro_util.c\<close> that encode and decode a PDU; and how
  the structures of Rspro_Types are laid out for the runtime (\<open>pdu_val\<close> and \<open>val_pdu\<close>, the
  members of a structure in the order of its descriptor).
\<close>

section \<open>Descriptors\<close>

abbreviation UNIVERSAL :: "nat \<Rightarrow> nat" where "UNIVERSAL n \<equiv> n * 4"
abbreviation CONTEXT :: "nat \<Rightarrow> nat" where "CONTEXT n \<equiv> n * 4 + 2"

definition t2m :: "nat \<Rightarrow> nat \<Rightarrow> int \<Rightarrow> int \<Rightarrow> asn_TYPE_tag2member" where
  "t2m tag n f l = \<lparr>el_tag = tag, el_no = n, toff_first = f, toff_last = l\<rparr>"

definition asn_DEF_NativeInteger :: asn_type where
  "asn_DEF_NativeInteger = TNativeInteger [UNIVERSAL 2]"

definition asn_DEF_BOOLEAN :: asn_type where
  "asn_DEF_BOOLEAN = TBoolean [UNIVERSAL 1]"

definition asn_DEF_OCTET_STRING :: asn_type where
  "asn_DEF_OCTET_STRING = TOctetString [UNIVERSAL 4]"

definition asn_DEF_OperationTag :: asn_type where
  "asn_DEF_OperationTag = TNativeInteger [UNIVERSAL 2]"

definition asn_DEF_ComponentType :: asn_type where
  "asn_DEF_ComponentType = TNativeInteger [UNIVERSAL 10]"

definition asn_DEF_ComponentName :: asn_type where
  "asn_DEF_ComponentName = TOctetString [UNIVERSAL 22]"

definition asn_DEF_ComponentIdentity :: asn_type where
  "asn_DEF_ComponentIdentity = TSequence [UNIVERSAL 16] [
       Member ATF_NOFLAGS 0 (UNIVERSAL 10) 0 asn_DEF_ComponentType ''type'',
       Member ATF_NOFLAGS 0 (UNIVERSAL 22) 0 asn_DEF_ComponentName ''name'',
       Member ATF_NOFLAGS 0 (CONTEXT 0) (-1) asn_DEF_ComponentName ''software'',
       Member ATF_NOFLAGS 0 (CONTEXT 1) (-1) asn_DEF_ComponentName ''swVersion'',
       Member ATF_POINTER 5 (CONTEXT 2) (-1) asn_DEF_ComponentName ''hwManufacturer'',
       Member ATF_POINTER 4 (CONTEXT 3) (-1) asn_DEF_ComponentName ''hwModel'',
       Member ATF_POINTER 3 (CONTEXT 4) (-1) asn_DEF_ComponentName ''hwSerialNr'',
       Member ATF_POINTER 2 (CONTEXT 5) (-1) asn_DEF_ComponentName ''hwVersion'',
       Member ATF_POINTER 1 (CONTEXT 6) (-1) asn_DEF_ComponentName ''fwVersion'']
       \<lparr>seq_tag2el = [
         t2m (UNIVERSAL 10) 0 0 0,
         t2m (UNIVERSAL 22) 1 0 0,
         t2m (CONTEXT 0) 2 0 0,
         t2m (CONTEXT 1) 3 0 0,
         t2m (CONTEXT 2) 4 0 0,
         t2m (CONTEXT 3) 5 0 0,
         t2m (CONTEXT 4) 6 0 0,
         t2m (CONTEXT 5) 7 0 0,
         t2m (CONTEXT 6) 8 0 0],
        ext_after = 8, ext_before = 10\<rparr>"

definition asn_DEF_BankId :: asn_type where
  "asn_DEF_BankId = TNativeInteger [UNIVERSAL 2]"

definition asn_DEF_SlotNumber :: asn_type where
  "asn_DEF_SlotNumber = TNativeInteger [UNIVERSAL 2]"

definition asn_DEF_ConnectBankReq :: asn_type where
  "asn_DEF_ConnectBankReq = TSequence [UNIVERSAL 16] [
       Member ATF_NOFLAGS 0 (UNIVERSAL 16) 0 asn_DEF_ComponentIdentity ''identity'',
       Member ATF_NOFLAGS 0 (UNIVERSAL 2) 0 asn_DEF_BankId ''bankId'',
       Member ATF_NOFLAGS 0 (UNIVERSAL 2) 0 asn_DEF_SlotNumber ''numberOfSlots'']
       \<lparr>seq_tag2el = [
         t2m (UNIVERSAL 2) 1 0 1,
         t2m (UNIVERSAL 2) 2 (-1) 0,
         t2m (UNIVERSAL 16) 0 0 0],
        ext_after = 2, ext_before = 4\<rparr>"

definition asn_DEF_ResultCode :: asn_type where
  "asn_DEF_ResultCode = TNativeInteger [UNIVERSAL 10]"

definition asn_DEF_ConnectBankRes :: asn_type where
  "asn_DEF_ConnectBankRes = TSequence [UNIVERSAL 16] [
       Member ATF_NOFLAGS 0 (UNIVERSAL 16) 0 asn_DEF_ComponentIdentity ''identity'',
       Member ATF_NOFLAGS 0 (UNIVERSAL 10) 0 asn_DEF_ResultCode ''result'']
       \<lparr>seq_tag2el = [
         t2m (UNIVERSAL 10) 1 0 0,
         t2m (UNIVERSAL 16) 0 0 0],
        ext_after = 1, ext_before = 3\<rparr>"

definition asn_DEF_ClientId :: asn_type where
  "asn_DEF_ClientId = TNativeInteger [UNIVERSAL 2]"

definition asn_DEF_ClientSlot :: asn_type where
  "asn_DEF_ClientSlot = TSequence [UNIVERSAL 16] [
       Member ATF_NOFLAGS 0 (UNIVERSAL 2) 0 asn_DEF_ClientId ''clientId'',
       Member ATF_NOFLAGS 0 (UNIVERSAL 2) 0 asn_DEF_SlotNumber ''slotNr'']
       \<lparr>seq_tag2el = [
         t2m (UNIVERSAL 2) 0 0 1,
         t2m (UNIVERSAL 2) 1 (-1) 0],
        ext_after = 1, ext_before = 3\<rparr>"

definition asn_DEF_ConnectClientReq :: asn_type where
  "asn_DEF_ConnectClientReq = TSequence [UNIVERSAL 16] [
       Member ATF_NOFLAGS 0 (UNIVERSAL 16) 0 asn_DEF_ComponentIdentity ''identity'',
       Member ATF_POINTER 1 (UNIVERSAL 16) 0 asn_DEF_ClientSlot ''clientSlot'']
       \<lparr>seq_tag2el = [
         t2m (UNIVERSAL 16) 0 0 1,
         t2m (UNIVERSAL 16) 1 (-1) 0],
        ext_after = 1, ext_before = 3\<rparr>"

definition asn_DEF_ConnectClientRes :: asn_type where
  "asn_DEF_ConnectClientRes = TSequence [UNIVERSAL 16] [
       Member ATF_NOFLAGS 0 (UNIVERSAL 16) 0 asn_DEF_ComponentIdentity ''identity'',
       Member ATF_NOFLAGS 0 (UNIVERSAL 10) 0 asn_DEF_ResultCode ''result'']
       \<lparr>seq_tag2el = [
         t2m (UNIVERSAL 10) 1 0 0,
         t2m (UNIVERSAL 16) 0 0 0],
        ext_after = 1, ext_before = 3\<rparr>"

definition asn_DEF_BankSlot :: asn_type where
  "asn_DEF_BankSlot = TSequence [UNIVERSAL 16] [
       Member ATF_NOFLAGS 0 (UNIVERSAL 2) 0 asn_DEF_BankId ''bankId'',
       Member ATF_NOFLAGS 0 (UNIVERSAL 2) 0 asn_DEF_SlotNumber ''slotNr'']
       \<lparr>seq_tag2el = [
         t2m (UNIVERSAL 2) 0 0 1,
         t2m (UNIVERSAL 2) 1 (-1) 0],
        ext_after = 1, ext_before = 3\<rparr>"

definition asn_DEF_CreateMappingReq :: asn_type where
  "asn_DEF_CreateMappingReq = TSequence [UNIVERSAL 16] [
       Member ATF_NOFLAGS 0 (UNIVERSAL 16) 0 asn_DEF_ClientSlot ''client'',
       Member ATF_NOFLAGS 0 (UNIVERSAL 16) 0 asn_DEF_BankSlot ''bank'']
       \<lparr>seq_tag2el = [
         t2m (UNIVERSAL 16) 0 0 1,
         t2m (UNIVERSAL 16) 1 (-1) 0],
        ext_after = 1, ext_before = 3\<rparr>"

definition asn_DEF_CreateMappingRes :: asn_type where
  "asn_DEF_CreateMappingRes = TSequence [UNIVERSAL 16] [
       Member ATF_NOFLAGS 0 (UNIVERSAL 10) 0 asn_DEF_ResultCode ''result'']
       \<lparr>seq_tag2el = [
         t2m (UNIVERSAL 10) 0 0 0],
        ext_after = 0, ext_before = 2\<rparr>"

definition asn_DEF_RemoveMappingReq :: asn_type where
  "asn_DEF_RemoveMappingReq = TSequence [UNIVERSAL 16] [
       Member ATF_NOFLAGS 0 (UNIVERSAL 16) 0 asn_DEF_ClientSlot ''client'',
       Member ATF_NOFLAGS 0 (UNIVERSAL 16) 0 asn_DEF_BankSlot ''bank'']
       \<lparr>seq_tag2el = [
         t2m (UNIVERSAL 16) 0 0 1,
         t2m (UNIVERSAL 16) 1 (-1) 0],
        ext_after = 1, ext_before = 3\<rparr>"

definition asn_DEF_RemoveMappingRes :: asn_type where
  "asn_DEF_RemoveMappingRes = TSequence [UNIVERSAL 16] [
       Member ATF_NOFLAGS 0 (UNIVERSAL 10) 0 asn_DEF_ResultCode ''result'']
       \<lparr>seq_tag2el = [
         t2m (UNIVERSAL 10) 0 0 0],
        ext_after = 0, ext_before = 2\<rparr>"

definition asn_DEF_ConfigClientIdReq :: asn_type where
  "asn_DEF_ConfigClientIdReq = TSequence [UNIVERSAL 16] [
       Member ATF_NOFLAGS 0 (UNIVERSAL 16) 0 asn_DEF_ClientSlot ''clientSlot'']
       \<lparr>seq_tag2el = [
         t2m (UNIVERSAL 16) 0 0 0],
        ext_after = 0, ext_before = 2\<rparr>"

definition asn_DEF_ConfigClientIdRes :: asn_type where
  "asn_DEF_ConfigClientIdRes = TSequence [UNIVERSAL 16] [
       Member ATF_NOFLAGS 0 (UNIVERSAL 10) 0 asn_DEF_ResultCode ''result'']
       \<lparr>seq_tag2el = [
         t2m (UNIVERSAL 10) 0 0 0],
        ext_after = 0, ext_before = 2\<rparr>"

definition asn_DEF_Ipv4Address :: asn_type where
  "asn_DEF_Ipv4Address = TOctetString [UNIVERSAL 4]"

definition asn_DEF_Ipv6Address :: asn_type where
  "asn_DEF_Ipv6Address = TOctetString [UNIVERSAL 4]"

definition asn_DEF_IpAddress :: asn_type where
  "asn_DEF_IpAddress = TChoice [] [
       Member ATF_NOFLAGS 0 (CONTEXT 0) (-1) asn_DEF_Ipv4Address ''ipv4'',
       Member ATF_NOFLAGS 0 (CONTEXT 1) (-1) asn_DEF_Ipv6Address ''ipv6'']
       \<lparr>ch_tag2el = [
         t2m (CONTEXT 0) 0 0 0,
         t2m (CONTEXT 1) 1 0 0],
        ext_start = -1\<rparr>"

definition asn_DEF_PortNumber :: asn_type where
  "asn_DEF_PortNumber = TNativeInteger [UNIVERSAL 2]"

definition asn_DEF_IpPort :: asn_type where
  "asn_DEF_IpPort = TSequence [UNIVERSAL 16] [
       Member ATF_NOFLAGS 0 no_tag 0 asn_DEF_IpAddress ''ip'',
       Member ATF_NOFLAGS 0 (UNIVERSAL 2) 0 asn_DEF_PortNumber ''port'']
       \<lparr>seq_tag2el = [
         t2m (UNIVERSAL 2) 1 0 0,
         t2m (CONTEXT 0) 0 0 0,
         t2m (CONTEXT 1) 0 0 0],
        ext_after = -1, ext_before = -1\<rparr>"

definition asn_DEF_ConfigClientBankReq :: asn_type where
  "asn_DEF_ConfigClientBankReq = TSequence [UNIVERSAL 16] [
       Member ATF_NOFLAGS 0 (UNIVERSAL 16) 0 asn_DEF_BankSlot ''bankSlot'',
       Member ATF_NOFLAGS 0 (UNIVERSAL 16) 0 asn_DEF_IpPort ''bankd'']
       \<lparr>seq_tag2el = [
         t2m (UNIVERSAL 16) 0 0 1,
         t2m (UNIVERSAL 16) 1 (-1) 0],
        ext_after = 1, ext_before = 3\<rparr>"

definition asn_DEF_ConfigClientBankRes :: asn_type where
  "asn_DEF_ConfigClientBankRes = TSequence [UNIVERSAL 16] [
       Member ATF_NOFLAGS 0 (UNIVERSAL 10) 0 asn_DEF_ResultCode ''result'']
       \<lparr>seq_tag2el = [
         t2m (UNIVERSAL 10) 0 0 0],
        ext_after = 0, ext_before = 2\<rparr>"

definition asn_DEF_ErrorSeverity :: asn_type where
  "asn_DEF_ErrorSeverity = TNativeInteger [UNIVERSAL 10]"

definition asn_DEF_ErrorCode :: asn_type where
  "asn_DEF_ErrorCode = TNativeInteger [UNIVERSAL 10]"

definition asn_DEF_ErrorString :: asn_type where
  "asn_DEF_ErrorString = TOctetString [UNIVERSAL 22]"

definition asn_DEF_ErrorInd :: asn_type where
  "asn_DEF_ErrorInd = TSequence [UNIVERSAL 16] [
       Member ATF_NOFLAGS 0 (UNIVERSAL 10) 0 asn_DEF_ComponentType ''sender'',
       Member ATF_NOFLAGS 0 (UNIVERSAL 10) 0 asn_DEF_ErrorSeverity ''severity'',
       Member ATF_NOFLAGS 0 (UNIVERSAL 10) 0 asn_DEF_ErrorCode ''code'',
       Member ATF_POINTER 3 (CONTEXT 0) (-1) asn_DEF_BankSlot ''bankSlot'',
       Member ATF_POINTER 2 (CONTEXT 1) (-1) asn_DEF_ClientSlot ''clientSlot'',
       Member ATF_POINTER 1 (CONTEXT 2) (-1) asn_DEF_ErrorString ''errorString'']
       \<lparr>seq_tag2el = [
         t2m (UNIVERSAL 10) 0 0 2,
         t2m (UNIVERSAL 10) 1 (-1) 1,
         t2m (UNIVERSAL 10) 2 (-2) 0,
         t2m (CONTEXT 0) 3 0 0,
         t2m (CONTEXT 1) 4 0 0,
         t2m (CONTEXT 2) 5 0 0],
        ext_after = 5, ext_before = 7\<rparr>"

definition asn_DEF_ResetStateReq :: asn_type where
  "asn_DEF_ResetStateReq = TSequence [UNIVERSAL 16] []
       \<lparr>seq_tag2el = [], ext_after = -1, ext_before = -1\<rparr>"

definition asn_DEF_ResetStateRes :: asn_type where
  "asn_DEF_ResetStateRes = TSequence [UNIVERSAL 16] [
       Member ATF_NOFLAGS 0 (UNIVERSAL 10) 0 asn_DEF_ResultCode ''result'']
       \<lparr>seq_tag2el = [
         t2m (UNIVERSAL 10) 0 0 0],
        ext_after = 0, ext_before = 2\<rparr>"

definition asn_DEF_ATR :: asn_type where
  "asn_DEF_ATR = TOctetString [UNIVERSAL 4]"

definition asn_DEF_SetAtrReq :: asn_type where
  "asn_DEF_SetAtrReq = TSequence [UNIVERSAL 16] [
       Member ATF_NOFLAGS 0 (UNIVERSAL 16) 0 asn_DEF_ClientSlot ''slot'',
       Member ATF_NOFLAGS 0 (UNIVERSAL 4) 0 asn_DEF_ATR ''atr'']
       \<lparr>seq_tag2el = [
         t2m (UNIVERSAL 4) 1 0 0,
         t2m (UNIVERSAL 16) 0 0 0],
        ext_after = 1, ext_before = 3\<rparr>"

definition asn_DEF_SetAtrRes :: asn_type where
  "asn_DEF_SetAtrRes = TSequence [UNIVERSAL 16] [
       Member ATF_NOFLAGS 0 (UNIVERSAL 10) 0 asn_DEF_ResultCode ''result'']
       \<lparr>seq_tag2el = [
         t2m (UNIVERSAL 10) 0 0 0],
        ext_after = 0, ext_before = 2\<rparr>"

definition asn_DEF_TpduFlags :: asn_type where
  "asn_DEF_TpduFlags = TSequence [UNIVERSAL 16] [
       Member ATF_NOFLAGS 0 (UNIVERSAL 1) 0 asn_DEF_BOOLEAN ''tpduHeaderPresent'',
       Member ATF_NOFLAGS 0 (UNIVERSAL 1) 0 asn_DEF_BOOLEAN ''finalPart'',
       Member ATF_NOFLAGS 0 (UNIVERSAL 1) 0 asn_DEF_BOOLEAN ''procByteContinueTx'',
       Member ATF_NOFLAGS 0 (UNIVERSAL 1) 0 asn_DEF_BOOLEAN ''procByteContinueRx'']
       \<lparr>seq_tag2el = [
         t2m (UNIVERSAL 1) 0 0 3,
         t2m (UNIVERSAL 1) 1 (-1) 2,
         t2m (UNIVERSAL 1) 2 (-2) 1,
         t2m (UNIVERSAL 1) 3 (-3) 0],
        ext_after = 3, ext_before = 5\<rparr>"

definition asn_DEF_TpduModemToCard :: asn_type where
  "asn_DEF_TpduModemToCard = TSequence [UNIVERSAL 16] [
       Member ATF_NOFLAGS 0 (UNIVERSAL 16) 0 asn_DEF_ClientSlot ''fromClientSlot'',
       Member ATF_NOFLAGS 0 (UNIVERSAL 16) 0 asn_DEF_BankSlot ''toBankSlot'',
       Member ATF_NOFLAGS 0 (UNIVERSAL 16) 0 asn_DEF_TpduFlags ''flags'',
       Member ATF_NOFLAGS 0 (UNIVERSAL 4) 0 asn_DEF_OCTET_STRING ''data'']
       \<lparr>seq_tag2el = [
         t2m (UNIVERSAL 4) 3 0 0,
         t2m (UNIVERSAL 16) 0 0 2,
         t2m (UNIVERSAL 16) 1 (-1) 1,
         t2m (UNIVERSAL 16) 2 (-2) 0],
        ext_after = 3, ext_before = 5\<rparr>"

definition asn_DEF_TpduCardToModem :: asn_type where
  "asn_DEF_TpduCardToModem = TSequence [UNIVERSAL 16] [
       Member ATF_NOFLAGS 0 (UNIVERSAL 16) 0 asn_DEF_BankSlot ''fromBankSlot'',
       Member ATF_NOFLAGS 0 (UNIVERSAL 16) 0 asn_DEF_ClientSlot ''toClientSlot'',
       Member ATF_NOFLAGS 0 (UNIVERSAL 16) 0 asn_DEF_TpduFlags ''flags'',
       Member ATF_NOFLAGS 0 (UNIVERSAL 4) 0 asn_DEF_OCTET_STRING ''data'']
       \<lparr>seq_tag2el = [
         t2m (UNIVERSAL 4) 3 0 0,
         t2m (UNIVERSAL 16) 0 0 2,
         t2m (UNIVERSAL 16) 1 (-1) 1,
         t2m (UNIVERSAL 16) 2 (-2) 0],
        ext_after = 3, ext_before = 5\<rparr>"

definition asn_DEF_SlotPhysStatus :: asn_type where
  "asn_DEF_SlotPhysStatus = TSequence [UNIVERSAL 16] [
       Member ATF_NOFLAGS 0 (CONTEXT 0) (-1) asn_DEF_BOOLEAN ''resetActive'',
       Member ATF_POINTER 3 (CONTEXT 1) (-1) asn_DEF_BOOLEAN ''vccPresent'',
       Member ATF_POINTER 2 (CONTEXT 2) (-1) asn_DEF_BOOLEAN ''clkActive'',
       Member ATF_POINTER 1 (CONTEXT 3) (-1) asn_DEF_BOOLEAN ''cardPresent'']
       \<lparr>seq_tag2el = [
         t2m (CONTEXT 0) 0 0 0,
         t2m (CONTEXT 1) 1 0 0,
         t2m (CONTEXT 2) 2 0 0,
         t2m (CONTEXT 3) 3 0 0],
        ext_after = 3, ext_before = 5\<rparr>"

definition asn_DEF_ClientSlotStatusInd :: asn_type where
  "asn_DEF_ClientSlotStatusInd = TSequence [UNIVERSAL 16] [
       Member ATF_NOFLAGS 0 (UNIVERSAL 16) 0 asn_DEF_ClientSlot ''fromClientSlot'',
       Member ATF_NOFLAGS 0 (UNIVERSAL 16) 0 asn_DEF_BankSlot ''toBankSlot'',
       Member ATF_NOFLAGS 0 (UNIVERSAL 16) 0 asn_DEF_SlotPhysStatus ''slotPhysStatus'']
       \<lparr>seq_tag2el = [
         t2m (UNIVERSAL 16) 0 0 2,
         t2m (UNIVERSAL 16) 1 (-1) 1,
         t2m (UNIVERSAL 16) 2 (-2) 0],
        ext_after = 2, ext_before = 4\<rparr>"

definition asn_DEF_BankSlotStatusInd :: asn_type where
  "asn_DEF_BankSlotStatusInd = TSequence [UNIVERSAL 16] [
       Member ATF_NOFLAGS 0 (UNIVERSAL 16) 0 asn_DEF_BankSlot ''fromBankSlot'',
       Member ATF_NOFLAGS 0 (UNIVERSAL 16) 0 asn_DEF_ClientSlot ''toClientSlot'',
       Member ATF_NOFLAGS 0 (UNIVERSAL 16) 0 asn_DEF_SlotPhysStatus ''slotPhysStatus'']
       \<lparr>seq_tag2el = [
         t2m (UNIVERSAL 16) 0 0 2,
         t2m (UNIVERSAL 16) 1 (-1) 1,
         t2m (UNIVERSAL 16) 2 (-2) 0],
        ext_after = 2, ext_before = 4\<rparr>"

definition asn_DEF_RsproPDUchoice :: asn_type where
  "asn_DEF_RsproPDUchoice = TChoice [] [
       Member ATF_NOFLAGS 0 (CONTEXT 0) (-1) asn_DEF_ConnectBankReq ''connectBankReq'',
       Member ATF_NOFLAGS 0 (CONTEXT 1) (-1) asn_DEF_ConnectBankRes ''connectBankRes'',
       Member ATF_NOFLAGS 0 (CONTEXT 2) (-1) asn_DEF_ConnectClientReq ''connectClientReq'',
       Member ATF_NOFLAGS 0 (CONTEXT 3) (-1) asn_DEF_ConnectClientRes ''connectClientRes'',
       Member ATF_NOFLAGS 0 (CONTEXT 4) (-1) asn_DEF_CreateMappingReq ''createMappingReq'',
       Member ATF_NOFLAGS 0 (CONTEXT 5) (-1) asn_DEF_CreateMappingRes ''createMappingRes'',
       Member ATF_NOFLAGS 0 (CONTEXT 6) (-1) asn_DEF_RemoveMappingReq ''removeMappingReq'',
       Member ATF_NOFLAGS 0 (CONTEXT 7) (-1) asn_DEF_RemoveMappingRes ''removeMappingRes'',
       Member ATF_NOFLAGS 0 (CONTEXT 8) (-1) asn_DEF_ConfigClientIdReq ''configClientIdReq'',
       Member ATF_NOFLAGS 0 (CONTEXT 9) (-1) asn_DEF_ConfigClientIdRes ''configClientIdRes'',
       Member ATF_NOFLAGS 0 (CONTEXT 17) (-1) asn_DEF_ConfigClientBankReq ''configClientBankReq'',
       Member ATF_NOFLAGS 0 (CONTEXT 18) (-1) asn_DEF_ConfigClientBankRes ''configClientBankRes'',
       Member ATF_NOFLAGS 0 (CONTEXT 16) (-1) asn_DEF_ErrorInd ''errorInd'',
       Member ATF_NOFLAGS 0 (CONTEXT 19) (-1) asn_DEF_ResetStateReq ''resetStateReq'',
       Member ATF_NOFLAGS 0 (CONTEXT 20) (-1) asn_DEF_ResetStateRes ''resetStateRes'',
       Member ATF_NOFLAGS 0 (CONTEXT 10) (-1) asn_DEF_SetAtrReq ''setAtrReq'',
       Member ATF_NOFLAGS 0 (CONTEXT 11) (-1) asn_DEF_SetAtrRes ''setAtrRes'',
       Member ATF_NOFLAGS 0 (CONTEXT 12) (-1) asn_DEF_TpduModemToCard ''tpduModemToCard'',
       Member ATF_NOFLAGS 0 (CONTEXT 13) (-1) asn_DEF_TpduCardToModem ''tpduCardToModem'',
       Member ATF_NOFLAGS 0 (CONTEXT 14) (-1) asn_DEF_ClientSlotStatusInd ''clientSlotStatusInd'',
       Member ATF_NOFLAGS 0 (CONTEXT 15) (-1) asn_DEF_BankSlotStatusInd ''bankSlotStatusInd'']
       \<lparr>ch_tag2el = [
         t2m (CONTEXT 0) 0 0 0,
         t2m (CONTEXT 1) 1 0 0,
         t2m (CONTEXT 2) 2 0 0,
         t2m (CONTEXT 3) 3 0 0,
         t2m (CONTEXT 4) 4 0 0,
         t2m (CONTEXT 5) 5 0 0,
         t2m (CONTEXT 6) 6 0 0,
         t2m (CONTEXT 7) 7 0 0,
         t2m (CONTEXT 8) 8 0 0,
         t2m (CONTEXT 9) 9 0 0,
         t2m (CONTEXT 10) 15 0 0,
         t2m (CONTEXT 11) 16 0 0,
         t2m (CONTEXT 12) 17 0 0,
         t2m (CONTEXT 13) 18 0 0,
         t2m (CONTEXT 14) 19 0 0,
         t2m (CONTEXT 15) 20 0 0,
         t2m (CONTEXT 16) 12 0 0,
         t2m (CONTEXT 17) 10 0 0,
         t2m (CONTEXT 18) 11 0 0,
         t2m (CONTEXT 19) 13 0 0,
         t2m (CONTEXT 20) 14 0 0],
        ext_start = 21\<rparr>"

definition asn_DEF_RsproPDU :: asn_type where
  "asn_DEF_RsproPDU = TSequence [UNIVERSAL 16] [
       Member ATF_NOFLAGS 0 (CONTEXT 0) (-1) asn_DEF_NativeInteger ''version'',
       Member ATF_NOFLAGS 0 (CONTEXT 1) (-1) asn_DEF_OperationTag ''tag'',
       Member ATF_NOFLAGS 0 (CONTEXT 2) 1 asn_DEF_RsproPDUchoice ''msg'']
       \<lparr>seq_tag2el = [
         t2m (CONTEXT 0) 0 0 0,
         t2m (CONTEXT 1) 1 0 0,
         t2m (CONTEXT 2) 2 0 0],
        ext_after = -1, ext_before = -1\<rparr>"


section \<open>The structures as the runtime sees them\<close>

text \<open>A member read back from a structure; a member of another type than its descriptor says does
  not occur.\<close>

definition as_long :: "asn_val option \<Rightarrow> int" where
  "as_long x = (case x of Some (VLong i) \<Rightarrow> i | Some (VBool i) \<Rightarrow> i | _ \<Rightarrow> 0)"

definition as_octets :: "asn_val option \<Rightarrow> bytes" where
  "as_octets x = (case x of Some (VOctets b) \<Rightarrow> b | _ \<Rightarrow> [])"

definition as_members :: "asn_val option \<Rightarrow> asn_val option list" where
  "as_members x = (case x of Some (VSeq vs) \<Rightarrow> vs | _ \<Rightarrow> [])"

definition as_choice :: "asn_val option \<Rightarrow> (nat \<times> asn_val) option" where
  "as_choice x = (case x of Some (VChoice c) \<Rightarrow> c | _ \<Rightarrow> None)"

definition opt_member :: "(asn_val option \<Rightarrow> 'a) \<Rightarrow> asn_val option \<Rightarrow> 'a option" where
  "opt_member f x = (if x = None then None else Some (f x))"

definition ComponentIdentity_val :: "ComponentIdentity_t \<Rightarrow> asn_val" where
  "ComponentIdentity_val c = VSeq [Some (VLong (ci_type c)), Some (VOctets (ci_name c)),
     Some (VOctets (ci_software c)), Some (VOctets (ci_swVersion c)),
     map_option VOctets (ci_hwManufacturer c), map_option VOctets (ci_hwModel c),
     map_option VOctets (ci_hwSerialNr c), map_option VOctets (ci_hwVersion c),
     map_option VOctets (ci_fwVersion c)]"

definition val_ComponentIdentity :: "asn_val option \<Rightarrow> ComponentIdentity_t" where
  "val_ComponentIdentity x =
     (let m = as_members x
      in \<lparr>ci_type = as_long (m ! 0), ci_name = as_octets (m ! 1), ci_software = as_octets (m ! 2),
          ci_swVersion = as_octets (m ! 3), ci_hwManufacturer = opt_member as_octets (m ! 4),
          ci_hwModel = opt_member as_octets (m ! 5), ci_hwSerialNr = opt_member as_octets (m ! 6),
          ci_hwVersion = opt_member as_octets (m ! 7), ci_fwVersion = opt_member as_octets (m ! 8)\<rparr>)"

definition BankSlot_val :: "BankSlot_t \<Rightarrow> asn_val" where
  "BankSlot_val b = VSeq [Some (VLong (bs_bankId b)), Some (VLong (bs_slotNr b))]"

definition val_BankSlot :: "asn_val option \<Rightarrow> BankSlot_t" where
  "val_BankSlot x = (let m = as_members x in \<lparr>bs_bankId = as_long (m ! 0), bs_slotNr = as_long (m ! 1)\<rparr>)"

definition ClientSlot_val :: "ClientSlot_t \<Rightarrow> asn_val" where
  "ClientSlot_val c = VSeq [Some (VLong (cs_clientId c)), Some (VLong (cs_slotNr c))]"

definition val_ClientSlot :: "asn_val option \<Rightarrow> ClientSlot_t" where
  "val_ClientSlot x = (let m = as_members x in \<lparr>cs_clientId = as_long (m ! 0), cs_slotNr = as_long (m ! 1)\<rparr>)"

definition SlotPhysStatus_val :: "SlotPhysStatus_t \<Rightarrow> asn_val" where
  "SlotPhysStatus_val s = VSeq [Some (VBool (sps_resetActive s)), map_option VBool (sps_vccPresent s),
     map_option VBool (sps_clkActive s), map_option VBool (sps_cardPresent s)]"

definition val_SlotPhysStatus :: "asn_val option \<Rightarrow> SlotPhysStatus_t" where
  "val_SlotPhysStatus x =
     (let m = as_members x
      in \<lparr>sps_resetActive = as_long (m ! 0), sps_vccPresent = opt_member as_long (m ! 1),
          sps_clkActive = opt_member as_long (m ! 2), sps_cardPresent = opt_member as_long (m ! 3)\<rparr>)"

definition TpduFlags_val :: "TpduFlags_t \<Rightarrow> asn_val" where
  "TpduFlags_val f = VSeq [Some (VBool (tf_tpduHeaderPresent f)), Some (VBool (tf_finalPart f)),
     Some (VBool (tf_procByteContinueTx f)), Some (VBool (tf_procByteContinueRx f))]"

definition val_TpduFlags :: "asn_val option \<Rightarrow> TpduFlags_t" where
  "val_TpduFlags x =
     (let m = as_members x
      in \<lparr>tf_tpduHeaderPresent = as_long (m ! 0), tf_finalPart = as_long (m ! 1),
          tf_procByteContinueTx = as_long (m ! 2), tf_procByteContinueRx = as_long (m ! 3)\<rparr>)"

definition IpAddress_val :: "IpAddress_t \<Rightarrow> asn_val" where
  "IpAddress_val a = VChoice (case a of
     IpAddress_PR_NOTHING \<Rightarrow> None | ipv4 b \<Rightarrow> Some (0, VOctets b) | ipv6 b \<Rightarrow> Some (1, VOctets b))"

definition val_IpAddress :: "asn_val option \<Rightarrow> IpAddress_t" where
  "val_IpAddress x = (case as_choice x of
     None \<Rightarrow> IpAddress_PR_NOTHING
   | Some (n, v) \<Rightarrow> if n = 0 then ipv4 (as_octets (Some v)) else ipv6 (as_octets (Some v)))"

definition IpPort_val :: "IpPort_t \<Rightarrow> asn_val" where
  "IpPort_val p = VSeq [Some (IpAddress_val (ipp_ip p)), Some (VLong (ipp_port p))]"

definition val_IpPort :: "asn_val option \<Rightarrow> IpPort_t" where
  "val_IpPort x = (let m = as_members x in \<lparr>ipp_ip = val_IpAddress (m ! 0), ipp_port = as_long (m ! 1)\<rparr>)"

fun msg_val :: "RsproPDUchoice_t \<Rightarrow> (nat \<times> asn_val) option" where
  "msg_val PR_NOTHING = None"
| "msg_val (connectBankReq c b n) = Some (0, VSeq [Some (ComponentIdentity_val c), Some (VLong b), Some (VLong n)])"
| "msg_val (connectBankRes c r) = Some (1, VSeq [Some (ComponentIdentity_val c), Some (VLong r)])"
| "msg_val (connectClientReq c s) = Some (2, VSeq [Some (ComponentIdentity_val c), map_option ClientSlot_val s])"
| "msg_val (connectClientRes c r) = Some (3, VSeq [Some (ComponentIdentity_val c), Some (VLong r)])"
| "msg_val (createMappingReq c b) = Some (4, VSeq [Some (ClientSlot_val c), Some (BankSlot_val b)])"
| "msg_val (createMappingRes r) = Some (5, VSeq [Some (VLong r)])"
| "msg_val (removeMappingReq c b) = Some (6, VSeq [Some (ClientSlot_val c), Some (BankSlot_val b)])"
| "msg_val (removeMappingRes r) = Some (7, VSeq [Some (VLong r)])"
| "msg_val (configClientIdReq c) = Some (8, VSeq [Some (ClientSlot_val c)])"
| "msg_val (configClientIdRes r) = Some (9, VSeq [Some (VLong r)])"
| "msg_val (configClientBankReq b i) = Some (10, VSeq [Some (BankSlot_val b), Some (IpPort_val i)])"
| "msg_val (configClientBankRes r) = Some (11, VSeq [Some (VLong r)])"
| "msg_val (errorInd s v c b cl e) = Some (12, VSeq [Some (VLong s), Some (VLong v), Some (VLong c),
     map_option BankSlot_val b, map_option ClientSlot_val cl, map_option VOctets e])"
| "msg_val resetStateReq = Some (13, VSeq [])"
| "msg_val (resetStateRes r) = Some (14, VSeq [Some (VLong r)])"
| "msg_val (setAtrReq c a) = Some (15, VSeq [Some (ClientSlot_val c), Some (VOctets a)])"
| "msg_val (setAtrRes r) = Some (16, VSeq [Some (VLong r)])"
| "msg_val (tpduModemToCard c b f d) =
     Some (17, VSeq [Some (ClientSlot_val c), Some (BankSlot_val b), Some (TpduFlags_val f), Some (VOctets d)])"
| "msg_val (tpduCardToModem b c f d) =
     Some (18, VSeq [Some (BankSlot_val b), Some (ClientSlot_val c), Some (TpduFlags_val f), Some (VOctets d)])"
| "msg_val (clientSlotStatusInd c b s) =
     Some (19, VSeq [Some (ClientSlot_val c), Some (BankSlot_val b), Some (SlotPhysStatus_val s)])"
| "msg_val (bankSlotStatusInd b c s) =
     Some (20, VSeq [Some (BankSlot_val b), Some (ClientSlot_val c), Some (SlotPhysStatus_val s)])"

text \<open>The alternatives in the order of the descriptor.\<close>

definition val_alternatives :: "asn_val option list \<Rightarrow> RsproPDUchoice_t list" where
  "val_alternatives m =
     [connectBankReq (val_ComponentIdentity (m ! 0)) (as_long (m ! 1)) (as_long (m ! 2)),
      connectBankRes (val_ComponentIdentity (m ! 0)) (as_long (m ! 1)),
      connectClientReq (val_ComponentIdentity (m ! 0)) (opt_member val_ClientSlot (m ! 1)),
      connectClientRes (val_ComponentIdentity (m ! 0)) (as_long (m ! 1)),
      createMappingReq (val_ClientSlot (m ! 0)) (val_BankSlot (m ! 1)),
      createMappingRes (as_long (m ! 0)),
      removeMappingReq (val_ClientSlot (m ! 0)) (val_BankSlot (m ! 1)),
      removeMappingRes (as_long (m ! 0)),
      configClientIdReq (val_ClientSlot (m ! 0)),
      configClientIdRes (as_long (m ! 0)),
      configClientBankReq (val_BankSlot (m ! 0)) (val_IpPort (m ! 1)),
      configClientBankRes (as_long (m ! 0)),
      errorInd (as_long (m ! 0)) (as_long (m ! 1)) (as_long (m ! 2)) (opt_member val_BankSlot (m ! 3))
        (opt_member val_ClientSlot (m ! 4)) (opt_member as_octets (m ! 5)),
      resetStateReq,
      resetStateRes (as_long (m ! 0)),
      setAtrReq (val_ClientSlot (m ! 0)) (as_octets (m ! 1)),
      setAtrRes (as_long (m ! 0)),
      tpduModemToCard (val_ClientSlot (m ! 0)) (val_BankSlot (m ! 1)) (val_TpduFlags (m ! 2)) (as_octets (m ! 3)),
      tpduCardToModem (val_BankSlot (m ! 0)) (val_ClientSlot (m ! 1)) (val_TpduFlags (m ! 2)) (as_octets (m ! 3)),
      clientSlotStatusInd (val_ClientSlot (m ! 0)) (val_BankSlot (m ! 1)) (val_SlotPhysStatus (m ! 2)),
      bankSlotStatusInd (val_BankSlot (m ! 0)) (val_ClientSlot (m ! 1)) (val_SlotPhysStatus (m ! 2))]"

definition val_msg :: "asn_val option \<Rightarrow> RsproPDUchoice_t" where
  "val_msg x = (case as_choice x of
     None \<Rightarrow> PR_NOTHING | Some (n, v) \<Rightarrow> val_alternatives (as_members (Some v)) ! n)"

definition pdu_val :: "RsproPDU_t \<Rightarrow> asn_val" where
  "pdu_val p = VSeq [Some (VLong (pdu_version p)), Some (VLong (pdu_tag p)), Some (VChoice (msg_val (pdu_msg p)))]"

definition val_pdu :: "asn_val \<Rightarrow> RsproPDU_t" where
  "val_pdu v =
     (let m = as_members (Some v)
      in \<lparr>pdu_version = as_long (m ! 0), pdu_tag = as_long (m ! 1), pdu_msg = val_msg (m ! 2)\<rparr>)"

section \<open>Encoding and decoding a PDU\<close>

text \<open>\<open>rspro_enc_msg\<close>: the message, or NULL as the inner \<open>None\<close>; \<open>tailroom\<close> is the room of the
  message buffer it allocated. \<open>rspro_dec_msg\<close>: the PDU, or NULL as the inner \<open>None\<close>. An outer
  \<open>None\<close> is a call that does not return.\<close>

definition rspro_enc_msg :: "nat \<Rightarrow> RsproPDU_t \<Rightarrow> bytes option option" where
  "rspro_enc_msg tailroom pdu = der_encode_to_buffer asn_DEF_RsproPDU (pdu_val pdu) tailroom"

definition rspro_dec_msg :: "nat \<Rightarrow> bytes \<Rightarrow> RsproPDU_t option option" where
  "rspro_dec_msg stack_max msg =
     (case ber_decode stack_max asn_DEF_RsproPDU msg of
        None \<Rightarrow> None
      | Some (RC_OK _ v) \<Rightarrow> Some (Some (val_pdu v))
      | Some _ \<Rightarrow> Some None)"

end
