(* ===== verification/Asn_Returns.thy ===== *)
theory Asn_Returns
  imports Asn_Roundtrip
begin

text \<open>
  When the decoder comes back. The assertions of the OCTET STRING decoder hold on every input, the
  loops over tags, members and elements end, and so every type without a tagged CHOICE is decoded
  to an answer, whatever the octets are. (A tagged CHOICE is where the decoder can stay in its loop:
  \<open>choice_eoc_stuck\<close> of Asn_Constr.)
\<close>

section \<open>Assertions of the primitive decoders\<close>

lemma check_tags_loop_length:
  assumes "check_tags_loop es f csm ptr lim eoc prev_len prev_constr = RC_OK n (l, c)"
    and "es \<noteq> [] \<or> (0 < eoc \<or> prev_len < 0 \<longrightarrow> prev_constr)"
  shows "c \<or> 0 \<le> l"
  using assms
proof (induction es arbitrary: f csm ptr lim eoc prev_len prev_constr)
  case (Cons e es)
  from Cons.prems(1) show ?case
    by (auto simp: check_tags_loop.simps(2) Let_def split: fetch.splits if_splits
        dest!: ber_fetch_length_range dest: Cons.IH)
qed (auto split: if_splits)

lemma ber_check_tags_length:
  "ber_check_tags stk tags oc ptr tm f = Some (RC_OK n (l, c)) \<Longrightarrow> c \<or> 0 \<le> l"
  by (auto simp: ber_check_tags_def check_tags_any_def Let_def split: if_splits fetch.splits
      elim!: no_ctx.elims dest!: ber_fetch_length_range check_tags_loop_length)

lemma ber_check_tags_returns: "tags \<noteq> [] \<or> tm = 0 \<or> tm = 1 \<Longrightarrow> ber_check_tags stk tags oc ptr tm f \<noteq> None"
  by (auto simp: ber_check_tags_def Let_def)

lemma os_element_returns: "os_element all_tags s \<noteq> OsRet None"
proof -
  have "0 \<le> el_left sel"
    if "ber_fetch_length False p = FGot l b" "os_enter stck a l = Some sel" for p l b stck a sel
    using that ber_fetch_length_range [OF that(1)]
    by (auto simp: os_enter_def split: list.splits if_splits)
  then show ?thesis
    by (cases s) (auto simp: os_element_def os_phase2_def Let_def not_less [symmetric]
        split: fetch.splits option.splits if_splits)
qed

lemma os_round_returns: "os_round all_tags s \<noteq> OsRet None"
  using os_element_returns [of all_tags s] by (auto simp: os_round_def split: prod.splits list.splits option.splits)

lemma os_phase1_returns: "os_phase1 all_tags s \<noteq> None"
proof (induction all_tags s rule: os_phase1.induct)
  case (1 all_tags s)
  then show ?case
    using os_round_returns [of all_tags s] by (subst os_phase1.simps) (auto split: os_round.splits)
qed

lemma prim_returns:
  assumes "tags \<noteq> [] \<or> tm = 0 \<or> tm = 1"
  shows "NativeInteger_decode_ber stk tags buf tm \<noteq> None" "BOOLEAN_decode_ber stk tags buf tm \<noteq> None"
    "OCTET_STRING_decode_ber stk tags buf tm \<noteq> None"
proof -
  obtain d e where d: "ber_check_tags (stk - 1) tags False buf tm 0 = Some d"
    and e: "ber_check_tags (stk - 1) tags True buf tm (-1) = Some e"
    using ber_check_tags_returns [OF assms] by blast
  show "NativeInteger_decode_ber stk tags buf tm \<noteq> None" "BOOLEAN_decode_ber stk tags buf tm \<noteq> None"
    by (auto simp: NativeInteger_decode_ber_def BOOLEAN_decode_ber_def d simp del: One_nat_def
        split: dec.splits option.splits)
  show "OCTET_STRING_decode_ber stk tags buf tm \<noteq> None"
  proof (cases e)
    case (RC_OK n x)
    then obtain l c where x: "e = RC_OK n (l, c)" by (cases x) simp
    with e have "c \<or> 0 \<le> l" by (auto dest: ber_check_tags_length)
    then show ?thesis
      using os_phase1_returns [of tags "([], buf, 0, ([], 0))"]
      by (auto simp: OCTET_STRING_decode_ber_def e x Let_def simp del: One_nat_def split: option.splits)
  qed (simp_all add: OCTET_STRING_decode_ber_def e del: One_nat_def)
qed

section \<open>Constructed types\<close>

text \<open>The types with no tagged CHOICE inside, as a member with tag mode \<open>tm\<close>.\<close>

primrec untagged_choices :: "asn_type \<Rightarrow> int \<Rightarrow> bool" where
  "untagged_choices (TNativeInteger tags) = (\<lambda>tm. tags \<noteq> [] \<or> tm = 0 \<or> tm = 1)"
| "untagged_choices (TBoolean tags) = (\<lambda>tm. tags \<noteq> [] \<or> tm = 0 \<or> tm = 1)"
| "untagged_choices (TOctetString tags) = (\<lambda>tm. tags \<noteq> [] \<or> tm = 0 \<or> tm = 1)"
| "untagged_choices (TSequence tags ms sp) = (\<lambda>tm. (tags \<noteq> [] \<or> tm = 0 \<or> tm = 1) \<and>
     list_all (\<lambda>m. mb_type m (mb_tag_mode m)) (map (map_asn_member untagged_choices) ms))"
| "untagged_choices (TChoice tags ms sp) = (\<lambda>tm. tags = [] \<and> tm = 0 \<and>
     list_all (\<lambda>m. mb_type m (mb_tag_mode m)) (map (map_asn_member untagged_choices) ms))"

lemma seq_round_returns:
  assumes "\<And>n stk ptr. n < length ms \<Longrightarrow> mb_type (ms ! n) stk ptr (mb_tag_mode (ms ! n)) \<noteq> None"
    and "map_in_range ms (seq_tag2el sp)"
  shows "seq_round stk ms sp s \<noteq> SeqRet None"
proof -
  obtain edx ptr left csm acc where s: "s = (edx, ptr, left, csm, acc)" by (cases s)
  have "seq_microphase2 stk ms n s \<noteq> SeqRet None" if "find_member ms sp edx t = Some n" "edx < length ms" for n t
    using assms(1) [OF find_member_range [OF that(1) assms(2) that(2)]]
    by (auto simp: s seq_microphase2_def split: option.splits dec.splits)
  then show ?thesis
    by (auto simp: s seq_round_def seq_unknown_tag_def Let_def not_le split: fetch.splits option.splits)
qed

lemma seq_phase1_returns:
  assumes "\<And>n stk ptr. n < length ms \<Longrightarrow> mb_type (ms ! n) stk ptr (mb_tag_mode (ms ! n)) \<noteq> None"
    and "map_in_range ms (seq_tag2el sp)"
  shows "seq_phase1 stk ms sp s \<noteq> None"
  using assms
proof (induction stk ms sp s rule: seq_phase1.induct)
  case (1 stk ms sp s)
  have "seq_round stk ms sp s \<noteq> SeqRet None" by (rule seq_round_returns) (use 1 in blast)+
  with 1 show ?case by (subst seq_phase1.simps) (auto split: seq_round.splits)
qed

lemma SEQUENCE_returns:
  assumes "\<And>n stk ptr. n < length ms \<Longrightarrow> mb_type (ms ! n) stk ptr (mb_tag_mode (ms ! n)) \<noteq> None"
    and "map_in_range ms (seq_tag2el sp)" and "tags \<noteq> [] \<or> tm = 0 \<or> tm = 1"
  shows "SEQUENCE_decode_ber tags ms sp st stk ptr tm \<noteq> None"
  using seq_phase1_returns [OF assms(1,2)] ber_check_tags_returns [OF assms(3), of "stk - 1" True ptr 1]
  by (auto simp: SEQUENCE_decode_ber_def split: dec.splits)

lemma CHOICE_returns:
  assumes "\<And>n stk ptr. n < length ms \<Longrightarrow> mb_type (ms ! n) stk ptr (mb_tag_mode (ms ! n)) \<noteq> None"
    and "map_in_range ms (ch_tag2el sp)"
  shows "CHOICE_decode_ber [] ms sp stk ptr 0 \<noteq> None"
proof -
  have "mb_type (ms ! el_no (ch_tag2el sp ! i)) stk' p (mb_tag_mode (ms ! el_no (ch_tag2el sp ! i))) \<noteq> None"
    if "bsearch f (ch_tag2el sp) 0 (length (ch_tag2el sp)) = Some i" for i f stk' p
    using assms bsearch_range [OF that] by (simp add: map_in_range_def del: not_None_eq)
  then show ?thesis
    by (auto simp: CHOICE_decode_ber_def choice_phase1_def choice_phase3_def advance_left_def Let_def
        simp del: not_None_eq split: fetch.splits option.splits dec.splits)
qed

lemma ber_decoder_returns: "untagged_choices t tm \<Longrightarrow> maps_ok t \<Longrightarrow> ber_decoder t stk ptr tm \<noteq> None"
proof (induction t arbitrary: tm stk ptr)
  case (TSequence tags ms sp)
  have "ber_decoder (mb_type (ms ! n)) s p (mb_tag_mode (ms ! n)) \<noteq> None" if "n < length ms" for n s p
    using TSequence.prems that by (intro TSequence.IH [OF nth_mem mb_type_in_set]) (simp_all add: list_all_length)
  with TSequence.prems show ?case
    unfolding ber_decoder.simps by (intro SEQUENCE_returns) (auto simp del: not_None_eq)
next
  case (TChoice tags ms sp)
  have "ber_decoder (mb_type (ms ! n)) s p (mb_tag_mode (ms ! n)) \<noteq> None" if "n < length ms" for n s p
    using TChoice.prems that by (intro TChoice.IH [OF nth_mem mb_type_in_set]) (simp_all add: list_all_length)
  then have "CHOICE_decode_ber [] (map (map_asn_member ber_decoder) ms) sp stk ptr 0 \<noteq> None"
    using TChoice.prems by (intro CHOICE_returns) (auto simp del: not_None_eq)
  with TChoice.prems show ?case by simp
qed (simp_all add: prim_returns del: not_None_eq)

end
