(* ===== verification/Rspro_Wire.thy ===== *)
theory Rspro_Wire
  imports Rspro_Asn Asn_Returns Rspro_Util
begin

text \<open>
  What the RSPRO descriptors give: every one of them is well formed, so a PDU that was encoded is
  decoded to itself, whatever follows it in the buffer; the decoder stays inside the message; and
  the message on which it does not return.
\<close>

section \<open>The descriptors are well formed\<close>

named_theorems rspro_wf "evaluation of the well-formedness of descriptors"

lemmas prim_DEFs = asn_DEF_NativeInteger_def
  asn_DEF_BOOLEAN_def
  asn_DEF_OCTET_STRING_def
  asn_DEF_OperationTag_def
  asn_DEF_ComponentType_def
  asn_DEF_ComponentName_def
  asn_DEF_BankId_def
  asn_DEF_SlotNumber_def
  asn_DEF_ResultCode_def
  asn_DEF_ClientId_def
  asn_DEF_Ipv4Address_def
  asn_DEF_Ipv6Address_def
  asn_DEF_PortNumber_def
  asn_DEF_ErrorSeverity_def
  asn_DEF_ErrorCode_def
  asn_DEF_ErrorString_def
  asn_DEF_ATR_def

declare prim_DEFs [rspro_wf] tags_ok_def [rspro_wf] member_ok_def [rspro_wf] one_tag_def [rspro_wf]
  mb_open_def [rspro_wf] mb_pointer_def [rspro_wf] opt_runs_ok_def [rspro_wf] search_ok_def [rspro_wf]
  choice_search_ok_def [rspro_wf] member_first_tags_def [rspro_wf] eff_tag_def [rspro_wf]
  find_member_def [rspro_wf] Let_def [rspro_wf] bsearch.simps [rspro_wf] search4tag_def [rspro_wf]
  t2e_cmp_def [rspro_wf] tag_cmp_def [rspro_wf] best_match_def [rspro_wf] t2m_def [rspro_wf]
  map_in_range_def [rspro_wf] no_tag_def [rspro_wf]

lemma ComponentIdentity_wf [rspro_wf]:
  "asn_wf asn_DEF_ComponentIdentity" "mode_ok asn_DEF_ComponentIdentity tm = one_tag [UNIVERSAL 16] tm"
  "first_tags asn_DEF_ComponentIdentity tm tag = [eff_tag [UNIVERSAL 16] tm tag]" "asn_depth asn_DEF_ComponentIdentity = 3"
  "maps_ok asn_DEF_ComponentIdentity"
  by (simp_all add: asn_DEF_ComponentIdentity_def rspro_wf)

lemma ConnectBankReq_wf [rspro_wf]:
  "asn_wf asn_DEF_ConnectBankReq" "mode_ok asn_DEF_ConnectBankReq tm = one_tag [UNIVERSAL 16] tm"
  "first_tags asn_DEF_ConnectBankReq tm tag = [eff_tag [UNIVERSAL 16] tm tag]" "asn_depth asn_DEF_ConnectBankReq = 4"
  "maps_ok asn_DEF_ConnectBankReq"
  by (simp_all add: asn_DEF_ConnectBankReq_def rspro_wf)

lemma ConnectBankRes_wf [rspro_wf]:
  "asn_wf asn_DEF_ConnectBankRes" "mode_ok asn_DEF_ConnectBankRes tm = one_tag [UNIVERSAL 16] tm"
  "first_tags asn_DEF_ConnectBankRes tm tag = [eff_tag [UNIVERSAL 16] tm tag]" "asn_depth asn_DEF_ConnectBankRes = 4"
  "maps_ok asn_DEF_ConnectBankRes"
  by (simp_all add: asn_DEF_ConnectBankRes_def rspro_wf)

lemma ClientSlot_wf [rspro_wf]:
  "asn_wf asn_DEF_ClientSlot" "mode_ok asn_DEF_ClientSlot tm = one_tag [UNIVERSAL 16] tm"
  "first_tags asn_DEF_ClientSlot tm tag = [eff_tag [UNIVERSAL 16] tm tag]" "asn_depth asn_DEF_ClientSlot = 3"
  "maps_ok asn_DEF_ClientSlot"
  by (simp_all add: asn_DEF_ClientSlot_def rspro_wf)

lemma ConnectClientReq_wf [rspro_wf]:
  "asn_wf asn_DEF_ConnectClientReq" "mode_ok asn_DEF_ConnectClientReq tm = one_tag [UNIVERSAL 16] tm"
  "first_tags asn_DEF_ConnectClientReq tm tag = [eff_tag [UNIVERSAL 16] tm tag]" "asn_depth asn_DEF_ConnectClientReq = 4"
  "maps_ok asn_DEF_ConnectClientReq"
  by (simp_all add: asn_DEF_ConnectClientReq_def rspro_wf)

lemma ConnectClientRes_wf [rspro_wf]:
  "asn_wf asn_DEF_ConnectClientRes" "mode_ok asn_DEF_ConnectClientRes tm = one_tag [UNIVERSAL 16] tm"
  "first_tags asn_DEF_ConnectClientRes tm tag = [eff_tag [UNIVERSAL 16] tm tag]" "asn_depth asn_DEF_ConnectClientRes = 4"
  "maps_ok asn_DEF_ConnectClientRes"
  by (simp_all add: asn_DEF_ConnectClientRes_def rspro_wf)

lemma BankSlot_wf [rspro_wf]:
  "asn_wf asn_DEF_BankSlot" "mode_ok asn_DEF_BankSlot tm = one_tag [UNIVERSAL 16] tm"
  "first_tags asn_DEF_BankSlot tm tag = [eff_tag [UNIVERSAL 16] tm tag]" "asn_depth asn_DEF_BankSlot = 3"
  "maps_ok asn_DEF_BankSlot"
  by (simp_all add: asn_DEF_BankSlot_def rspro_wf)

lemma CreateMappingReq_wf [rspro_wf]:
  "asn_wf asn_DEF_CreateMappingReq" "mode_ok asn_DEF_CreateMappingReq tm = one_tag [UNIVERSAL 16] tm"
  "first_tags asn_DEF_CreateMappingReq tm tag = [eff_tag [UNIVERSAL 16] tm tag]" "asn_depth asn_DEF_CreateMappingReq = 4"
  "maps_ok asn_DEF_CreateMappingReq"
  by (simp_all add: asn_DEF_CreateMappingReq_def rspro_wf)

lemma CreateMappingRes_wf [rspro_wf]:
  "asn_wf asn_DEF_CreateMappingRes" "mode_ok asn_DEF_CreateMappingRes tm = one_tag [UNIVERSAL 16] tm"
  "first_tags asn_DEF_CreateMappingRes tm tag = [eff_tag [UNIVERSAL 16] tm tag]" "asn_depth asn_DEF_CreateMappingRes = 3"
  "maps_ok asn_DEF_CreateMappingRes"
  by (simp_all add: asn_DEF_CreateMappingRes_def rspro_wf)

lemma RemoveMappingReq_wf [rspro_wf]:
  "asn_wf asn_DEF_RemoveMappingReq" "mode_ok asn_DEF_RemoveMappingReq tm = one_tag [UNIVERSAL 16] tm"
  "first_tags asn_DEF_RemoveMappingReq tm tag = [eff_tag [UNIVERSAL 16] tm tag]" "asn_depth asn_DEF_RemoveMappingReq = 4"
  "maps_ok asn_DEF_RemoveMappingReq"
  by (simp_all add: asn_DEF_RemoveMappingReq_def rspro_wf)

lemma RemoveMappingRes_wf [rspro_wf]:
  "asn_wf asn_DEF_RemoveMappingRes" "mode_ok asn_DEF_RemoveMappingRes tm = one_tag [UNIVERSAL 16] tm"
  "first_tags asn_DEF_RemoveMappingRes tm tag = [eff_tag [UNIVERSAL 16] tm tag]" "asn_depth asn_DEF_RemoveMappingRes = 3"
  "maps_ok asn_DEF_RemoveMappingRes"
  by (simp_all add: asn_DEF_RemoveMappingRes_def rspro_wf)

lemma ConfigClientIdReq_wf [rspro_wf]:
  "asn_wf asn_DEF_ConfigClientIdReq" "mode_ok asn_DEF_ConfigClientIdReq tm = one_tag [UNIVERSAL 16] tm"
  "first_tags asn_DEF_ConfigClientIdReq tm tag = [eff_tag [UNIVERSAL 16] tm tag]" "asn_depth asn_DEF_ConfigClientIdReq = 4"
  "maps_ok asn_DEF_ConfigClientIdReq"
  by (simp_all add: asn_DEF_ConfigClientIdReq_def rspro_wf)

lemma ConfigClientIdRes_wf [rspro_wf]:
  "asn_wf asn_DEF_ConfigClientIdRes" "mode_ok asn_DEF_ConfigClientIdRes tm = one_tag [UNIVERSAL 16] tm"
  "first_tags asn_DEF_ConfigClientIdRes tm tag = [eff_tag [UNIVERSAL 16] tm tag]" "asn_depth asn_DEF_ConfigClientIdRes = 3"
  "maps_ok asn_DEF_ConfigClientIdRes"
  by (simp_all add: asn_DEF_ConfigClientIdRes_def rspro_wf)

lemma IpAddress_wf [rspro_wf]:
  "asn_wf asn_DEF_IpAddress" "mode_ok asn_DEF_IpAddress tm = (tm = 0 \<or> tm = 1)"
  "first_tags asn_DEF_IpAddress 0 tag = [CONTEXT 0, CONTEXT 1]" "asn_depth asn_DEF_IpAddress = 3"
  "maps_ok asn_DEF_IpAddress"
  by (simp_all add: asn_DEF_IpAddress_def rspro_wf)

lemma IpPort_wf [rspro_wf]:
  "asn_wf asn_DEF_IpPort" "mode_ok asn_DEF_IpPort tm = one_tag [UNIVERSAL 16] tm"
  "first_tags asn_DEF_IpPort tm tag = [eff_tag [UNIVERSAL 16] tm tag]" "asn_depth asn_DEF_IpPort = 4"
  "maps_ok asn_DEF_IpPort"
  by (simp_all add: asn_DEF_IpPort_def rspro_wf)

lemma ConfigClientBankReq_wf [rspro_wf]:
  "asn_wf asn_DEF_ConfigClientBankReq" "mode_ok asn_DEF_ConfigClientBankReq tm = one_tag [UNIVERSAL 16] tm"
  "first_tags asn_DEF_ConfigClientBankReq tm tag = [eff_tag [UNIVERSAL 16] tm tag]" "asn_depth asn_DEF_ConfigClientBankReq = 5"
  "maps_ok asn_DEF_ConfigClientBankReq"
  by (simp_all add: asn_DEF_ConfigClientBankReq_def rspro_wf)

lemma ConfigClientBankRes_wf [rspro_wf]:
  "asn_wf asn_DEF_ConfigClientBankRes" "mode_ok asn_DEF_ConfigClientBankRes tm = one_tag [UNIVERSAL 16] tm"
  "first_tags asn_DEF_ConfigClientBankRes tm tag = [eff_tag [UNIVERSAL 16] tm tag]" "asn_depth asn_DEF_ConfigClientBankRes = 3"
  "maps_ok asn_DEF_ConfigClientBankRes"
  by (simp_all add: asn_DEF_ConfigClientBankRes_def rspro_wf)

lemma ErrorInd_wf [rspro_wf]:
  "asn_wf asn_DEF_ErrorInd" "mode_ok asn_DEF_ErrorInd tm = one_tag [UNIVERSAL 16] tm"
  "first_tags asn_DEF_ErrorInd tm tag = [eff_tag [UNIVERSAL 16] tm tag]" "asn_depth asn_DEF_ErrorInd = 4"
  "maps_ok asn_DEF_ErrorInd"
  by (simp_all add: asn_DEF_ErrorInd_def rspro_wf)

lemma ResetStateReq_wf [rspro_wf]:
  "asn_wf asn_DEF_ResetStateReq" "mode_ok asn_DEF_ResetStateReq tm = one_tag [UNIVERSAL 16] tm"
  "first_tags asn_DEF_ResetStateReq tm tag = [eff_tag [UNIVERSAL 16] tm tag]" "asn_depth asn_DEF_ResetStateReq = 2"
  "maps_ok asn_DEF_ResetStateReq"
  by (simp_all add: asn_DEF_ResetStateReq_def rspro_wf)

lemma ResetStateRes_wf [rspro_wf]:
  "asn_wf asn_DEF_ResetStateRes" "mode_ok asn_DEF_ResetStateRes tm = one_tag [UNIVERSAL 16] tm"
  "first_tags asn_DEF_ResetStateRes tm tag = [eff_tag [UNIVERSAL 16] tm tag]" "asn_depth asn_DEF_ResetStateRes = 3"
  "maps_ok asn_DEF_ResetStateRes"
  by (simp_all add: asn_DEF_ResetStateRes_def rspro_wf)

lemma SetAtrReq_wf [rspro_wf]:
  "asn_wf asn_DEF_SetAtrReq" "mode_ok asn_DEF_SetAtrReq tm = one_tag [UNIVERSAL 16] tm"
  "first_tags asn_DEF_SetAtrReq tm tag = [eff_tag [UNIVERSAL 16] tm tag]" "asn_depth asn_DEF_SetAtrReq = 4"
  "maps_ok asn_DEF_SetAtrReq"
  by (simp_all add: asn_DEF_SetAtrReq_def rspro_wf)

lemma SetAtrRes_wf [rspro_wf]:
  "asn_wf asn_DEF_SetAtrRes" "mode_ok asn_DEF_SetAtrRes tm = one_tag [UNIVERSAL 16] tm"
  "first_tags asn_DEF_SetAtrRes tm tag = [eff_tag [UNIVERSAL 16] tm tag]" "asn_depth asn_DEF_SetAtrRes = 3"
  "maps_ok asn_DEF_SetAtrRes"
  by (simp_all add: asn_DEF_SetAtrRes_def rspro_wf)

lemma TpduFlags_wf [rspro_wf]:
  "asn_wf asn_DEF_TpduFlags" "mode_ok asn_DEF_TpduFlags tm = one_tag [UNIVERSAL 16] tm"
  "first_tags asn_DEF_TpduFlags tm tag = [eff_tag [UNIVERSAL 16] tm tag]" "asn_depth asn_DEF_TpduFlags = 3"
  "maps_ok asn_DEF_TpduFlags"
  by (simp_all add: asn_DEF_TpduFlags_def rspro_wf)

lemma TpduModemToCard_wf [rspro_wf]:
  "asn_wf asn_DEF_TpduModemToCard" "mode_ok asn_DEF_TpduModemToCard tm = one_tag [UNIVERSAL 16] tm"
  "first_tags asn_DEF_TpduModemToCard tm tag = [eff_tag [UNIVERSAL 16] tm tag]" "asn_depth asn_DEF_TpduModemToCard = 4"
  "maps_ok asn_DEF_TpduModemToCard"
  by (simp_all add: asn_DEF_TpduModemToCard_def rspro_wf)

lemma TpduCardToModem_wf [rspro_wf]:
  "asn_wf asn_DEF_TpduCardToModem" "mode_ok asn_DEF_TpduCardToModem tm = one_tag [UNIVERSAL 16] tm"
  "first_tags asn_DEF_TpduCardToModem tm tag = [eff_tag [UNIVERSAL 16] tm tag]" "asn_depth asn_DEF_TpduCardToModem = 4"
  "maps_ok asn_DEF_TpduCardToModem"
  by (simp_all add: asn_DEF_TpduCardToModem_def rspro_wf)

lemma SlotPhysStatus_wf [rspro_wf]:
  "asn_wf asn_DEF_SlotPhysStatus" "mode_ok asn_DEF_SlotPhysStatus tm = one_tag [UNIVERSAL 16] tm"
  "first_tags asn_DEF_SlotPhysStatus tm tag = [eff_tag [UNIVERSAL 16] tm tag]" "asn_depth asn_DEF_SlotPhysStatus = 3"
  "maps_ok asn_DEF_SlotPhysStatus"
  by (simp_all add: asn_DEF_SlotPhysStatus_def rspro_wf)

lemma ClientSlotStatusInd_wf [rspro_wf]:
  "asn_wf asn_DEF_ClientSlotStatusInd" "mode_ok asn_DEF_ClientSlotStatusInd tm = one_tag [UNIVERSAL 16] tm"
  "first_tags asn_DEF_ClientSlotStatusInd tm tag = [eff_tag [UNIVERSAL 16] tm tag]" "asn_depth asn_DEF_ClientSlotStatusInd = 4"
  "maps_ok asn_DEF_ClientSlotStatusInd"
  by (simp_all add: asn_DEF_ClientSlotStatusInd_def rspro_wf)

lemma BankSlotStatusInd_wf [rspro_wf]:
  "asn_wf asn_DEF_BankSlotStatusInd" "mode_ok asn_DEF_BankSlotStatusInd tm = one_tag [UNIVERSAL 16] tm"
  "first_tags asn_DEF_BankSlotStatusInd tm tag = [eff_tag [UNIVERSAL 16] tm tag]" "asn_depth asn_DEF_BankSlotStatusInd = 4"
  "maps_ok asn_DEF_BankSlotStatusInd"
  by (simp_all add: asn_DEF_BankSlotStatusInd_def rspro_wf)

lemma RsproPDUchoice_wf [rspro_wf]:
  "asn_wf asn_DEF_RsproPDUchoice" "mode_ok asn_DEF_RsproPDUchoice tm = (tm = 0 \<or> tm = 1)"
  "first_tags asn_DEF_RsproPDUchoice 1 tag = [tag]" "asn_depth asn_DEF_RsproPDUchoice = 6"
  "maps_ok asn_DEF_RsproPDUchoice"
  by (simp_all add: asn_DEF_RsproPDUchoice_def rspro_wf)

lemma RsproPDU_wf [rspro_wf]:
  "asn_wf asn_DEF_RsproPDU" "mode_ok asn_DEF_RsproPDU tm = one_tag [UNIVERSAL 16] tm"
  "first_tags asn_DEF_RsproPDU tm tag = [eff_tag [UNIVERSAL 16] tm tag]" "asn_depth asn_DEF_RsproPDU = 7"
  "maps_ok asn_DEF_RsproPDU"
  by (simp_all add: asn_DEF_RsproPDU_def rspro_wf)


section \<open>What the wire keeps of a PDU\<close>

text \<open>A BOOLEAN is sent as one octet, 255 for true.\<close>

definition wire_bool :: "int \<Rightarrow> int" where
  "wire_bool i = (if i \<noteq> 0 then 255 else 0)"

definition wire_flags :: "TpduFlags_t \<Rightarrow> TpduFlags_t" where
  "wire_flags f = \<lparr>tf_tpduHeaderPresent = wire_bool (tf_tpduHeaderPresent f), tf_finalPart = wire_bool (tf_finalPart f),
     tf_procByteContinueTx = wire_bool (tf_procByteContinueTx f),
     tf_procByteContinueRx = wire_bool (tf_procByteContinueRx f)\<rparr>"

definition wire_status :: "SlotPhysStatus_t \<Rightarrow> SlotPhysStatus_t" where
  "wire_status s = \<lparr>sps_resetActive = wire_bool (sps_resetActive s), sps_vccPresent = map_option wire_bool (sps_vccPresent s),
     sps_clkActive = map_option wire_bool (sps_clkActive s), sps_cardPresent = map_option wire_bool (sps_cardPresent s)\<rparr>"

fun wire_msg :: "RsproPDUchoice_t \<Rightarrow> RsproPDUchoice_t" where
  "wire_msg (tpduModemToCard c b f d) = tpduModemToCard c b (wire_flags f) d"
| "wire_msg (tpduCardToModem b c f d) = tpduCardToModem b c (wire_flags f) d"
| "wire_msg (clientSlotStatusInd c b s) = clientSlotStatusInd c b (wire_status s)"
| "wire_msg (bankSlotStatusInd b c s) = bankSlotStatusInd b c (wire_status s)"
| "wire_msg m = m"

definition wire_pdu :: "RsproPDU_t \<Rightarrow> RsproPDU_t" where
  "wire_pdu p = p\<lparr>pdu_msg := wire_msg (pdu_msg p)\<rparr>"

lemma opt_member_map [simp]: "opt_member f (map_option g x) = map_option (\<lambda>y. f (Some (g y))) x"
  by (cases x) (auto simp: opt_member_def)

lemma as_simps [simp]:
  "as_long (Some (VLong i)) = i" "as_long (Some (VBool i)) = i" "as_octets (Some (VOctets b)) = b"
  "as_members (Some (VSeq vs)) = vs" "as_choice (Some (VChoice c)) = c"
  by (simp_all add: as_long_def as_octets_def as_members_def as_choice_def)

lemma wire_bool_fun: "wire_bool = (\<lambda>i. if i \<noteq> 0 then 255 else 0)"
  by (rule ext) (simp add: wire_bool_def)

lemma val_struct [simp]:
  "val_ComponentIdentity (Some (asn_norm (ComponentIdentity_val c))) = c"
  "val_BankSlot (Some (asn_norm (BankSlot_val b))) = b"
  "val_ClientSlot (Some (asn_norm (ClientSlot_val cl))) = cl"
  "val_IpPort (Some (asn_norm (IpPort_val i))) = i"
  "val_TpduFlags (Some (asn_norm (TpduFlags_val f))) = wire_flags f"
  "val_SlotPhysStatus (Some (asn_norm (SlotPhysStatus_val s))) = wire_status s"
  by (simp_all add: val_ComponentIdentity_def ComponentIdentity_val_def val_BankSlot_def BankSlot_val_def
      val_ClientSlot_def ClientSlot_val_def val_IpPort_def IpPort_val_def val_IpAddress_def IpAddress_val_def
      val_TpduFlags_def TpduFlags_val_def wire_flags_def val_SlotPhysStatus_def SlotPhysStatus_val_def
      wire_status_def wire_bool_fun Let_def option.map_comp comp_def option.map_ident
      split: IpAddress_t.split)

lemma val_msg_norm: "val_msg (Some (asn_norm (VChoice (msg_val m)))) = wire_msg m"
  by (cases m rule: msg_val.cases)
     (simp_all add: val_msg_def val_alternatives_def option.map_comp comp_def option.map_ident)

lemma val_pdu_norm: "val_pdu (asn_norm (pdu_val p)) = wire_pdu p"
  using val_msg_norm [of "pdu_msg p"] by (simp add: val_pdu_def pdu_val_def wire_pdu_def Let_def)

text \<open>Every field of a PDU is a value of its C type, and its CHOICEs are set.\<close>

definition long_ok :: "int \<Rightarrow> bool" where
  "long_ok i \<longleftrightarrow> - (2 ^ 63) \<le> i \<and> i < 2 ^ 63"

definition slots_ok :: "BankSlot_t option \<Rightarrow> ClientSlot_t option \<Rightarrow> bool" where
  "slots_ok b c \<longleftrightarrow> (\<forall>x. b = Some x \<longrightarrow> long_ok (bs_bankId x) \<and> long_ok (bs_slotNr x)) \<and>
     (\<forall>x. c = Some x \<longrightarrow> long_ok (cs_clientId x) \<and> long_ok (cs_slotNr x))"

fun msg_ok :: "RsproPDUchoice_t \<Rightarrow> bool" where
  "msg_ok PR_NOTHING \<longleftrightarrow> False"
| "msg_ok (connectBankReq c b n) \<longleftrightarrow> long_ok (ci_type c) \<and> long_ok b \<and> long_ok n"
| "msg_ok (connectBankRes c r) \<longleftrightarrow> long_ok (ci_type c) \<and> long_ok r"
| "msg_ok (connectClientReq c s) \<longleftrightarrow> long_ok (ci_type c) \<and> slots_ok None s"
| "msg_ok (connectClientRes c r) \<longleftrightarrow> long_ok (ci_type c) \<and> long_ok r"
| "msg_ok (createMappingReq c b) \<longleftrightarrow> slots_ok (Some b) (Some c)"
| "msg_ok (createMappingRes r) \<longleftrightarrow> long_ok r"
| "msg_ok (removeMappingReq c b) \<longleftrightarrow> slots_ok (Some b) (Some c)"
| "msg_ok (removeMappingRes r) \<longleftrightarrow> long_ok r"
| "msg_ok (configClientIdReq c) \<longleftrightarrow> slots_ok None (Some c)"
| "msg_ok (configClientIdRes r) \<longleftrightarrow> long_ok r"
| "msg_ok (configClientBankReq b i) \<longleftrightarrow> slots_ok (Some b) None \<and> ipp_ip i \<noteq> IpAddress_PR_NOTHING \<and> long_ok (ipp_port i)"
| "msg_ok (configClientBankRes r) \<longleftrightarrow> long_ok r"
| "msg_ok (errorInd s v c b cl e) \<longleftrightarrow> long_ok s \<and> long_ok v \<and> long_ok c \<and> slots_ok b cl"
| "msg_ok resetStateReq \<longleftrightarrow> True"
| "msg_ok (resetStateRes r) \<longleftrightarrow> long_ok r"
| "msg_ok (setAtrReq c a) \<longleftrightarrow> slots_ok None (Some c)"
| "msg_ok (setAtrRes r) \<longleftrightarrow> long_ok r"
| "msg_ok (tpduModemToCard c b f d) \<longleftrightarrow> slots_ok (Some b) (Some c)"
| "msg_ok (tpduCardToModem b c f d) \<longleftrightarrow> slots_ok (Some b) (Some c)"
| "msg_ok (clientSlotStatusInd c b s) \<longleftrightarrow> slots_ok (Some b) (Some c)"
| "msg_ok (bankSlotStatusInd b c s) \<longleftrightarrow> slots_ok (Some b) (Some c)"

definition pdu_ok :: "RsproPDU_t \<Rightarrow> bool" where
  "pdu_ok p \<longleftrightarrow> long_ok (pdu_version p) \<and> long_ok (pdu_tag p) \<and> msg_ok (pdu_msg p)"

lemmas struct_DEFs = asn_DEF_ComponentIdentity_def asn_DEF_BankSlot_def asn_DEF_ClientSlot_def asn_DEF_IpAddress_def
  asn_DEF_IpPort_def asn_DEF_TpduFlags_def asn_DEF_SlotPhysStatus_def

lemma struct_fits:
  "long_ok (ci_type c) \<Longrightarrow> asn_fits asn_DEF_ComponentIdentity (ComponentIdentity_val c)"
  "slots_ok (Some b) x \<Longrightarrow> asn_fits asn_DEF_BankSlot (BankSlot_val b)"
  "slots_ok y (Some cl) \<Longrightarrow> asn_fits asn_DEF_ClientSlot (ClientSlot_val cl)"
  "ipp_ip i \<noteq> IpAddress_PR_NOTHING \<Longrightarrow> long_ok (ipp_port i) \<Longrightarrow> asn_fits asn_DEF_IpPort (IpPort_val i)"
  "asn_fits asn_DEF_TpduFlags (TpduFlags_val f)"
  "asn_fits asn_DEF_SlotPhysStatus (SlotPhysStatus_val s)"
  by (auto simp: struct_DEFs prim_DEFs ComponentIdentity_val_def BankSlot_val_def ClientSlot_val_def IpPort_val_def
      IpAddress_val_def TpduFlags_val_def SlotPhysStatus_val_def long_ok_def slots_ok_def mb_pointer_def
      split: option.splits IpAddress_t.splits)

lemmas message_DEFs = asn_DEF_ConnectBankReq_def asn_DEF_ConnectBankRes_def asn_DEF_ConnectClientReq_def
  asn_DEF_ConnectClientRes_def asn_DEF_CreateMappingReq_def asn_DEF_CreateMappingRes_def asn_DEF_RemoveMappingReq_def
  asn_DEF_RemoveMappingRes_def asn_DEF_ConfigClientIdReq_def asn_DEF_ConfigClientIdRes_def
  asn_DEF_ConfigClientBankReq_def asn_DEF_ConfigClientBankRes_def asn_DEF_ErrorInd_def asn_DEF_ResetStateReq_def
  asn_DEF_ResetStateRes_def asn_DEF_SetAtrReq_def asn_DEF_SetAtrRes_def asn_DEF_TpduModemToCard_def
  asn_DEF_TpduCardToModem_def asn_DEF_ClientSlotStatusInd_def asn_DEF_BankSlotStatusInd_def

lemma msg_fits: "msg_ok m \<Longrightarrow> asn_fits asn_DEF_RsproPDUchoice (VChoice (msg_val m))"
  unfolding asn_DEF_RsproPDUchoice_def
  by (cases m rule: msg_val.cases)
     (auto simp: message_DEFs struct_fits prim_DEFs long_ok_def mb_pointer_def split: option.splits)

lemma pdu_fits: "pdu_ok p \<Longrightarrow> asn_fits asn_DEF_RsproPDU (pdu_val p)"
  using msg_fits [of "pdu_msg p"]
  by (simp add: asn_DEF_RsproPDU_def pdu_val_def pdu_ok_def prim_DEFs long_ok_def)

section \<open>The codec of the PDU\<close>

text \<open>A PDU that is small enough for the \<open>int\<close>s of the runtime; the message buffer has 1016 octets.\<close>

definition pdu_sized :: "RsproPDU_t \<Rightarrow> bool" where
  "pdu_sized p \<longleftrightarrow> (\<exists>b. asn_bytes asn_DEF_RsproPDU (pdu_val p) 0 0 = Some b \<and> length b < 2 ^ 30)"

lemma RsproPDU_mode: "mode_ok asn_DEF_RsproPDU 0"
  by (simp add: RsproPDU_wf one_tag_def)

lemma rspro_enc_bytes:
  assumes "pdu_ok p" "asn_bytes asn_DEF_RsproPDU (pdu_val p) 0 0 = Some b" "length b < 2 ^ 30"
  shows "rspro_enc_msg tailroom p = Some (if length b \<le> tailroom then Some b else None)"
proof -
  have "encodes (der_encoder asn_DEF_RsproPDU (pdu_val p) 0 0) b"
    using der_encoder_encodes [OF RsproPDU_wf(1) RsproPDU_mode _ pdu_fits assms(2)] assms by simp
  then show ?thesis
    by (simp add: rspro_enc_msg_def der_encode_to_buffer_def encodesD(2))
qed

lemma rspro_dec_bytes:
  assumes "pdu_ok p" "asn_bytes asn_DEF_RsproPDU (pdu_val p) 0 0 = Some b" "length b < 2 ^ 30" "7 \<le> stk"
  shows "rspro_dec_msg stk (b @ rest) = Some (Some (wire_pdu p))"
  using ber_decoder_reads [OF RsproPDU_wf(1) RsproPDU_mode _ pdu_fits assms(2), of stk rest] assms
  by (simp add: rspro_dec_msg_def ber_decode_def RsproPDU_wf val_pdu_norm)

lemma rspro_roundtrip:
  assumes "pdu_ok p" "pdu_sized p" "rspro_enc_msg tailroom p = Some (Some b)" "7 \<le> stk"
  shows "rspro_dec_msg stk (b @ rest) = Some (Some (wire_pdu p))"
  using assms rspro_enc_bytes [OF assms(1)] rspro_dec_bytes [OF assms(1)]
  by (auto simp: pdu_sized_def split: if_splits)

text \<open>What the two ends of a connection rely on: a message that was encoded is decoded to its PDU,
  whatever follows it in the buffer. Then no message is the beginning of another one.\<close>

locale pdu_codec =
  fixes enc :: "'p \<Rightarrow> 'b list option option" and dec :: "'b list \<Rightarrow> 'p option option"
    and ok :: "'p \<Rightarrow> bool" and wire :: "'p \<Rightarrow> 'p"
  assumes dec_enc: "ok p \<Longrightarrow> enc p = Some (Some b) \<Longrightarrow> dec (b @ rest) = Some (Some (wire p))"
begin

lemma dec_enc_exact: "ok p \<Longrightarrow> enc p = Some (Some b) \<Longrightarrow> dec b = Some (Some (wire p))"
  using dec_enc [of p b "[]"] by simp

lemma enc_unambiguous:
  assumes "ok p" "ok q" "enc p = Some (Some b)" "enc q = Some (Some (b @ r))"
  shows "wire p = wire q"
  using dec_enc [OF assms(1,3), of r] dec_enc_exact [OF assms(2,4)] by simp

end

interpretation rspro: pdu_codec "rspro_enc_msg tailroom" "rspro_dec_msg (stk + 7)" "\<lambda>p. pdu_ok p \<and> pdu_sized p" wire_pdu
  for tailroom stk
  by unfold_locales (simp add: rspro_roundtrip)

section \<open>Messages that are not the encoding of a PDU\<close>

lemma RsproPDUchoice_untagged: "untagged_choices asn_DEF_RsproPDUchoice 0"
  by (simp add: asn_DEF_RsproPDUchoice_def message_DEFs struct_DEFs prim_DEFs)

text \<open>The version and the tag of a PDU, as its first two members.\<close>

abbreviation pdu_int :: "nat \<Rightarrow> int \<Rightarrow> bytes" where
  "pdu_int n i \<equiv> tlv (CONTEXT n) False (skip_leading (native_bytes i))"

lemma skip_native_short: "length (skip_leading (native_bytes i)) \<le> 8"
  using skip_leading_length [of "native_bytes i"] by simp

lemma pdu_int_first: "n < 2 \<Longrightarrow> (pdu_int n i @ r) ! 0 \<noteq> 0"
  by (auto simp: less_2_cases_iff tlv_def TL_bytes_def ber_tlv_tag_serialize_def Let_def)

abbreviation pdu_members :: "asn_type asn_member list" where
  "pdu_members \<equiv> [Member ATF_NOFLAGS 0 (CONTEXT 0) (-1) asn_DEF_NativeInteger ''version'',
       Member ATF_NOFLAGS 0 (CONTEXT 1) (-1) asn_DEF_OperationTag ''tag'',
       Member ATF_NOFLAGS 0 (CONTEXT 2) 1 asn_DEF_RsproPDUchoice ''msg'']"

abbreviation pdu_specs :: asn_SEQUENCE_specifics where
  "pdu_specs \<equiv> \<lparr>seq_tag2el = [t2m (CONTEXT 0) 0 0 0, t2m (CONTEXT 1) 1 0 0, t2m (CONTEXT 2) 2 0 0],
        ext_after = -1, ext_before = -1\<rparr>"

lemma pdu_int_part_ok:
  assumes "long_ok i" "n < 2" "3 \<le> stk"
  shows "part_ok stk (map (map_asn_member ber_decoder) pdu_members) pdu_specs n (pdu_int n i, VLong i)"
proof (rule seq_part_ok [OF RsproPDU_wf(1) [unfolded asn_DEF_RsproPDU_def]])
  have t: "mb_type (pdu_members ! n) = TNativeInteger [UNIVERSAL 2]" "mb_tag_mode (pdu_members ! n) = -1"
    "mb_tag (pdu_members ! n) = CONTEXT n"
    using assms(2) by (auto simp: less_2_cases_iff prim_DEFs)
  show "n < length pdu_members" using assms(2) by simp
  show "asn_bytes (mb_type (pdu_members ! n)) (VLong i) (mb_tag_mode (pdu_members ! n)) (mb_tag (pdu_members ! n)) =
      Some (pdu_int n i)"
    by (simp only: t) (simp add: eff_tag_def)
  show "length (pdu_int n i) < 2 ^ 30"
    using skip_native_short [of i] assms(2)
    by (simp add: tlv_def TL_bytes_def ber_tlv_tag_serialize_def der_tlv_length_serialize_def Let_def)
  show "ber_decoder (mb_type (pdu_members ! n)) (stk - 1) (pdu_int n i @ rest) (mb_tag_mode (pdu_members ! n)) =
      Some (RC_OK (length (pdu_int n i)) (VLong i))" for rest
    using assms NativeInteger_codec(2) [of "[UNIVERSAL 2]" "-1" "CONTEXT n" "stk - 1" i "pdu_int n i" rest]
    by (simp only: t) (simp add: long_ok_def one_tag_def tags_ok_def eff_tag_def tlv_def)
qed

lemma rspro_dec_stuck:
  assumes m: "msg_ok m" "asn_bytes asn_DEF_RsproPDUchoice (VChoice (msg_val m)) 0 0 = Some a" "length a < 2 ^ 30"
    and i: "long_ok v" "long_ok t" and y: "y \<noteq> 0" and stk: "7 \<le> stk"
  shows "rspro_dec_msg stk ([0x30, 0x80] @ pdu_int 0 v @ pdu_int 1 t @ [0xA2, 0x80] @ a @ [0, y] @ rest) = None"
proof -
  let ?ms = "map (map_asn_member ber_decoder) pdu_members" and ?msg = "[0xA2, 0x80] @ a @ 0 # y # rest"
  have "ber_check_tags (stk - 1 - 1) [] True ?msg 1 (-1) = Some (RC_OK (length [0xA2 :: 8 word, 0x80]) (-1, True))"
    using stk by (simp add: ber_check_tags_def check_tags_loop.simps(2) Let_def BER_TLV_CONSTRUCTED_def)
  moreover have "asn_depth asn_DEF_RsproPDUchoice \<le> stk - 1" using stk by (simp add: RsproPDUchoice_wf)
  ultimately have "ber_decoder asn_DEF_RsproPDUchoice (stk - 1) ?msg 1 = None"
    using CHOICE_stuck [OF RsproPDUchoice_wf(1) [unfolded asn_DEF_RsproPDUchoice_def]] msg_fits [OF m(1)] m y
    unfolding asn_DEF_RsproPDUchoice_def by blast
  then have "seq_phase1 stk ?ms pdu_specs (2, ?msg, -1, n, acc) = None" for n acc
    by (intro seq_phase1_stuck [where t = "CONTEXT 2" and k = 1]) (simp_all add: find_member_def Let_def mb_open_def)
  moreover have "seq_phase1 stk ?ms pdu_specs (n, pdu_int n i @ r, -1, csm, acc) =
      seq_phase1 stk ?ms pdu_specs (n + 1, r, -1, csm + length (pdu_int n i), acc[n := Some (VLong i)])"
    if "long_ok i" "n < 2" for n i r csm acc
    using that stk by (intro seq_phase1_indefinite pdu_int_part_ok pdu_int_first) auto
  note this [OF i(1), of 0] this [OF i(2), of 1]
  ultimately have "seq_phase1 stk ?ms pdu_specs (0, pdu_int 0 v @ pdu_int 1 t @ ?msg, -1, n, acc) = None" for n acc
    by (simp del: append.simps list.map add: numeral_2_eq_2)
  then show ?thesis
    using stk by (simp add: rspro_dec_msg_def ber_decode_def asn_DEF_RsproPDU_def SEQUENCE_decode_ber_def
        ber_check_tags_def check_tags_loop.simps(2) Let_def BER_TLV_CONSTRUCTED_def)
qed

text \<open>The tags of the alternatives are the context tags 0 to 20.\<close>

abbreviation alternative_tags :: "nat list" where
  "alternative_tags \<equiv> map (\<lambda>n. CONTEXT n) [0..<21]"

lemma RsproPDUchoice_skips:
  assumes "u \<notin> set alternative_tags" "u < 2 ^ 32" "length (tlv u c b) < 2 ^ 30" "2 \<le> stk"
  shows "ber_decoder asn_DEF_RsproPDUchoice stk (tlv (CONTEXT 2) True (tlv u c b) @ rest) 1 =
    Some (RC_OK (length (tlv (CONTEXT 2) True (tlv u c b))) (VChoice None))"
  unfolding asn_DEF_RsproPDUchoice_def
  by (rule CHOICE_skips [where u = u and c = c and b = b and tag = "CONTEXT 2"])
     (use assms in \<open>simp_all add: t2m_def upt_rec\<close>)

lemma rspro_dec_unknown:
  assumes i: "long_ok v" "long_ok t" and u: "u \<notin> set alternative_tags" "u < 2 ^ 32"
    and w: "w = pdu_int 0 v @ pdu_int 1 t @ tlv (CONTEXT 2) True (tlv u c b)" "length w < 2 ^ 30" and stk: "3 \<le> stk"
  shows "rspro_dec_msg stk (tlv (UNIVERSAL 16) True w @ rest) =
    Some (Some \<lparr>pdu_version = v, pdu_tag = t, pdu_msg = PR_NOTHING\<rparr>)"
proof -
  let ?m = "tlv (CONTEXT 2) True (tlv u c b)" and ?ms = "map (map_asn_member ber_decoder) pdu_members"
  let ?ps = "[Some (pdu_int 0 v, VLong v), Some (pdu_int 1 t, VLong t), Some (?m, VChoice None)]"
  have l: "length ?m < 2 ^ 30" "length (tlv u c b) < 2 ^ 30" using w by (simp_all add: tlv_def)
  have "\<exists>k. ber_fetch_tag (?m @ r) = FGot (CONTEXT 2) k" for r using l by (intro tlv_fetch) auto
  then have p: "part_ok stk ?ms pdu_specs 2 (?m, VChoice None)"
    using RsproPDUchoice_skips [OF u l(2), of "stk - 1"] stk
    by (auto simp: part_ok_def find_member_def Let_def mb_open_def le_Suc_eq numeral_2_eq_2)
  have "ber_decoder asn_DEF_RsproPDU stk (tlv (eff_tag [UNIVERSAL 16] 0 0) True (parts_bytes ?ps) @ rest) 0 =
      Some (RC_OK (length (tlv (eff_tag [UNIVERSAL 16] 0 0) True (parts_bytes ?ps))) (VSeq (map (map_option snd) ?ps)))"
    unfolding asn_DEF_RsproPDU_def
  proof (rule SEQUENCE_reads_parts)
    show "asn_wf (TSequence [UNIVERSAL 16] pdu_members pdu_specs)"
      using RsproPDU_wf(1) unfolding asn_DEF_RsproPDU_def .
    show "part_ok stk ?ms pdu_specs n q" if "n < length pdu_members" "?ps ! n = Some q" for n q
      using that p pdu_int_part_ok [OF i(1), of 0] pdu_int_part_ok [OF i(2), of 1] stk
      by (auto simp: less_Suc_eq numeral_3_eq_3 numeral_2_eq_2 simp del: list.map)
  qed (use w stk in \<open>auto simp: one_tag_def less_Suc_eq numeral_3_eq_3\<close>)
  then show ?thesis
    by (simp add: rspro_dec_msg_def ber_decode_def eff_tag_def w(1) val_pdu_def val_msg_def Let_def)
qed

end
