(* ===== verification/Asn_Helpers.thy ===== *)
theory Asn_Helpers
  imports Rspro_Asn
begin

text \<open>
  The helpers of \<^verbatim>\<open>src/asn1c_helpers.c\<close>, which look up the names of a message and of a result code for
  the log: where the name is the right one, and where the table is read outside its bounds.
  \<open>None\<close> is an access outside the table.
\<close>

text \<open>\<open>_fetch_present_idx\<close>: the selector of a CHOICE, 0 for none and 1 for the first alternative.\<close>

definition fetch_present_idx :: "asn_val \<Rightarrow> int" where
  "fetch_present_idx v = (case v of VChoice (Some (n, _)) \<Rightarrow> int n + 1 | _ \<Rightarrow> 0)"

definition asn_elements :: "asn_type \<Rightarrow> asn_type asn_member list" where
  "asn_elements td = (case td of TChoice tags ms sp \<Rightarrow> ms | TSequence tags ms sp \<Rightarrow> ms | _ \<Rightarrow> [])"

definition asn_choice_name :: "asn_type \<Rightarrow> asn_val \<Rightarrow> string option" where
  "asn_choice_name td sptr =
     (let present = fetch_present_idx sptr
      in if present < 0 \<or> int (length (asn_elements td)) \<le> present then Some ''<invalid>''
         else if present = 0 then None
         else Some (mb_name (asn_elements td ! nat (present - 1))))"

definition rspro_msgt_name :: "RsproPDU_t \<Rightarrow> string option" where
  "rspro_msgt_name pdu = asn_choice_name asn_DEF_RsproPDUchoice (VChoice (msg_val (pdu_msg pdu)))"

type_synonym asn_enum_map = "(int \<times> string) list"

definition asn_enum_name :: "asn_enum_map \<Rightarrow> int \<Rightarrow> string" where
  "asn_enum_name value2enum data =
     (if data < 0 \<or> int (length value2enum) \<le> data then ''<invalid>'' else snd (value2enum ! nat data))"

definition asn_MAP_ResultCode :: asn_enum_map where
  "asn_MAP_ResultCode = [(0, ''ok''), (1, ''illegalClientId''), (2, ''illegalBankId''), (3, ''illegalSlotId''),
     (4, ''unsupportedProtocolVersion''), (5, ''unknownSlotmap''), (6, ''identityInUse''), (100, ''cardNotPresent''),
     (101, ''cardUnresponsive''), (102, ''cardTransmissionError'')]"

text \<open>The name of a message is right for every alternative but the last of the descriptor, and outside the
  table for a PDU without a message.\<close>

lemma rspro_msgt_name_alternative:
  assumes "msg_val (pdu_msg p) = Some (n, x)" "n < 20"
  shows "rspro_msgt_name p = Some (mb_name (asn_elements asn_DEF_RsproPDUchoice ! n))"
  using assms
  by (simp add: rspro_msgt_name_def asn_choice_name_def fetch_present_idx_def asn_elements_def asn_DEF_RsproPDUchoice_def)

lemma rspro_msgt_name_last:
  "pdu_msg p = bankSlotStatusInd b c s \<Longrightarrow> rspro_msgt_name p = Some ''<invalid>''"
  by (simp add: rspro_msgt_name_def asn_choice_name_def fetch_present_idx_def asn_elements_def asn_DEF_RsproPDUchoice_def)

lemma rspro_msgt_name_nothing: "pdu_msg p = PR_NOTHING \<Longrightarrow> rspro_msgt_name p = None"
  by (simp add: rspro_msgt_name_def asn_choice_name_def fetch_present_idx_def asn_elements_def asn_DEF_RsproPDUchoice_def)

text \<open>The name of a result code: the table is indexed by position, so the codes from 100 on have no name,
  and 7, 8 and 9, which are no codes, have theirs.\<close>

lemma result_code_name:
  assumes "(v, name) \<in> set asn_MAP_ResultCode"
  shows "asn_enum_name asn_MAP_ResultCode v = (if v < 100 then name else ''<invalid>'')"
  using assms by (auto simp: asn_MAP_ResultCode_def asn_enum_name_def)

lemma result_code_name_wrong: "asn_enum_name asn_MAP_ResultCode 7 = ''cardNotPresent''"
  by (simp add: asn_MAP_ResultCode_def asn_enum_name_def)

end
