(* ===== verification/Rspro_Wire_Props.thy ===== *)
theory Rspro_Wire_Props
  imports Rspro_Wire Asn_Helpers
begin

text \<open>
  The properties of the RSPRO codec: what is encoded is decoded to itself; messages cannot be
  mistaken for one another; the decoder stays inside the message; commands and responses of up to
  896 octets always fit the message buffer; a message of a later version of the protocol is
  decoded without its unknown part; and where the decoder comes back and where it does not.
\<close>

unbundle bit_operations_syntax

section \<open>A command of the modem on the wire\<close>

lemma length_two_octets:
  assumes "n < 65536"
  shows "length (snd (der_tlv_length_serialize n 26)) \<le> 3"
proof -
  have l: "length (length_fill j x) = j" for j x by (induction j) auto
  have "required_loop 8 64 n 16 2 = 2" using assms by (subst required_loop.simps) simp
  then have "required_loop 8 64 n 8 1 \<le> 2" by (subst required_loop.simps) (simp add: numeral_2_eq_2)
  then show ?thesis by (simp add: der_tlv_length_serialize_def Let_def l)
qed

lemma tlv_medium:
  assumes "tag div 4 \<le> 30" "length b < 65536"
  shows "length (tlv tag c b) \<le> length b + 4"
  using length_two_octets [OF assms(2)] assms(1)
  by (simp add: tlv_def TL_bytes_def ber_tlv_tag_serialize_def set_constructed_def Let_def)

text \<open>The encoding of a command or of a response: at most 120 octets more than its data.\<close>

abbreviation slot_bytes :: "int \<Rightarrow> int \<Rightarrow> bytes" where
  "slot_bytes x y \<equiv> tlv (UNIVERSAL 16) True (tlv (UNIVERSAL 2) False (skip_leading (native_bytes x)) @
     tlv (UNIVERSAL 2) False (skip_leading (native_bytes y)))"

abbreviation flags_bytes :: bytes where
  "flags_bytes \<equiv> tlv (UNIVERSAL 16) True (concat (replicate 4 (tlv (UNIVERSAL 1) False [0])))"

lemma int_length: "tag div 4 \<le> 30 \<Longrightarrow> length (tlv tag False (skip_leading (native_bytes x))) \<le> 12"
  using tlv_medium [of tag "skip_leading (native_bytes x)" False] skip_native_short [of x] by simp

lemma slot_length: "length (slot_bytes x y) \<le> 28"
proof -
  let ?b = "tlv 8 False (skip_leading (native_bytes x)) @ tlv 8 False (skip_leading (native_bytes y))"
  have "length ?b \<le> 24" using int_length [of 8 x] int_length [of 8 y] by simp
  then show ?thesis using tlv_medium [of 64 ?b True] by simp
qed

lemma flags_length: "length flags_bytes \<le> 24"
proof -
  have "length (tlv 4 False [0]) \<le> 5" using tlv_medium [of 4 "[0]" False] by simp
  then have "length (concat (replicate 4 (tlv 4 False [0]))) \<le> 20" by (simp add: numeral_eq_Suc)
  then show ?thesis using tlv_medium [of 64 "concat (replicate 4 (tlv 4 False [0]))" True] by simp
qed

lemma tpdu_length:
  assumes "length d \<le> 60000" "mt div 4 \<le> 30"
  shows "length (tlv (UNIVERSAL 16) True (pdu_int 0 v @ pdu_int 1 t @ tlv (CONTEXT 2) True (tlv mt True
      (slot_bytes a b @ slot_bytes e f @ flags_bytes @ tlv (UNIVERSAL 4) False d)))) \<le> length d + 120"
proof -
  let ?m = "slot_bytes a b @ slot_bytes e f @ flags_bytes @ tlv (UNIVERSAL 4) False d"
  let ?p = "pdu_int 0 v @ pdu_int 1 t @ tlv (CONTEXT 2) True (tlv mt True ?m)"
  have "length (tlv (UNIVERSAL 4) False d) \<le> length d + 4" using tlv_medium [of "UNIVERSAL 4" d False] assms by simp
  then have "length ?m \<le> length d + 84" using slot_length [of a b] slot_length [of e f] flags_length by simp
  then have "length (tlv mt True ?m) \<le> length d + 88" using tlv_medium [of mt ?m True] assms by simp
  then have "length (tlv (CONTEXT 2) True (tlv mt True ?m)) \<le> length d + 92"
    using tlv_medium [of "CONTEXT 2" "tlv mt True ?m" True] assms by simp
  then have "length ?p \<le> length d + 116" using int_length [of "CONTEXT 0" v] int_length [of "CONTEXT 1" t] by simp
  then show ?thesis using tlv_medium [of "UNIVERSAL 16" ?p True] assms by simp
qed

lemma tpdu_bytes:
  "asn_bytes asn_DEF_RsproPDU (pdu_val \<lparr>pdu_version = v, pdu_tag = t, pdu_msg = tpduModemToCard c bs no_flags d\<rparr>) 0 0 =
     Some (tlv (UNIVERSAL 16) True (pdu_int 0 v @ pdu_int 1 t @ tlv (CONTEXT 2) True (tlv (CONTEXT 12) True
       (slot_bytes (cs_clientId c) (cs_slotNr c) @ slot_bytes (bs_bankId bs) (bs_slotNr bs) @ flags_bytes @
        tlv (UNIVERSAL 4) False d))))"
  "asn_bytes asn_DEF_RsproPDU (pdu_val \<lparr>pdu_version = v, pdu_tag = t, pdu_msg = tpduCardToModem bs c no_flags d\<rparr>) 0 0 =
     Some (tlv (UNIVERSAL 16) True (pdu_int 0 v @ pdu_int 1 t @ tlv (CONTEXT 2) True (tlv (CONTEXT 13) True
       (slot_bytes (bs_bankId bs) (bs_slotNr bs) @ slot_bytes (cs_clientId c) (cs_slotNr c) @ flags_bytes @
        tlv (UNIVERSAL 4) False d))))"
  by (simp_all add: pdu_val_def asn_DEF_RsproPDU_def asn_DEF_RsproPDUchoice_def asn_DEF_TpduModemToCard_def
      asn_DEF_TpduCardToModem_def struct_DEFs prim_DEFs ClientSlot_val_def BankSlot_val_def TpduFlags_val_def no_flags_def
      eff_tag_def numeral_eq_Suc)

text \<open>Data of up to 896 octets, for slots in the range of their C types, always fits the message buffer of
  1016 octets, and the other end decodes exactly the PDU.\<close>

lemma tpdu_on_the_wire:
  assumes m: "pdu_msg p = tpduModemToCard c bs no_flags d \<or> pdu_msg p = tpduCardToModem bs c no_flags d"
    and ok: "long_ok (pdu_version p)" "long_ok (pdu_tag p)" "slots_ok (Some bs) (Some c)" "length d \<le> 896" "7 \<le> stk"
  shows "\<exists>b. rspro_enc_msg 1016 p = Some (Some b) \<and> rspro_dec_msg stk (b @ rest) = Some (Some p)"
proof -
  obtain v t where p: "p = \<lparr>pdu_version = v, pdu_tag = t, pdu_msg = pdu_msg p\<rparr>" by (cases p) simp
  have "pdu_ok p" using m ok by (auto simp: pdu_ok_def)
  moreover obtain b where b: "asn_bytes asn_DEF_RsproPDU (pdu_val p) 0 0 = Some b" "length b \<le> length d + 120"
    using m tpdu_length [of d "CONTEXT 12" v t] tpdu_length [of d "CONTEXT 13" v t] ok(4)
    by (subst (asm) (1 2) p) (auto simp: tpdu_bytes simp del: replicate.simps) 
  moreover have "wire_pdu p = p"
    using m by (cases p) (auto simp: wire_pdu_def wire_flags_def wire_bool_def no_flags_def)
  ultimately show ?thesis
    using rspro_enc_bytes [of p b 1016] rspro_dec_bytes [of p b stk rest] ok(4,5) by auto
qed

section \<open>Properties\<close>

text \<open>C4. A PDU whose fields are in the range of their C types is encoded as the distinguished
  encoding of its ASN.1 type if that fits the message buffer, and refused (NULL) otherwise; the
  assertion of the encoder never fails. The decoder reads these octets back to the same PDU,
  whatever follows them in the buffer; only a BOOLEAN comes back as 0 or 255. Seven nested codec
  calls are enough stack.\<close>

theorem wire_roundtrip:
  assumes "pdu_ok p" "asn_bytes asn_DEF_RsproPDU (pdu_val p) 0 0 = Some b" "length b < 2 ^ 30" "7 \<le> stk"
  shows "rspro_enc_msg tailroom p = Some (if length b \<le> tailroom then Some b else None) \<and>
    rspro_dec_msg stk (b @ rest) = Some (Some (wire_pdu p))"
  using rspro_enc_bytes [OF assms(1-3)] rspro_dec_bytes [OF assms] by blast

abbreviation example_pdu :: "int \<Rightarrow> RsproPDU_t" where
  "example_pdu h \<equiv> \<lparr>pdu_version = 2, pdu_tag = 300, pdu_msg = tpduCardToModem \<lparr>bs_bankId = 1, bs_slotNr = 2\<rparr>
     \<lparr>cs_clientId = 3, cs_slotNr = 128\<rparr> \<lparr>tf_tpduHeaderPresent = h, tf_finalPart = 1, tf_procByteContinueTx = 0,
     tf_procByteContinueRx = 0\<rparr> [0x90, 0]\<rparr>"

abbreviation example_octets :: bytes where
  "example_octets \<equiv> [0x30, 0x2E, 0x80, 1, 2, 0x81, 2, 1, 0x2C, 0xA2, 0x25, 0xAD, 0x23,
     0x30, 6, 2, 1, 1, 2, 1, 2, 0x30, 7, 2, 1, 3, 2, 2, 0, 0x80,
     0x30, 12, 1, 1, 0xFF, 1, 1, 0xFF, 1, 1, 0, 1, 1, 0, 4, 2, 0x90, 0]"

lemma tlv_short:
  "tag div 4 \<le> 30 \<Longrightarrow> length b \<le> 127 \<Longrightarrow> tlv tag c b =
     (let t = word_of_nat (tag mod 4 * 64 + tag div 4) in if c then t OR 32 else t) # word_of_nat (length b) # b"
  by (simp add: tlv_def TL_bytes_def ber_tlv_tag_serialize_def der_tlv_length_serialize_def set_constructed_def Let_def)

lemma example_ints:
  "skip_leading (native_bytes 1) = [1]" "skip_leading (native_bytes 2) = [2]" "skip_leading (native_bytes 3) = [3]"
  "skip_leading (native_bytes 300) = [1, 0x2C]" "skip_leading (native_bytes 128) = [0, 0x80]"
proof -
  have "rev [0..<8] = [7, 6, 5, 4, 3, 2, 1, 0 :: nat]" by (simp add: upt_rec)
  then have "native_bytes i = [word_of_int (i div 2 ^ 56), word_of_int (i div 2 ^ 48), word_of_int (i div 2 ^ 40),
      word_of_int (i div 2 ^ 32), word_of_int (i div 2 ^ 24), word_of_int (i div 2 ^ 16), word_of_int (i div 2 ^ 8),
      word_of_int i]" for i
    by (simp add: native_bytes_def)
  then show "skip_leading (native_bytes 1) = [1]" "skip_leading (native_bytes 2) = [2]"
    "skip_leading (native_bytes 3) = [3]" "skip_leading (native_bytes 300) = [1, 0x2C]"
    "skip_leading (native_bytes 128) = [0, 0x80]"
    by simp_all
qed

lemma example_encoding: "h \<noteq> 0 \<Longrightarrow> asn_bytes asn_DEF_RsproPDU (pdu_val (example_pdu h)) 0 0 = Some example_octets"
proof -
  assume "h \<noteq> 0"
  then have "asn_bytes asn_DEF_RsproPDU (pdu_val (example_pdu h)) 0 0 = Some (tlv 64 True (
      tlv 2 False [2] @ tlv 6 False [1, 0x2C] @ tlv 10 True (tlv 54 True (
        tlv 64 True (tlv 8 False [1] @ tlv 8 False [2]) @ tlv 64 True (tlv 8 False [3] @ tlv 8 False [0, 0x80]) @
        tlv 64 True (tlv 4 False [0xFF] @ tlv 4 False [0xFF] @ tlv 4 False [0] @ tlv 4 False [0]) @
        tlv 16 False [0x90, 0]))))"
    by (simp add: pdu_val_def asn_DEF_RsproPDU_def asn_DEF_RsproPDUchoice_def asn_DEF_TpduCardToModem_def struct_DEFs
        prim_DEFs ClientSlot_val_def BankSlot_val_def TpduFlags_val_def eff_tag_def example_ints numeral_2_eq_2)
  then show ?thesis by (simp add: tlv_short)
qed

lemma example_ok: "pdu_ok (example_pdu h)"
  by (simp add: pdu_ok_def long_ok_def slots_ok_def)

lemma wire_roundtrip_witness:
  "rspro_enc_msg 1016 (example_pdu 1) = Some (Some example_octets) \<and>
   rspro_dec_msg 7 (example_octets @ [0, 1]) = Some (Some (wire_pdu (example_pdu 1))) \<and>
   rspro_enc_msg 47 (example_pdu 1) = Some None"
  using wire_roundtrip [OF example_ok example_encoding, of 1, of 7 1016 "[0, 1]"]
    wire_roundtrip [OF example_ok example_encoding, of 1, of 7 47 "[0, 1]"] by simp

text \<open>C9. No encoded PDU is the beginning of the encoding of another one: two PDUs with encodings \<open>b\<close> and
  \<open>b @ r\<close> are the same PDU, up to the value of their BOOLEANs. In particular equal octets mean equal
  PDUs.\<close>

theorem wire_unambiguous:
  assumes "pdu_ok p" "pdu_sized p" "pdu_ok q" "pdu_sized q"
    "rspro_enc_msg tailroom p = Some (Some b)" "rspro_enc_msg tailroom q = Some (Some (b @ r))"
  shows "wire_pdu p = wire_pdu q"
  using rspro.enc_unambiguous assms by blast

lemma example_sized: "h \<noteq> 0 \<Longrightarrow> pdu_sized (example_pdu h)"
  using example_encoding [of h] by (simp add: pdu_sized_def del: asn_bytes.simps)

lemma wire_unambiguous_witness:
  "rspro_enc_msg 1016 (example_pdu 1) = Some (Some example_octets) \<and>
   rspro_enc_msg 1016 (example_pdu 7) = Some (Some (example_octets @ [])) \<and>
   wire_pdu (example_pdu 1) = wire_pdu (example_pdu 7)"
proof -
  have e: "rspro_enc_msg 1016 (example_pdu h) = Some (Some example_octets)" if "h \<noteq> 0" for h
    using rspro_enc_bytes [OF example_ok example_encoding [OF that]] by simp
  with wire_unambiguous [OF example_ok example_sized example_ok example_sized e [of 1], of 7 "[]"] show ?thesis by simp
qed

text \<open>C7. Whatever octets arrive, the decoder never consumes more of them than there are, in every
  result it returns: success, failure or "want more".\<close>

theorem dec_within_message:
  assumes "ber_decode stk asn_DEF_RsproPDU msg = Some d"
  shows "dec_consumed d \<le> length msg"
  using ber_decoder_in_bounds [OF RsproPDU_wf(5)] assms by (simp add: in_bounds_def ber_decode_def)

lemma dec_within_message_witness:
  "ber_decode 7 asn_DEF_RsproPDU (example_octets @ [0, 1]) =
     Some (RC_OK 48 (asn_norm (pdu_val (example_pdu 1)))) \<and>
   dec_consumed (RC_OK 48 (asn_norm (pdu_val (example_pdu 1)))) \<le> length (example_octets @ [0, 1])"
proof -
  have "ber_decode 7 asn_DEF_RsproPDU (example_octets @ [0, 1]) = Some (RC_OK 48 (asn_norm (pdu_val (example_pdu 1))))"
    using ber_decoder_reads [OF RsproPDU_wf(1) RsproPDU_mode _ pdu_fits [OF example_ok] example_encoding, of 1 7 "[0, 1]"]
    by (simp add: ber_decode_def RsproPDU_wf)
  with dec_within_message [OF this] show ?thesis by blast
qed

text \<open>C6. Every message of the protocol by itself (the CHOICE of all 21 messages, with everything
  inside them) is decoded to an answer, whatever the octets are: no loop runs forever and no
  assertion of the runtime fails.\<close>

theorem choice_dec_returns: "\<exists>d. ber_decode stk asn_DEF_RsproPDUchoice msg = Some d"
  using ber_decoder_returns [OF RsproPDUchoice_untagged RsproPDUchoice_wf(5), of stk msg] by (auto simp: ber_decode_def)

text \<open>C5. The PDU around it is another matter, since it holds the message under an explicit tag: if a
  peer sends that tag with the indefinite length, then any message, then a zero octet followed by one
  that is not zero, the decoder never returns. Every program that decodes RSPRO is stopped by such
  a message.\<close>

theorem dec_endless:
  assumes "msg_ok m" "asn_bytes asn_DEF_RsproPDUchoice (VChoice (msg_val m)) 0 0 = Some a" "length a < 2 ^ 30"
    "long_ok v" "long_ok t" "y \<noteq> 0" "7 \<le> stk"
  shows "rspro_dec_msg stk ([0x30, 0x80] @ pdu_int 0 v @ pdu_int 1 t @ [0xA2, 0x80] @ a @ [0, y] @ rest) = None"
  by (rule rspro_dec_stuck [OF assms])

lemma dec_endless_witness:
  "rspro_dec_msg 7 [0x30, 0x80, 0x80, 1, 2, 0x81, 1, 1, 0xA2, 0x80, 0xB3, 0, 0, 5] = None"
proof -
  have "asn_bytes asn_DEF_RsproPDUchoice (VChoice (msg_val resetStateReq)) 0 0 = Some (tlv 78 True [])"
    by (simp add: asn_DEF_RsproPDUchoice_def asn_DEF_ResetStateReq_def eff_tag_def)
  then have a: "asn_bytes asn_DEF_RsproPDUchoice (VChoice (msg_val resetStateReq)) 0 0 = Some [0xB3, 0]"
    by (simp add: tlv_short)
  have "pdu_int 0 2 = [0x80, 1, 2]" "pdu_int 1 1 = [0x81, 1, 1]" by (simp_all add: example_ints tlv_short)
  then show ?thesis
    using dec_endless [OF _ a, of 2 1 5 7 "[]"] by (simp add: long_ok_def)
qed

text \<open>C8. A message that a later version of the protocol adds (an alternative with a tag other than 0 to
  20, of any content) is skipped: the PDU is decoded with its version and tag and with no message
  selected. To ask for the name of that message, as the worker of bankd does for its log, then reads
  in front of the table of alternatives.\<close>

theorem dec_unknown_message:
  assumes "long_ok v" "long_ok t" "u \<notin> set alternative_tags" "u < 2 ^ 32" "3 \<le> stk"
    "w = pdu_int 0 v @ pdu_int 1 t @ tlv (CONTEXT 2) True (tlv u c b)" "length w < 2 ^ 30"
    "pdu = \<lparr>pdu_version = v, pdu_tag = t, pdu_msg = PR_NOTHING\<rparr>"
  shows "rspro_dec_msg stk (tlv (UNIVERSAL 16) True w @ rest) = Some (Some pdu) \<and> rspro_msgt_name pdu = None"
  using rspro_dec_unknown [OF assms(1-4,6,7,5), of rest] assms(8) by (simp add: rspro_msgt_name_nothing)

lemma dec_unknown_message_witness:
  "rspro_dec_msg 7 [0x30, 11, 0x80, 1, 2, 0x81, 1, 1, 0xA2, 3, 0xB5, 1, 7] =
     Some (Some \<lparr>pdu_version = 2, pdu_tag = 1, pdu_msg = PR_NOTHING\<rparr>) \<and>
   rspro_msgt_name \<lparr>pdu_version = 2, pdu_tag = 1, pdu_msg = PR_NOTHING\<rparr> = None"
proof -
  have w: "pdu_int 0 2 @ pdu_int 1 1 @ tlv (CONTEXT 2) True (tlv (CONTEXT 21) True [7]) =
      [0x80, 1, 2, 0x81, 1, 1, 0xA2, 3, 0xB5, 1, 7]"
    by (simp add: example_ints tlv_short)
  moreover have "CONTEXT 21 \<notin> set alternative_tags" by auto
  ultimately show ?thesis
    using dec_unknown_message [of 2 1 "CONTEXT 21" 7 _ True "[7]" _ "[]", OF _ _ _ _ _ w [symmetric] _ refl]
    by (simp add: long_ok_def tlv_short)
qed

end
