(* ===== verification/End_To_End.thy ===== *)
theory End_To_End
  imports Client_Props Bankd_Relay Bankd_Session Rspro_Wire_Props
begin

text \<open>
  remsim-client and remsim-bankd together: the way of a command from the modem to the card and of
  the answer back, through the encoder and decoder of RSPRO. What is left out between the two is
  the TCP connection. The environments of both programs have the encoder and decoder as components;
  here they are the ones of the ASN.1 runtime.
\<close>

section \<open>The codec in the environments\<close>

definition encoded :: "RsproPDU_t \<Rightarrow> bool" where
  "encoded p = (case rspro_enc_msg 1016 p of Some (Some _) \<Rightarrow> True | _ \<Rightarrow> False)"

definition decoded :: "nat \<Rightarrow> bytes \<Rightarrow> RsproPDU_t option" where
  "decoded stk m = (case rspro_dec_msg stk m of Some r \<Rightarrow> r | None \<Rightarrow> None)"

definition client_codec :: "client_env \<Rightarrow> bool" where
  "client_codec C \<longleftrightarrow> documented C \<and> calloc_ok (ce_srvc C) \<and> enc_ok (ce_srvc C) = encoded"

definition worker_codec :: "nat \<Rightarrow> worker_env \<Rightarrow> bankd \<Rightarrow> bool" where
  "worker_codec stk E b \<longleftrightarrow> we_calloc E \<and> we_enc E = encoded \<and> we_dec E = decoded stk \<and> (\<forall>p. we_write E p) \<and>
     gsmtap_host b = None"

text \<open>A message on the TCP connection: the IPA header with its length, the extension and the octets.\<close>

definition ipa_rspro :: "bytes \<Rightarrow> bytes" where
  "ipa_rspro m = [word_of_nat ((length m + 1) div 256), word_of_nat (length m + 1), IPAC_PROTO_OSMO, IPAC_PROTO_EXT_RSPRO] @ m"

lemma tpdu_encoded:
  assumes "pdu_msg p = tpduModemToCard c bs no_flags d \<or> pdu_msg p = tpduCardToModem bs c no_flags d"
    "long_ok (pdu_version p)" "long_ok (pdu_tag p)" "slots_ok (Some bs) (Some c)" "length d \<le> 896" "7 \<le> stk"
  shows "\<exists>m. rspro_enc_msg 1016 p = Some (Some m) \<and> rspro_dec_msg stk m = Some (Some p) \<and> encoded p \<and> decoded stk m = Some p"
  using tpdu_on_the_wire [OF assms, of "[]"] by (auto simp: encoded_def decoded_def)

lemma bank_slot_ok: "long_ok (cs_clientId c) \<Longrightarrow> long_ok (cs_slotNr c) \<Longrightarrow> slots_ok (Some (bank_slot2rspro b)) (Some c)"
proof -
  assume c: "long_ok (cs_clientId c)" "long_ok (cs_slotNr c)"
  have "long_ok (uint x)" for x :: u16
  proof -
    have "- (2 ^ 63) \<le> uint x" by (rule order_trans [of _ 0]) simp_all
    then show ?thesis using uint_bounded [of x] by (simp add: long_ok_def)
  qed
  with c show ?thesis by (simp add: slots_ok_def bank_slot2rspro_def)
qed

section \<open>A command and its answer\<close>

lemma tpdu_handled:
  assumes "we_calloc E" "\<forall>p. we_write E p" "gsmtap_host b = None" "i < length (b_workers b)" "w = b_workers b ! i"
    and "w_state w = BW_ST_CONN_CLIENT_MAPPED_CARD" "w_slot w = rspro2bank_slot tb" "w_clslot w = rspro2client_slot fc"
    and "\<not> (ki_enabled b \<and> is_virtual_slot b w)" "transmit_r P (w_hCard w) d = (0, r)"
    and "pdu_msg pdu = tpduModemToCard fc tb fl d"
    and "we_enc E \<lparr>pdu_version = 2, pdu_tag = 0, pdu_msg = tpduCardToModem tb fc no_flags r\<rparr>"
  shows "worker_handle_rspro (pcsc_driver_ops P b) E b i pdu =
     Some (0, set_worker i (bw_emit (WTx \<lparr>pdu_version = 2, pdu_tag = 0, pdu_msg = tpduCardToModem tb fc no_flags r\<rparr>)
       (bw_emit (ScTransmit (w_hCard w) d) w)) b)"
  using assms
  by (auto simp: worker_handle_rspro_def worker_handle_tpduModemToCard_def tpdu_exchange_def pcsc_driver_ops_def
      pcsc_transceive_def tpdu_respond_def bank_slot_equals_def client_slot_equals_def worker_send_rspro_def
      rspro_gen_TpduCard2Modem_def mk_pdu_def gsmtap_enabled_def set_worker_def int_of_long_def)

lemma ipa_rspro_handled:
  assumes "we_dec E m = Some pdu" "worker_handle_rspro D E b i pdu = Some (0, b1)"
  shows "worker_handle_ipa D E b i (ipa_rspro m) (length m + 1) = Some (0, b1)"
  using assms by (simp add: worker_handle_ipa_def ipa_rspro_def sizeof_ipaccess_head_def)

text \<open>C3. A command of the modem reaches the card and the card's answer reaches the modem, unchanged, with
  the encoder and decoder of RSPRO in between. In an OPERATIONAL client, a TPDU of the modem is sent
  to bankd as one message, which the encoder accepts; of its octets the worker that has the card
  of the client's mapping open transmits exactly the modem's bytes to exactly that card, once, and
  sends one message back, which is encoded and decoded to itself; and the client hands exactly the
  card's bytes to the frontend. No other worker of the bank does anything. (Command and answer have
  at most 896 octets, the slot is not one of the virtual slots of the Ki proxy, and memory
  and network work.)\<close>

theorem tpdu_end_to_end:
  assumes "client_reach bc" "client_codec C" "documented C'" "main_fi bc = MF_ST_OPERATIONAL"
    and "srvc_clslot (srv_conn bc) = Some cs" "long_ok (cs_clientId cs)" "long_ok (cs_slotNr cs)"
    and "worker_codec stk E b" "7 \<le> stk" "i < length (b_workers b)" "w = b_workers b ! i" "w_state w = BW_ST_CONN_CLIENT_MAPPED_CARD"
    and "w_slot w = bankd_slot bc" "w_clslot w = rspro2client_slot cs"
    and "\<not> (ki_enabled b \<and> is_virtual_slot b w)" "transmit_r P (w_hCard w) d = (0, r)"
    and "length d \<le> 896" "length r \<le> 896"
  shows "\<exists>bc1 req m1 b1 resp m2 bc2.
     client_do C (CModemTpdu d) bc = Some (0, bc1) \<and>
     srvc_out (bankd_conn bc1) = srvc_out (bankd_conn bc) @ [TxRspro req] \<and> bc_out bc1 = bc_out bc \<and>
     rspro_enc_msg 1016 req = Some (Some m1) \<and>
     worker_handle_ipa (pcsc_driver_ops P b) E b i (ipa_rspro m1) (length m1 + 1) = Some (0, b1) \<and>
     w_out (b_workers b1 ! i) = w_out w @ [ScTransmit (w_hCard w) d, WTx resp] \<and>
     (\<forall>j. j \<noteq> i \<longrightarrow> b_workers b1 ! j = b_workers b ! j) \<and>
     rspro_enc_msg 1016 resp = Some (Some m2) \<and> rspro_dec_msg stk m2 = Some (Some resp) \<and>
     client_do C' (CBankdRx resp) bc1 = Some (0, bc2) \<and> bc_out bc2 = bc_out bc @ [FeCard2Modem r]"
proof -
  define req where "req = \<lparr>pdu_version = 2, pdu_tag = 0, pdu_msg = tpduModemToCard cs (bank_slot2rspro (bankd_slot bc)) no_flags d\<rparr>"
  define resp where "resp = \<lparr>pdu_version = 2, pdu_tag = 0, pdu_msg = tpduCardToModem (bank_slot2rspro (bankd_slot bc)) cs no_flags r\<rparr>"
  define bc1 where "bc1 = bc\<lparr>bankd_conn := emit (TxRspro req) (bankd_conn bc)\<rparr>"
  define b1 where "b1 = set_worker i (bw_emit (WTx resp) (bw_emit (ScTransmit (w_hCard w) d) w)) b"
  note slots = bank_slot_ok [OF assms(6,7), of "bankd_slot bc"]
  obtain m1 where m1: "rspro_enc_msg 1016 req = Some (Some m1)" "encoded req" "decoded stk m1 = Some req"
    using tpdu_encoded [of req cs "bank_slot2rspro (bankd_slot bc)" d stk] slots assms(9,17) by (auto simp: req_def long_ok_def)
  obtain m2 where m2: "rspro_enc_msg 1016 resp = Some (Some m2)" "rspro_dec_msg stk m2 = Some (Some resp)" "encoded resp"
    using tpdu_encoded [of resp cs "bank_slot2rspro (bankd_slot bc)" r stk] slots assms(9,18) by (auto simp: resp_def long_ok_def)
  have C: "documented C" "calloc_ok (ce_srvc C)" "enc_ok (ce_srvc C) req" using assms(2) m1(2) by (auto simp: client_codec_def)
  have E: "we_calloc E" "\<forall>p. we_write E p" "gsmtap_host b = None" "we_enc E resp" "we_dec E m1 = Some req"
    using assms(8) m1 m2 by (auto simp: worker_codec_def)
  have st: "srvc_st (bankd_conn bc) = SRVC_ST_CONNECTED"
    using client_reach_inv [OF assms(1)] assms(4) by (simp add: client_inv_def main_link_def)
  have "client_do C (CModemTpdu d) bc = Some (0, bc1)"
    using assms(4,5) send_bankd_connected [OF C(1) st C(3)] C(2)
    by (simp add: main_dispatch_def main_dispatch_with_def main_allstate_event_mask_def main_action_def main_st_operational_def
        documentedD [OF C(1)] bit_simps rspro_gen_TpduModem2Card_def mk_pdu_def req_def bc1_def)
  moreover have "worker_handle_rspro (pcsc_driver_ops P b) E b i req = Some (0, b1)"
    using tpdu_handled [OF E(1-3) assms(10-12), of "bank_slot2rspro (bankd_slot bc)" cs P d r req no_flags] assms(13-16) E(4)
    by (simp add: req_def b1_def resp_def)
  note ipa_rspro_handled [OF E(5) this]
  moreover have "client_do C' (CBankdRx resp) bc1 = Some (0, fe (FeCard2Modem r) bc1)"
    using assms(4)
    by (simp add: bankd_handle_rx_def resp_def main_dispatch_def main_dispatch_with_def main_allstate_event_mask_def
        main_action_def main_st_operational_def documentedD [OF assms(3)] bit_simps bc1_def)
  moreover have "w_out (b_workers b1 ! i) = w_out w @ [ScTransmit (w_hCard w) d, WTx resp]"
    "\<forall>j. j \<noteq> i \<longrightarrow> b_workers b1 ! j = b_workers b ! j"
    using assms(10) by (simp_all add: b1_def set_worker_def)
  ultimately show ?thesis
    using m1(1) m2(1,2)
    by (intro exI [of _ bc1] exI [of _ req] exI [of _ m1] exI [of _ b1] exI [of _ resp] exI [of _ m2]
        exI [of _ "fe (FeCard2Modem r) bc1"]) (simp add: bc1_def)
qed

definition wire_cenv :: client_env where
  "wire_cenv = (ex_cenv 9)\<lparr>ce_srvc := (ex_env 9)\<lparr>enc_ok := encoded\<rparr>\<rparr>"

definition wire_wenv :: worker_env where
  "wire_wenv = (ex_wenv PR_NOTHING)\<lparr>we_enc := encoded, we_dec := decoded 7\<rparr>"

theorem tpdu_end_to_end_witness:
  "\<exists>bc1 req m1 b1 resp m2 bc2.
     client_do wire_cenv (CModemTpdu [0xa0, 0xa4]) ex_operational = Some (0, bc1) \<and>
     srvc_out (bankd_conn bc1) = srvc_out (bankd_conn ex_operational) @ [TxRspro req] \<and>
     rspro_enc_msg 1016 req = Some (Some m1) \<and>
     worker_handle_ipa (pcsc_driver_ops ex_pcsc ex_mapped) wire_wenv ex_mapped 0 (ipa_rspro m1) (length m1 + 1) = Some (0, b1) \<and>
     w_out (b_workers b1 ! 0) = w_out (b_workers ex_mapped ! 0) @ [ScTransmit 10 [0xa0, 0xa4], WTx resp] \<and>
     rspro_dec_msg 7 m2 = Some (Some resp) \<and>
     client_do (ex_cenv 10) (CBankdRx resp) bc1 = Some (0, bc2) \<and> bc_out bc2 = bc_out ex_operational @ [FeCard2Modem [10, 0x90, 0]]"
proof -
  have t: "transmit_r ex_pcsc 10 [0xa0, 0xa4] = (0, [10, 0x90, 0])"
    "ex_bs 1 0 = bankd_slot ex_operational" "ex_cs 23 0 = rspro2client_slot \<lparr>cs_clientId = 23, cs_slotNr = 0\<rparr>"
    by (simp_all add: ex_pcsc_def ex_bs_def ex_cs_def ex_operational_sel rspro2client_slot_def)
  have "documented (ex_cenv n)" for n using ex_lib_ok by (simp add: client_lib_ok_def)
  then have C: "client_codec wire_cenv" "documented (ex_cenv 10)"
    by (auto simp: client_codec_def wire_cenv_def documented_def ex_cenv_def ex_env_def)
  have E: "worker_codec 7 wire_wenv ex_mapped"
    by (simp add: worker_codec_def wire_wenv_def ex_wenv_def ex_mapped_sel)
  from t tpdu_end_to_end [OF ex_operational_reach C ex_operational_sel(2) ex_operational_sel(6) _ _ E,
      of 0 "b_workers ex_mapped ! 0" ex_pcsc "[0xa0, 0xa4]" "[10, 0x90, 0]"]
  show ?thesis
    by (simp add: ex_mapped_sel long_ok_def) blast
qed

end
