(* ===== verification/Openwrt.thy ===== *)
theory Openwrt
  imports Client_Inv
begin

text \<open>
  The OpenWrt frontend of remsim-client, \<^verbatim>\<open>src/client/user_openwrt.c\<close>: GPIO lines that switch the
  modem between its local and the remote SIM and reset it, and APDUs that travel to and from
  the modem as AT+CSIM commands on a serial line.

  The record \<open>openwrt_state\<close> is the structure of the same name (its pointer to the client is the
  other argument of the functions that use it). Files written, bytes sent to the modem, delays
  and timers are appended to \<open>ow_out\<close>, in order. \<open>ow_env\<close> has the results of opening and writing files
  (0, or the value of \<open>errno\<close>), the variables of the environment, the device files that exist and the
  clock. Numbers that \<open>sscanf\<close> reads are taken as integers; one that does not fit an \<open>int\<close> is
  undefined in C. The IonMesh part, which is compiled only with ENABLE_IONMESH, is not modelled.
\<close>

section \<open>State\<close>

record modem_config =
  mc_sim_switch_gpio :: int
  mc_reset_gpio :: int
  mc_device_path :: "string option"
  mc_is_primary :: bool

record openwrt_stats =
  start_time :: int
  tpdus_sent :: "64 word"
  tpdus_received :: "64 word"
  ow_errors :: "64 word"
  reconnections :: u32
  sim_switches :: u32
  last_signal_check :: int
  last_rssi :: int
  last_rsrp :: int
  last_rsrq :: int
  last_sinr :: int

datatype ow_effect =
    WriteFile string string   \<comment> \<open>open, write, close\<close>
  | ModemTx string            \<comment> \<open>bytes written to the modem\<close>
  | Usleep nat                \<comment> \<open>usleep\<close>
  | OpenDevice string         \<comment> \<open>the modem's device opened and registered\<close>
  | TimerSchedule int         \<comment> \<open>osmo_timer_schedule, seconds\<close>

record openwrt_state =
  sim_switch_gpio :: int
  modem_reset_gpio :: int
  modem_device :: "string option"
  gpio_initialized :: bool
  dual_modem_mode :: bool
  modem1 :: modem_config
  modem2 :: modem_config
  ow_atr_buf :: bytes
  ow_atr_len :: nat
  modem_fd_registered :: bool
  ow_stats :: openwrt_stats
  signal_monitoring_enabled :: bool
  signal_check_interval :: int
  ow_out :: "ow_effect list"

record ow_env =
  ow_open :: "string \<Rightarrow> int"
  ow_write :: "string \<Rightarrow> string \<Rightarrow> int"
  ow_access :: "string \<Rightarrow> bool"
  ow_getenv :: "string \<Rightarrow> string option"
  ow_now :: int
  ow_alloc :: bool
  ow_register :: bool
  ow_zbt :: bool

definition EBUSY :: int where "EBUSY = 16"
definition ENODEV :: int where "ENODEV = 19"
definition ENOSPC :: int where "ENOSPC = 28"
definition ENOTCONN :: int where "ENOTCONN = 107"

definition ow_emit :: "ow_effect \<Rightarrow> openwrt_state \<Rightarrow> openwrt_state" where
  "ow_emit x os = os\<lparr>ow_out := ow_out os @ [x]\<rparr>"

definition ow_stat :: "(openwrt_stats \<Rightarrow> openwrt_stats) \<Rightarrow> openwrt_state \<Rightarrow> openwrt_state" where
  "ow_stat f os = os\<lparr>ow_stats := f (ow_stats os)\<rparr>"

section \<open>GPIO\<close>

definition show_d :: "int \<Rightarrow> string" where
  "show_d i = (if i < 0 then CHR ''-'' # dec_digits (nat (- i)) else dec_digits (nat i))"

definition GPIO_EXPORT_PATH :: string where "GPIO_EXPORT_PATH = ''/sys/class/gpio/export''"

definition GPIO_DIRECTION_PATH :: "int \<Rightarrow> string" where
  "GPIO_DIRECTION_PATH gpio = ''/sys/class/gpio/gpio'' @ show_d gpio @ ''/direction''"

definition GPIO_VALUE_PATH :: "int \<Rightarrow> string" where
  "GPIO_VALUE_PATH gpio = ''/sys/class/gpio/gpio'' @ show_d gpio @ ''/value''"

text \<open>Open a file for writing, write, close; the failures of \<open>write\<close> that the caller accepts.\<close>

definition write_file :: "ow_env \<Rightarrow> (int \<Rightarrow> bool) \<Rightarrow> string \<Rightarrow> string \<Rightarrow> openwrt_state \<Rightarrow> int \<times> openwrt_state" where
  "write_file W accept path s os =
     (if ow_open W path \<noteq> 0 then (- ow_open W path, os)
      else if ow_write W path s \<noteq> 0 then (if accept (ow_write W path s) then (0, os) else (- ow_write W path s, os))
      else (0, ow_emit (WriteFile path s) os))"

definition gpio_export :: "ow_env \<Rightarrow> int \<Rightarrow> openwrt_state \<Rightarrow> int \<times> openwrt_state" where
  "gpio_export W gpio os = write_file W (\<lambda>e. e = EBUSY) GPIO_EXPORT_PATH (show_d gpio) os"

definition gpio_set_direction :: "ow_env \<Rightarrow> int \<Rightarrow> string \<Rightarrow> openwrt_state \<Rightarrow> int \<times> openwrt_state" where
  "gpio_set_direction W gpio direction os = write_file W (\<lambda>_. False) (GPIO_DIRECTION_PATH gpio) direction os"

definition gpio_set_value :: "ow_env \<Rightarrow> int \<Rightarrow> int \<Rightarrow> openwrt_state \<Rightarrow> int \<times> openwrt_state" where
  "gpio_set_value W gpio v os =
     write_file W (\<lambda>_. False) (GPIO_VALUE_PATH gpio) (if v \<noteq> 0 then ''1'' else ''0'') os"

definition gpio_setup :: "ow_env \<Rightarrow> int \<Rightarrow> openwrt_state \<Rightarrow> int \<times> openwrt_state" where
  "gpio_setup W gpio os =
     (let (rc, os1) = gpio_export W gpio os
      in if rc < 0 \<and> rc \<noteq> - EBUSY then (rc, os1) else gpio_set_direction W gpio ''out'' os1)"

definition openwrt_gpio_init :: "ow_env \<Rightarrow> openwrt_state \<Rightarrow> int \<times> openwrt_state" where
  "openwrt_gpio_init W os =
     (if gpio_initialized os then (0, os)
      else let (rc1, os1) = gpio_setup W (sim_switch_gpio os) os
           in if rc1 < 0 then (rc1, os1)
              else let (rc2, os2) = gpio_setup W (modem_reset_gpio os1) os1
                   in if rc2 < 0 then (rc2, os2) else (0, os2\<lparr>gpio_initialized := True\<rparr>))"

section \<open>The frontend interface\<close>

definition switch_sim :: "ow_env \<Rightarrow> int \<Rightarrow> openwrt_state \<Rightarrow> int \<times> openwrt_state" where
  "switch_sim W v os =
     (let (rc, os1) = openwrt_gpio_init W os
      in if rc < 0 then (rc, os1)
         else gpio_set_value W (sim_switch_gpio os1) v (ow_stat (\<lambda>st. st\<lparr>sim_switches := sim_switches st + 1\<rparr>) os1))"

definition ow_request_card_insert :: "ow_env \<Rightarrow> openwrt_state \<Rightarrow> int \<times> openwrt_state" where
  "ow_request_card_insert W os = switch_sim W 1 os"

definition ow_request_card_remove :: "ow_env \<Rightarrow> openwrt_state \<Rightarrow> int \<times> openwrt_state" where
  "ow_request_card_remove W os = switch_sim W 0 os"

definition ow_request_sim_remote :: "ow_env \<Rightarrow> openwrt_state \<Rightarrow> int \<times> openwrt_state" where
  "ow_request_sim_remote W os = ow_request_card_insert W os"

definition ow_request_sim_local :: "ow_env \<Rightarrow> openwrt_state \<Rightarrow> int \<times> openwrt_state" where
  "ow_request_sim_local W os = ow_request_card_remove W os"

definition ow_request_modem_reset :: "ow_env \<Rightarrow> openwrt_state \<Rightarrow> int \<times> openwrt_state" where
  "ow_request_modem_reset W os =
     (let (rc, os1) = openwrt_gpio_init W os
      in if rc < 0 then (rc, os1)
         else let (rc1, os2) = gpio_set_value W (modem_reset_gpio os1) 1 os1
              in if rc1 < 0 then (rc1, os2)
                 else gpio_set_value W (modem_reset_gpio os2) 0 (ow_emit (Usleep 500000) os2))"

text \<open>\<open>%02X\<close>.\<close>

definition hex_char :: "nat \<Rightarrow> char" where
  "hex_char n = (if n < 10 then char_of (48 + n) else char_of (55 + n))"

definition hex2 :: "u8 \<Rightarrow> string" where
  "hex2 b = [hex_char (unat b div 16), hex_char (unat b mod 16)]"

definition bin_to_hex_str :: "bool \<Rightarrow> bytes \<Rightarrow> string option" where
  "bin_to_hex_str alloc data = (if length data > 512 then None else if \<not> alloc then None else Some (concat (map hex2 data)))"

text \<open>The results of successive calls of \<open>write\<close>: a number of bytes, EINTR or EAGAIN, another error. The
  loop has not ended when they are used up.\<close>

datatype write_res = Wrote nat | WAgain | WErr int

fun write_all :: "write_res list \<Rightarrow> string \<Rightarrow> (int \<times> string) option" where
  "write_all rs [] = Some (0, [])"
| "write_all [] (c # cs) = None"
| "write_all (WErr e # rs) (c # cs) = Some (- e, [])"
| "write_all (WAgain # rs) (c # cs) = write_all rs (c # cs)"
| "write_all (Wrote n # rs) (c # cs) =
     map_option (\<lambda>(rc, t). (rc, take n (c # cs) @ t)) (write_all rs (drop n (c # cs)))"

definition at_csim :: "nat \<Rightarrow> string \<Rightarrow> string" where
  "at_csim n hex = ''AT+CSIM='' @ dec_digits n @ '',\"'' @ hex @ ''\"'' @ [char_of (13 :: nat), char_of (10 :: nat)]"

definition openwrt_send_tpdu_to_modem ::
  "ow_env \<Rightarrow> write_res list \<Rightarrow> bytes \<Rightarrow> openwrt_state \<Rightarrow> (int \<times> openwrt_state) option" where
  "openwrt_send_tpdu_to_modem W rs data os =
     (if \<not> modem_fd_registered os then Some (- ENOTCONN, os)
      else case bin_to_hex_str (ow_alloc W) data of
        None \<Rightarrow> Some (- EINVAL, os)
      | Some hex_data \<Rightarrow>
          (let at_cmd = at_csim (length data * 2) hex_data
           in if length at_cmd \<ge> 2048 then Some (- ENOSPC, os)
              else map_option (\<lambda>(rc, t). (rc, ow_emit (ModemTx t) os)) (write_all rs at_cmd)))"

definition ow_handle_card2modem ::
  "ow_env \<Rightarrow> write_res list \<Rightarrow> bytes \<Rightarrow> openwrt_state \<Rightarrow> (int \<times> openwrt_state) option" where
  "ow_handle_card2modem W rs data os =
     map_option (\<lambda>(rc, os1). (rc,
         if rc = 0 then ow_stat (\<lambda>st. st\<lparr>tpdus_sent := tpdus_sent st + 1\<rparr>) os1
         else ow_stat (\<lambda>st. st\<lparr>ow_errors := ow_errors st + 1\<rparr>) os1))
       (openwrt_send_tpdu_to_modem W rs data os)"

definition ow_handle_set_atr :: "bytes \<Rightarrow> openwrt_state \<Rightarrow> int \<times> openwrt_state" where
  "ow_handle_set_atr data os =
     (if length data > ATR_SIZE_MAX then (- EINVAL, os)
      else (0, os\<lparr>ow_atr_buf := buf_write (ow_atr_buf os) data, ow_atr_len := length data\<rparr>))"

definition ow_handle_slot_status :: "SlotPhysStatus_t \<Rightarrow> openwrt_state \<Rightarrow> int \<times> openwrt_state" where
  "ow_handle_slot_status sts os = (0, os)"

text \<open>\<open>idx\<close> is far below \<open>max_env\<close>: the core uses at most 11 of the 256 entries.\<close>

definition ow_append_script_env :: "openwrt_state \<Rightarrow> string list" where
  "ow_append_script_env os =
     (case modem_device os of None \<Rightarrow> [] | Some d \<Rightarrow> [''OPENWRT_MODEM_DEVICE='' @ d])"

section \<open>Messages of the modem\<close>

text \<open>\<open>+CSQ: %d,%d\<close> and \<open>+CSIM: %d,"%1023[^"]"\<close>, where a closing quote does not count.\<close>

definition scan_csq :: "string \<Rightarrow> (int \<times> int) option" where
  "scan_csq s =
     (if take 5 s \<noteq> ''+CSQ:'' then None
      else do {
        (a, r) \<leftarrow> scan_d (dropWhile c_isspace (drop 5 s));
        if take 1 r \<noteq> '','' then None else do { (b, r') \<leftarrow> scan_d (drop 1 r); Some (a, b) }
      })"

definition scan_csim :: "string \<Rightarrow> (int \<times> string) option" where
  "scan_csim s =
     (if take 6 s \<noteq> ''+CSIM:'' then None
      else do {
        (n, r) \<leftarrow> scan_d (dropWhile c_isspace (drop 6 s));
        if take 2 r \<noteq> '',\"'' then None
        else let hex = take 1023 (takeWhile (\<lambda>c. c \<noteq> CHR 0x22) (drop 2 r)) in if hex = [] then None else Some (n, hex)
      })"

text \<open>\<open>%2hhx\<close>: white space, then at most two characters: digits, or a sign and a digit. \<open>0x\<close> without a
  digit after it is not a number.\<close>

definition scan_hhx2 :: "string \<Rightarrow> u8 option" where
  "scan_hhx2 s =
     (case take 2 (dropWhile c_isspace s) of
        [] \<Rightarrow> None
      | [a] \<Rightarrow> map_option of_nat (hex_val a)
      | a # b # _ \<Rightarrow>
          if a = CHR ''-'' then map_option (\<lambda>v. - of_nat v) (hex_val b)
          else if a = CHR ''+'' then map_option of_nat (hex_val b)
          else if a = CHR ''0'' \<and> (b = CHR ''x'' \<or> b = CHR ''X'') then None
          else do { x \<leftarrow> hex_val a; Some (case hex_val b of None \<Rightarrow> of_nat x | Some y \<Rightarrow> of_nat (16 * x + y)) })"

fun hex_loop :: "string \<Rightarrow> nat \<Rightarrow> bytes option" where
  "hex_loop s 0 = Some []"
| "hex_loop s (Suc n) = do { b \<leftarrow> scan_hhx2 s; r \<leftarrow> hex_loop (drop 2 s) n; Some (b # r) }"

definition hex_str_to_bin :: "string \<Rightarrow> nat \<Rightarrow> int + bytes" where
  "hex_str_to_bin hex_str buf_len =
     (let len = length hex_str
      in if len mod 2 \<noteq> 0 then Inl (- EINVAL)
         else if len div 2 > buf_len then Inl (- ENOSPC)
         else case hex_loop hex_str (len div 2) of None \<Rightarrow> Inl (- EINVAL) | Some b \<Rightarrow> Inr b)"

definition openwrt_parse_csq_response :: "ow_env \<Rightarrow> string \<Rightarrow> openwrt_state \<Rightarrow> openwrt_state" where
  "openwrt_parse_csq_response W response os =
     (case scan_csq response of
        None \<Rightarrow> os
      | Some (rssi, ber) \<Rightarrow>
          (let os1 = (if rssi \<ge> 0 \<and> rssi \<le> 31 then ow_stat (\<lambda>st. st\<lparr>last_rssi := -113 + rssi * 2\<rparr>) os else os)
           in ow_stat (\<lambda>st. st\<lparr>last_signal_check := ow_now W\<rparr>) os1))"

text \<open>\<open>modem_fd_cb\<close>, with the result of \<open>read\<close>: an error, or at most 2047 bytes. The text ends at the
  first NUL.\<close>

definition modem_fd_cb ::
  "ow_env \<Rightarrow> client_env \<Rightarrow> int + string \<Rightarrow> openwrt_state \<Rightarrow> bankd_client \<Rightarrow> (int \<times> openwrt_state \<times> bankd_client) option" where
  "modem_fd_cb W C res os bc =
     (case res of
        Inl rc \<Rightarrow> Some (rc, os, bc)
      | Inr bytes \<Rightarrow>
          (let buf = takeWhile (\<lambda>c. c \<noteq> CHR 0x00) bytes;
               os1 = (case strstr ''+CSQ:'' buf of None \<Rightarrow> os | Some csq \<Rightarrow> openwrt_parse_csq_response W csq os)
           in case Option.bind (strstr ''+CSIM:'' buf) scan_csim of
                None \<Rightarrow> Some (0, os1, bc)
              | Some (resp_len, hex_resp) \<Rightarrow>
                  (case hex_str_to_bin hex_resp 512 of
                     Inl e \<Rightarrow> Some (0, os1, bc)
                   | Inr apdu \<Rightarrow>
                       if apdu = [] then Some (0, os1, bc)
                       else map_option (\<lambda>(rc, bc'). (0, ow_stat (\<lambda>st. st\<lparr>tpdus_received := tpdus_received st + 1\<rparr>) os1, bc'))
                              (main_dispatch C MF_E_MDM_TPDU (MfTpdu apdu) bc))))"

section \<open>Signal strength\<close>

definition EAGAIN :: int where "EAGAIN = 11"

definition openwrt_query_signal_strength :: "write_res \<Rightarrow> openwrt_state \<Rightarrow> int \<times> openwrt_state" where
  "openwrt_query_signal_strength r os =
     (let at_cmd = ''AT+CSQ'' @ [char_of (13 :: nat), char_of (10 :: nat)]
      in if \<not> modem_fd_registered os then (- ENOTCONN, os)
         else case r of
           WErr e \<Rightarrow> (- e, os)
         | WAgain \<Rightarrow> (- EAGAIN, os)
         | Wrote n \<Rightarrow> (0, ow_emit (ModemTx (take n at_cmd)) os))"

definition openwrt_signal_timer_cb :: "write_res \<Rightarrow> openwrt_state \<Rightarrow> openwrt_state" where
  "openwrt_signal_timer_cb r os =
     (if \<not> signal_monitoring_enabled os then os
      else let os1 = snd (openwrt_query_signal_strength r os)
           in if signal_check_interval os1 > 0 then ow_emit (TimerSchedule (signal_check_interval os1)) os1 else os1)"

text \<open>The signal handler, up to \<open>exit\<close>.\<close>

definition openwrt_handle_shutdown :: "ow_env \<Rightarrow> openwrt_state \<Rightarrow> openwrt_state" where
  "openwrt_handle_shutdown W os = snd (ow_request_sim_local W os)"

section \<open>Start\<close>

definition openwrt_open_modem_device :: "ow_env \<Rightarrow> openwrt_state \<Rightarrow> int \<times> openwrt_state" where
  "openwrt_open_modem_device W os =
     (case modem_device os of
        None \<Rightarrow> (- ENODEV, os)
      | Some d \<Rightarrow>
          if ow_open W d \<noteq> 0 then (- ow_open W d, os)
          else if \<not> ow_register W then (- EIO, os)
          else (0, (ow_emit (OpenDevice d) os)\<lparr>modem_fd_registered := True\<rparr>))"

text \<open>The first of the two usual device files that exists.\<close>

definition detect :: "ow_env \<Rightarrow> string \<Rightarrow> string \<Rightarrow> string option \<Rightarrow> string option" where
  "detect W a b cur =
     (case cur of
        Some d \<Rightarrow> Some d
      | None \<Rightarrow> if ow_access W a then Some a else if ow_access W b then Some b else None)"

definition openwrt_init_modem :: "ow_env \<Rightarrow> openwrt_state \<Rightarrow> openwrt_state" where
  "openwrt_init_modem W os =
     (let os1 =
        (if dual_modem_mode os then
           let m1 = (modem1 os)\<lparr>mc_device_path := detect W ''/dev/ttyUSB2'' ''/dev/cdc-wdm0'' (mc_device_path (modem1 os))\<rparr>;
               m2 = (modem2 os)\<lparr>mc_device_path := detect W ''/dev/ttyUSB5'' ''/dev/cdc-wdm1'' (mc_device_path (modem2 os))\<rparr>;
               os' = os\<lparr>modem1 := m1, modem2 := m2\<rparr>; g = mc_sim_switch_gpio m2
           in if g > 0
              then snd (gpio_set_value W g 0 (snd (gpio_set_direction W g ''out'' (snd (gpio_export W g os')))))
              else os'
         else os\<lparr>modem_device := detect W ''/dev/ttyUSB2'' ''/dev/cdc-wdm0'' (modem_device os)\<rparr>)
      in if modem_device os1 \<noteq> None then snd (openwrt_open_modem_device W os1) else os1)"

definition env_set :: "ow_env \<Rightarrow> string \<Rightarrow> bool" where
  "env_set W v \<longleftrightarrow> ow_getenv W v \<noteq> None"

definition apply_zbt_z8102ax_config :: "ow_env \<Rightarrow> openwrt_state \<Rightarrow> openwrt_state" where
  "apply_zbt_z8102ax_config W os =
     (let os1 =
        (if dual_modem_mode os then
           let m1 = (modem1 os)\<lparr>mc_sim_switch_gpio := (if env_set W ''MODEM1_SIM_GPIO'' then mc_sim_switch_gpio (modem1 os) else 6),
                      mc_reset_gpio := (if env_set W ''MODEM1_RESET_GPIO'' then mc_reset_gpio (modem1 os) else 4)\<rparr>;
               m2 = (modem2 os)\<lparr>mc_sim_switch_gpio := (if env_set W ''MODEM2_SIM_GPIO'' then mc_sim_switch_gpio (modem2 os) else 7),
                      mc_reset_gpio := (if env_set W ''MODEM2_RESET_GPIO'' then mc_reset_gpio (modem2 os) else 5)\<rparr>
           in os\<lparr>modem1 := m1, modem2 := m2, sim_switch_gpio := mc_sim_switch_gpio m1, modem_reset_gpio := mc_reset_gpio m1\<rparr>
         else os\<lparr>sim_switch_gpio := 6, modem_reset_gpio := 4\<rparr>);
          os2 = snd (gpio_set_direction W 3 ''out'' (snd (gpio_export W 3 os1)))
      in snd (gpio_set_value W 3 1 os2))"

text \<open>A number from the environment: \<open>None\<close> where \<open>atoi\<close> is undefined.\<close>

definition env_int :: "ow_env \<Rightarrow> string \<Rightarrow> int \<Rightarrow> int option" where
  "env_int W v dflt = (case ow_getenv W v of None \<Rightarrow> Some dflt | Some s \<Rightarrow> atoi s)"

definition zero_modem :: modem_config where
  "zero_modem = \<lparr>mc_sim_switch_gpio = 0, mc_reset_gpio = 0, mc_device_path = None, mc_is_primary = False\<rparr>"

definition openwrt_zero :: "ow_env \<Rightarrow> openwrt_state" where
  "openwrt_zero W =
     \<lparr>sim_switch_gpio = 0, modem_reset_gpio = 0, modem_device = None, gpio_initialized = False, dual_modem_mode = False,
      modem1 = zero_modem, modem2 = zero_modem, ow_atr_buf = replicate ATR_SIZE_MAX 0, ow_atr_len = 0,
      modem_fd_registered = False,
      ow_stats = \<lparr>start_time = ow_now W, tpdus_sent = 0, tpdus_received = 0, ow_errors = 0, reconnections = 0, sim_switches = 0,
        last_signal_check = 0, last_rssi = 0, last_rsrp = 0, last_rsrq = 0, last_sinr = 0\<rparr>,
      signal_monitoring_enabled = False, signal_check_interval = 0, ow_out = []\<rparr>"

definition dual_config :: "ow_env \<Rightarrow> openwrt_state \<Rightarrow> openwrt_state option" where
  "dual_config W os =
     do {
       s1 \<leftarrow> env_int W ''MODEM1_SIM_GPIO'' 20;
       r1 \<leftarrow> env_int W ''MODEM1_RESET_GPIO'' 21;
       s2 \<leftarrow> env_int W ''MODEM2_SIM_GPIO'' 22;
       r2 \<leftarrow> env_int W ''MODEM2_RESET_GPIO'' 23;
       let m1 = \<lparr>mc_sim_switch_gpio = s1, mc_reset_gpio = r1, mc_device_path = ow_getenv W ''MODEM1_DEVICE'', mc_is_primary = True\<rparr>;
       let m2 = \<lparr>mc_sim_switch_gpio = s2, mc_reset_gpio = r2, mc_device_path = ow_getenv W ''MODEM2_DEVICE'', mc_is_primary = False\<rparr>;
       Some (os\<lparr>dual_modem_mode := True, modem1 := m1, modem2 := m2, sim_switch_gpio := s1, modem_reset_gpio := r1,
         modem_device := mc_device_path m1\<rparr>)
     }"

definition single_config :: "client_config \<Rightarrow> openwrt_state \<Rightarrow> openwrt_state" where
  "single_config cfg os =
     os\<lparr>dual_modem_mode := False,
        sim_switch_gpio := (if usb_vendor_id cfg > 0 then usb_vendor_id cfg else 20),
        modem_reset_gpio := (if usb_product_id cfg > 0 then usb_product_id cfg else 21),
        modem_device := usb_path cfg\<rparr>"

text \<open>\<open>client_user_main\<close>, up to the select loop.\<close>

definition openwrt_user_main :: "ow_env \<Rightarrow> client_config \<Rightarrow> openwrt_state option" where
  "openwrt_user_main W cfg =
     do {
       iv \<leftarrow> env_int W ''OPENWRT_SIGNAL_INTERVAL'' 60;
       let os = (openwrt_zero W)\<lparr>signal_check_interval := iv, signal_monitoring_enabled := (iv > 0)\<rparr>;
       os1 \<leftarrow> (if ow_getenv W ''OPENWRT_DUAL_MODEM'' = Some ''1'' then dual_config W os else Some (single_config cfg os));
       let os2 = (if ow_zbt W then apply_zbt_z8102ax_config W os1 else os1);
       let os3 = openwrt_init_modem W os2;
       Some (if signal_monitoring_enabled os3 \<and> signal_check_interval os3 > 0
             then ow_emit (TimerSchedule (signal_check_interval os3)) os3 else os3)
     }"

text \<open>What the client core asks of the frontend, in its order; \<open>wr\<close> has the results of the writes for a
  response.\<close>

fun ow_act :: "ow_env \<Rightarrow> (bytes \<Rightarrow> write_res list) \<Rightarrow> openwrt_state \<Rightarrow> client_effect \<Rightarrow> openwrt_state" where
  "ow_act W wr os FeSimRemote = snd (ow_request_sim_remote W os)"
| "ow_act W wr os FeSimLocal = snd (ow_request_sim_local W os)"
| "ow_act W wr os FeCardInsert = snd (ow_request_card_insert W os)"
| "ow_act W wr os FeCardRemove = snd (ow_request_card_remove W os)"
| "ow_act W wr os FeModemReset = snd (ow_request_modem_reset W os)"
| "ow_act W wr os (FeSetAtr atr) = snd (ow_handle_set_atr atr os)"
| "ow_act W wr os (FeCard2Modem d) =
     (case ow_handle_card2modem W (wr d) d os of None \<Rightarrow> os | Some (rc, os') \<Rightarrow> os')"
| "ow_act W wr os (FeSlotStatus sts) = snd (ow_handle_slot_status sts os)"
| "ow_act W wr os (Script cmd env) = os"

end
