(* ===== verification/Openwrt_Props.thy ===== *)
theory Openwrt_Props
  imports Openwrt Client_Props
begin

text \<open>
  Properties of the OpenWrt frontend: the AT+CSIM conversation with the modem, and the SIM switch
  together with the client core. The locale \<open>sim_frontend\<close> is what the core expects of a frontend
  with a SIM switch; the OpenWrt frontend is an interpretation of it.
\<close>

section \<open>Hexadecimal\<close>

definition hex_char_good :: "nat \<Rightarrow> bool" where
  "hex_char_good n \<longleftrightarrow>
     hex_val (hex_char n) = Some n \<and> \<not> c_isspace (hex_char n) \<and>
     hex_char n \<notin> {CHR ''-'', CHR ''+'', CHR ''x'', CHR ''X'', CHR 0x22, CHR 0x00}"

lemma hex_chars_good: "list_all hex_char_good [0..<16]"
  by code_simp

lemma hex_char_facts:
  assumes "n < 16"
  shows "hex_val (hex_char n) = Some n" "\<not> c_isspace (hex_char n)" "hex_char n \<noteq> CHR ''-''" "hex_char n \<noteq> CHR ''+''"
    "hex_char n \<noteq> CHR ''x''" "hex_char n \<noteq> CHR ''X''" "hex_char n \<noteq> CHR 0x22" "hex_char n \<noteq> CHR 0x00"
proof -
  have "hex_char_good n"
    using hex_chars_good assms by (auto simp: list_all_iff)
  then show "hex_val (hex_char n) = Some n" "\<not> c_isspace (hex_char n)" "hex_char n \<noteq> CHR ''-''" "hex_char n \<noteq> CHR ''+''"
    "hex_char n \<noteq> CHR ''x''" "hex_char n \<noteq> CHR ''X''" "hex_char n \<noteq> CHR 0x22" "hex_char n \<noteq> CHR 0x00"
    unfolding hex_char_good_def by blast+
qed

lemma nibbles: "unat (b :: u8) div 16 < 16" "unat b mod 16 < 16"
  using unsigned_less [of b, where ?'a = nat] by (simp_all add: less_mult_imp_div_less)

lemma scan_hex2: "scan_hhx2 (hex2 b @ s) = Some b"
proof -
  note hi = hex_char_facts [OF nibbles(1) [of b]] and lo = hex_char_facts [OF nibbles(2) [of b]]
  have "16 * (unat b div 16) + unat b mod 16 = unat b" by simp
  then have "(of_nat (16 * (unat b div 16) + unat b mod 16) :: u8) = b"
    by (simp only: of_nat_unat ucast_id)
  then have "16 * word_of_nat (unat b div 16) + word_of_nat (unat b mod 16) = b"
    by (simp only: of_nat_add of_nat_mult of_nat_numeral)
  with hi lo show ?thesis
    by (simp add: scan_hhx2_def hex2_def del: hex_val.simps)
qed

lemma length_hex: "length (concat (map hex2 d)) = 2 * length d"
  by (induction d) (simp_all add: hex2_def)

lemma hex_loop_hex: "hex_loop (concat (map hex2 d)) (length d) = Some d"
proof (induction d)
  case (Cons b d)
  have "drop 2 (hex2 b @ concat (map hex2 d)) = concat (map hex2 d)"
    by (simp add: hex2_def)
  with Cons scan_hex2 [of b "concat (map hex2 d)"] show ?case by simp
qed simp

lemma hex_roundtrip: "length d \<le> n \<Longrightarrow> hex_str_to_bin (concat (map hex2 d)) n = Inr d"
  by (simp add: hex_str_to_bin_def length_hex hex_loop_hex)

lemma hex_no_quote: "CHR 0x22 \<notin> set (concat (map hex2 d))" "CHR 0x00 \<notin> set (concat (map hex2 d))"
  using hex_char_facts(7,8) [OF nibbles(1)] hex_char_facts(7,8) [OF nibbles(2)]
  by (auto simp: hex2_def dest: sym)

section \<open>Commands to the modem\<close>

lemma write_all_complete:
  assumes "write_all rs cmd = Some (0, t)" "\<And>e. WErr e \<in> set rs \<Longrightarrow> e \<noteq> 0"
  shows "t = cmd"
  using assms
proof (induction rs cmd arbitrary: t rule: write_all.induct)
  case (5 n rs c cs)
  then obtain t' where "write_all rs (drop n (c # cs)) = Some (0, t')" "t = take n (c # cs) @ t'"
    by auto
  with "5.IH" "5.prems"(2) show ?case by (metis append_take_drop_id list.set_intros(2))
qed auto

text \<open>The number of bytes that the calls of \<open>write\<close> accept, and that the loop ends when they are enough.\<close>

fun accepted :: "write_res list \<Rightarrow> nat" where
  "accepted [] = 0"
| "accepted (Wrote n # rs) = n + accepted rs"
| "accepted (WAgain # rs) = accepted rs"
| "accepted (WErr e # rs) = 0"

lemma write_all_enough: "length cmd \<le> accepted rs \<Longrightarrow> write_all rs cmd = Some (0, cmd)"
proof (induction rs cmd rule: write_all.induct)
  case (5 n rs c cs)
  then have "write_all rs (drop n (c # cs)) = Some (0, drop n (c # cs))" by simp
  then show ?case by (simp del: drop_Cons take_Cons add: append_take_drop_id)
qed auto

definition csim_command :: "bytes \<Rightarrow> string" where
  "csim_command d = at_csim (2 * length d) (concat (map hex2 d))"

lemma length_csim_command: "length d \<le> 512 \<Longrightarrow> length (csim_command d) < 2048"
  using length_dec_digits [of "2 * length d" 4] by (simp add: csim_command_def at_csim_def length_hex)

text \<open>C34. The command for the modem: a response of the card with at most 512 bytes is sent as one complete
  AT+CSIM command whatever portions the calls of \<open>write\<close> accept, when they accept enough; success is
  never reported for anything else; more than 512 bytes are refused and nothing is sent.\<close>

theorem openwrt_csim_command:
  assumes "modem_fd_registered os" "ow_alloc W" "\<forall>e. WErr e \<in> set rs \<longrightarrow> e \<noteq> 0"
  shows "(openwrt_send_tpdu_to_modem W rs d os = Some (0, os') \<longrightarrow> length d \<le> 512 \<and> os' = ow_emit (ModemTx (csim_command d)) os) \<and>
     (length d \<le> 512 \<and> length (csim_command d) \<le> accepted rs \<longrightarrow>
       openwrt_send_tpdu_to_modem W rs d os = Some (0, ow_emit (ModemTx (csim_command d)) os)) \<and>
     (length d > 512 \<longrightarrow> openwrt_send_tpdu_to_modem W rs d os = Some (- EINVAL, os))"
proof (cases "length d \<le> 512")
  case True
  then have "openwrt_send_tpdu_to_modem W rs d os = map_option (\<lambda>(rc, t). (rc, ow_emit (ModemTx t) os)) (write_all rs (csim_command d))"
    using length_csim_command [OF True] assms(1,2)
    by (simp add: openwrt_send_tpdu_to_modem_def bin_to_hex_str_def csim_command_def mult.commute)
  moreover have "t = csim_command d" if "write_all rs (csim_command d) = Some (0, t)" for t
    using write_all_complete [OF that] assms(3) by blast
  ultimately show ?thesis
    using True write_all_enough [of "csim_command d" rs] by auto
qed (use assms(1) in \<open>simp add: openwrt_send_tpdu_to_modem_def bin_to_hex_str_def EINVAL_def\<close>)

section \<open>Responses of the modem\<close>

definition csim_response :: "nat \<Rightarrow> bytes \<Rightarrow> string" where
  "csim_response n d = ''+CSIM: '' @ dec_digits n @ '',\"'' @ concat (map hex2 d) @ ''\"''"

lemma scan_csim_response:
  assumes "d \<noteq> []"
  shows "scan_csim (csim_response n d @ post) = Some (int n, take 1023 (concat (map hex2 d)))"
proof -
  let ?h = "concat (map hex2 d)" and ?r = "'',\"'' @ concat (map hex2 d) @ ''\"'' @ post"
  obtain c cs where "dec_digits n = c # cs" "c_isdigit c"
    using dec_digits_nonempty [of n] dec_digits_digits [of _ n] by (cases "dec_digits n") auto
  then have "dropWhile c_isspace ('' '' @ dec_digits n @ ?r) = dec_digits n @ ?r"
    by (simp add: c_isspace_def c_isdigit_def)
  moreover have "scan_d (dec_digits n @ ?r) = Some (int n, ?r)"
    using scan_d_dec [of "CHR '',''" n "''\"'' @ ?h @ ''\"'' @ post"] by (simp add: c_isdigit_def)
  moreover have "takeWhile (\<lambda>c. c \<noteq> CHR 0x22) (?h @ ''\"'' @ post) = ?h"
    using hex_no_quote(1) [of d] by (simp only: append_Cons append_Nil) (rule takeWhile_stop(1), blast+)
  moreover have "take 1023 ?h \<noteq> []"
    using assms by (cases d) (simp_all add: hex2_def)
  ultimately show ?thesis
    by (simp add: scan_csim_def csim_response_def Let_def)
qed

lemma csim_response_plain:
  "CHR 0x00 \<notin> set (csim_response n d)" "CHR ''+'' \<notin> set (tl (csim_response n d))"
proof -
  have dec: "c \<in> set (dec_digits n) \<Longrightarrow> c \<noteq> CHR 0x00 \<and> c \<noteq> CHR ''+''" for c
    using dec_digits_digits [of c n] by (auto simp: c_isdigit_def)
  then show "CHR 0x00 \<notin> set (csim_response n d)"
    using hex_no_quote(2) [of d] by (auto simp: csim_response_def)
  have "CHR ''+'' \<notin> set (concat (map hex2 d))"
    using hex_char_facts(4) [OF nibbles(1)] hex_char_facts(4) [OF nibbles(2)] by (auto simp: hex2_def dest: sym)
  with dec show "CHR ''+'' \<notin> set (tl (csim_response n d))"
    by (auto simp: csim_response_def)
qed

lemma strstr_csim:
  assumes "CHR ''+'' \<notin> set pre"
  shows "strstr ''+CSIM:'' (pre @ csim_response n d @ post) = Some (csim_response n d @ post)"
  using assms by (induction pre) (auto simp: csim_response_def)

lemma strstr_no_csq:
  assumes "CHR ''+'' \<notin> set pre" "CHR ''+'' \<notin> set post"
  shows "strstr ''+CSQ:'' (pre @ csim_response n d @ post) = None"
  using assms(1)
proof (induction pre)
  case Nil
  obtain r where r: "csim_response n d = ''+CSIM'' @ r"
    by (simp add: csim_response_def)
  with csim_response_plain(2) [of n d] assms(2) have "strstr ''+CSQ:'' (r @ post) = None"
    by (intro strstr_absent) auto
  with r show ?case by simp
qed auto

lemma text_up_to_nul:
  assumes "CHR 0x00 \<notin> set pre"
  shows "takeWhile (\<lambda>c. c \<noteq> CHR 0x00) (pre @ csim_response n d @ post)
     = pre @ csim_response n d @ takeWhile (\<lambda>c. c \<noteq> CHR 0x00) post"
  using assms csim_response_plain(1) [of n d]
  by (subst append_assoc [symmetric], subst takeWhile_append2) auto

text \<open>C33. An answer of the modem is taken out of the text around it and handed to the client core as
  the APDU it encodes, byte for byte, when it has at most 511 bytes. A longer answer is dropped, and
  neither the state of the frontend nor that of the client changes: the conversion of \<open>sscanf\<close> stops
  after 1023 characters, an odd number of hexadecimal digits.\<close>

theorem openwrt_csim_answer:
  assumes "CHR ''+'' \<notin> set pre" "CHR ''+'' \<notin> set post" "CHR 0x00 \<notin> set pre" "d \<noteq> []"
  shows "(length d < 512 \<longrightarrow>
       modem_fd_cb W C (Inr (pre @ csim_response n d @ post)) os bc =
         map_option (\<lambda>(rc, bc'). (0, ow_stat (\<lambda>st. st\<lparr>tpdus_received := tpdus_received st + 1\<rparr>) os, bc'))
           (client_do C (CModemTpdu d) bc)) \<and>
     (512 \<le> length d \<longrightarrow>
       modem_fd_cb W C (Inr (pre @ csim_response n d @ post)) os bc = Some (0, os, bc))"
proof -
  let ?post = "takeWhile (\<lambda>c. c \<noteq> CHR 0x00) post"
  have "CHR ''+'' \<notin> set ?post"
    using assms(2) by (metis set_takeWhileD)
  note scan = text_up_to_nul [OF assms(3)] strstr_csim [OF assms(1), of n d ?post] strstr_no_csq [OF assms(1) this, of n d]
    scan_csim_response [OF assms(4), of n ?post]
  have "length d < 512 \<longrightarrow> take 1023 (concat (map hex2 d)) = concat (map hex2 d)"
    by (simp add: length_hex)
  with assms(4) show ?thesis
    by (auto simp: modem_fd_cb_def scan hex_loop_hex hex_str_to_bin_def length_hex Let_def simp del: strstr.simps)
qed

text \<open>An example environment in which everything succeeds, and the state of the frontend at start.\<close>

definition ex_ow :: ow_env where
  "ex_ow = \<lparr>ow_open = \<lambda>_. 0, ow_write = \<lambda>_ _. 0, ow_access = \<lambda>_. True, ow_getenv = \<lambda>_. None, ow_now = 0, ow_alloc = True,
     ow_register = True, ow_zbt = False\<rparr>"

definition ex_os :: openwrt_state where
  "ex_os = (openwrt_zero ex_ow)\<lparr>sim_switch_gpio := 20, modem_reset_gpio := 21, modem_fd_registered := True\<rparr>"

theorem openwrt_csim_command_witness:
  "openwrt_send_tpdu_to_modem ex_ow [Wrote 9, WAgain, Wrote 30] [0x90, 0x00] ex_os =
     Some (0, ow_emit (ModemTx (at_csim 4 ''9000'')) ex_os)"
proof -
  have ok: "modem_fd_registered ex_os" "ow_alloc ex_ow" "\<forall>e. WErr e \<in> set [Wrote 9, WAgain, Wrote 30] \<longrightarrow> e \<noteq> 0"
    by (simp_all add: ex_os_def ex_ow_def)
  have cmd: "csim_command [0x90, 0x00] = at_csim 4 ''9000''" by code_simp
  have "length [0x90, 0x00 :: u8] \<le> 512 \<and> length (at_csim 4 ''9000'') \<le> accepted [Wrote 9, WAgain, Wrote 30]"
    by code_simp
  with openwrt_csim_command [OF ok, of "[0x90, 0x00]"] show ?thesis
    unfolding cmd by blast
qed

theorem openwrt_csim_answer_witness:
  "modem_fd_cb ex_ow (ex_cenv 9) (Inr (''>'' @ csim_response 4 [0x90, 0x00] @ ''OK'')) ex_os ex_operational =
     map_option (\<lambda>(rc, bc'). (0, ow_stat (\<lambda>st. st\<lparr>tpdus_received := tpdus_received st + 1\<rparr>) ex_os, bc'))
       (client_do (ex_cenv 9) (CModemTpdu [0x90, 0x00]) ex_operational)"
proof -
  have "CHR ''+'' \<notin> set ''>''" "CHR ''+'' \<notin> set ''OK''" "CHR 0x00 \<notin> set ''>''" "[0x90, 0x00 :: u8] \<noteq> []" "length [0x90, 0x00 :: u8] < 512"
    by simp_all
  then show ?thesis
    using openwrt_csim_answer [of "''>''" "''OK''" "[0x90, 0x00]"] by blast
qed

section \<open>The SIM switch\<close>

text \<open>A frontend whose requests to use the remote or the local SIM and to insert or remove the card all
  act on one switch.\<close>

locale sim_frontend =
  fixes act :: "'s \<Rightarrow> client_effect \<Rightarrow> 's"
    and good :: "'s \<Rightarrow> bool"
    and remote :: "'s \<Rightarrow> bool"
  assumes act_good: "good s \<Longrightarrow> good (act s x)"
    and act_on: "good s \<Longrightarrow> x \<in> {FeSimRemote, FeCardInsert} \<Longrightarrow> remote (act s x)"
    and act_off: "good s \<Longrightarrow> x \<in> {FeSimLocal, FeCardRemove} \<Longrightarrow> \<not> remote (act s x)"
    and act_other: "good s \<Longrightarrow> x \<notin> {FeSimRemote, FeCardInsert, FeSimLocal, FeCardRemove} \<Longrightarrow> remote (act s x) = remote s"
begin

lemma switch_step:
  assumes "good s" "remote s = fst v \<or> remote s = snd v"
  shows "remote (act s x) = fst (view_step v x) \<or> remote (act s x) = snd (view_step v x)"
  using assms act_on [of s x] act_off [of s x] act_other [of s x] by (cases v; cases x) auto

lemma switch_view:
  assumes "good s" "remote s = fst v \<or> remote s = snd v"
  shows "remote (foldl act s es) = fst (foldl view_step v es) \<or> remote (foldl act s es) = snd (foldl view_step v es)"
  using assms by (induction es arbitrary: s v) (simp_all add: act_good switch_step)

lemma switch_follows:
  assumes "good s" "\<not> remote s" "client_reach bc"
  shows "remote (foldl act s (bc_out bc)) \<longleftrightarrow> main_fi bc = MF_ST_OPERATIONAL"
  using switch_view [of s "(False, False)" "bc_out bc"] assms client_reach_inv [OF assms(3)]
  by (auto simp: client_inv_def modem_view_def)

end

text \<open>The value last written to the line of the SIM switch.\<close>

fun level_step :: "int \<Rightarrow> bool \<Rightarrow> ow_effect \<Rightarrow> bool" where
  "level_step g v (WriteFile path s) = (if path = GPIO_VALUE_PATH g then s = ''1'' else v)"
| "level_step g v _ = v"

definition gpio_level :: "int \<Rightarrow> ow_effect list \<Rightarrow> bool" where
  "gpio_level g es = foldl (level_step g) False es"

definition ow_remote :: "openwrt_state \<Rightarrow> bool" where
  "ow_remote os = gpio_level (sim_switch_gpio os) (ow_out os)"

text \<open>Files below the GPIO directory can be opened and written; a line that has been exported before
  may refuse to be exported again.\<close>

definition gpio_works :: "ow_env \<Rightarrow> bool" where
  "gpio_works W \<longleftrightarrow>
     (\<forall>p. ow_open W (''/sys/class/gpio/'' @ p) = 0) \<and>
     (\<forall>p s. ow_write W (''/sys/class/gpio/'' @ p) s = 0 \<or> p = ''export'' \<and> ow_write W (''/sys/class/gpio/'' @ p) s = EBUSY)"

definition ow_good :: "ow_env \<Rightarrow> openwrt_state \<Rightarrow> bool" where
  "ow_good W os \<longleftrightarrow> gpio_works W \<and> sim_switch_gpio os \<noteq> modem_reset_gpio os"

lemma show_d_inj: "show_d g = show_d h \<longleftrightarrow> g = h"
proof
  assume eq: "show_d g = show_d h"
  have dash: "dec_digits n \<noteq> CHR ''-'' # r" for n r
  proof
    assume "dec_digits n = CHR ''-'' # r"
    then have "c_isdigit (CHR ''-'')"
      by (intro dec_digits_digits [of _ n]) simp
    then show False by (simp add: c_isdigit_def)
  qed
  have inj: "dec_digits m = dec_digits n \<Longrightarrow> m = n" for m n
    by (metis digits_value_dec)
  show "g = h"
  proof (cases "g < 0")
    case True
    with eq dash [symmetric] have "h < 0" by (auto simp: show_d_def split: if_splits)
    with True eq have "dec_digits (nat (- g)) = dec_digits (nat (- h))" by (simp add: show_d_def)
    from inj [OF this] True \<open>h < 0\<close> show ?thesis by simp
  next
    case False
    with eq dash have "\<not> h < 0" by (auto simp: show_d_def split: if_splits)
    with False eq have "dec_digits (nat g) = dec_digits (nat h)" by (simp add: show_d_def)
    from inj [OF this] False \<open>\<not> h < 0\<close> show ?thesis by simp
  qed
qed simp

lemma gpio_paths:
  "GPIO_VALUE_PATH g = GPIO_VALUE_PATH h \<longleftrightarrow> g = h" "GPIO_DIRECTION_PATH g \<noteq> GPIO_VALUE_PATH h"
  "GPIO_EXPORT_PATH \<noteq> GPIO_VALUE_PATH h"
proof -
  show "GPIO_VALUE_PATH g = GPIO_VALUE_PATH h \<longleftrightarrow> g = h"
    by (simp add: GPIO_VALUE_PATH_def show_d_inj)
  have "last (GPIO_VALUE_PATH h) = CHR ''e''" "last (GPIO_DIRECTION_PATH g) = CHR ''n''" "last GPIO_EXPORT_PATH = CHR ''t''"
    by (simp_all add: GPIO_VALUE_PATH_def GPIO_DIRECTION_PATH_def GPIO_EXPORT_PATH_def)
  then show "GPIO_DIRECTION_PATH g \<noteq> GPIO_VALUE_PATH h" "GPIO_EXPORT_PATH \<noteq> GPIO_VALUE_PATH h"
    by auto
qed

text \<open>What the operations on the lines do when the files can be written.\<close>

definition same_lines :: "openwrt_state \<Rightarrow> openwrt_state \<Rightarrow> bool" where
  "same_lines os os' \<longleftrightarrow> sim_switch_gpio os' = sim_switch_gpio os \<and> modem_reset_gpio os' = modem_reset_gpio os \<and>
     ow_remote os' = ow_remote os"

lemma gpio_worksD:
  assumes "gpio_works W"
  shows "ow_open W GPIO_EXPORT_PATH = 0" "ow_write W GPIO_EXPORT_PATH s \<in> {0, EBUSY}"
    "ow_open W (GPIO_DIRECTION_PATH g) = 0" "ow_write W (GPIO_DIRECTION_PATH g) s = 0"
    "ow_open W (GPIO_VALUE_PATH g) = 0" "ow_write W (GPIO_VALUE_PATH g) s = 0"
proof -
  have open0: "ow_open W (''/sys/class/gpio/'' @ p) = 0" for p
    using assms by (simp add: gpio_works_def)
  have write0: "ow_write W (''/sys/class/gpio/'' @ p) s = 0 \<or> p = ''export'' \<and> ow_write W (''/sys/class/gpio/'' @ p) s = EBUSY" for p
    using assms by (simp add: gpio_works_def)
  show "ow_open W GPIO_EXPORT_PATH = 0" "ow_write W GPIO_EXPORT_PATH s \<in> {0, EBUSY}"
    using open0 [of "''export''"] write0 [of "''export''"] by (auto simp: GPIO_EXPORT_PATH_def)
  show "ow_open W (GPIO_DIRECTION_PATH g) = 0" "ow_write W (GPIO_DIRECTION_PATH g) s = 0"
    using open0 [of "''gpio'' @ show_d g @ ''/direction''"] write0 [of "''gpio'' @ show_d g @ ''/direction''"]
    by (auto simp: GPIO_DIRECTION_PATH_def)
  show "ow_open W (GPIO_VALUE_PATH g) = 0" "ow_write W (GPIO_VALUE_PATH g) s = 0"
    using open0 [of "''gpio'' @ show_d g @ ''/value''"] write0 [of "''gpio'' @ show_d g @ ''/value''"]
    by (auto simp: GPIO_VALUE_PATH_def)
qed

lemma ow_remote_stat [simp]: "ow_remote (ow_stat f os) = ow_remote os"
  by (simp add: ow_remote_def ow_stat_def)

lemma ow_remote_emit: "ow_remote (ow_emit x os) = level_step (sim_switch_gpio os) (ow_remote os) x"
  by (simp add: ow_remote_def ow_emit_def gpio_level_def)

lemma gpio_setup_works:
  assumes "gpio_works W" "gpio_setup W g os = (rc, os')"
  shows "rc = 0 \<and> same_lines os os'"
  using assms(2) gpio_worksD(2) [OF assms(1), of "show_d g"] gpio_worksD(1,3,4) [OF assms(1)]
  by (auto simp: gpio_setup_def gpio_export_def gpio_set_direction_def write_file_def same_lines_def ow_remote_emit gpio_paths
      ow_emit_def ow_remote_def gpio_level_def split: if_splits)

lemma openwrt_gpio_init_works:
  assumes "gpio_works W" "openwrt_gpio_init W os = (rc, os')"
  shows "rc = 0 \<and> same_lines os os'"
proof (cases "gpio_initialized os")
  case False
  obtain rc1 os1 where 1: "gpio_setup W (sim_switch_gpio os) os = (rc1, os1)" by fastforce
  obtain rc2 os2 where 2: "gpio_setup W (modem_reset_gpio os1) os1 = (rc2, os2)" by fastforce
  show ?thesis
    using assms(2) False 1 2 gpio_setup_works [OF assms(1) 1] gpio_setup_works [OF assms(1) 2]
    by (auto simp: openwrt_gpio_init_def same_lines_def ow_remote_def)
qed (use assms(2) in \<open>simp add: openwrt_gpio_init_def same_lines_def\<close>)

lemma gpio_set_value_works:
  assumes "gpio_works W"
  shows "gpio_set_value W g v os = (0, ow_emit (WriteFile (GPIO_VALUE_PATH g) (if v \<noteq> 0 then ''1'' else ''0'')) os)"
  using gpio_worksD [OF assms] by (simp add: gpio_set_value_def write_file_def)

lemma switch_sim_works:
  assumes "ow_good W os" "switch_sim W v os = (rc, os')"
  shows "ow_good W os' \<and> ow_remote os' = (v \<noteq> 0)"
proof -
  have W: "gpio_works W" using assms(1) by (simp add: ow_good_def)
  obtain rc1 os1 where 1: "openwrt_gpio_init W os = (rc1, os1)" by fastforce
  show ?thesis
    using assms openwrt_gpio_init_works [OF W 1]
    by (auto simp: switch_sim_def 1 gpio_set_value_works [OF W] ow_good_def same_lines_def ow_remote_emit)
       (auto simp: ow_emit_def ow_stat_def)
qed

lemma modem_reset_works:
  assumes "ow_good W os" "ow_request_modem_reset W os = (rc, os')"
  shows "ow_good W os' \<and> ow_remote os' = ow_remote os"
proof -
  have W: "gpio_works W" using assms(1) by (simp add: ow_good_def)
  obtain rc1 os1 where 1: "openwrt_gpio_init W os = (rc1, os1)" by fastforce
  have sel: "sim_switch_gpio (ow_emit x os) = sim_switch_gpio os" "modem_reset_gpio (ow_emit x os) = modem_reset_gpio os" for x os
    by (simp_all add: ow_emit_def)
  show ?thesis
    using assms openwrt_gpio_init_works [OF W 1]
    by (auto simp: ow_request_modem_reset_def 1 gpio_set_value_works [OF W] ow_good_def same_lines_def ow_remote_emit gpio_paths sel)
qed

lemma ow_act_other:
  assumes "ow_good W os" "x \<notin> {FeSimRemote, FeCardInsert, FeSimLocal, FeCardRemove}"
  shows "ow_good W (ow_act W wr os x) \<and> ow_remote (ow_act W wr os x) = ow_remote os"
proof (cases x)
  case FeModemReset
  then show ?thesis
    using modem_reset_works [OF assms(1)] by (cases "ow_request_modem_reset W os") auto
next
  case (FeCard2Modem d)
  then show ?thesis
    using assms(1) by (auto simp: ow_handle_card2modem_def openwrt_send_tpdu_to_modem_def Let_def ow_good_def
        ow_remote_def gpio_level_def ow_emit_def ow_stat_def split: option.splits if_splits prod.splits)
qed (use assms in \<open>auto simp: ow_handle_set_atr_def ow_handle_slot_status_def ow_good_def ow_remote_def\<close>)

lemma ow_act_switch:
  assumes "ow_good W os"
  shows "x \<in> {FeSimRemote, FeCardInsert} \<Longrightarrow> ow_good W (ow_act W wr os x) \<and> ow_remote (ow_act W wr os x)"
    and "x \<in> {FeSimLocal, FeCardRemove} \<Longrightarrow> ow_good W (ow_act W wr os x) \<and> \<not> ow_remote (ow_act W wr os x)"
  using switch_sim_works [OF assms, of 1] switch_sim_works [OF assms, of 0]
  by (auto simp: ow_request_sim_remote_def ow_request_sim_local_def ow_request_card_insert_def ow_request_card_remove_def prod_eq_iff)

interpretation ow_sim: sim_frontend "ow_act W wr" "ow_good W" ow_remote for W wr
proof
  fix s x
  assume good: "ow_good W s"
  note other = ow_act_other [OF good, of x wr] and switch = ow_act_switch [OF good, of x wr]
  show "ow_good W (ow_act W wr s x)"
    using other switch by blast
  show "x \<in> {FeSimRemote, FeCardInsert} \<Longrightarrow> ow_remote (ow_act W wr s x)"
    "x \<in> {FeSimLocal, FeCardRemove} \<Longrightarrow> \<not> ow_remote (ow_act W wr s x)"
    "x \<notin> {FeSimRemote, FeCardInsert, FeSimLocal, FeCardRemove} \<Longrightarrow> ow_remote (ow_act W wr s x) = ow_remote s"
    using other switch by blast+
qed

text \<open>C32. With working GPIO lines, and different lines for the SIM switch and the reset of the modem, the
  value last written to the SIM switch follows the client: it selects the remote SIM exactly while the
  client is connected to a bankd, after any sequence of inputs that the client can have had.\<close>

theorem openwrt_sim_switch:
  assumes "gpio_works W" "sim_switch_gpio os \<noteq> modem_reset_gpio os" "\<not> ow_remote os" "client_reach bc"
  shows "ow_remote (foldl (ow_act W wr) os (bc_out bc)) \<longleftrightarrow> main_fi bc = MF_ST_OPERATIONAL"
  using ow_sim.switch_follows [of W os bc wr] assms by (simp add: ow_good_def)

theorem openwrt_sim_switch_witness:
  "ow_remote (foldl (ow_act ex_ow (\<lambda>_. [])) ex_os (bc_out ex_operational))"
proof -
  have "gpio_works ex_ow" by (simp add: gpio_works_def ex_ow_def)
  moreover have "sim_switch_gpio ex_os \<noteq> modem_reset_gpio ex_os" "\<not> ow_remote ex_os"
    by (simp_all add: ex_os_def openwrt_zero_def ow_remote_def gpio_level_def)
  ultimately show ?thesis
    using openwrt_sim_switch [of ex_ow ex_os ex_operational "\<lambda>_. []"] ex_operational_reach ex_operational_sel(2) by simp
qed

section \<open>Start with two modems\<close>

lemma keeps_modem_device [simp]:
  "modem_device (ow_emit x os) = modem_device os" "modem_fd_registered (ow_emit x os) = modem_fd_registered os"
  "dual_modem_mode (ow_emit x os) = dual_modem_mode os"
  by (simp_all add: ow_emit_def)

lemma gpio_keeps [simp]:
  "modem_device (snd (gpio_export W g os)) = modem_device os" "modem_fd_registered (snd (gpio_export W g os)) = modem_fd_registered os"
  "modem_device (snd (gpio_set_direction W g d os)) = modem_device os"
  "modem_fd_registered (snd (gpio_set_direction W g d os)) = modem_fd_registered os"
  "modem_device (snd (gpio_set_value W g v os)) = modem_device os"
  "modem_fd_registered (snd (gpio_set_value W g v os)) = modem_fd_registered os"
  "dual_modem_mode (snd (gpio_export W g os)) = dual_modem_mode os"
  "dual_modem_mode (snd (gpio_set_direction W g d os)) = dual_modem_mode os"
  "dual_modem_mode (snd (gpio_set_value W g v os)) = dual_modem_mode os"
  by (simp_all add: gpio_export_def gpio_set_direction_def gpio_set_value_def write_file_def)

lemma zbt_keeps [simp]:
  "modem_device (apply_zbt_z8102ax_config W os) = modem_device os"
  "modem_fd_registered (apply_zbt_z8102ax_config W os) = modem_fd_registered os"
  "dual_modem_mode (apply_zbt_z8102ax_config W os) = dual_modem_mode os"
  by (simp_all add: apply_zbt_z8102ax_config_def Let_def)

lemma dual_init_keeps:
  assumes "dual_modem_mode os" "modem_device os = None"
  shows "modem_fd_registered (openwrt_init_modem W os) = modem_fd_registered os"
  using assms by (simp add: openwrt_init_modem_def Let_def)

lemma dual_config_device:
  assumes "dual_config W os = Some os'"
  shows "dual_modem_mode os' \<and> modem_device os' = ow_getenv W ''MODEM1_DEVICE'' \<and> modem_fd_registered os' = modem_fd_registered os"
  using assms by (auto simp: dual_config_def Let_def split: Option.bind_splits)

text \<open>With two modems and no device file given for the first one the frontend looks for the usual
  device files but never opens what it finds: the serial line is not registered after the start,
  whatever files exist, and every response of a card for the modem is refused with -ENOTCONN. With one modem
  the file that is found is opened.\<close>

theorem openwrt_dual_autodetect:
  assumes "openwrt_user_main W cfg = Some os" "ow_open W ''/dev/ttyUSB2'' = 0" "ow_register W" "ow_access W ''/dev/ttyUSB2''"
  shows "(ow_getenv W ''OPENWRT_DUAL_MODEM'' = Some ''1'' \<and> ow_getenv W ''MODEM1_DEVICE'' = None \<longrightarrow>
       \<not> modem_fd_registered os \<and> openwrt_send_tpdu_to_modem W rs d os = Some (- ENOTCONN, os)) \<and>
     (ow_getenv W ''OPENWRT_DUAL_MODEM'' \<noteq> Some ''1'' \<and> usb_path cfg = None \<longrightarrow>
       modem_fd_registered os \<and> modem_device os = Some ''/dev/ttyUSB2'')"
proof -
  obtain iv os1 os2 where os1: "(if ow_getenv W ''OPENWRT_DUAL_MODEM'' = Some ''1''
       then dual_config W ((openwrt_zero W)\<lparr>signal_check_interval := iv, signal_monitoring_enabled := iv > 0\<rparr>)
       else Some (single_config cfg ((openwrt_zero W)\<lparr>signal_check_interval := iv, signal_monitoring_enabled := iv > 0\<rparr>))) = Some os1"
    and os2: "os2 = openwrt_init_modem W (if ow_zbt W then apply_zbt_z8102ax_config W os1 else os1)"
    and os: "modem_fd_registered os = modem_fd_registered os2" "modem_device os = modem_device os2"
    using assms(1) by (auto simp: openwrt_user_main_def Let_def split: Option.bind_splits if_splits)
  have dual: "\<not> modem_fd_registered os"
    if "ow_getenv W ''OPENWRT_DUAL_MODEM'' = Some ''1''" "ow_getenv W ''MODEM1_DEVICE'' = None"
  proof -
    have "dual_modem_mode os1" "modem_device os1 = None" "\<not> modem_fd_registered os1"
      using that os1 dual_config_device [of W _ os1] by (auto simp: openwrt_zero_def)
    then show ?thesis by (simp add: os os2 dual_init_keeps)
  qed
  have single: "modem_fd_registered os \<and> modem_device os = Some ''/dev/ttyUSB2''"
    if "ow_getenv W ''OPENWRT_DUAL_MODEM'' \<noteq> Some ''1''" "usb_path cfg = None"
  proof -
    have "\<not> dual_modem_mode os1" "modem_device os1 = None"
      using that os1 by (auto simp: single_config_def)
    then show ?thesis
      using assms(2-4) by (simp add: os os2 openwrt_init_modem_def openwrt_open_modem_device_def detect_def Let_def)
  qed
  show ?thesis
    using dual single by (simp add: openwrt_send_tpdu_to_modem_def)
qed

definition ex_dual :: ow_env where
  "ex_dual = ex_ow\<lparr>ow_getenv := \<lambda>v. if v = ''OPENWRT_DUAL_MODEM'' then Some ''1'' else None\<rparr>"

theorem openwrt_dual_autodetect_witness:
  "\<exists>os. openwrt_user_main ex_dual (bc_cfg ex_operational) = Some os \<and> \<not> modem_fd_registered os"
proof -
  obtain os where os: "openwrt_user_main ex_dual (bc_cfg ex_operational) = Some os"
    by (simp add: openwrt_user_main_def env_int_def dual_config_def ex_dual_def Let_def)
  have "ow_open ex_dual ''/dev/ttyUSB2'' = 0" "ow_register ex_dual" "ow_access ex_dual ''/dev/ttyUSB2''"
    "ow_getenv ex_dual ''OPENWRT_DUAL_MODEM'' = Some ''1''" "ow_getenv ex_dual ''MODEM1_DEVICE'' = None"
    by (simp_all add: ex_dual_def ex_ow_def)
  with openwrt_dual_autodetect [OF os] os show ?thesis by blast
qed

end
