(* ===== verification/Ionmesh.thy ===== *)
theory Ionmesh
  imports Openwrt
begin

text \<open>
  The IonMesh orchestrator, \<^verbatim>\<open>src/client/ionmesh_integration.c\<close>, and its use in \<^verbatim>\<open>src/client/user_openwrt.c\<close>
  (compiled with ENABLE_IONMESH): the requests sent over HTTP, the search for values in the answer, and what the client
  does with an assignment.

  libcurl is a parameter: whether a handle can be made, and for a request whether it is carried out, the status code, and the
  pieces of the body in order, each with the result of the \<open>realloc\<close> it causes. Texts that \<open>snprintf\<close> writes to an
  array are cut to its size. A number that does not fit an \<open>int\<close> is undefined in C and gives \<open>None\<close>.
\<close>

section \<open>Data\<close>

record ionmesh_config =
  im_host :: string
  im_port :: int
  im_tenant_id :: int
  im_client_id :: string
  im_mapping_mode :: string
  im_mcc_mnc :: "string option"

record ionmesh_assignment =
  ia_bank_id :: int
  ia_slot_id :: int
  ia_iccid :: string
  ia_imsi :: string
  ia_bankd_host :: string
  ia_bankd_port :: int
  ia_mapping_mode :: string

definition ionmesh_config_init :: ionmesh_config where
  "ionmesh_config_init =
     \<lparr>im_host = ''127.0.0.1'', im_port = 5000, im_tenant_id = 1, im_client_id = '''', im_mapping_mode = ''ONE_TO_ONE_SWSIM'',
      im_mcc_mnc = None\<rparr>"

definition zero_assignment :: ionmesh_assignment where
  "zero_assignment =
     \<lparr>ia_bank_id = 0, ia_slot_id = 0, ia_iccid = '''', ia_imsi = '''', ia_bankd_host = '''', ia_bankd_port = 0, ia_mapping_mode = ''''\<rparr>"

datatype http_request = HttpPost string string | HttpDelete string

record curl =
  curl_init_ok :: bool
  curl_perform :: "http_request \<Rightarrow> bool \<times> int \<times> (string \<times> bool) list"

section \<open>Requests\<close>

definition ENOMEM :: int where "ENOMEM = 12"

text \<open>\<open>snprintf\<close> to an array of \<open>n\<close> bytes.\<close>

definition fit :: "nat \<Rightarrow> string \<Rightarrow> string" where
  "fit n s = take (n - 1) s"

text \<open>The buffer of the answer; the function returns how many bytes it has taken, and libcurl ends a transfer
  with an error when these are not all.\<close>

definition write_callback :: "bool \<Rightarrow> string \<Rightarrow> string option \<Rightarrow> nat \<times> string option" where
  "write_callback realloc_ok contents mem =
     (if \<not> realloc_ok then (0, mem)
      else (length contents, Some ((case mem of None \<Rightarrow> [] | Some d \<Rightarrow> d) @ contents)))"

fun receive :: "(string \<times> bool) list \<Rightarrow> string option \<Rightarrow> bool \<times> string option" where
  "receive [] mem = (True, mem)"
| "receive ((c, ok) # r) mem =
     (let (n, mem') = write_callback ok c mem in if n = length c then receive r mem' else (False, mem'))"

definition api_url :: "ionmesh_config \<Rightarrow> string \<Rightarrow> string" where
  "api_url cfg tail = fit 512 (''http://'' @ im_host cfg @ '':'' @ show_d (im_port cfg) @ ''/api/backend/v1/remsim/'' @ tail)"

definition register_post :: "ionmesh_config \<Rightarrow> string" where
  "register_post cfg =
     fit 1024 (''{\"client_id\":\"'' @ im_client_id cfg @ ''\",\"mapping_mode\":\"'' @ im_mapping_mode cfg @ ''\",\"mcc_mnc\":\"'' @
       (case im_mcc_mnc cfg of None \<Rightarrow> '''' | Some m \<Rightarrow> m) @ ''\",\"tenant_id\":'' @ show_d (im_tenant_id cfg) @ ''}'')"

definition ionmesh_send_heartbeat :: "curl \<Rightarrow> ionmesh_config \<Rightarrow> int" where
  "ionmesh_send_heartbeat K cfg =
     (if \<not> curl_init_ok K then - ENOMEM
      else let (ok, code, body) = curl_perform K (HttpPost (api_url cfg ''heartbeat'')
                 (fit 512 (''{\"client_id\":\"'' @ im_client_id cfg @ ''\",\"status\":\"active\"}'')))
           in if ok \<and> fst (receive body None) \<and> code = 200 then 0 else -1)"

definition ionmesh_unregister_client :: "curl \<Rightarrow> ionmesh_config \<Rightarrow> int" where
  "ionmesh_unregister_client K cfg =
     (if \<not> curl_init_ok K then - ENOMEM
      else let (ok, code, body) = curl_perform K (HttpDelete (api_url cfg (''unregister/'' @ im_client_id cfg)))
           in if ok \<and> code = 200 then 0 else -1)"

section \<open>Answers\<close>

text \<open>\<open>sscanf\<close> with \<open>%d\<close> after a key: the old value stays when there is no number.\<close>

definition c_int_ok :: "int \<Rightarrow> bool" where
  "c_int_ok v \<longleftrightarrow> - (2 ^ 31) \<le> v \<and> v < 2 ^ 31"

definition json_int :: "string \<Rightarrow> string \<Rightarrow> int \<Rightarrow> int option" where
  "json_int key json old =
     (case strstr key json of
        None \<Rightarrow> Some old
      | Some ptr \<Rightarrow>
          (case scan_d (drop (length key) ptr) of
             None \<Rightarrow> Some old
           | Some (v, r) \<Rightarrow> if c_int_ok v then Some v else None))"

text \<open>The text after a key up to a quote, when it is shorter than the array.\<close>

definition json_text :: "nat \<Rightarrow> string \<Rightarrow> string \<Rightarrow> string option" where
  "json_text sz key json =
     (case strstr key json of
        None \<Rightarrow> None
      | Some ptr \<Rightarrow>
          (let p = drop (length key) ptr; t = takeWhile (\<lambda>c. c \<noteq> CHR 0x22) p
           in if length t < length p \<and> length t < sz then Some t else None))"

definition parse_endpoint :: "string \<Rightarrow> ionmesh_assignment \<Rightarrow> ionmesh_assignment option" where
  "parse_endpoint temp a =
     (let host_start = (case strstr ''://'' temp of None \<Rightarrow> temp | Some p \<Rightarrow> drop 3 p);
          host = takeWhile (\<lambda>c. c \<noteq> CHR '':'') host_start
      in if length host < length host_start
         then map_option (\<lambda>port. a\<lparr>ia_bankd_host := fit 256 host, ia_bankd_port := port\<rparr>) (atoi (drop (length host + 1) host_start))
         else Some (a\<lparr>ia_bankd_host := fit 256 host_start, ia_bankd_port := 9999\<rparr>))"

definition ionmesh_parse_assignment :: "string \<Rightarrow> ionmesh_assignment \<Rightarrow> (int \<times> ionmesh_assignment) option" where
  "ionmesh_parse_assignment json a =
     (if strstr ''\"status\":\"error\"'' json \<noteq> None then Some (- EIO, a)
      else do {
        bank \<leftarrow> json_int ''\"bank_id\":'' json (ia_bank_id a);
        slot \<leftarrow> json_int ''\"slot_id\":'' json (ia_slot_id a);
        let a1 = a\<lparr>ia_bank_id := bank, ia_slot_id := slot\<rparr>;
        let a2 = (case json_text 32 ''\"iccid\":\"'' json of None \<Rightarrow> a1 | Some t \<Rightarrow> a1\<lparr>ia_iccid := t\<rparr>);
        let a3 = (case json_text 32 ''\"imsi\":\"'' json of None \<Rightarrow> a2 | Some t \<Rightarrow> a2\<lparr>ia_imsi := t\<rparr>);
        a4 \<leftarrow> (case json_text 256 ''\"bankd_endpoint\":\"'' json of None \<Rightarrow> Some a3 | Some t \<Rightarrow> parse_endpoint t a3);
        let a5 = (case json_text 32 ''\"mapping_mode\":\"'' json of None \<Rightarrow> a4 | Some t \<Rightarrow> a4\<lparr>ia_mapping_mode := t\<rparr>);
        if ia_bank_id a5 = 0 \<or> ia_slot_id a5 = 0 \<or> ia_bankd_host a5 = [] \<or> ia_bankd_port a5 = 0
        then Some (- EINVAL, a5) else Some (0, a5)
      })"

definition ionmesh_register_client :: "curl \<Rightarrow> ionmesh_config \<Rightarrow> ionmesh_assignment \<Rightarrow> (int \<times> ionmesh_assignment) option" where
  "ionmesh_register_client K cfg a =
     (if \<not> curl_init_ok K then Some (- ENOMEM, a)
      else let (ok, code, body) = curl_perform K (HttpPost (api_url cfg ''register-client'') (register_post cfg));
               (taken, response) = receive body None
           in if \<not> ok \<or> \<not> taken then Some (-1, a)
              else if code \<noteq> 200 then Some (-1, a)
              else case response of
                None \<Rightarrow> Some (-1, a)
              | Some d \<Rightarrow> ionmesh_parse_assignment (takeWhile (\<lambda>c. c \<noteq> CHR 0x00) d) a)"

section \<open>The client\<close>

text \<open>The configuration from the environment; \<open>gethostname\<close> gives \<open>hostname\<close>.\<close>

definition ionmesh_from_env :: "ow_env \<Rightarrow> string \<Rightarrow> client_config \<Rightarrow> ionmesh_config option" where
  "ionmesh_from_env W hostname cfg =
     do {
       port \<leftarrow> env_int W ''IONMESH_PORT'' (im_port ionmesh_config_init);
       tenant \<leftarrow> env_int W ''IONMESH_TENANT_ID'' (im_tenant_id ionmesh_config_init);
       Some (ionmesh_config_init
         \<lparr>im_host := (case ow_getenv W ''IONMESH_HOST'' of None \<Rightarrow> im_host ionmesh_config_init | Some h \<Rightarrow> h),
          im_port := port, im_tenant_id := tenant,
          im_client_id := hostname @ ''-slot'' @ show_d (cfg_client_slot cfg),
          im_mapping_mode := (case ow_getenv W ''IONMESH_MAPPING_MODE'' of None \<Rightarrow> im_mapping_mode ionmesh_config_init | Some m \<Rightarrow> m),
          im_mcc_mnc := ow_getenv W ''IONMESH_MCC_MNC''\<rparr>)
     }"

text \<open>The part of \<open>client_user_main\<close> under ENABLE_IONMESH: whether IonMesh is used, and the client afterwards. The connection
  to the server keeps its own pointer to the host name; the string it points to is freed.\<close>

definition openwrt_ionmesh :: "ow_env \<Rightarrow> curl \<Rightarrow> string \<Rightarrow> bankd_client \<Rightarrow> (bool \<times> bankd_client) option" where
  "openwrt_ionmesh W K hostname bc =
     (case event_script (bc_cfg bc) of
        None \<Rightarrow> Some (False, bc)
      | Some script \<Rightarrow>
          if strstr ''ionmesh'' script = None then Some (False, bc)
          else do {
            icfg \<leftarrow> ionmesh_from_env W hostname (bc_cfg bc);
            (rc, a) \<leftarrow> ionmesh_register_client K icfg zero_assignment;
            if rc < 0 then Some (False, bc)
            else Some (True, remsim_client_set_clslot
                   (bc\<lparr>bc_cfg := (bc_cfg bc)\<lparr>cfg_server_host := ia_bankd_host a, cfg_server_port := ia_bankd_port a\<rparr>\<rparr>)
                   (ia_bank_id a) (ia_slot_id a))
          })"

section \<open>What an answer assigns\<close>

text \<open>Searching for a quoted key skips text without quotes and quoted values.\<close>

definition json_key :: "string \<Rightarrow> string \<Rightarrow> string" where
  "json_key k t = CHR 0x22 # k @ CHR 0x22 # CHR '':'' # t"

lemma strstr_skip_plain:
  assumes "CHR 0x22 \<notin> set v"
  shows "strstr (json_key k t) (v @ r) = strstr (json_key k t) r"
  using assms by (induction v) (auto simp: json_key_def)

lemma append_quote_eq:
  assumes "CHR 0x22 \<notin> set v" "CHR 0x22 \<notin> set k" "v @ CHR 0x22 # c # r = k @ CHR 0x22 # d # s"
  shows "v = k \<and> c = d"
  using assms
proof (induction v arbitrary: k)
  case (Cons a v)
  then show ?case by (cases k) auto
qed (auto simp: Cons_eq_append_conv)

lemma strstr_skip_quoted:
  assumes "CHR 0x22 \<notin> set v" "CHR 0x22 \<notin> set k" "c \<noteq> CHR '':'' \<or> v \<noteq> k" "k \<noteq> []" "hd k \<noteq> c"
  shows "strstr (json_key k t) (CHR 0x22 # v @ CHR 0x22 # c # r) = strstr (json_key k t) (c # r)"
proof -
  have no: "take n (CHR 0x22 # v @ CHR 0x22 # c # r) \<noteq> json_key k t" for n
  proof
    assume eq: "take n (CHR 0x22 # v @ CHR 0x22 # c # r) = json_key k t"
    have "CHR 0x22 # v @ CHR 0x22 # c # r = json_key k t @ drop n (CHR 0x22 # v @ CHR 0x22 # c # r)"
      using append_take_drop_id [of n "CHR 0x22 # v @ CHR 0x22 # c # r"] unfolding eq by (rule sym)
    then have "v @ CHR 0x22 # c # r = k @ CHR 0x22 # CHR '':'' # t @ drop n (CHR 0x22 # v @ CHR 0x22 # c # r)"
      by (simp add: json_key_def)
    from append_quote_eq [OF assms(1,2) this] assms(3) show False by simp
  qed
  have close: "take (length (json_key k t)) (CHR 0x22 # c # r) \<noteq> json_key k t"
    using assms(4,5) by (cases k) (auto simp: json_key_def)
  have "strstr (json_key k t) (CHR 0x22 # v @ CHR 0x22 # c # r) = strstr (json_key k t) (v @ CHR 0x22 # c # r)"
    by (subst strstr.simps(2)) (simp only: no if_False)
  also have "\<dots> = strstr (json_key k t) (CHR 0x22 # c # r)"
    by (rule strstr_skip_plain [OF assms(1)])
  also have "\<dots> = strstr (json_key k t) (c # r)"
    by (subst strstr.simps(2)) (simp only: close if_False)
  finally show ?thesis .
qed

lemma strstr_here: "strstr (c # p) (c # p @ r) = Some (c # p @ r)"
  by simp

text \<open>Members of an object: a quoted key with a number or a quoted text.\<close>

datatype json_member = MInt string nat | MText string string

fun member_key :: "json_member \<Rightarrow> string" where
  "member_key (MInt k n) = k"
| "member_key (MText k v) = k"

fun show_member :: "json_member \<Rightarrow> string" where
  "show_member (MInt k n) = json_key k (dec_digits n)"
| "show_member (MText k v) = json_key k (CHR 0x22 # v @ [CHR 0x22])"

definition json_key_ok :: "string \<Rightarrow> bool" where
  "json_key_ok k \<longleftrightarrow> k \<noteq> [] \<and> CHR 0x22 \<notin> set k \<and> hd k \<notin> {CHR '':'', CHR '',''}"

fun member_ok :: "json_member \<Rightarrow> bool" where
  "member_ok (MInt k n) = json_key_ok k"
| "member_ok (MText k v) = (json_key_ok k \<and> CHR 0x22 \<notin> set v)"

definition show_members :: "json_member list \<Rightarrow> string" where
  "show_members ms = concat (map (\<lambda>m. show_member m @ '','') ms)"

lemma skip_member:
  assumes "member_ok m" "json_key_ok k" "member_key m \<noteq> k"
  shows "strstr (json_key k t) (show_member m @ '','' @ r) = strstr (json_key k t) r"
proof (cases m)
  case (MInt k' n)
  have "strstr (json_key k t) (CHR 0x22 # k' @ CHR 0x22 # CHR '':'' # dec_digits n @ '','' @ r)
      = strstr (json_key k t) ((CHR '':'' # dec_digits n @ '','') @ r)"
    using assms MInt by (subst strstr_skip_quoted) (auto simp: json_key_ok_def)
  also have "\<dots> = strstr (json_key k t) r"
  proof (rule strstr_skip_plain)
    show "CHR 0x22 \<notin> set (CHR '':'' # dec_digits n @ '','')"
      using dec_digits_digits [of "CHR 0x22" n] by (auto simp: c_isdigit_def)
  qed
  finally show ?thesis by (simp add: MInt json_key_def)
next
  case (MText k' v)
  have "strstr (json_key k t) (CHR 0x22 # k' @ CHR 0x22 # CHR '':'' # CHR 0x22 # v @ CHR 0x22 # CHR '','' # r)
      = strstr (json_key k t) ('':'' @ CHR 0x22 # v @ CHR 0x22 # CHR '','' # r)"
    using assms MText by (subst strstr_skip_quoted) (auto simp: json_key_ok_def)
  also have "\<dots> = strstr (json_key k t) (CHR 0x22 # v @ CHR 0x22 # CHR '','' # r)"
    by (rule strstr_skip_plain) simp
  also have "\<dots> = strstr (json_key k t) ('','' @ r)"
    using assms MText by (subst strstr_skip_quoted) (auto simp: json_key_ok_def)
  also have "\<dots> = strstr (json_key k t) r"
    by (rule strstr_skip_plain) simp
  finally show ?thesis by (simp add: MText json_key_def)
qed

lemma skip_members:
  assumes "list_all member_ok ms" "json_key_ok k" "k \<notin> member_key ` set ms"
  shows "strstr (json_key k t) (show_members ms @ r) = strstr (json_key k t) r"
  using assms by (induction ms) (auto simp: show_members_def skip_member [simplified])

lemma find_member:
  assumes "list_all member_ok ms" "distinct (map member_key ms)" "m \<in> set ms"
  obtains xs ys where "ms = xs @ m # ys"
    "\<And>t r. strstr (json_key (member_key m) t) (CHR ''{'' # show_members ms @ r) =
        strstr (json_key (member_key m) t) (show_member m @ '','' @ show_members ys @ r)"
proof -
  obtain xs ys where ms: "ms = xs @ m # ys"
    using assms(3) by (meson split_list)
  have k: "json_key_ok (member_key m)"
    using assms(1,3) by (cases m) (auto simp: list_all_iff)
  have "strstr (json_key (member_key m) t) (CHR ''{'' # show_members ms @ r) =
        strstr (json_key (member_key m) t) (show_member m @ '','' @ show_members ys @ r)" for t r
  proof -
    have "strstr (json_key (member_key m) t) (CHR ''{'' # show_members ms @ r) = strstr (json_key (member_key m) t) (show_members ms @ r)"
      using strstr_skip_plain [of "''{''"] by simp
    also have "\<dots> = strstr (json_key (member_key m) t) (show_members xs @ show_member m @ '','' @ show_members ys @ r)"
      by (simp add: ms show_members_def)
    also have "\<dots> = strstr (json_key (member_key m) t) (show_member m @ '','' @ show_members ys @ r)"
      using assms(1,2) k by (subst skip_members) (auto simp: ms)
    finally show ?thesis .
  qed
  with ms that show ?thesis by blast
qed

definition ionmesh_answer :: "json_member list \<Rightarrow> string" where
  "ionmesh_answer ms = CHR ''{'' # show_members ms @ ''\"status\":\"success\"}''"

lemma json_int_member:
  assumes "list_all member_ok ms" "distinct (map member_key ms)" "MInt k n \<in> set ms" "c_int_ok (int n)"
  shows "json_int (json_key k []) (ionmesh_answer ms) old = Some (int n)"
proof -
  obtain xs ys where f: "\<And>t r. strstr (json_key k t) (CHR ''{'' # show_members ms @ r) =
        strstr (json_key k t) (show_member (MInt k n) @ '','' @ show_members ys @ r)"
    using find_member [OF assms(1-3)] by auto
  let ?r = "CHR '','' # show_members ys @ ''\"status\":\"success\"}''"
  have "strstr (json_key k []) (ionmesh_answer ms) = Some (json_key k [] @ dec_digits n @ ?r)"
    unfolding ionmesh_answer_def f using strstr_here [of "CHR 0x22" "k @ '':\"''"] by (simp add: json_key_def)
  moreover have "scan_d (dec_digits n @ ?r) = Some (int n, ?r)"
    by (rule scan_d_dec) (simp add: c_isdigit_def)
  ultimately show ?thesis
    using assms(4) by (simp add: json_int_def)
qed

lemma json_text_member:
  assumes "list_all member_ok ms" "distinct (map member_key ms)" "MText k v \<in> set ms" "length v < sz"
  shows "json_text sz (json_key k [CHR 0x22]) (ionmesh_answer ms) = Some v"
proof -
  obtain xs ys where f: "\<And>t r. strstr (json_key k t) (CHR ''{'' # show_members ms @ r) =
        strstr (json_key k t) (show_member (MText k v) @ '','' @ show_members ys @ r)"
    using find_member [OF assms(1-3)] by auto
  let ?r = "CHR 0x22 # CHR '','' # show_members ys @ ''\"status\":\"success\"}''"
  have "strstr (json_key k [CHR 0x22]) (ionmesh_answer ms) = Some (json_key k [CHR 0x22] @ v @ ?r)"
    unfolding ionmesh_answer_def f by (simp add: json_key_def)
  moreover have "takeWhile (\<lambda>c. c \<noteq> CHR 0x22) (v @ ?r) = v"
    using assms(1,3) by (intro takeWhile_stop(1)) (auto simp: list_all_iff)
  ultimately show ?thesis
    using assms(4) by (simp add: json_text_def)
qed

lemma no_error_status:
  assumes "list_all member_ok ms" "''status'' \<notin> member_key ` set ms"
  shows "strstr ''\"status\":\"error\"'' (ionmesh_answer ms) = None"
proof -
  have key: "''\"status\":\"error\"'' = json_key ''status'' ''\"error\"''" by (simp add: json_key_def)
  have "strstr (json_key ''status'' ''\"error\"'') (ionmesh_answer ms) =
      strstr (json_key ''status'' ''\"error\"'') (show_members ms @ ''\"status\":\"success\"}'')"
    using strstr_skip_plain [of "''{''"] by (simp add: ionmesh_answer_def)
  also have "\<dots> = strstr (json_key ''status'' ''\"error\"'') ''\"status\":\"success\"}''"
    using assms by (intro skip_members) (auto simp: json_key_ok_def)
  also have "\<dots> = None" by (simp add: json_key_def)
  finally show ?thesis unfolding key .
qed


definition ex_members :: "json_member list" where
  "ex_members = [MText ''iccid'' ''8901'', MInt ''slot_id'' 3, MInt ''bank_id'' 1, MText ''note'' ''x'',
     MText ''bankd_endpoint'' (''http://'' @ ''bank.example'' @ '':'' @ dec_digits 9), MText ''imsi'' ''0011'', MText ''mapping_mode'' ''KI'']"


end
