(* ===== verification/Client_Main.thy ===== *)
theory Client_Main
  imports Client_Inv
begin

text \<open>
  The main program of remsim-client, \<^verbatim>\<open>src/client/remsim_client_main.c\<close>: the command line, the
  configuration file of OpenWrt, and the start of the client up to \<open>client_user_main\<close>.

  The command line is the sequence of results of \<open>getopt_long\<close>: an option letter and its argument. \<open>exit\<close>
  is the result \<open>ClExit\<close>. A configuration file is its text. \<open>client_build\<close> has the options of the
  build and libosmocore's \<open>osmo_hexparse\<close>, which returns the number of bytes it has written.
\<close>

section \<open>Command line\<close>

record client_build =
  cb_simtrace :: bool
  cb_usb :: bool
  cb_hexparse :: "string \<Rightarrow> nat \<Rightarrow> int \<times> bytes"

datatype cl_opt_res = ClOk client_config | ClExit int | ClUndefined

text \<open>The names of the long options, whether they have an argument, and the letters they stand for.\<close>

definition cl_long_options :: "client_build \<Rightarrow> (string \<times> bool \<times> char) list" where
  "cl_long_options B =
     [(''help'', False, CHR ''h''), (''version'', False, CHR ''v''), (''debug'', True, CHR ''d''),
      (''server-ip'', True, CHR ''i''), (''server-port'', True, CHR ''p''), (''client-id'', True, CHR ''c''),
      (''client-slot'', True, CHR ''n''), (''atr'', True, CHR ''a''), (''atr-ignore-rspro'', False, CHR ''r''),
      (''event-script'', True, CHR ''e''), ('' disable-color'', False, CHR ''L'')] @
     (if cb_usb B
      then [(''usb-vendor'', True, CHR ''V''), (''usb-product'', True, CHR ''P''), (''usb-config'', True, CHR ''C''),
            (''usb-interface'', True, CHR ''I''), (''usb-altsetting'', True, CHR ''S''), (''usb-address'', True, CHR ''A''),
            (''usb-path'', True, CHR ''H'')]
      else [])"

definition cl_int :: "string \<Rightarrow> (int \<Rightarrow> client_config) \<Rightarrow> cl_opt_res" where
  "cl_int optarg f = (case atoi optarg of None \<Rightarrow> ClUndefined | Some n \<Rightarrow> ClOk (f n))"

text \<open>The conversion of a \<open>long\<close> to an \<open>int\<close>.\<close>

definition int_of_c_long :: "int \<Rightarrow> int" where
  "int_of_c_long v = sint (word_of_int v :: 32 word)"

definition cl_atr :: "client_build \<Rightarrow> string \<Rightarrow> client_config \<Rightarrow> cl_opt_res" where
  "cl_atr B optarg cfg =
     (let (rc, d) = cb_hexparse B optarg ATR_SIZE_MAX
      in if rc < 2 \<or> rc > int ATR_SIZE_MAX then ClExit 2
         else ClOk (cfg\<lparr>atr_data := buf_write (atr_data cfg) d, atr_len := nat rc\<rparr>))"

text \<open>One iteration of the loop. Options of the debug output do not change the configuration. A letter that the build
  does not know is reported as an unknown option, which is ignored.\<close>

definition cl_handle_option :: "client_build \<Rightarrow> char \<Rightarrow> string \<Rightarrow> client_config \<Rightarrow> cl_opt_res" where
  "cl_handle_option B c optarg cfg =
     (if c = CHR ''h'' \<or> c = CHR ''v'' then ClExit 0
      else if c = CHR ''i'' then ClOk (cfg\<lparr>cfg_server_host := optarg\<rparr>)
      else if c = CHR ''p'' then cl_int optarg (\<lambda>n. cfg\<lparr>cfg_server_port := n\<rparr>)
      else if c = CHR ''c'' then cl_int optarg (\<lambda>n. cfg\<lparr>cfg_client_id := n\<rparr>)
      else if c = CHR ''n'' then cl_int optarg (\<lambda>n. cfg\<lparr>cfg_client_slot := n\<rparr>)
      else if c = CHR ''a'' then cl_atr B optarg cfg
      else if c = CHR ''r'' then ClOk (cfg\<lparr>atr_ignore_rspro := True\<rparr>)
      else if c = CHR ''e'' then ClOk (cfg\<lparr>event_script := Some optarg\<rparr>)
      else if c = CHR ''Z'' \<and> cb_simtrace B then cl_int optarg (\<lambda>n. cfg\<lparr>presence_valid := True, presence_pol := n \<noteq> 0\<rparr>)
      else if \<not> cb_usb B then ClOk cfg
      else if c = CHR ''V'' then ClOk (cfg\<lparr>usb_vendor_id := int_of_c_long (strtol16 optarg)\<rparr>)
      else if c = CHR ''P'' then ClOk (cfg\<lparr>usb_product_id := int_of_c_long (strtol16 optarg)\<rparr>)
      else if c = CHR ''C'' then cl_int optarg (\<lambda>n. cfg\<lparr>usb_config_id := n\<rparr>)
      else if c = CHR ''I'' then cl_int optarg (\<lambda>n. cfg\<lparr>usb_if_num := n\<rparr>)
      else if c = CHR ''S'' then cl_int optarg (\<lambda>n. cfg\<lparr>usb_altsetting := n\<rparr>)
      else if c = CHR ''A'' then cl_int optarg (\<lambda>n. cfg\<lparr>usb_addr := n\<rparr>)
      else if c = CHR ''H'' then ClOk (cfg\<lparr>usb_path := Some optarg\<rparr>)
      else ClOk cfg)"

fun cl_handle_options :: "client_build \<Rightarrow> (char \<times> string) list \<Rightarrow> client_config \<Rightarrow> cl_opt_res" where
  "cl_handle_options B [] cfg = ClOk cfg"
| "cl_handle_options B ((c, a) # r) cfg =
     (case cl_handle_option B c a cfg of ClOk cfg' \<Rightarrow> cl_handle_options B r cfg' | x \<Rightarrow> x)"

section \<open>The configuration file of OpenWrt\<close>

abbreviation nl :: char where "nl \<equiv> CHR 0x0A"
abbreviation tab :: char where "tab \<equiv> CHR 0x09"
abbreviation quote :: char where "quote \<equiv> CHR 0x27"

text \<open>The conversions of a quoted and of an unquoted word after a key.\<close>

definition scan_quoted :: "nat \<Rightarrow> string \<Rightarrow> string option" where
  "scan_quoted n s =
     (case dropWhile c_isspace s of
        [] \<Rightarrow> None
      | c # r \<Rightarrow> if c = quote then map_option fst (scan_set n (\<lambda>x. x \<noteq> quote) r) else None)"

definition scan_config :: "string \<Rightarrow> string option" where
  "scan_config p = do { (type, r) \<leftarrow> scan_s 63 (drop 6 p); scan_quoted 63 r }"

definition scan_option :: "string \<Rightarrow> (string \<times> string) option" where
  "scan_option p =
     do {
       (key, r) \<leftarrow> scan_s 63 (drop 6 p);
       case scan_quoted 511 r of
         Some v \<Rightarrow> Some (key, v)
       | None \<Rightarrow> map_option (\<lambda>(v, _). (key, v)) (scan_s 511 r)
     }"

text \<open>The blanks at both ends of a host name; the first character that is not one always stays.\<close>

definition trim_host :: "string \<Rightarrow> string" where
  "trim_host v =
     (case dropWhile (\<lambda>c. c = CHR '' '' \<or> c = tab) v of
        [] \<Rightarrow> []
      | c # r \<Rightarrow> c # rev (dropWhile (\<lambda>c. c = CHR '' '' \<or> c = tab \<or> c = nl) (rev r)))"

text \<open>A number that is the whole text and in the given range.\<close>

definition uci_number :: "int \<Rightarrow> int \<Rightarrow> string \<Rightarrow> int option" where
  "uci_number lo hi v = (let (n, r) = strtol10 v in if r = [] \<and> lo \<le> n \<and> n \<le> hi then Some n else None)"

definition uci_apply :: "string \<Rightarrow> string \<Rightarrow> string \<Rightarrow> client_config \<Rightarrow> client_config" where
  "uci_apply section key value cfg =
     (if section = ''server'' then
        if key = ''host'' then cfg\<lparr>cfg_server_host := trim_host value\<rparr>
        else if key = ''port'' then (case uci_number 1 65535 value of None \<Rightarrow> cfg | Some n \<Rightarrow> cfg\<lparr>cfg_server_port := n\<rparr>)
        else cfg
      else if section = ''client'' then
        if key = ''client_id'' then (case uci_number 0 1023 value of None \<Rightarrow> cfg | Some n \<Rightarrow> cfg\<lparr>cfg_client_id := n\<rparr>)
        else if key = ''client_slot'' then (case uci_number 0 1023 value of None \<Rightarrow> cfg | Some n \<Rightarrow> cfg\<lparr>cfg_client_slot := n\<rparr>)
        else cfg
      else cfg)"

text \<open>One line: the current section and the configuration.\<close>

definition uci_line :: "string option \<times> client_config \<Rightarrow> string \<Rightarrow> string option \<times> client_config" where
  "uci_line st line =
     (let (section, cfg) = st;
          p = dropWhile (\<lambda>c. c = CHR '' '' \<or> c = tab) (takeWhile (\<lambda>c. c \<noteq> CHR 0x00) line)
      in if p = [] \<or> hd p = nl \<or> hd p = CHR ''#'' then st
         else if take 7 p = ''config '' then
           (case scan_config p of None \<Rightarrow> st | Some name \<Rightarrow> (Some name, cfg))
         else if take 7 p = ''option '' then
           (case scan_option p of
              None \<Rightarrow> st
            | Some (key, value) \<Rightarrow>
                (case section of
                   None \<Rightarrow> st
                 | Some sec \<Rightarrow> (section, uci_apply sec key (takeWhile (\<lambda>c. c \<noteq> nl) value) cfg)))
         else st)"

definition parse_openwrt_config :: "client_config \<Rightarrow> string option \<Rightarrow> client_config" where
  "parse_openwrt_config cfg file =
     (case file of None \<Rightarrow> cfg | Some text \<Rightarrow> snd (foldl uci_line (None, cfg) (fgets_lines 1023 text)))"

section \<open>Start\<close>

text \<open>\<open>main\<close> up to the call of \<open>client_user_main\<close>; \<open>None\<close> is a call of \<open>exit\<close> or a result of \<open>atoi\<close> that is undefined.\<close>

record main_env =
  me_hostname :: string
  me_version :: string
  me_build :: client_build
  me_client :: client_env
  me_sigaction_ok :: bool

definition client_configure :: "main_env \<Rightarrow> string \<Rightarrow> string option \<Rightarrow> (char \<times> string) list \<Rightarrow> cl_opt_res" where
  "client_configure A argv0 file opts =
     (let cfg = client_config_init;
          cfg1 = (if strstr ''openwrt'' argv0 \<noteq> None then parse_openwrt_config cfg file else cfg)
      in cl_handle_options (me_build A) opts cfg1)"

definition client_main :: "main_env \<Rightarrow> string \<Rightarrow> string option \<Rightarrow> (char \<times> string) list \<Rightarrow> bankd_client option" where
  "client_main A argv0 file opts =
     (case client_configure A argv0 file opts of
        ClOk cfg \<Rightarrow>
          do {
            (rc, bc) \<leftarrow> client_do (me_client A) CStart (remsim_client_create (me_version A) (me_hostname A) ''remsim-client'' cfg);
            if me_sigaction_ok A then Some bc else None
          }
      | _ \<Rightarrow> None)"

end
