(* ===== verification/Client_Main_Props.thy ===== *)
theory Client_Main_Props
  imports Client_Main Client_Props
begin

text \<open>
  Properties of the start of remsim-client: which value an option of the command line or of the
  configuration file gets, and that the running client starts in a reachable state of \<open>Client_Inv\<close>.
  The locale \<open>option_field\<close> is the contract of a field of the configuration that one option sets.
\<close>

section \<open>The command line\<close>

text \<open>The argument of the last occurrence of an option.\<close>

fun last_arg :: "char \<Rightarrow> (char \<times> string) list \<Rightarrow> string option" where
  "last_arg c [] = None"
| "last_arg c ((d, a) # r) = (case last_arg c r of Some x \<Rightarrow> Some x | None \<Rightarrow> if d = c then Some a else None)"

definition chosen :: "(char \<times> string) list \<Rightarrow> char \<Rightarrow> 'a \<Rightarrow> (string \<Rightarrow> 'a) \<Rightarrow> 'a" where
  "chosen opts c dflt val = (case last_arg c opts of None \<Rightarrow> dflt | Some a \<Rightarrow> val a)"

locale option_field =
  fixes letter :: char and field :: "client_config \<Rightarrow> 'a" and val :: "string \<Rightarrow> 'a"
  assumes step: "cl_handle_option B d a cfg = ClOk cfg' \<Longrightarrow> field cfg' = (if d = letter then val a else field cfg)"
begin

lemma last_wins:
  "cl_handle_options B opts cfg = ClOk cfg' \<Longrightarrow>
     field cfg' = chosen opts letter (field cfg) val"
proof (induction opts arbitrary: cfg)
  case (Cons p r)
  obtain d a where p: "p = (d, a)" by fastforce
  with Cons.prems obtain cfg1 where 1: "cl_handle_option B d a cfg = ClOk cfg1" "cl_handle_options B r cfg1 = ClOk cfg'"
    by (auto split: cl_opt_res.splits)
  from Cons.IH [OF 1(2)] step [OF 1(1)] p show ?case
    by (auto simp: chosen_def split: option.splits)
qed (simp add: chosen_def)

end

lemmas option_defs = cl_handle_option_def cl_int_def cl_atr_def

interpretation host_opt: option_field "CHR ''i''" cfg_server_host "\<lambda>a. a"
  by unfold_locales (auto simp: option_defs Let_def split: if_splits option.splits prod.splits)

interpretation port_opt: option_field "CHR ''p''" cfg_server_port "\<lambda>a. the (atoi a)"
  by unfold_locales (auto simp: option_defs Let_def split: if_splits option.splits prod.splits)

interpretation id_opt: option_field "CHR ''c''" cfg_client_id "\<lambda>a. the (atoi a)"
  by unfold_locales (auto simp: option_defs Let_def split: if_splits option.splits prod.splits)

interpretation slot_opt: option_field "CHR ''n''" cfg_client_slot "\<lambda>a. the (atoi a)"
  by unfold_locales (auto simp: option_defs Let_def split: if_splits option.splits prod.splits)

interpretation script_opt: option_field "CHR ''e''" event_script Some
  by unfold_locales (auto simp: option_defs Let_def split: if_splits option.splits prod.splits)


definition ex_main :: main_env where
  "ex_main = \<lparr>me_hostname = ''host'', me_version = ''1'', me_build = \<lparr>cb_simtrace = False, cb_usb = False, cb_hexparse = \<lambda>_ _. (-1, [])\<rparr>,
     me_client = ex_cenv 9, me_sigaction_ok = True\<rparr>"


section \<open>The configuration file\<close>

datatype uci_item = UciConfig string string | UciOption string string | UciComment string

fun uci_show :: "uci_item \<Rightarrow> string" where
  "uci_show (UciConfig type name) = ''config '' @ type @ '' '' @ [quote] @ name @ [quote, nl]"
| "uci_show (UciOption key v) = [tab] @ ''option '' @ key @ '' '' @ [quote] @ v @ [quote, nl]"
| "uci_show (UciComment t) = ''#'' @ t @ [nl]"

definition uci_word :: "string \<Rightarrow> bool" where
  "uci_word w \<longleftrightarrow> w \<noteq> [] \<and> length w \<le> 63 \<and> (\<forall>c \<in> set w. \<not> c_isspace c \<and> c \<noteq> CHR 0x00)"

definition uci_text :: "nat \<Rightarrow> string \<Rightarrow> bool" where
  "uci_text n t \<longleftrightarrow> t \<noteq> [] \<and> length t \<le> n \<and> (\<forall>c \<in> set t. c \<noteq> quote \<and> c \<noteq> nl \<and> c \<noteq> CHR 0x00)"

fun uci_ok :: "uci_item \<Rightarrow> bool" where
  "uci_ok (UciConfig type name) = (uci_word type \<and> uci_text 63 name)"
| "uci_ok (UciOption key v) = (uci_word key \<and> uci_text 511 v)"
| "uci_ok (UciComment t) = (length t \<le> 1000 \<and> (\<forall>c \<in> set t. c \<noteq> nl \<and> c \<noteq> CHR 0x00))"

text \<open>What a file means: an option is for the section it stands in.\<close>

fun uci_mean :: "string option \<times> client_config \<Rightarrow> uci_item \<Rightarrow> string option \<times> client_config" where
  "uci_mean (s, cfg) (UciConfig type name) = (Some name, cfg)"
| "uci_mean (s, cfg) (UciOption key v) = (s, case s of None \<Rightarrow> cfg | Some sec \<Rightarrow> uci_apply sec key v cfg)"
| "uci_mean (s, cfg) (UciComment t) = (s, cfg)"

lemma scan_s_word:
  assumes "uci_word w" "c_isspace c" "c_isspace d"
  shows "scan_s 63 (d # w @ c # r) = Some (w, c # r)"
proof -
  obtain a u where w: "w = a # u" using assms(1) by (cases w) (auto simp: uci_word_def)
  then have "dropWhile c_isspace (d # w @ c # r) = w @ c # r"
    using assms by (simp add: uci_word_def)
  moreover have "takeWhile (\<lambda>c. \<not> c_isspace c) (w @ c # r) = w"
    using assms by (intro takeWhile_stop) (auto simp: uci_word_def)
  ultimately show ?thesis
    using assms(1) by (simp add: scan_s_def scan_set_def uci_word_def)
qed

lemma scan_quoted_text:
  assumes "uci_text n t"
  shows "scan_quoted n (CHR '' '' # quote # t @ quote # r) = Some t"
proof -
  have "takeWhile (\<lambda>x. x \<noteq> quote) (t @ quote # r) = t"
    using assms by (intro takeWhile_stop) (auto simp: uci_text_def)
  then show ?thesis
    using assms by (cases t) (simp_all add: scan_quoted_def scan_set_def uci_text_def c_isspace_def)
qed

lemma uci_no_nul:
  assumes "uci_ok it"
  shows "takeWhile (\<lambda>c. c \<noteq> CHR 0x00) (uci_show it) = uci_show it"
  using assms by (cases it) (auto simp: uci_word_def uci_text_def takeWhile_eq_all_conv)

lemma uci_line_show:
  assumes "uci_ok it"
  shows "uci_line st (uci_show it) = uci_mean st it"
proof (cases it)
  case (UciConfig type name)
  have "scan_config (''config '' @ type @ '' '' @ [quote] @ name @ [quote, nl]) = Some name"
    using assms scan_s_word [of type "CHR '' ''" "CHR '' ''"] scan_quoted_text [of 63 name]
    by (simp add: UciConfig scan_config_def c_isspace_def)
  with uci_no_nul [OF assms] UciConfig show ?thesis
    by (cases st) (simp add: uci_line_def)
next
  case (UciOption key v)
  have "scan_option (''option '' @ key @ '' '' @ [quote] @ v @ [quote, nl]) = Some (key, v)"
    using assms scan_s_word [of key "CHR '' ''" "CHR '' ''"] scan_quoted_text [of 511 v]
    by (simp add: UciOption scan_option_def c_isspace_def)
  moreover have v: "takeWhile (\<lambda>c. c \<noteq> nl) v = v"
    using assms by (auto simp: UciOption uci_text_def takeWhile_eq_all_conv)
  ultimately show ?thesis
    using uci_no_nul [OF assms] UciOption by (cases st) (simp add: uci_line_def v split: option.split)
next
  case (UciComment t)
  with uci_no_nul [OF assms] show ?thesis
    by (cases st) (simp add: uci_line_def)
qed

lemma no_nl: "uci_word w \<Longrightarrow> nl \<notin> set w" "uci_text n t \<Longrightarrow> nl \<notin> set t"
proof -
  have "c_isspace nl" by (simp add: c_isspace_def)
  then show "uci_word w \<Longrightarrow> nl \<notin> set w" "uci_text n t \<Longrightarrow> nl \<notin> set t"
    by (auto simp: uci_word_def uci_text_def)
qed

lemma fgets_show:
  assumes "uci_ok it"
  shows "fgets 1023 (uci_show it @ r) = uci_show it"
proof -
  obtain l where l: "uci_show it = l @ [nl]" "nl \<notin> set l" "length l < 1023"
  proof (cases it)
    case (UciConfig type name)
    with assms that [of "''config '' @ type @ '' '' @ [quote] @ name @ [quote]"] no_nl(1) [of type] no_nl(2) [of 63 name] show ?thesis
      by (simp add: uci_word_def uci_text_def)
  next
    case (UciOption key v)
    with assms that [of "[tab] @ ''option '' @ key @ '' '' @ [quote] @ v @ [quote]"] no_nl(1) [of key] no_nl(2) [of 511 v] show ?thesis
      by (simp add: uci_word_def uci_text_def)
  next
    case (UciComment t)
    with assms that [of "''#'' @ t"] show ?thesis by auto
  qed
  then have "takeWhile (\<lambda>c. c \<noteq> nl) (l @ nl # r) = l" "dropWhile (\<lambda>c. c \<noteq> nl) (l @ nl # r) = nl # r"
    by (auto intro!: takeWhile_stop)
  with l show ?thesis
    by (simp add: fgets_def)
qed

lemma uci_lines:
  assumes "list_all uci_ok items"
  shows "fgets_lines 1023 (concat (map uci_show items)) = map uci_show items"
  using assms
proof (induction items)
  case (Cons it items)
  then have "uci_show it \<noteq> []" by (cases it) auto
  with Cons show ?case
    using fgets_show [of it "concat (map uci_show items)"] by (simp add: fgets_lines.simps [of 1023 "uci_show it @ _"])
qed (simp add: fgets_lines.simps)


definition ex_uci :: "uci_item list" where
  "ex_uci = [UciComment '' remsim'', UciConfig ''client'' ''client'', UciOption ''client_id'' ''7'', UciOption ''client_slot'' ''1024'',
     UciConfig ''server'' ''server'', UciOption ''host'' ''a.example'', UciOption ''client_slot'' ''3'']"


text \<open>The parts of the configuration that a file may change, and their ranges.\<close>

definition uci_within :: "client_config \<Rightarrow> client_config \<Rightarrow> bool" where
  "uci_within cfg cfg' \<longleftrightarrow>
     (cfg_server_port cfg' = cfg_server_port cfg \<or> 1 \<le> cfg_server_port cfg' \<and> cfg_server_port cfg' \<le> 65535) \<and>
     (cfg_client_id cfg' = cfg_client_id cfg \<or> 0 \<le> cfg_client_id cfg' \<and> cfg_client_id cfg' \<le> 1023) \<and>
     (cfg_client_slot cfg' = cfg_client_slot cfg \<or> 0 \<le> cfg_client_slot cfg' \<and> cfg_client_slot cfg' \<le> 1023) \<and>
     cfg' = cfg\<lparr>cfg_server_host := cfg_server_host cfg', cfg_server_port := cfg_server_port cfg',
               cfg_client_id := cfg_client_id cfg', cfg_client_slot := cfg_client_slot cfg'\<rparr>"

lemma uci_within_refl: "uci_within cfg cfg"
  by (simp add: uci_within_def)

lemma uci_apply_within:
  assumes "uci_within cfg0 cfg"
  shows "uci_within cfg0 (uci_apply section key v cfg)"
  using assms by (cases cfg0; cases cfg)
    (auto simp: uci_apply_def uci_number_def uci_within_def Let_def split: option.splits if_splits prod.splits)

lemma uci_line_within:
  assumes "uci_within cfg0 (snd st)"
  shows "uci_within cfg0 (snd (uci_line st line))"
  using assms by (cases st) (simp add: uci_line_def Let_def uci_apply_within split: option.split prod.split)

text \<open>Whatever a configuration file contains, reading it ends, a port, client or slot number it changes is in its
  range afterwards, and nothing but these and the address of the server changes.\<close>

theorem uci_bounds: "uci_within cfg (parse_openwrt_config cfg file)"
proof -
  have "uci_within cfg (snd (foldl uci_line st ls))" if "uci_within cfg (snd st)" for st ls
    using that by (induction ls arbitrary: st) (simp_all add: uci_line_within)
  then show ?thesis
    by (simp add: parse_openwrt_config_def uci_within_refl split: option.split)
qed

end
