(* ===== verification/Client_Shell.thy ===== *)
theory Client_Shell
  imports Client_Props
begin

text \<open>
  The interactive frontend of remsim-client, \<^verbatim>\<open>src/client/user_shell.c\<close>: commands in hexadecimal on
  the standard input go to the card, its responses are printed. The state is the content of the receive
  buffer (\<open>None\<close>: not allocated). \<open>osmo_hexparse\<close> of libosmocore is a parameter. The end of the input is
  \<open>ShExit\<close>; a use of the buffer after it has been freed is \<open>ShAbort\<close>, as is an abort of the client core.
\<close>

datatype shell_print = RApdu bytes | SetAtr bytes

record stdin_state =
  rx_msg :: "string option"
  sh_out :: "shell_print list"

text \<open>What the core asks of the frontend; the other requests do nothing and return 0.\<close>

fun shell_act :: "stdin_state \<Rightarrow> client_effect \<Rightarrow> stdin_state" where
  "shell_act ss (FeCard2Modem d) = ss\<lparr>sh_out := sh_out ss @ [RApdu d]\<rparr>"
| "shell_act ss (FeSetAtr d) = ss\<lparr>sh_out := sh_out ss @ [SetAtr d]\<rparr>"
| "shell_act ss _ = ss"

definition shell_append_script_env :: "string list" where
  "shell_append_script_env = []"

definition to_lower :: "char \<Rightarrow> char" where
  "to_lower c = (let n = of_char c :: nat in if 65 \<le> n \<and> n \<le> 90 then char_of (n + 32) else c)"

definition strcasecmp_eq :: "string \<Rightarrow> string \<Rightarrow> bool" where
  "strcasecmp_eq a b \<longleftrightarrow> map to_lower a = map to_lower b"

definition reset_status :: frontend_phys_status where
  "reset_status =
     \<lparr>reset_active = 1, vcc_present = 0, clk_active = 0, card_present = 1, voltage_mv = 0,
      fps_fi = 0, fps_di = 0, fps_wi = 0, fps_waiting_time = 0\<rparr>"

definition handle_stdin_command ::
  "(string \<Rightarrow> nat \<Rightarrow> int \<times> bytes) \<Rightarrow> client_env \<Rightarrow> string \<Rightarrow> bankd_client \<Rightarrow> bankd_client option" where
  "handle_stdin_command hexparse C cmd bc =
     (if strcasecmp_eq cmd ''RESET'' then map_option snd (main_dispatch C MF_E_MDM_STATUS_IND (MfStatus reset_status) bc)
      else let (rc, buf) = hexparse cmd 1024
           in if rc < 0 then Some bc
              else if srvc_clslot (srv_conn bc) = None then Some bc
              else map_option snd (main_dispatch C MF_E_MDM_TPDU (MfTpdu (take (nat rc) buf)) bc))"

datatype shell_res = ShRet int stdin_state bankd_client | ShExit | ShAbort

definition eol :: "char \<Rightarrow> bool" where
  "eol c \<longleftrightarrow> c = CHR 0x0D \<or> c = CHR 0x0A"

text \<open>\<open>stdin_fd_cb\<close> with the result of \<open>read\<close>: a negative return value, or at most as many bytes as the buffer
  of 1024 bytes has room for. The loop over the bytes goes on after a command, when the buffer
  has been freed.\<close>

definition stdin_fd_cb ::
  "(string \<Rightarrow> nat \<Rightarrow> int \<times> bytes) \<Rightarrow> client_env \<Rightarrow> int + string \<Rightarrow> stdin_state \<Rightarrow> bankd_client \<Rightarrow> shell_res" where
  "stdin_fd_cb hexparse C res ss bc =
     (let rx = (case rx_msg ss of None \<Rightarrow> [] | Some r \<Rightarrow> r)
      in case res of
        Inl rc \<Rightarrow> ShRet rc (ss\<lparr>rx_msg := Some rx\<rparr>) bc
      | Inr bytes \<Rightarrow>
          (let cur = take (1024 - length rx) bytes
           in if cur = [] then ShExit
              else case dropWhile (\<lambda>c. \<not> eol c) cur of
                [] \<Rightarrow> ShRet 0 (ss\<lparr>rx_msg := Some (rx @ cur)\<rparr>) bc
              | _ # rest \<Rightarrow>
                  (case handle_stdin_command hexparse C (takeWhile (\<lambda>c. c \<noteq> CHR 0x00) (takeWhile (\<lambda>c. \<not> eol c) cur)) bc of
                     None \<Rightarrow> ShAbort
                   | Some bc' \<Rightarrow> if rest \<noteq> [] then ShAbort else ShRet 0 (ss\<lparr>rx_msg := None\<rparr>) bc')))"

section \<open>Commands\<close>

text \<open>\<open>osmo_hexparse\<close> reads hexadecimal text and returns the number of bytes.\<close>

definition hexparse_reads :: "(string \<Rightarrow> nat \<Rightarrow> int \<times> bytes) \<Rightarrow> string \<Rightarrow> bytes \<Rightarrow> bool" where
  "hexparse_reads hexparse cmd d \<longleftrightarrow> hexparse cmd 1024 = (int (length d), d)"

definition plain_line :: "string \<Rightarrow> bool" where
  "plain_line l \<longleftrightarrow> l \<noteq> [] \<and> (\<forall>c \<in> set l. \<not> eol c \<and> c \<noteq> CHR 0x00)"

lemma line_split:
  assumes "\<forall>c \<in> set l. \<not> eol c \<and> c \<noteq> CHR 0x00" "eol e"
  shows "dropWhile (\<lambda>c. \<not> eol c) (l @ e # rest) = e # rest" "takeWhile (\<lambda>c. \<not> eol c) (l @ e # rest) = l"
    "takeWhile (\<lambda>c. c \<noteq> CHR 0x00) l = l"
  using assms by (auto simp: dropWhile_append2 takeWhile_append2 takeWhile_eq_all_conv)


definition ex_hexparse :: "string \<Rightarrow> nat \<Rightarrow> int \<times> bytes" where
  "ex_hexparse s n = (if s = ''a0a4'' then (2, [0xa0, 0xa4]) else (-1, []))"

definition ex_shell :: stdin_state where
  "ex_shell = \<lparr>rx_msg = None, sh_out = []\<rparr>"


end
