(* ===== verification/Ifdhandler.thy ===== *)
theory Ifdhandler
  imports End_To_End
begin

text \<open>
  The reader driver of remsim-client, \<^verbatim>\<open>src/client/user_ifdhandler.c\<close>. pcscd calls the functions \<open>IFDH...\<close>; each
  sends one message to the thread of a client over a pair of sockets and waits for an answer. The thread runs the
  client core; its frontend sends responses of the card to the driver.

  A \<open>client_thread\<close> has the client, the queue of messages for the driver and, as part of the same record, the messages
  that are in the sockets, in order. The sockets keep the boundaries of messages. What the thread does while a function
  of the driver waits is a list of \<open>ct_step\<close>s; when there is no message after them the function is still
  waiting (\<open>Blocked\<close>). \<open>None\<close> is an abort, or the end of the thread. A message has 8 bytes before its data, and
  the buffers for it have 1024. The driver reads the length of a message it has sent after freeing it; here the
  length is still there.
\<close>

section \<open>Messages\<close>

datatype itmsg_type =
    ITMSG_TYPE_NONE
  | ITMSG_TYPE_CARD_PRES_REQ | ITMSG_TYPE_CARD_PRES_RESP
  | ITMSG_TYPE_ATR_REQ | ITMSG_TYPE_ATR_RESP
  | ITMSG_TYPE_C_APDU_REQ | ITMSG_TYPE_R_APDU_IND
  | ITMSG_TYPE_POWER_OFF_REQ | ITMSG_TYPE_POWER_OFF_RESP
  | ITMSG_TYPE_POWER_ON_REQ | ITMSG_TYPE_POWER_ON_RESP
  | ITMSG_TYPE_RESET_REQ | ITMSG_TYPE_RESET_RESP

record itmsg =
  im_type :: itmsg_type
  im_status :: u16
  im_data :: bytes

text \<open>The parameter \<open>len\<close> is a \<open>uint16_t\<close>.\<close>

definition itmsg_alloc :: "itmsg_type \<Rightarrow> u16 \<Rightarrow> bytes \<Rightarrow> itmsg" where
  "itmsg_alloc ty status data = \<lparr>im_type = ty, im_status = status, im_data = take (length data mod 65536) data\<rparr>"

definition it_size :: "itmsg \<Rightarrow> nat" where
  "it_size m = 8 + length (im_data m)"

section \<open>The thread of a client\<close>

record client_thread =
  ct_bc :: bankd_client
  it_msgq :: "itmsg list"
  it_when_write :: bool
  ct_atr :: bytes
  ct_atr_len :: nat
  sock_to_ct :: "itmsg list"
  sock_to_ifd :: "itmsg list"

definition enqueue_to_ifd :: "itmsg \<Rightarrow> client_thread \<Rightarrow> client_thread" where
  "enqueue_to_ifd m ct = ct\<lparr>it_msgq := it_msgq ct @ [m], it_when_write := True\<rparr>"

definition ifd_handle_card2modem :: "bytes \<Rightarrow> client_thread \<Rightarrow> client_thread" where
  "ifd_handle_card2modem d ct = enqueue_to_ifd (itmsg_alloc ITMSG_TYPE_R_APDU_IND 0 d) ct"

definition ifd_handle_set_atr :: "bytes \<Rightarrow> client_thread \<Rightarrow> client_thread" where
  "ifd_handle_set_atr d ct =
     (let d' = take ATR_SIZE_MAX d in ct\<lparr>ct_atr := buf_write (ct_atr ct) d', ct_atr_len := length d'\<rparr>)"

text \<open>The requests of the core; the others do nothing and return 0.\<close>

fun ifd_act :: "client_thread \<Rightarrow> client_effect \<Rightarrow> client_thread" where
  "ifd_act ct (FeCard2Modem d) = ifd_handle_card2modem d ct"
| "ifd_act ct (FeSetAtr d) = ifd_handle_set_atr d ct"
| "ifd_act ct _ = ct"

text \<open>The core runs; the frontend gets what it asks for.\<close>

definition after_core :: "client_thread \<Rightarrow> bankd_client \<Rightarrow> client_thread" where
  "after_core ct bc' = foldl ifd_act (ct\<lparr>ct_bc := bc'\<rparr>) (drop (length (bc_out (ct_bc ct))) (bc_out bc'))"

definition ifd_status :: "client_env \<Rightarrow> bool \<Rightarrow> bool \<Rightarrow> bool \<Rightarrow> client_thread \<Rightarrow> client_thread option" where
  "ifd_status C rst vcc clk ct =
     do {
       clslot \<leftarrow> srvc_clslot (srv_conn (ct_bc ct));
       bc' \<leftarrow> send_bankd (main_notify 2 C) C
         (rspro_gen_ClientSlotStatusInd (calloc_ok (ce_srvc C)) clslot (bank_slot2rspro (bankd_slot (ct_bc ct)))
            rst (of_bool vcc) (of_bool clk) 1) (ct_bc ct);
       Some (after_core ct bc')
     }"

definition handle_it_msg :: "client_env \<Rightarrow> itmsg \<Rightarrow> client_thread \<Rightarrow> client_thread option" where
  "handle_it_msg C m ct =
     (case im_type m of
        ITMSG_TYPE_CARD_PRES_REQ \<Rightarrow>
          Some (enqueue_to_ifd (itmsg_alloc ITMSG_TYPE_CARD_PRES_RESP
            (if srvc_st (bankd_conn (ct_bc ct)) = SRVC_ST_CONNECTED then 0 else 0xffff) []) ct)
      | ITMSG_TYPE_ATR_REQ \<Rightarrow> Some (enqueue_to_ifd (itmsg_alloc ITMSG_TYPE_ATR_RESP 0 (take (ct_atr_len ct) (ct_atr ct))) ct)
      | ITMSG_TYPE_POWER_OFF_REQ \<Rightarrow>
          map_option (enqueue_to_ifd (itmsg_alloc ITMSG_TYPE_POWER_OFF_RESP 0 [])) (ifd_status C True False False ct)
      | ITMSG_TYPE_POWER_ON_REQ \<Rightarrow>
          map_option (enqueue_to_ifd (itmsg_alloc ITMSG_TYPE_POWER_ON_RESP 0 [])) (ifd_status C False True True ct)
      | ITMSG_TYPE_RESET_REQ \<Rightarrow>
          do {
            ct1 \<leftarrow> ifd_status C True True True ct;
            ct2 \<leftarrow> ifd_status C False True True ct1;
            Some (enqueue_to_ifd (itmsg_alloc ITMSG_TYPE_RESET_RESP 0 []) ct2)
          }
      | ITMSG_TYPE_C_APDU_REQ \<Rightarrow>
          (case srvc_clslot (srv_conn (ct_bc ct)) of
             None \<Rightarrow> Some ct
           | Some clslot \<Rightarrow>
               map_option (after_core ct)
                 (send_bankd (main_notify 2 C) C
                    (rspro_gen_TpduModem2Card (calloc_ok (ce_srvc C)) clslot (bank_slot2rspro (bankd_slot (ct_bc ct))) (im_data m))
                    (ct_bc ct)))
      | _ \<Rightarrow> Some ct)"

text \<open>\<open>it_sock_fd_cb\<close>: a message that is longer than the buffer arrives cut off and is dropped. Writing takes the first
  message of the queue.\<close>

definition it_sock_read :: "client_env \<Rightarrow> client_thread \<Rightarrow> client_thread option" where
  "it_sock_read C ct =
     (case sock_to_ct ct of
        [] \<Rightarrow> None
      | m # r \<Rightarrow> if it_size m > 1024 then Some (ct\<lparr>sock_to_ct := r\<rparr>) else handle_it_msg C m (ct\<lparr>sock_to_ct := r\<rparr>))"

definition it_sock_write :: "client_thread \<Rightarrow> client_thread" where
  "it_sock_write ct =
     (case it_msgq ct of
        [] \<Rightarrow> ct\<lparr>it_when_write := False\<rparr>
      | m # r \<Rightarrow> ct\<lparr>it_msgq := r, sock_to_ifd := sock_to_ifd ct @ [m]\<rparr>)"

datatype ct_step = CtRead | CtWrite | CtInput client_input

fun ct_do :: "client_env \<Rightarrow> ct_step \<Rightarrow> client_thread \<Rightarrow> client_thread option" where
  "ct_do C CtRead ct = it_sock_read C ct"
| "ct_do C CtWrite ct = Some (it_sock_write ct)"
| "ct_do C (CtInput inp) ct = map_option (\<lambda>(rc, bc'). after_core ct bc') (client_do C inp (ct_bc ct))"

fun ct_run :: "client_env \<Rightarrow> ct_step list \<Rightarrow> client_thread \<Rightarrow> client_thread option" where
  "ct_run C [] ct = Some ct"
| "ct_run C (s # ss) ct = do { ct1 \<leftarrow> ct_do C s ct; ct_run C ss ct1 }"

record client_thread_cfg =
  tc_server_host :: string
  tc_server_port :: int
  tc_client_id :: int
  tc_client_slot :: int

definition client_pthread_main :: "client_env \<Rightarrow> string \<Rightarrow> client_thread_cfg \<Rightarrow> client_thread option" where
  "client_pthread_main C hostname cfg =
     (let ccfg = client_config_init\<lparr>cfg_server_host := tc_server_host cfg,
            cfg_server_port := (if tc_server_port cfg \<ge> 0 then tc_server_port cfg else cfg_server_port client_config_init),
            cfg_client_id := tc_client_id cfg, cfg_client_slot := tc_client_slot cfg\<rparr>;
          ct = \<lparr>ct_bc = remsim_client_create (ce_version C) hostname ''remsim_ifdhandler'' ccfg, it_msgq = [], it_when_write = False,
            ct_atr = replicate ATR_SIZE_MAX 0, ct_atr_len = 0, sock_to_ct = [], sock_to_ifd = []\<rparr>
      in map_option (\<lambda>(rc, bc'). after_core ct bc') (client_do C CStart (ct_bc ct)))"

section \<open>The driver\<close>

datatype RESPONSECODE =
    IFD_SUCCESS | IFD_ERROR_TAG | IFD_ERROR_NOT_SUPPORTED | IFD_COMMUNICATION_ERROR | IFD_NOT_SUPPORTED
  | IFD_ICC_NOT_PRESENT | IFD_NO_SUCH_DEVICE

datatype 'a waiting = Blocked client_thread | Done 'a client_thread

definition ifd_xceive_client :: "client_env \<Rightarrow> ct_step list \<Rightarrow> itmsg \<Rightarrow> client_thread \<Rightarrow> itmsg option waiting option" where
  "ifd_xceive_client C steps tx ct =
     do {
       ct1 \<leftarrow> ct_run C steps (ct\<lparr>sock_to_ct := sock_to_ct ct @ [tx]\<rparr>);
       Some (case sock_to_ifd ct1 of
               [] \<Rightarrow> Blocked ct1
             | rx # r \<Rightarrow> Done (if it_size rx > 1024 then None else Some rx) (ct1\<lparr>sock_to_ifd := r\<rparr>))
     }"

type_synonym ifd_clients = "nat \<Rightarrow> client_thread option"

definition MAX_SLOTS :: nat where "MAX_SLOTS = 256"
definition LUN2SLOT :: "nat \<Rightarrow> nat" where "LUN2SLOT lun = lun mod 65536"
definition LUN2RDR :: "nat \<Rightarrow> nat" where "LUN2RDR lun = lun div 65536"

definition lun_ok :: "nat \<Rightarrow> bool" where
  "lun_ok lun \<longleftrightarrow> LUN2RDR lun = 0 \<and> LUN2SLOT lun < MAX_SLOTS"

definition create_ifd_client ::
  "bool \<Rightarrow> client_env \<Rightarrow> string \<Rightarrow> client_thread_cfg \<Rightarrow> client_thread option option" where
  "create_ifd_client created C hostname cfg =
     (if \<not> created then Some None else map_option Some (client_pthread_main C hostname cfg))"

definition IFDHCreateChannel :: "nat \<Rightarrow> nat \<Rightarrow> RESPONSECODE" where
  "IFDHCreateChannel lun channel = IFD_COMMUNICATION_ERROR"

text \<open>The name of the device. \<open>None\<close>: \<open>atoi\<close> is undefined, or gets a NULL pointer.\<close>

definition parse_device_name :: "string \<Rightarrow> client_thread_cfg option" where
  "parse_device_name name =
     (let cfg0 = \<lparr>tc_server_host = ''127.0.0.1'', tc_server_port = -1, tc_client_id = 0, tc_client_slot = 0\<rparr>
      in case strtok_all (CHR '':'') name of
           [] \<Rightarrow> Some cfg0
         | [c] \<Rightarrow> map_option (\<lambda>i. cfg0\<lparr>tc_client_id := i\<rparr>) (atoi c)
         | [c, s] \<Rightarrow> do { i \<leftarrow> atoi c; j \<leftarrow> atoi s; Some (cfg0\<lparr>tc_client_id := i, tc_client_slot := j\<rparr>) }
         | [c, s, h] \<Rightarrow> None
         | c # s # h # p # _ \<Rightarrow>
             do { i \<leftarrow> atoi c; j \<leftarrow> atoi s; port \<leftarrow> atoi p;
                  Some \<lparr>tc_server_host = h, tc_server_port = port, tc_client_id = i, tc_client_slot = j\<rparr> })"

definition IFDHCreateChannelByName ::
  "bool \<Rightarrow> client_env \<Rightarrow> string \<Rightarrow> nat \<Rightarrow> string \<Rightarrow> ifd_clients \<Rightarrow> (RESPONSECODE \<times> ifd_clients) option" where
  "IFDHCreateChannelByName created C hostname lun name ics =
     (if \<not> lun_ok lun then Some (IFD_NO_SUCH_DEVICE, ics)
      else do {
        cfg \<leftarrow> parse_device_name name;
        ic \<leftarrow> create_ifd_client created C hostname cfg;
        Some (case ic of
                Some ct \<Rightarrow> (IFD_SUCCESS, ics(LUN2SLOT lun \<mapsto> ct))
              | None \<Rightarrow> (IFD_COMMUNICATION_ERROR, ics))
      })"

definition IFDHControl :: "nat \<Rightarrow> RESPONSECODE" where
  "IFDHControl lun = (if \<not> lun_ok lun then IFD_NO_SUCH_DEVICE else IFD_ERROR_NOT_SUPPORTED)"

definition IFDHCloseChannel :: "nat \<Rightarrow> ifd_clients \<Rightarrow> RESPONSECODE \<times> ifd_clients" where
  "IFDHCloseChannel lun ics =
     (if \<not> lun_ok lun then (IFD_NO_SUCH_DEVICE, ics) else (IFD_SUCCESS, ics(LUN2SLOT lun := None)))"

definition IFDHSetCapabilities :: "nat \<Rightarrow> RESPONSECODE" where
  "IFDHSetCapabilities lun = (if \<not> lun_ok lun then IFD_NO_SUCH_DEVICE else IFD_NOT_SUPPORTED)"

definition IFDHSetProtocolParameters :: "nat \<Rightarrow> RESPONSECODE" where
  "IFDHSetProtocolParameters lun = (if \<not> lun_ok lun then IFD_NO_SUCH_DEVICE else IFD_SUCCESS)"

text \<open>The exchange of one message with the client of a slot: the answer, or the response code of a failure.\<close>

datatype 'a ifd_res = Waiting ifd_clients | Returned 'a ifd_clients

definition ifd_exchange ::
  "client_env \<Rightarrow> ct_step list \<Rightarrow> nat \<Rightarrow> itmsg \<Rightarrow> ifd_clients \<Rightarrow> (RESPONSECODE + itmsg) ifd_res option" where
  "ifd_exchange C steps lun tx ics =
     (if \<not> lun_ok lun then Some (Returned (Inl IFD_NO_SUCH_DEVICE) ics)
      else case ics (LUN2SLOT lun) of
        None \<Rightarrow> Some (Returned (Inl IFD_NO_SUCH_DEVICE) ics)
      | Some ct \<Rightarrow>
          map_option (\<lambda>w. case w of
              Blocked ct' \<Rightarrow> Waiting (ics(LUN2SLOT lun \<mapsto> ct'))
            | Done rx ct' \<Rightarrow> Returned (case rx of None \<Rightarrow> Inl IFD_NO_SUCH_DEVICE | Some m \<Rightarrow> Inr m) (ics(LUN2SLOT lun \<mapsto> ct')))
            (ifd_xceive_client C steps tx ct))"

fun ifd_map :: "('a \<Rightarrow> 'b) \<Rightarrow> 'a ifd_res \<Rightarrow> 'b ifd_res" where
  "ifd_map f (Waiting ics) = Waiting ics"
| "ifd_map f (Returned x ics) = Returned (f x) ics"

text \<open>\<open>IFDHGetCapabilities\<close> with a buffer of \<open>cap\<close> bytes: the response code and what is in the buffer.\<close>

datatype ifd_tag = TAG_IFD_ATR | TAG_IFD_SIMULTANEOUS_ACCESS | TAG_IFD_SLOTS_NUMBER | TAG_IFD_THREAD_SAFE | TAG_IFD_SLOT_THREAD_SAFE | TAG_OTHER

definition tag_value :: "nat \<Rightarrow> u8 \<Rightarrow> RESPONSECODE \<times> bytes" where
  "tag_value cap v = (if cap < 1 then (IFD_COMMUNICATION_ERROR, []) else (IFD_SUCCESS, [v]))"

definition IFDHGetCapabilities ::
  "client_env \<Rightarrow> ct_step list \<Rightarrow> nat \<Rightarrow> ifd_tag \<Rightarrow> nat \<Rightarrow> ifd_clients \<Rightarrow> (RESPONSECODE \<times> bytes) ifd_res option" where
  "IFDHGetCapabilities C steps lun tag cap ics =
     (if \<not> lun_ok lun \<or> ics (LUN2SLOT lun) = None then Some (Returned (IFD_NO_SUCH_DEVICE, []) ics)
      else case tag of
        TAG_IFD_ATR \<Rightarrow>
          map_option (ifd_map (\<lambda>x. case x of Inl r \<Rightarrow> (r, []) | Inr m \<Rightarrow> (IFD_SUCCESS, take cap (im_data m))))
            (ifd_exchange C steps lun (itmsg_alloc ITMSG_TYPE_ATR_REQ 0 []) ics)
      | TAG_IFD_SIMULTANEOUS_ACCESS \<Rightarrow> Some (Returned (tag_value cap 1) ics)
      | TAG_IFD_SLOTS_NUMBER \<Rightarrow> Some (Returned (tag_value cap 1) ics)
      | TAG_IFD_THREAD_SAFE \<Rightarrow> Some (Returned (tag_value cap 0) ics)
      | TAG_IFD_SLOT_THREAD_SAFE \<Rightarrow> Some (Returned (tag_value cap 0) ics)
      | TAG_OTHER \<Rightarrow> Some (Returned (IFD_ERROR_TAG, []) ics))"

datatype power_action = IFD_POWER_UP | IFD_POWER_DOWN | IFD_RESET | IFD_POWER_OTHER

text \<open>\<open>IFDHPowerICC\<close>, with buffers for the ATR: after the change of power the ATR is asked for.\<close>

definition IFDHPowerICC ::
  "client_env \<Rightarrow> ct_step list \<Rightarrow> ct_step list \<Rightarrow> nat \<Rightarrow> power_action \<Rightarrow> nat \<Rightarrow> ifd_clients \<Rightarrow> (RESPONSECODE \<times> bytes) ifd_res option" where
  "IFDHPowerICC C steps steps2 lun action cap ics =
     (if \<not> lun_ok lun \<or> ics (LUN2SLOT lun) = None then Some (Returned (IFD_NO_SUCH_DEVICE, []) ics)
      else if action = IFD_POWER_OTHER then Some (Returned (IFD_NOT_SUPPORTED, []) ics)
      else do {
        let ty = (case action of IFD_POWER_DOWN \<Rightarrow> ITMSG_TYPE_POWER_OFF_REQ | IFD_POWER_UP \<Rightarrow> ITMSG_TYPE_POWER_ON_REQ
                  | _ \<Rightarrow> ITMSG_TYPE_RESET_REQ);
        x \<leftarrow> ifd_exchange C steps lun (itmsg_alloc ty 0 []) ics;
        case x of
          Waiting ics' \<Rightarrow> Some (Waiting ics')
        | Returned (Inl r) ics' \<Rightarrow> Some (Returned (r, []) ics')
        | Returned (Inr m) ics' \<Rightarrow> IFDHGetCapabilities C steps2 lun TAG_IFD_ATR cap ics'
      })"

definition IFDHTransmitToICC ::
  "client_env \<Rightarrow> ct_step list \<Rightarrow> nat \<Rightarrow> bytes \<Rightarrow> nat \<Rightarrow> ifd_clients \<Rightarrow> (RESPONSECODE \<times> bytes) ifd_res option" where
  "IFDHTransmitToICC C steps lun TxBuffer cap ics =
     map_option (ifd_map (\<lambda>x. case x of Inl r \<Rightarrow> (r, []) | Inr m \<Rightarrow> (IFD_SUCCESS, take cap (im_data m))))
       (ifd_exchange C steps lun (itmsg_alloc ITMSG_TYPE_C_APDU_REQ 0 TxBuffer) ics)"

definition IFDHICCPresence :: "client_env \<Rightarrow> ct_step list \<Rightarrow> nat \<Rightarrow> ifd_clients \<Rightarrow> RESPONSECODE ifd_res option" where
  "IFDHICCPresence C steps lun ics =
     map_option (ifd_map (\<lambda>x. case x of Inl r \<Rightarrow> r | Inr m \<Rightarrow> if im_status m = 0 then IFD_SUCCESS else IFD_ICC_NOT_PRESENT))
       (ifd_exchange C steps lun (itmsg_alloc ITMSG_TYPE_CARD_PRES_REQ 0 []) ics)"

end
