(* ===== verification/Ifdhandler_Props.thy ===== *)
theory Ifdhandler_Props
  imports Ifdhandler Bankd_Config
begin

text \<open>
  Properties of the reader driver: a command of an application reaches the card and its response the application;
  what the driver does with a response that is late; the name of a device.
\<close>

section \<open>Commands\<close>

definition ct_ready :: "client_thread \<Rightarrow> bool" where
  "ct_ready ct \<longleftrightarrow> client_reach (ct_bc ct) \<and> main_fi (ct_bc ct) = MF_ST_OPERATIONAL \<and>
     it_msgq ct = [] \<and> sock_to_ct ct = [] \<and> sock_to_ifd ct = []"

definition tpdu_request :: "bankd_client \<Rightarrow> ClientSlot_t \<Rightarrow> bytes \<Rightarrow> RsproPDU_t" where
  "tpdu_request bc cs d =
     \<lparr>pdu_version = 2, pdu_tag = 0, pdu_msg = tpduModemToCard cs (bank_slot2rspro (bankd_slot bc)) no_flags d\<rparr>"

lemma ready_connected: "ct_ready ct \<Longrightarrow> srvc_st (bankd_conn (ct_bc ct)) = SRVC_ST_CONNECTED"
  using client_reach_inv [of "ct_bc ct"] by (simp add: ct_ready_def client_inv_def main_link_def)

lemma after_core_silent: "bc_out bc' = bc_out (ct_bc ct) \<Longrightarrow> after_core ct bc' = ct\<lparr>ct_bc := bc'\<rparr>"
  by (simp add: after_core_def)

lemma it_size_alloc: "length d < 65536 \<Longrightarrow> it_size (itmsg_alloc ty st d) = 8 + length d"
  "length d < 65536 \<Longrightarrow> im_data (itmsg_alloc ty st d) = d"
  by (simp_all add: it_size_def itmsg_alloc_def)

lemma c_apdu_sent:
  assumes "ct_ready ct" "client_lib_ok C" "srvc_clslot (srv_conn (ct_bc ct)) = Some cs" "length d \<le> 1016"
  shows "it_sock_read C (ct\<lparr>sock_to_ct := [itmsg_alloc ITMSG_TYPE_C_APDU_REQ 0 d]\<rparr>) =
     Some (ct\<lparr>sock_to_ct := [], ct_bc := (ct_bc ct)\<lparr>bankd_conn := emit (TxRspro (tpdu_request (ct_bc ct) cs d)) (bankd_conn (ct_bc ct))\<rparr>\<rparr>)"
proof -
  note lib = client_lib_okD [OF assms(2)]
  have "send_bankd (main_notify 2 C) C (Some (tpdu_request (ct_bc ct) cs d)) (ct_bc ct) =
      Some ((ct_bc ct)\<lparr>bankd_conn := emit (TxRspro (tpdu_request (ct_bc ct) cs d)) (bankd_conn (ct_bc ct))\<rparr>)"
    using send_bankd_connected [OF lib(1) ready_connected [OF assms(1)], of "tpdu_request (ct_bc ct) cs d"] lib(4) by simp
  moreover have "rspro_gen_TpduModem2Card (calloc_ok (ce_srvc C)) cs (bank_slot2rspro (bankd_slot (ct_bc ct))) d =
      Some (tpdu_request (ct_bc ct) cs d)"
    using lib(3) by (simp add: rspro_gen_TpduModem2Card_def mk_pdu_def tpdu_request_def)
  ultimately show ?thesis
    using assms(3,4) by (simp add: it_sock_read_def it_size_alloc handle_it_msg_def after_core_silent)
       (simp add: itmsg_alloc_def after_core_silent)
qed

lemma response_queued:
  assumes "documented C" "main_fi (ct_bc ct) = MF_ST_OPERATIONAL" "pdu_msg resp = tpduCardToModem bs cs fl r"
  shows "ct_do C (CtInput (CBankdRx resp)) ct =
     Some (enqueue_to_ifd (itmsg_alloc ITMSG_TYPE_R_APDU_IND 0 r) (ct\<lparr>ct_bc := fe (FeCard2Modem r) (ct_bc ct)\<rparr>))"
proof -
  have "client_do C (CBankdRx resp) (ct_bc ct) = Some (0, fe (FeCard2Modem r) (ct_bc ct))"
    using assms by (simp add: bankd_handle_rx_def main_dispatch_def main_dispatch_with_def main_allstate_event_mask_def
        main_action_def main_st_operational_def documentedD [OF assms(1)] bit_simps)
  then show ?thesis
    by (simp add: after_core_def fe_def ifd_handle_card2modem_def enqueue_to_ifd_def)
qed

lemma run_writes: "it_msgq ct = [] \<Longrightarrow> \<exists>w. ct_run C (replicate n CtWrite) ct = Some (ct\<lparr>it_when_write := w\<rparr>)"
proof (induction n arbitrary: ct)
  case 0
  then show ?case by (intro exI [of _ "it_when_write ct"]) simp
next
  case (Suc n)
  then have "it_sock_write ct = ct\<lparr>it_when_write := False\<rparr>" by (simp add: it_sock_write_def)
  with Suc.IH [of "ct\<lparr>it_when_write := False\<rparr>"] Suc.prems show ?case by auto
qed

text \<open>C39. A command of an application goes to bankd as it is, addressed to the card in use, and the response of the card
  is what \<open>IFDHTransmitToICC\<close> returns, cut to the buffer of the caller, when neither has more than 1016 bytes. A longer
  command is dropped by the thread of the client: nothing is sent to bankd and the call waits for ever.\<close>

theorem ifd_transmit:
  assumes "lun_ok lun" "ics (LUN2SLOT lun) = Some ct" "ct_ready ct" "client_lib_ok C"
    and "srvc_clslot (srv_conn (ct_bc ct)) = Some cs" "pdu_msg resp = tpduCardToModem bs cs' fl r" "length r \<le> 1016"
  shows "(length d \<le> 1016 \<longrightarrow>
       (\<exists>ct'. IFDHTransmitToICC C [CtRead, CtInput (CBankdRx resp), CtWrite] lun d cap ics =
           Some (Returned (IFD_SUCCESS, take cap r) (ics(LUN2SLOT lun \<mapsto> ct'))) \<and>
          srvc_out (bankd_conn (ct_bc ct')) =
            srvc_out (bankd_conn (ct_bc ct)) @ [TxRspro (tpdu_request (ct_bc ct) cs d)] \<and>
          it_msgq ct' = [] \<and> sock_to_ct ct' = [] \<and> sock_to_ifd ct' = [])) \<and>
     (1016 < length d \<and> length d < 65536 \<longrightarrow>
       (\<exists>w. IFDHTransmitToICC C (CtRead # replicate n CtWrite) lun d cap ics =
          Some (Waiting (ics(LUN2SLOT lun \<mapsto> ct\<lparr>it_when_write := w\<rparr>)))))"
proof -
  have idle: "it_msgq ct = []" "sock_to_ct ct = []" "sock_to_ifd ct = []" "main_fi (ct_bc ct) = MF_ST_OPERATIONAL"
    using assms(3) by (simp_all add: ct_ready_def)
  have same: "ct\<lparr>sock_to_ct := []\<rparr> = ct"
    using idle by simp
  let ?bc = "(ct_bc ct)\<lparr>bankd_conn := emit (TxRspro (tpdu_request (ct_bc ct) cs d)) (bankd_conn (ct_bc ct))\<rparr>"
  let ?ct = "ct\<lparr>sock_to_ct := [], ct_bc := fe (FeCard2Modem r) ?bc, it_msgq := [], it_when_write := True,
    sock_to_ifd := [itmsg_alloc ITMSG_TYPE_R_APDU_IND 0 r]\<rparr>"
  have "ct_run C [CtRead, CtInput (CBankdRx resp), CtWrite] (ct\<lparr>sock_to_ct := [itmsg_alloc ITMSG_TYPE_C_APDU_REQ 0 d]\<rparr>) = Some ?ct"
    if "length d \<le> 1016"
    using idle c_apdu_sent [OF assms(3-5) that] response_queued [OF client_lib_okD(1) [OF assms(4)] _ assms(6)]
    by (simp add: it_sock_write_def enqueue_to_ifd_def del: ct_do.simps(3))
  then have "\<exists>ct'. IFDHTransmitToICC C [CtRead, CtInput (CBankdRx resp), CtWrite] lun d cap ics =
         Some (Returned (IFD_SUCCESS, take cap r) (ics(LUN2SLOT lun \<mapsto> ct'))) \<and>
       srvc_out (bankd_conn (ct_bc ct')) = srvc_out (bankd_conn (ct_bc ct)) @ [TxRspro (tpdu_request (ct_bc ct) cs d)] \<and>
       it_msgq ct' = [] \<and> sock_to_ct ct' = [] \<and> sock_to_ifd ct' = []" if "length d \<le> 1016"
    using that assms(1,2,7) idle
    by (intro exI [of _ "?ct\<lparr>sock_to_ifd := []\<rparr>"])
       (simp add: IFDHTransmitToICC_def ifd_exchange_def ifd_xceive_client_def it_size_alloc fe_def del: ct_run.simps)
  moreover have "\<exists>w. IFDHTransmitToICC C (CtRead # replicate n CtWrite) lun d cap ics =
       Some (Waiting (ics(LUN2SLOT lun \<mapsto> ct\<lparr>it_when_write := w\<rparr>)))" if "1016 < length d" "length d < 65536"
    using that assms(1,2) idle run_writes [of ct C n]
    by (auto simp: IFDHTransmitToICC_def ifd_exchange_def ifd_xceive_client_def it_sock_read_def it_size_alloc same)
  ultimately show ?thesis by blast
qed

definition ex_ct :: client_thread where
  "ex_ct = \<lparr>ct_bc = ex_operational, it_msgq = [], it_when_write = False, ct_atr = replicate ATR_SIZE_MAX 0, ct_atr_len = 0,
     sock_to_ct = [], sock_to_ifd = []\<rparr>"

definition ex_resp :: RsproPDU_t where
  "ex_resp = \<lparr>pdu_version = 2, pdu_tag = 0,
     pdu_msg = tpduCardToModem \<lparr>bs_bankId = 1, bs_slotNr = 0\<rparr> \<lparr>cs_clientId = 23, cs_slotNr = 0\<rparr> no_flags [0x90, 0x00]\<rparr>"

theorem ifd_transmit_witness:
  "\<exists>ct'. IFDHTransmitToICC (ex_cenv 9) [CtRead, CtInput (CBankdRx ex_resp), CtWrite] 5 [0xa0, 0xf2] 258 [5 \<mapsto> ex_ct] =
     Some (Returned (IFD_SUCCESS, [0x90, 0x00]) [5 \<mapsto> ct'])"
proof -
  have "lun_ok 5" "LUN2SLOT 5 = 5"
    by (simp_all add: lun_ok_def LUN2RDR_def LUN2SLOT_def MAX_SLOTS_def)
  moreover have "ct_ready ex_ct" "srvc_clslot (srv_conn (ct_bc ex_ct)) = Some \<lparr>cs_clientId = 23, cs_slotNr = 0\<rparr>"
    by (simp_all add: ct_ready_def ex_ct_def ex_operational_reach ex_operational_sel)
  ultimately show ?thesis
    using ifd_transmit [of 5 "[5 \<mapsto> ex_ct]" ex_ct "ex_cenv 9" _ ex_resp _ _ _ "[0x90, 0x00]" "[0xa0, 0xf2]" 258] ex_lib_ok
    by (auto simp: ex_resp_def)
qed

section \<open>Late responses\<close>

text \<open>The driver does not look at the type of the message it gets: a response of the card that is still in the
  socket is taken as the answer to the next request. So a reader whose client has lost its bankd reports a card, and the true
  answer, no card, stays in the socket for the request after that.\<close>

theorem ifd_late_response:
  assumes "lun_ok lun" "ics (LUN2SLOT lun) = Some ct" "srvc_st (bankd_conn (ct_bc ct)) \<noteq> SRVC_ST_CONNECTED"
    and "sock_to_ct ct = []" "it_msgq ct = []" "sock_to_ifd ct = [itmsg_alloc ITMSG_TYPE_R_APDU_IND 0 r]" "length r \<le> 1016"
  shows "\<exists>ct' m. IFDHICCPresence C [CtRead, CtWrite] lun ics = Some (Returned IFD_SUCCESS (ics(LUN2SLOT lun \<mapsto> ct'))) \<and>
     sock_to_ifd ct' = [m] \<and> im_type m = ITMSG_TYPE_CARD_PRES_RESP \<and> im_status m \<noteq> 0"
  using assms
  by (simp add: IFDHICCPresence_def ifd_exchange_def ifd_xceive_client_def it_sock_read_def handle_it_msg_def
      it_sock_write_def enqueue_to_ifd_def it_size_def itmsg_alloc_def)
     (rule exI, rule conjI, rule refl, simp)

theorem ifd_late_response_witness:
  "\<exists>ct'. IFDHICCPresence (ex_cenv 9) [CtRead, CtWrite] 0 [0 \<mapsto> ex_ct\<lparr>ct_bc := ex_client, sock_to_ifd := [itmsg_alloc ITMSG_TYPE_R_APDU_IND 0 [0x90, 0]]\<rparr>] =
     Some (Returned IFD_SUCCESS [0 \<mapsto> ct'])"
proof -
  have st: "srvc_st (bankd_conn ex_client) \<noteq> SRVC_ST_CONNECTED" by code_simp
  have lun: "lun_ok 0" "LUN2SLOT 0 = 0"
    by (simp_all add: lun_ok_def LUN2RDR_def LUN2SLOT_def MAX_SLOTS_def)
  let ?ct = "ex_ct\<lparr>ct_bc := ex_client, sock_to_ifd := [itmsg_alloc ITMSG_TYPE_R_APDU_IND 0 [0x90, 0]]\<rparr>"
  show ?thesis
    using ifd_late_response [of 0 "[0 \<mapsto> ?ct]" ?ct "[0x90, 0]" "ex_cenv 9"] st lun by (auto simp: ex_ct_def)
qed

section \<open>Names of devices\<close>

lemma no_colon: "CHR '':'' \<notin> set (dec_digits n)"
proof
  assume "CHR '':'' \<in> set (dec_digits n)"
  then have "c_isdigit (CHR '':'')" by (rule dec_digits_digits)
  then show False by (simp add: c_isdigit_def)
qed

text \<open>The name of a device, \<open>ClientID:SlotNr:ServerIp:ServerPort\<close>, is read back exactly; the server may be
  left out. With a server but no port, which the documentation allows, the port is read from a NULL pointer.\<close>

theorem ifd_device_name:
  assumes "c < 2 ^ 31" "s < 2 ^ 31" "p < 2 ^ 31" "h \<noteq> []" "CHR '':'' \<notin> set h"
  shows "parse_device_name (dec_digits c @ CHR '':'' # dec_digits s @ CHR '':'' # h @ CHR '':'' # dec_digits p) =
       Some \<lparr>tc_server_host = h, tc_server_port = int p, tc_client_id = int c, tc_client_slot = int s\<rparr> \<and>
     parse_device_name (dec_digits c @ CHR '':'' # dec_digits s) =
       Some \<lparr>tc_server_host = ''127.0.0.1'', tc_server_port = -1, tc_client_id = int c, tc_client_slot = int s\<rparr> \<and>
     parse_device_name (dec_digits c @ CHR '':'' # dec_digits s @ CHR '':'' # h) = None"
  using assms split_on_sep [OF no_colon] split_on_none [OF no_colon] split_on_sep [OF assms(5)] split_on_none [OF assms(5)]
  by (simp add: parse_device_name_def strtok_all_def dec_digits_nonempty atoi_dec)

theorem ifd_device_name_witness:
  "parse_device_name (dec_digits 1 @ CHR '':'' # dec_digits 2 @ CHR '':'' # ''srv'' @ CHR '':'' # dec_digits 9) =
     Some \<lparr>tc_server_host = ''srv'', tc_server_port = 9, tc_client_id = 1, tc_client_slot = 2\<rparr>"
  using ifd_device_name [of 1 2 9 "''srv''"] by simp

end
