(* ===== verification/Simtrace.thy ===== *)
theory Simtrace
  imports Client_Props
begin

text \<open>
  The SIMtrace2 frontend of remsim-client, \<^verbatim>\<open>src/client/user_simtrace2.c\<close>: messages of the card emulation
  firmware become events of the client core, and its requests become requests to the firmware.

  libosmo-simtrace2 and libusb are not part of the repository. Requests to the firmware are appended to \<open>st2_out\<close>; the numbers
  of the protocol and \<open>osmo_apdu_segment_in\<close>, which collects the parts of a command in the APDU context, are fields of
  \<open>st2_lib\<close>. \<open>None\<close> is \<open>exit\<close>, a failed assertion or an access outside of a buffer.
\<close>

section \<open>Data\<close>

text \<open>The APDU context: the header of the command with its instruction, and the parts of the command data.\<close>

record apdu_context =
  ac_hdr :: bytes
  ac_ins :: u8
  ac_dc :: bytes
  lc_tot :: nat
  lc_cur :: nat
  ac_sw :: "u8 \<times> u8"

datatype st2_request =
    CardInsert bool        \<comment> \<open>osmo_st2_cardem_request_card_insert\<close>
  | SimSelectRemote        \<comment> \<open>osmo_st2_modem_sim_select_remote\<close>
  | SimSelectLocal         \<comment> \<open>osmo_st2_modem_sim_select_local\<close>
  | ResetPulse nat         \<comment> \<open>osmo_st2_modem_reset_pulse\<close>
  | PbAndTx u8 bytes       \<comment> \<open>osmo_st2_cardem_request_pb_and_tx\<close>
  | PbAndRx u8 nat         \<comment> \<open>osmo_st2_cardem_request_pb_and_rx\<close>
  | SwTx "u8 \<times> u8"        \<comment> \<open>osmo_st2_cardem_request_sw_tx\<close>
  | SetAtrTx bytes         \<comment> \<open>osmo_st2_cardem_request_set_atr\<close>
  | SubmitTransfer         \<comment> \<open>libusb_submit_transfer\<close>

record st2_state =
  st2_ac :: apdu_context
  st2_out :: "st2_request list"

text \<open>A message of the firmware; a status has its flags and the parameters of the interface.\<close>

record cardemu_status =
  st_flags :: u32
  st_voltage_mv :: u16
  st_fi :: u8
  st_di :: u8
  st_wi :: u8
  st_waiting_time :: u8

datatype usb_msg =
    CemuStatus cardemu_status
  | CemuPts bytes
  | CemuRxData bool bytes   \<comment> \<open>CEMU\_DATA\_F\_TPDU\_HDR, data\<close>
  | CemuConfig
  | CemuOther

record st2_lib =
  f_reset_active :: u32
  f_vcc_present :: u32
  f_clk_active :: u32
  apdu_segment_in :: "apdu_context \<Rightarrow> bytes \<Rightarrow> bool \<Rightarrow> bool \<times> apdu_context"
  submit_ok :: bool

definition st2_emit :: "st2_request \<Rightarrow> st2_state \<Rightarrow> st2_state" where
  "st2_emit x st = st\<lparr>st2_out := st2_out st @ [x]\<rparr>"

section \<open>Messages of the firmware\<close>

definition process_do_status :: "cardemu_status \<Rightarrow> int" where
  "process_do_status status = 0"

definition process_do_pts :: "client_env \<Rightarrow> bytes \<Rightarrow> bankd_client \<Rightarrow> (int \<times> bankd_client) option" where
  "process_do_pts C req bc = map_option (\<lambda>(rc, bc'). (0, bc')) (main_dispatch C MF_E_MDM_PTS_IND (MfPts req) bc)"

text \<open>A part of a command. When the library says that the command is complete it goes to the card; else, when data
  is missing, it is asked for. The data in the context is at least \<open>lc_tot\<close> long.\<close>

definition process_do_rx_da ::
  "st2_lib \<Rightarrow> client_env \<Rightarrow> bool \<Rightarrow> bytes \<Rightarrow> st2_state \<Rightarrow> bankd_client \<Rightarrow> (int \<times> st2_state \<times> bankd_client) option" where
  "process_do_rx_da L C tpdu_hdr data st bc =
     (let (complete, ac) = apdu_segment_in L (st2_ac st) data tpdu_hdr; st1 = st\<lparr>st2_ac := ac\<rparr>
      in if complete
         then map_option (\<lambda>(rc, bc'). (0, st1, bc'))
                (main_dispatch C MF_E_MDM_TPDU (MfTpdu (ac_hdr ac @ take (lc_tot ac) (ac_dc ac))) bc)
         else if lc_tot ac > lc_cur ac then Some (0, st2_emit (PbAndRx (ac_ins ac) (lc_tot ac - lc_cur ac)) st1, bc)
         else Some (0, st1, bc))"

definition process_usb_msg ::
  "st2_lib \<Rightarrow> client_env \<Rightarrow> usb_msg \<Rightarrow> st2_state \<Rightarrow> bankd_client \<Rightarrow> (int \<times> st2_state \<times> bankd_client) option" where
  "process_usb_msg L C m st bc =
     (case m of
        CemuStatus s \<Rightarrow> Some (process_do_status s, st, bc)
      | CemuPts req \<Rightarrow> map_option (\<lambda>(rc, bc'). (rc, st, bc')) (process_do_pts C req bc)
      | CemuRxData h d \<Rightarrow> process_do_rx_da L C h d st bc
      | CemuConfig \<Rightarrow> Some (0, st, bc)
      | CemuOther \<Rightarrow> Some (-1, st, bc))"

definition process_irq_status :: "st2_lib \<Rightarrow> client_env \<Rightarrow> cardemu_status \<Rightarrow> bankd_client \<Rightarrow> (int \<times> bankd_client) option" where
  "process_irq_status L C s bc =
     map_option (\<lambda>(rc, bc'). (0, bc'))
       (main_dispatch C MF_E_MDM_STATUS_IND
          (MfStatus \<lparr>reset_active = uint (st_flags s AND f_reset_active L), vcc_present = uint (st_flags s AND f_vcc_present L),
             clk_active = uint (st_flags s AND f_clk_active L), card_present = -1, voltage_mv = st_voltage_mv s,
             fps_fi = st_fi s, fps_di = st_di s, fps_wi = st_wi s, fps_waiting_time = st_waiting_time s\<rparr>) bc)"

definition process_usb_msg_irq :: "st2_lib \<Rightarrow> client_env \<Rightarrow> usb_msg \<Rightarrow> bankd_client \<Rightarrow> (int \<times> bankd_client) option" where
  "process_usb_msg_irq L C m bc =
     (case m of CemuStatus s \<Rightarrow> process_irq_status L C s bc | _ \<Rightarrow> Some (-1, bc))"

text \<open>The callbacks of the transfers; \<open>None\<close> as the message is a transfer that has failed.\<close>

definition resubmit :: "st2_lib \<Rightarrow> st2_state \<times> bankd_client \<Rightarrow> (st2_state \<times> bankd_client) option" where
  "resubmit L x = (if submit_ok L then Some (st2_emit SubmitTransfer (fst x), snd x) else None)"

definition usb_in_xfer_cb ::
  "st2_lib \<Rightarrow> client_env \<Rightarrow> usb_msg option \<Rightarrow> st2_state \<Rightarrow> bankd_client \<Rightarrow> (st2_state \<times> bankd_client) option" where
  "usb_in_xfer_cb L C xfer st bc =
     do { m \<leftarrow> xfer; (rc, st1, bc1) \<leftarrow> process_usb_msg L C m st bc; resubmit L (st1, bc1) }"

definition usb_irq_xfer_cb ::
  "st2_lib \<Rightarrow> client_env \<Rightarrow> usb_msg option \<Rightarrow> st2_state \<Rightarrow> bankd_client \<Rightarrow> (st2_state \<times> bankd_client) option" where
  "usb_irq_xfer_cb L C xfer st bc =
     do { m \<leftarrow> xfer; (rc, bc1) \<leftarrow> process_usb_msg_irq L C m bc; resubmit L (st, bc1) }"

section \<open>Requests of the client core\<close>

definition st2_request_card_insert :: "st2_state \<Rightarrow> st2_state" where
  "st2_request_card_insert st = st2_emit (CardInsert True) st"

definition st2_request_card_remove :: "st2_state \<Rightarrow> st2_state" where
  "st2_request_card_remove st = st2_emit (CardInsert False) st"

definition st2_request_sim_remote :: "st2_state \<Rightarrow> st2_state" where
  "st2_request_sim_remote st = st2_emit SimSelectRemote st"

definition st2_request_sim_local :: "st2_state \<Rightarrow> st2_state" where
  "st2_request_sim_local st = st2_emit SimSelectLocal st"

definition st2_request_modem_reset :: "st2_state \<Rightarrow> st2_state" where
  "st2_request_modem_reset st = st2_emit (ResetPulse 300) st"

definition st2_handle_card2modem :: "bytes \<Rightarrow> st2_state \<Rightarrow> st2_state option" where
  "st2_handle_card2modem data st =
     (if length data < 2 then None
      else let sw = (data ! (length data - 2), data ! (length data - 1));
               st1 = st\<lparr>st2_ac := (st2_ac st)\<lparr>ac_sw := sw\<rparr>\<rparr>;
               st2 = (if length data > 2 then st2_emit (PbAndTx (ac_ins (st2_ac st1)) (take (length data - 2) data)) st1 else st1)
           in Some (st2_emit (SwTx sw) st2))"

definition st2_handle_set_atr :: "bytes \<Rightarrow> st2_state \<Rightarrow> st2_state" where
  "st2_handle_set_atr d st = st2_emit (SetAtrTx d) st"

fun st2_act :: "client_effect \<Rightarrow> st2_state \<Rightarrow> st2_state option" where
  "st2_act FeCardInsert st = Some (st2_request_card_insert st)"
| "st2_act FeCardRemove st = Some (st2_request_card_remove st)"
| "st2_act FeSimRemote st = Some (st2_request_sim_remote st)"
| "st2_act FeSimLocal st = Some (st2_request_sim_local st)"
| "st2_act FeModemReset st = Some (st2_request_modem_reset st)"
| "st2_act (FeCard2Modem d) st = st2_handle_card2modem d st"
| "st2_act (FeSetAtr d) st = Some (st2_handle_set_atr d st)"
| "st2_act (FeSlotStatus sts) st = Some st"
| "st2_act (Script cmd env) st = Some st"

fun st2_acts :: "client_effect list \<Rightarrow> st2_state \<Rightarrow> st2_state option" where
  "st2_acts [] st = Some st"
| "st2_acts (x # xs) st = do { st1 \<leftarrow> st2_act x st; st2_acts xs st1 }"

definition st2_append_script_env :: "string \<Rightarrow> bankd_client \<Rightarrow> string list" where
  "st2_append_script_env path bc =
     [''REMSIM_USB_PATH='' @ path, ''REMSIM_USB_INTERFACE='' @ show_u (usb_if_num (bc_cfg bc))]"

section \<open>What the modem gets\<close>

text \<open>The SIM that the modem uses and whether it sees a card, after these requests.\<close>

fun st2_view_step :: "bool \<times> bool \<Rightarrow> st2_request \<Rightarrow> bool \<times> bool" where
  "st2_view_step (remote, inserted) SimSelectRemote = (True, inserted)"
| "st2_view_step (remote, inserted) SimSelectLocal = (False, inserted)"
| "st2_view_step (remote, inserted) (CardInsert b) = (remote, b)"
| "st2_view_step v _ = v"

definition st2_view :: "st2_state \<Rightarrow> bool \<times> bool" where
  "st2_view st = foldl st2_view_step (False, False) (st2_out st)"

lemma st2_view_emit [simp]: "st2_view (st2_emit x st) = st2_view_step (st2_view st) x"
  "st2_view (st\<lparr>st2_ac := ac\<rparr>) = st2_view st"
  by (simp_all add: st2_view_def st2_emit_def)

lemma st2_act_view:
  assumes "st2_act x st = Some st'"
  shows "st2_view st' = view_step (st2_view st) x"
  using assms
  by (cases x; cases "st2_view st") (auto simp: st2_request_card_insert_def st2_request_card_remove_def st2_request_sim_remote_def
      st2_request_sim_local_def st2_request_modem_reset_def st2_handle_set_atr_def st2_handle_card2modem_def Let_def split: if_splits)

lemma st2_acts_view: "st2_acts xs st = Some st' \<Longrightarrow> st2_view st' = foldl view_step (st2_view st) xs"
  by (induction xs arbitrary: st) (auto simp: st2_act_view split: Option.bind_splits)

lemma st2_acts_total: "\<forall>d. FeCard2Modem d \<in> set xs \<longrightarrow> 2 \<le> length d \<Longrightarrow> \<exists>st'. st2_acts xs st = Some st'"
proof (induction xs arbitrary: st)
  case (Cons x xs)
  then obtain st1 where "st2_act x st = Some st1"
    by (cases x) (auto simp: st2_handle_card2modem_def Let_def)
  with Cons show ?case by auto
qed simp

text \<open>C40. The frontend carries out every request of the core as long as each response of the card has at least two
  bytes, and the modem then has the remote SIM selected and a card inserted exactly while the client is connected to a
  bankd. A response with fewer than two bytes, which bankd and core pass on, makes it read outside of the message.\<close>

theorem simtrace_follows_core:
  assumes "client_reach bc" "st2_view st = (False, False)"
  shows "((\<forall>d. FeCard2Modem d \<in> set (bc_out bc) \<longrightarrow> 2 \<le> length d) \<longrightarrow> (\<exists>st'. st2_acts (bc_out bc) st = Some st')) \<and>
     (st2_acts (bc_out bc) st = Some st' \<longrightarrow>
        st2_view st' = (main_fi bc = MF_ST_OPERATIONAL, main_fi bc = MF_ST_OPERATIONAL)) \<and>
     (length r < 2 \<longrightarrow> st2_act (FeCard2Modem r) st = None)"
  using st2_acts_total [of "bc_out bc" st] st2_acts_view [of "bc_out bc" st st'] client_reach_inv [OF assms(1)] assms(2)
  by (auto simp: client_inv_def modem_view_def st2_handle_card2modem_def)

definition ex_st2 :: st2_state where
  "ex_st2 = \<lparr>st2_ac = \<lparr>ac_hdr = replicate 5 0, ac_ins = 0, ac_dc = [], lc_tot = 0, lc_cur = 0, ac_sw = (0, 0)\<rparr>, st2_out = []\<rparr>"

theorem simtrace_follows_core_witness:
  "\<exists>st'. st2_acts (bc_out ex_operational) ex_st2 = Some st' \<and> st2_view st' = (True, True)"
proof -
  have no: "\<forall>d. FeCard2Modem d \<in> set (bc_out ex_operational) \<longrightarrow> 2 \<le> length d"
  proof -
    have "list_all (\<lambda>x. case x of FeCard2Modem d \<Rightarrow> 2 \<le> length d | _ \<Rightarrow> True) (bc_out ex_operational)" by code_simp
    then show ?thesis by (auto simp: list_all_iff split: client_effect.splits)
  qed
  have "st2_view ex_st2 = (False, False)" by (simp add: st2_view_def ex_st2_def)
  note follows = simtrace_follows_core [OF ex_operational_reach this, of _ "[]"]
  obtain st' where "st2_acts (bc_out ex_operational) ex_st2 = Some st'"
    using follows no by blast
  with follows [of st'] ex_operational_sel(2) show ?thesis by auto
qed

end
