(* ===== verification/Spec2Isabelle.thy ===== *)
theory Spec2Isabelle
  imports Rspro_Util Slotmap Srvc_Fsm Server_Props Bankd_Props Bankd_Relay Bankd_Session Bankd_Config Client_Props End_To_End Openwrt_Props Ionmesh
    Client_Main_Props Client_Shell Ifdhandler_Props Simtrace Rspro_Wire_Props
begin

text \<open>
  \<^bold>\<open>osmo-remsim.\<close> A modem uses a SIM card that sits in a card reader elsewhere. Three programs
  take part. \<^emph>\<open>remsim-server\<close> keeps the mappings of bank slots (where the cards are) to client
  slots (where the modems are), which an operator edits through a REST interface, and tells the
  others about them. \<^emph>\<open>remsim-bankd\<close> has the card readers; its main thread is a client of the server,
  and each of its worker threads serves one modem. \<^emph>\<open>remsim-client\<close> is next to the modem; it is a
  client of the server, which tells it which bankd to use, and of that bankd, to which it relays
  the commands of the modem. They speak RSPRO, ASN.1 messages over TCP with IPA framing.

  \<^bold>\<open>Shared code.\<close>
  \<^item> \<open>Prelude\<close>: integer types, NUL-terminated buffers, list lemmas, the documented meaning of
    the bit masks of libosmocore's state machines.
  \<^item> \<open>C_Strings\<close>: \<open>strtoul\<close>, \<open>atoi\<close> and decimal notation.
  \<^item> \<open>Rspro_Types\<close>, \<open>Rspro_Util\<close>: the messages (\<^verbatim>\<open>include/osmocom/rspro\<close>) and their constructors and
    conversions (\<^verbatim>\<open>src/rspro_util.c\<close>): component identities survive the trip through a message
    except for the hardware model, and every name stays inside its buffer.
  \<^item> \<open>Ber_Tlv\<close>, \<open>Ber_Codec\<close>, \<open>Asn_Prim\<close>, \<open>Asn_Constr\<close>: the ASN.1 runtime as far as RSPRO uses it (\<^verbatim>\<open>src/rspro\<close>): tags and
    lengths; the chain of tags in front of a value, written and checked; INTEGER, BOOLEAN and OCTET
    STRING; SEQUENCE and CHOICE, and the decoder and encoder of a type descriptor. A descriptor is a
    value of the datatype \<open>asn_type\<close>, whose members refer to other descriptors. \<open>Asn_Roundtrip\<close> gives the encoding of a value
    as a function (\<open>asn_bytes\<close>), shows that the encoder writes it and the decoder reads it, for every descriptor that
    passes a check (\<open>asn_wf\<close>); \<open>Asn_Returns\<close> shows when the decoder returns.
  \<^item> \<open>Rspro_Asn\<close>, \<open>Rspro_Wire\<close>: the descriptors of all RSPRO types and the two functions that encode and decode a PDU; every
    descriptor passes the check. \<open>Asn_Helpers\<close> has the names of messages and result codes (\<^verbatim>\<open>src/asn1c_helpers.c\<close>). \<open>Rspro_Wire_Props\<close>: the round trip of every message, which the locale \<open>pdu_codec\<close> turns
    into unambiguity; the decoder's bounds; messages of later versions; and the message on which the decoder
    does not return.
  \<^item> \<open>Slotmap\<close>: the collection of mappings (\<^verbatim>\<open>src/slotmap.c\<close>), which server and bankd share. A mapping
    is a heap object on the global list and on at most one list of a bankd connection. The
    collection is a partial injection between bank slots and client slots, and adding refines
    insertion into it, unless two threads add at the same time.
  \<^item> \<open>Srvc_Fsm\<close>: the connection to an RSPRO server (\<^verbatim>\<open>src/rspro_client_fsm.c\<close>), which bankd uses
    once and the client twice: its assertions hold, it comes back after a loss, and the delays
    are bounded and grow.

  \<^bold>\<open>remsim-server\<close> (\<^verbatim>\<open>src/server\<close>). \<open>Server\<close> has the connection objects, the state machine of a connection and
    the callbacks of \<^verbatim>\<open>rspro_server.c\<close>; \<open>Rest_Api\<close> has the JSON conversions and the endpoints of
    \<^verbatim>\<open>rest_api.c\<close>; \<open>Server_Maps\<close> and \<open>Server_Inv\<close> show the invariant (the lists of every connection
    hold exactly the mappings they should, and identities are unique) for every callback and
    endpoint; \<open>Server_Props\<close> has the properties: what a connecting and a lost bankd cause, what
    an acknowledgement and a deletion do, and where the server aborts.

  \<^bold>\<open>remsim-bankd\<close> (\<^verbatim>\<open>src/bankd\<close>). \<open>Bankd_Types\<close> has the data of \<^verbatim>\<open>bankd.h\<close>; \<open>Bankd_Pcsc\<close> the table of
    slot names and the driver of \<^verbatim>\<open>bankd_pcsc.c\<close>, with the locale \<open>card_driver\<close> as the contract
    between workers and driver, interpreted by the PC/SC driver; \<open>Bankd_Worker\<close> the worker threads and \<open>Bankd_Main\<close> the
    main thread and the start-up of \<^verbatim>\<open>bankd_main.c\<close>; \<open>Bankd_Inv\<close> and \<open>Bankd_System\<close> the invariant, the inputs of
    the daemon and its reachable states. Properties: \<open>Bankd_Props\<close> (messages of the server),
    \<open>Bankd_Relay\<close> (which commands reach which card), \<open>Bankd_Session\<close> (from a connecting client to its
    card; framing), \<open>Bankd_Config\<close> (slot lists, round robin of the Ki proxy, resets), \<open>Bankd_Runs\<close>
    (two runs that go wrong).

  \<^bold>\<open>remsim-client\<close> (\<^verbatim>\<open>src/client\<close>). \<open>Client\<close> has the data of \<^verbatim>\<open>client.h\<close>, the machine CLIENT_MAIN of
    \<^verbatim>\<open>main_fsm.c\<close> and the handlers of \<^verbatim>\<open>remsim_client.c\<close>; \<open>Client_Conn\<close> the interface to a connection
    as the locale \<open>conn_op\<close> and its interpretations by the operations of \<open>Srvc_Fsm\<close>; \<open>Client_Inv\<close> the invariant;
    \<open>Client_Props\<close> the properties: when the modem has the remote card, how it gets it, and that
    nested dispatches end. \<open>Openwrt\<close> is the frontend \<^verbatim>\<open>user_openwrt.c\<close>; \<open>Openwrt_Props\<close> shows the conversation
    with the modem in AT commands and, over the locale \<open>sim_frontend\<close>, that its SIM switch follows CLIENT_MAIN.
    \<open>Ionmesh\<close> has the orchestrator (\<^verbatim>\<open>ionmesh_integration.c\<close>). The other frontends are \<open>Client_Shell\<close> (\<^verbatim>\<open>user_shell.c\<close>),
    \<open>Simtrace\<close> (\<^verbatim>\<open>user_simtrace2.c\<close>), and \<open>Ifdhandler\<close> with \<open>Ifdhandler_Props\<close> (\<^verbatim>\<open>user_ifdhandler.c\<close>), a reader driver whose functions wait
    for a thread that runs the client: each of them shows what reaches the modem or application and when it does not.
    \<open>Client_Main\<close> and \<open>Client_Main_Props\<close> are the main program (\<^verbatim>\<open>remsim_client_main.c\<close>): the locale \<open>option_field\<close> says
    which occurrence of an option counts, and the configuration file is read as it is meant.

  \<^bold>\<open>Together.\<close> \<open>End_To_End\<close> composes client, codec and bankd: a command of the modem reaches the mapped card as octets
    that bankd decodes, and the card's answer the modem, unchanged.

  \<^bold>\<open>Conventions.\<close> A C structure is a record, an enumeration a datatype, \<open>uint16_t\<close> and \<open>uint32_t\<close> are words, a
  \<open>long\<close> of the ASN.1 runtime is an \<open>int\<close>. A function that can abort the process returns an option, and
  \<open>None\<close> is the abort: a failed \<open>OSMO_ASSERT\<close>, \<open>exit\<close>, a NULL pointer, an access outside an
  array. What a component does to the outside is appended to a list, in order. The log is left out: the name of
  a message in it is read outside its table when a PDU has no message, which \<open>dec_unknown_message\<close> states. Code
  that is not part of the repository (libosmocore, libosmo-netif, pcsclite, jansson, ulfius, libcsv, the regex
  functions) is a record of functions; where a theorem needs it, its documented
  behaviour is a hypothesis, and a witness instantiates it.

  \<^bold>\<open>Bounds.\<close> The reads of a worker are over a given list of interruptions, so they are total. The nesting of
  dispatches between the state machines of the client is bounded by two, and a theorem shows that more changes
  nothing. The searches over slots take at most as many steps as the pool has slots. The ASN.1 runtime
  limits the C stack to 30000 octets and checks it in nested calls: \<open>stk\<close> is the number of nested calls that fit, and seven
  are enough for every PDU. A loop of the runtime that may not end is a partial function, and \<open>None\<close> is that it
  does not. There is no other fuel.

  \<^bold>\<open>Concurrency.\<close> The server's collection is also used by the threads of the HTTP daemon: an endpoint
  is one step, except where a theorem splits it. In bankd, a step is what one thread does between two
  blocking calls, and a signal is delivered in the step that sends it; one theorem is about signals
  at other moments.

  \<^bold>\<open>Encoding and the state machines.\<close> The programs' models take and send PDUs as values, and the encoder is an
  argument of theirs; \<open>wire_roundtrip\<close> is why they may, and \<open>tpdu_end_to_end\<close> fills the arguments in. Decoders are called once, with a
  complete message and an empty structure, as \<open>rspro_dec_msg\<close> does, so the contexts for a decoder that is called again are left
  out, and allocations in the runtime succeed.

  \<^bold>\<open>Not modelled.\<close> Of the ASN.1 runtime: the XML and PER codecs, the constraint checks (which nothing
  calls), printing, freeing, BIT STRING, ANY and unsigned integers, the sample converter, and the second code
  generator's output (\<^verbatim>\<open>ffasn1c\<close>). The GSMTAP trace; the probe tool of bankd; logging, option parsing of the server, and
  the select loops. They are I/O, glue to libraries that are not here, or code that the programs do not call.
\<close>

end
